(* ===== verification/Prelude.thy ===== *)
theory Prelude
  imports Complex_Main "HOL-Library.Sublist"
begin

section \<open>Prelude: values, errors, requests and transactions shared by every component\<close>

text \<open>
  What every component of the server uses: the JSON values that go into audit records and
  digests, the error value that stands for a thrown \<open>ApiError\<close> (src/utils/errors.ts), the
  request context (clock and client metadata), the commit-or-rollback discipline of
  \<open>db.transaction\<close>, JavaScript numbers and the string operations the services call, and the
  locale that turns one-step preservation lemmas into facts about whole runs.
\<close>

named_theorems handler_defs \<open>the definitions of the handlers, to unfold one handler at a time\<close>
named_theorems wf_intros \<open>introduction rules for the well-formedness invariants\<close>

subsection \<open>JSON values\<close>

text \<open>Object members are kept in insertion order, as a JavaScript object literal has them.\<close>

datatype json =
    JNull
  | JBool bool
  | JNum rat
  | JStr string
  | JArr "json list"
  | JObj "(string \<times> json) list"

abbreviation jnat :: "nat \<Rightarrow> json" where
  "jnat n \<equiv> JNum (of_nat n)"

definition jopt :: "('a \<Rightarrow> json) \<Rightarrow> 'a option \<Rightarrow> json" where
  "jopt f v = (case v of None \<Rightarrow> JNull | Some x \<Rightarrow> f x)"

lemma jopt_simps [simp]: "jopt f None = JNull" "jopt f (Some x) = f x"
  by (simp_all add: jopt_def)

subsection \<open>Errors\<close>

text \<open>
  \<open>ApiError\<close> carries an HTTP status, a machine-readable code and optional details. The
  human-readable message (Uzbek text) is not modelled; the details are kept as the list of
  their codes or field names.
\<close>

datatype api_error = ApiError (err_status: nat) (err_code: string) (err_details: "string list")

definition badRequest :: "string \<Rightarrow> api_error" where
  "badRequest c = ApiError 400 c []"

definition unauthorized :: "string \<Rightarrow> api_error" where
  "unauthorized c = ApiError 401 c []"

definition forbidden :: "string \<Rightarrow> api_error" where
  "forbidden c = ApiError 403 c []"

definition notFound :: "api_error" where
  "notFound = ApiError 404 ''NOT_FOUND'' []"

definition conflict :: "string \<Rightarrow> api_error" where
  "conflict c = ApiError 409 c []"

definition tooMany :: "string \<Rightarrow> api_error" where
  "tooMany c = ApiError 429 c []"

lemmas error_defs = badRequest_def unauthorized_def forbidden_def notFound_def conflict_def tooMany_def

subsection \<open>Requests\<close>

text \<open>
  A request brings the database clock reading of its transaction (\<open>trx.fn.now()\<close>; the
  workflow columns are \<open>TIMESTAMP\<close> with one-second precision, so a natural number of
  seconds) and the client metadata that audit records store (\<open>RequestMeta\<close>).
\<close>

record req =
  rq_now :: nat
  rq_ip :: "string option"
  rq_agent :: "string option"

subsection \<open>Transactions\<close>

text \<open>
  The body of \<open>db.transaction(async (trx) => ...)\<close> is a function from the database to either
  a thrown error or a value with the changed database. The transaction commits or rolls
  back; its result is the response together with the database that is left.
\<close>

type_synonym ('d, 'a) tx = "'d \<Rightarrow> api_error + ('a \<times> 'd)"

definition transaction :: "('d, 'a) tx \<Rightarrow> 'd \<Rightarrow> (api_error + 'a) \<times> 'd" where
  "transaction body d = (case body d of Inl e \<Rightarrow> (Inl e, d) | Inr (a, d') \<Rightarrow> (Inr a, d'))"

lemma transaction_Inl [simp]: "body d = Inl e \<Longrightarrow> transaction body d = (Inl e, d)"
  by (simp add: transaction_def)

lemma transaction_Inr [simp]: "body d = Inr (a, d') \<Longrightarrow> transaction body d = (Inr a, d')"
  by (simp add: transaction_def)

lemma transaction_rollback: "transaction body d = (Inl e, d') \<Longrightarrow> d' = d"
  by (auto simp: transaction_def split: sum.splits)

lemma transaction_preserves:
  assumes "P d" and "\<And>a d'. body d = Inr (a, d') \<Longrightarrow> P d'"
  shows "P (snd (transaction body d))"
  using assms by (auto simp: transaction_def split: sum.splits)

text \<open>The state after a transaction, and when it commits.\<close>

definition committed :: "('d, 'a) tx \<Rightarrow> 'd \<Rightarrow> 'd" where
  "committed body d = snd (transaction body d)"

lemma committed_Inr: "\<not> isl (body d) \<Longrightarrow> \<exists>x. body d = Inr (x, committed body d)"
  by (cases "body d") (auto simp: committed_def)

text \<open>Guards: \<open>if (b) throw e\<close> before the rest of a body.\<close>

definition throw_if :: "bool \<Rightarrow> api_error \<Rightarrow> (api_error + 'a) \<Rightarrow> api_error + 'a" where
  "throw_if b e k = (if b then Inl e else k)"

lemma throw_if_Inr_iff [simp]: "throw_if b e k = Inr v \<longleftrightarrow> \<not> b \<and> k = Inr v"
  by (simp add: throw_if_def)

lemma throw_if_Inl_iff: "throw_if b e k = Inl v \<longleftrightarrow> (b \<and> v = e) \<or> (\<not> b \<and> k = Inl v)"
  by (auto simp: throw_if_def)

lemma throw_if_simps [simp]: "throw_if True e k = Inl e" "throw_if False e k = k"
  by (simp_all add: throw_if_def)

text \<open>\<open>const x = ...; if (!x) throw e\<close>: the row or the error.\<close>

definition need :: "'r option \<Rightarrow> api_error \<Rightarrow> ('r \<Rightarrow> api_error + 'a) \<Rightarrow> api_error + 'a" where
  "need r e k = (case r of None \<Rightarrow> Inl e | Some x \<Rightarrow> k x)"

lemma need_simps [simp]: "need None e k = Inl e" "need (Some x) e k = k x"
  by (simp_all add: need_def)

lemma need_Inr_iff: "need r e k = Inr v \<longleftrightarrow> (\<exists>x. r = Some x \<and> k x = Inr v)"
  by (cases r) simp_all

text \<open>\<open>const x = await f(...)\<close> where \<open>f\<close> may throw.\<close>

definition andThen :: "api_error + 'a \<Rightarrow> ('a \<Rightarrow> api_error + 'b) \<Rightarrow> api_error + 'b" where
  "andThen m k = (case m of Inl e \<Rightarrow> Inl e | Inr a \<Rightarrow> k a)"

lemma andThen_simps [simp]: "andThen (Inl e) k = Inl e" "andThen (Inr a) k = k a"
  by (simp_all add: andThen_def)

lemma andThen_Inr_iff: "andThen m k = Inr v \<longleftrightarrow> (\<exists>a. m = Inr a \<and> k a = Inr v)"
  by (cases m) simp_all

lemma andThen_Inl_iff: "andThen m k = Inl e \<longleftrightarrow> m = Inl e \<or> (\<exists>a. m = Inr a \<and> k a = Inl e)"
  by (cases m) auto

lemmas flow_iffs = need_Inr_iff andThen_Inr_iff

subsection \<open>JavaScript numbers\<close>

text \<open>
  A number that a client may send: finite, or one of the three special values. Finite
  values are exact rationals; the binary rounding of IEEE doubles is not modelled.
\<close>

datatype jsnum = Fin rat | PosInf | NegInf | NaN

text \<open>\<open>Math.round\<close>: to the nearest integer, ties towards plus infinity.\<close>

definition js_round :: "rat \<Rightarrow> int" where
  "js_round q = \<lfloor>q + 1/2\<rfloor>"

lemma js_round_of_int [simp]: "js_round (of_int n) = n"
  by (simp add: js_round_def) linarith

lemma js_round_mono: "p \<le> q \<Longrightarrow> js_round p \<le> js_round q"
  by (simp add: js_round_def floor_mono)

lemma js_round_bounds: "of_int (js_round q) - 1/2 \<le> q \<and> q < of_int (js_round q) + (1/2 :: rat)"
  unfolding js_round_def by linarith

subsection \<open>Strings\<close>

text \<open>
  JavaScript strings are modelled as lists of characters with codes below 256; \<open>trim\<close>
  removes the white space of that range.
\<close>

definition js_ws :: "char \<Rightarrow> bool" where
  "js_ws c = (let n = (of_char c :: nat) in (9 \<le> n \<and> n \<le> 13) \<or> n = 32 \<or> n = 160)"

definition trim :: "string \<Rightarrow> string" where
  "trim s = rev (dropWhile js_ws (rev (dropWhile js_ws s)))"

text \<open>\<open>!s?.trim()\<close>: undefined, empty or blank.\<close>

definition blank :: "string \<Rightarrow> bool" where
  "blank s = (trim s = [])"

definition is_digit :: "char \<Rightarrow> bool" where
  "is_digit c = (let n = (of_char c :: nat) in 48 \<le> n \<and> n \<le> 57)"

lemma blank_iff: "blank s \<longleftrightarrow> (\<forall>c\<in>set s. js_ws c)"
proof
  assume "blank s"
  then have all: "\<forall>c\<in>set (dropWhile js_ws s). js_ws c"
    by (simp add: blank_def trim_def)
  have "set s \<subseteq> set (takeWhile js_ws s) \<union> set (dropWhile js_ws s)"
    by (metis set_append subset_refl takeWhile_dropWhile_id)
  with all show "\<forall>c\<in>set s. js_ws c"
    by (auto dest: set_takeWhileD)
next
  assume "\<forall>c\<in>set s. js_ws c"
  then show "blank s" by (auto simp: blank_def trim_def dest: set_dropWhileD)
qed

text \<open>\<open>String(n)\<close> of a natural number.\<close>

definition digit_char :: "nat \<Rightarrow> char" where
  "digit_char d = char_of (48 + d)"

fun nat_str :: "nat \<Rightarrow> string" where
  "nat_str n = (if n < 10 then [digit_char n] else nat_str (n div 10) @ [digit_char (n mod 10)])"

declare nat_str.simps [simp del]

lemma nat_str_not_Nil [simp]: "nat_str n \<noteq> []"
  by (subst nat_str.simps) simp

lemma of_char_digit_char: "d < 10 \<Longrightarrow> (of_char (digit_char d) :: nat) = 48 + d"
  by (simp add: digit_char_def)

lemma digit_char_is_digit: "d < 10 \<Longrightarrow> is_digit (digit_char d)"
  by (simp add: is_digit_def of_char_digit_char)

lemma nat_str_digits: "c \<in> set (nat_str n) \<Longrightarrow> is_digit c"
proof (induction n rule: nat_str.induct)
  case (1 n)
  then show ?case
    by (subst (asm) nat_str.simps) (auto split: if_splits simp: digit_char_is_digit)
qed

text \<open>Reading the digits back gives the number, so different numbers print differently.\<close>

definition digits_val :: "string \<Rightarrow> nat" where
  "digits_val s = fold (\<lambda>c a. 10 * a + ((of_char c :: nat) - 48)) s 0"

lemma digits_val_nat_str [simp]: "digits_val (nat_str n) = n"
proof (induction n rule: nat_str.induct)
  case (1 n)
  show ?case
  proof (cases "n < 10")
    case True
    then show ?thesis by (subst nat_str.simps) (simp add: digits_val_def of_char_digit_char)
  next
    case False
    with 1 have "digits_val (nat_str (n div 10)) = n div 10" by simp
    with False show ?thesis
      by (subst nat_str.simps) (simp add: digits_val_def of_char_digit_char)
  qed
qed

lemma nat_str_inj: "nat_str m = nat_str n \<longleftrightarrow> m = n"
  by (metis digits_val_nat_str)

subsection \<open>Lists\<close>

lemma find_Some_iff: "List.find P xs = Some x \<Longrightarrow> x \<in> set xs \<and> P x"
  by (induction xs) (auto split: if_splits)

lemma find_None_iff: "List.find P xs = None \<longleftrightarrow> (\<forall>x\<in>set xs. \<not> P x)"
  by (induction xs) auto

lemma filter_empty_find: "filter P xs = [] \<longleftrightarrow> List.find P xs = None"
  by (induction xs) auto

lemma find_unique:
  "distinct (map k xs) \<Longrightarrow> x \<in> set xs \<Longrightarrow> List.find (\<lambda>r. k r = k x) xs = Some x"
  by (induction xs) (auto simp: rev_image_eqI)

text \<open>Two texts that begin with a maximal run of \<open>P\<close> characters have the same run.\<close>

lemma span_inj:
  assumes "u @ xs = v @ ys" "\<forall>c\<in>set u. P c" "\<forall>c\<in>set v. P c"
    and "xs = [] \<or> \<not> P (hd xs)" "ys = [] \<or> \<not> P (hd ys)"
  shows "u = v \<and> xs = ys"
proof -
  have run: "takeWhile P (u @ xs) = u" if "\<forall>c\<in>set u. P c" "xs = [] \<or> \<not> P (hd xs)" for u xs
    using that by (cases xs) (auto simp: takeWhile_append)
  have "u = v" using run [OF assms(2,4)] run [OF assms(3,5)] assms(1) by simp
  with assms(1) show ?thesis by simp
qed

subsection \<open>Runs of a transition system\<close>

text \<open>
  The interface between a component's step relation and the facts about its runs: a
  component shows that its invariant holds at the start and is kept by one step, and gets
  that it holds in every reachable state.
\<close>

locale inductive_invariant =
  fixes start :: "'s \<Rightarrow> bool" and step :: "'s \<Rightarrow> 's \<Rightarrow> bool" and inv :: "'s \<Rightarrow> bool"
  assumes inv_start: "start s \<Longrightarrow> inv s"
    and inv_step: "inv s \<Longrightarrow> step s t \<Longrightarrow> inv t"
begin

lemma inv_steps: "step\<^sup>*\<^sup>* s t \<Longrightarrow> inv s \<Longrightarrow> inv t"
  by (induction rule: rtranclp_induct) (auto intro: inv_step)

lemma inv_reachable: "start s \<Longrightarrow> step\<^sup>*\<^sup>* s t \<Longrightarrow> inv t"
  by (blast intro: inv_steps inv_start)

end

text \<open>Facts that relate the two ends of a run: a preorder that every step respects.\<close>

locale progress_order = inductive_invariant start step inv
  for start :: "'s \<Rightarrow> bool" and step :: "'s \<Rightarrow> 's \<Rightarrow> bool" and inv :: "'s \<Rightarrow> bool" +
  fixes le :: "'s \<Rightarrow> 's \<Rightarrow> bool"
  assumes le_refl: "le s s"
    and le_trans: "le s t \<Longrightarrow> le t u \<Longrightarrow> le s u"
    and step_le: "inv s \<Longrightarrow> step s t \<Longrightarrow> le s t"
begin

lemma steps_le: "step\<^sup>*\<^sup>* s t \<Longrightarrow> inv s \<Longrightarrow> le s t"
proof (induction rule: rtranclp_induct)
  case base
  show ?case by (rule le_refl)
next
  case (step t u)
  then show ?case by (meson inv_steps le_trans step_le)
qed

end

end
