(* ===== verification/Tables.thy ===== *)
theory Tables
  imports Prelude
begin

section \<open>Database tables\<close>

text \<open>
  A table is the list of its rows in primary-key order together with the next value of its
  auto-increment key. The operations are the query-builder calls the services make:
  \<open>.where(P).first()\<close>, \<open>.where(P)\<close>, \<open>.where(P).count()\<close>, \<open>.where(P).update(f)\<close>,
  \<open>.insert(row)\<close> and \<open>.where(P).delete()\<close>. A query without \<open>orderBy\<close> reads the rows in
  primary-key order, as InnoDB returns them.

  The interface \<open>row_store\<close> states what a client relies on (what a lookup by key returns after
  an insert or an update, and that the key discipline is kept); the lemmas of the locale are
  proved from it alone. The list tables are shown to provide it for any key.
\<close>

record 'r tbl =
  rows :: "'r list"
  next_id :: nat

definition empty_tbl :: "'r tbl" where
  "empty_tbl = \<lparr>rows = [], next_id = 1\<rparr>"

definition t_first :: "('r \<Rightarrow> bool) \<Rightarrow> 'r tbl \<Rightarrow> 'r option" where
  "t_first P t = List.find P (rows t)"

definition t_where :: "('r \<Rightarrow> bool) \<Rightarrow> 'r tbl \<Rightarrow> 'r list" where
  "t_where P t = filter P (rows t)"

definition t_count :: "('r \<Rightarrow> bool) \<Rightarrow> 'r tbl \<Rightarrow> nat" where
  "t_count P t = length (filter P (rows t))"

definition t_update :: "('r \<Rightarrow> bool) \<Rightarrow> ('r \<Rightarrow> 'r) \<Rightarrow> 'r tbl \<Rightarrow> 'r tbl" where
  "t_update P f t = t\<lparr>rows := map (\<lambda>r. if P r then f r else r) (rows t)\<rparr>"

definition t_insert :: "(nat \<Rightarrow> 'r) \<Rightarrow> 'r tbl \<Rightarrow> 'r tbl" where
  "t_insert mk t = t\<lparr>rows := rows t @ [mk (next_id t)], next_id := Suc (next_id t)\<rparr>"

definition t_delete :: "('r \<Rightarrow> bool) \<Rightarrow> 'r tbl \<Rightarrow> 'r tbl" where
  "t_delete P t = t\<lparr>rows := filter (\<lambda>r. \<not> P r) (rows t)\<rparr>"

lemmas table_defs = t_first_def t_where_def t_count_def t_update_def t_insert_def t_delete_def

text \<open>\<open>.orderBy(key, 'desc').first()\<close>: the row with the greatest key, the last one in key order.\<close>

definition t_last :: "('r \<Rightarrow> bool) \<Rightarrow> 'r tbl \<Rightarrow> 'r option" where
  "t_last P t = List.find P (rev (rows t))"

subsection \<open>The rows after an operation\<close>

lemma set_rows_update: "set (rows (t_update P f t)) = (\<lambda>r. if P r then f r else r) ` set (rows t)"
  by (simp add: t_update_def)

lemma set_rows_insert: "set (rows (t_insert mk t)) = insert (mk (next_id t)) (set (rows t))"
  by (simp add: t_insert_def)

lemma set_rows_delete: "set (rows (t_delete P t)) = {r \<in> set (rows t). \<not> P r}"
  by (simp add: t_delete_def)

lemma next_id_ops [simp]:
  "next_id (t_update P f t) = next_id t"
  "next_id (t_insert mk t) = Suc (next_id t)"
  "next_id (t_delete P t) = next_id t"
  by (simp_all add: table_defs)

lemma t_first_Some: "t_first P t = Some r \<Longrightarrow> r \<in> set (rows t) \<and> P r"
  by (auto simp: t_first_def dest: find_Some_iff)

lemma t_first_None: "t_first P t = None \<longleftrightarrow> (\<forall>r\<in>set (rows t). \<not> P r)"
  by (simp add: t_first_def find_None_iff)

lemma t_last_Some: "t_last P t = Some r \<Longrightarrow> r \<in> set (rows t) \<and> P r"
  by (auto simp: t_last_def dest: find_Some_iff)

lemma t_last_None: "t_last P t = None \<longleftrightarrow> (\<forall>r\<in>set (rows t). \<not> P r)"
  by (simp add: t_last_def find_None_iff)

lemma set_t_where [simp]: "set (t_where P t) = {r \<in> set (rows t). P r}"
  by (simp add: t_where_def)

lemma t_count_0: "t_count P t = 0 \<longleftrightarrow> (\<forall>r\<in>set (rows t). \<not> P r)"
  by (simp add: t_count_def filter_empty_conv)

lemma t_count_insert: "t_count P (t_insert mk t) = t_count P t + (if P (mk (next_id t)) then 1 else 0)"
  by (simp add: t_count_def t_insert_def)

lemma t_where_insert:
  "t_where P (t_insert mk t) = t_where P t @ (if P (mk (next_id t)) then [mk (next_id t)] else [])"
  by (simp add: t_where_def t_insert_def)

text \<open>An update that does not change what a query looks at does not change the query.\<close>

lemma t_count_update_same:
  assumes "\<And>r. r \<in> set (rows t) \<Longrightarrow> P r \<Longrightarrow> Q (f r) = Q r"
  shows "t_count Q (t_update P f t) = t_count Q t"
proof -
  have "filter Q (map (\<lambda>r. if P r then f r else r) xs)
      = map (\<lambda>r. if P r then f r else r) (filter Q xs)" if "set xs \<subseteq> set (rows t)" for xs
    using that assms by (induction xs) auto
  then show ?thesis by (simp add: t_count_def t_update_def)
qed

text \<open>Selections after an update, a delete, an update of rows the selection does not see.\<close>

lemma t_where_update_same:
  assumes "\<And>r. r \<in> set (rows t) \<Longrightarrow> P r \<Longrightarrow> Q (f r) = Q r"
  shows "t_where Q (t_update P f t) = map (\<lambda>r. if P r then f r else r) (t_where Q t)"
proof -
  have "filter Q (map (\<lambda>r. if P r then f r else r) xs)
      = map (\<lambda>r. if P r then f r else r) (filter Q xs)" if "set xs \<subseteq> set (rows t)" for xs
    using that assms by (induction xs) auto
  then show ?thesis by (simp add: t_where_def t_update_def)
qed

lemma t_where_update_other:
  assumes "\<And>r. r \<in> set (rows t) \<Longrightarrow> P r \<Longrightarrow> \<not> Q r \<and> \<not> Q (f r)"
  shows "t_where Q (t_update P f t) = t_where Q t"
proof -
  have "filter Q (map (\<lambda>r. if P r then f r else r) xs) = filter Q xs" if "set xs \<subseteq> set (rows t)" for xs
    using that assms by (induction xs) auto
  then show ?thesis by (simp add: t_where_def t_update_def)
qed

lemma t_where_delete: "t_where Q (t_delete P t) = filter (\<lambda>r. \<not> P r) (t_where Q t)"
  by (simp add: t_where_def t_delete_def conj_commute)

lemma t_where_delete_other:
  assumes "\<And>r. r \<in> set (rows t) \<Longrightarrow> P r \<Longrightarrow> \<not> Q r"
  shows "t_where Q (t_delete P t) = t_where Q t"
  unfolding t_where_delete using assms by (auto intro!: filter_True)

lemma t_count_length: "t_count P t = length (t_where P t)"
  by (simp add: t_count_def t_where_def)

lemma t_update_none:
  assumes "\<And>r. r \<in> set (rows t) \<Longrightarrow> \<not> P r"
  shows "t_update P f t = t"
proof -
  have "map (\<lambda>r. if P r then f r else r) (rows t) = rows t"
    using assms by (intro map_idI) auto
  then show ?thesis by (simp add: t_update_def)
qed

subsection \<open>Keyed tables\<close>

text \<open>The key discipline: primary keys are distinct and below the auto-increment counter.\<close>

definition keyed :: "('r \<Rightarrow> nat) \<Rightarrow> 'r tbl \<Rightarrow> bool" where
  "keyed key t \<longleftrightarrow> distinct (map key (rows t)) \<and> (\<forall>r\<in>set (rows t). key r < next_id t)"

definition by_id :: "('r \<Rightarrow> nat) \<Rightarrow> nat \<Rightarrow> 'r tbl \<Rightarrow> 'r option" where
  "by_id key i t = t_first (\<lambda>r. key r = i) t"

definition update_id :: "('r \<Rightarrow> nat) \<Rightarrow> nat \<Rightarrow> ('r \<Rightarrow> 'r) \<Rightarrow> 'r tbl \<Rightarrow> 'r tbl" where
  "update_id key i f t = t_update (\<lambda>r. key r = i) f t"

locale row_store =
  fixes key :: "'r \<Rightarrow> nat"
    and find :: "nat \<Rightarrow> 't \<Rightarrow> 'r option"
    and ins :: "(nat \<Rightarrow> 'r) \<Rightarrow> 't \<Rightarrow> 't"
    and upd :: "nat \<Rightarrow> ('r \<Rightarrow> 'r) \<Rightarrow> 't \<Rightarrow> 't"
    and fresh :: "'t \<Rightarrow> nat"
    and ok :: "'t \<Rightarrow> bool"
  assumes find_key: "ok t \<Longrightarrow> find i t = Some r \<Longrightarrow> key r = i"
    and find_fresh: "ok t \<Longrightarrow> fresh t \<le> i \<Longrightarrow> find i t = None"
    and find_ins: "ok t \<Longrightarrow> (\<And>n. key (mk n) = n) \<Longrightarrow>
      find i (ins mk t) = (if i = fresh t then Some (mk i) else find i t)"
    and find_upd: "ok t \<Longrightarrow> (\<And>r. key (f r) = key r) \<Longrightarrow>
      find i (upd j f t) = (if i = j then map_option f (find i t) else find i t)"
    and fresh_ins: "fresh (ins mk t) = Suc (fresh t)"
    and fresh_upd: "fresh (upd j f t) = fresh t"
    and ok_ins: "ok t \<Longrightarrow> (\<And>n. key (mk n) = n) \<Longrightarrow> ok (ins mk t)"
    and ok_upd: "ok t \<Longrightarrow> (\<And>r. key (f r) = key r) \<Longrightarrow> ok (upd j f t)"
begin

text \<open>Inserting never disturbs a row that is already there.\<close>

lemma find_ins_old:
  assumes "ok t" "\<And>n. key (mk n) = n" "find i t = Some r"
  shows "find i (ins mk t) = Some r"
proof -
  have "i \<noteq> fresh t" using assms find_fresh by fastforce
  with assms show ?thesis by (simp add: find_ins)
qed

lemma find_ins_new: "ok t \<Longrightarrow> (\<And>n. key (mk n) = n) \<Longrightarrow> find (fresh t) (ins mk t) = Some (mk (fresh t))"
  by (simp add: find_ins)

text \<open>Updates of different rows commute as far as lookups see, and a repeated one composes.\<close>

lemma find_upd_upd:
  assumes "ok t" "\<And>r. key (f r) = key r" "\<And>r. key (g r) = key r"
  shows "find i (upd j g (upd j f t)) = find i (upd j (g \<circ> f) t)"
  using assms by (simp add: find_upd ok_upd option.map_comp)

lemma find_upd_commute:
  assumes "ok t" "j \<noteq> k" "\<And>r. key (f r) = key r" "\<And>r. key (g r) = key r"
  shows "find i (upd j f (upd k g t)) = find i (upd k g (upd j f t))"
  using assms by (simp add: find_upd ok_upd)

lemma find_upd_other: "ok t \<Longrightarrow> (\<And>r. key (f r) = key r) \<Longrightarrow> i \<noteq> j \<Longrightarrow> find i (upd j f t) = find i t"
  by (simp add: find_upd)

lemma find_upd_same: "ok t \<Longrightarrow> (\<And>r. key (f r) = key r) \<Longrightarrow> find i t = Some r \<Longrightarrow> find i (upd i f t) = Some (f r)"
  by (simp add: find_upd)

end

lemma keyed_empty: "keyed key empty_tbl"
  by (simp add: keyed_def empty_tbl_def)

lemma keyed_update:
  assumes "keyed key t" and "\<And>r. r \<in> set (rows t) \<Longrightarrow> P r \<Longrightarrow> key (f r) = key r"
  shows "keyed key (t_update P f t)"
proof -
  have "map key (rows (t_update P f t)) = map key (rows t)"
    using assms(2) by (simp add: t_update_def)
  moreover have "\<forall>r\<in>set (rows (t_update P f t)). key r < next_id t"
    using assms by (auto simp: keyed_def set_rows_update)
  ultimately show ?thesis using assms(1) by (simp add: keyed_def)
qed

lemma keyed_insert: "keyed key t \<Longrightarrow> (\<And>n. key (mk n) = n) \<Longrightarrow> keyed key (t_insert mk t)"
  by (auto simp: keyed_def t_insert_def less_Suc_eq)

lemma keyed_delete: "keyed key t \<Longrightarrow> keyed key (t_delete P t)"
  by (auto simp: keyed_def t_delete_def distinct_map_filter)

lemma by_id_Some: "by_id key i t = Some r \<Longrightarrow> r \<in> set (rows t) \<and> key r = i"
  by (auto simp: by_id_def dest: t_first_Some)

lemma by_id_None: "by_id key i t = None \<longleftrightarrow> (\<forall>r\<in>set (rows t). key r \<noteq> i)"
  by (simp add: by_id_def t_first_None)

lemma by_id_member: "keyed key t \<Longrightarrow> r \<in> set (rows t) \<Longrightarrow> by_id key (key r) t = Some r"
  by (simp add: by_id_def t_first_def keyed_def find_unique)

lemma by_id_iff: "keyed key t \<Longrightarrow> by_id key i t = Some r \<longleftrightarrow> r \<in> set (rows t) \<and> key r = i"
  using by_id_Some by_id_member by metis

lemma keyed_inj: "keyed key t \<Longrightarrow> r \<in> set (rows t) \<Longrightarrow> s \<in> set (rows t) \<Longrightarrow> key r = key s \<Longrightarrow> r = s"
  by (metis by_id_member option.inject)

lemma keyed_fresh: "keyed key t \<Longrightarrow> r \<in> set (rows t) \<Longrightarrow> key r \<noteq> next_id t"
  by (auto simp: keyed_def)

lemma by_id_insert:
  assumes "keyed key t" "\<And>n. key (mk n) = n"
  shows "by_id key i (t_insert mk t) = (if i = next_id t then Some (mk i) else by_id key i t)"
proof (cases "i = next_id t")
  case True
  have "mk i \<in> set (rows (t_insert mk t))" by (simp add: set_rows_insert True)
  with keyed_insert [OF assms] show ?thesis
    using by_id_member [of key "t_insert mk t" "mk i"] assms(2) True by simp
next
  case False
  have "List.find P (xs @ [x]) = (if List.find P xs = None \<and> P x then Some x else List.find P xs)"
    for P :: "'a \<Rightarrow> bool" and xs x
    by (induction xs) auto
  with assms(2) False show ?thesis
    by (simp add: by_id_def t_first_def t_insert_def)
qed

lemma by_id_update:
  assumes "keyed key t" "\<And>r. key (f r) = key r"
  shows "by_id key i (update_id key j f t) = (if i = j then map_option f (by_id key i t) else by_id key i t)"
proof -
  have "List.find (\<lambda>r. key r = i) (map (\<lambda>r. if key r = j then f r else r) xs)
      = (if i = j then map_option f (List.find (\<lambda>r. key r = i) xs) else List.find (\<lambda>r. key r = i) xs)" for xs
    using assms(2) by (induction xs) auto
  then show ?thesis by (simp add: by_id_def update_id_def t_first_def t_update_def)
qed

text \<open>The list tables provide the interface, for every key.\<close>

lemma list_row_store:
  fixes key :: "'r \<Rightarrow> nat"
  shows "row_store key (by_id key) t_insert (update_id key) next_id (keyed key)"
proof
  show "keyed key t \<Longrightarrow> by_id key i t = Some r \<Longrightarrow> key r = i" for t :: "'r tbl" and i r
    by (simp add: by_id_Some)
  show "keyed key t \<Longrightarrow> next_id t \<le> i \<Longrightarrow> by_id key i t = None" for t :: "'r tbl" and i
    by (auto simp: by_id_None keyed_def)
  show "keyed key t \<Longrightarrow> (\<And>r. key (f r) = key r) \<Longrightarrow> keyed key (update_id key j f t)" for t :: "'r tbl" and j f
    unfolding update_id_def by (rule keyed_update) auto
  show "next_id (update_id key j f t) = next_id t" for t :: "'r tbl" and j f
    by (simp add: update_id_def)
qed (simp_all add: by_id_insert by_id_update keyed_insert)

end
