(* ===== verification/Rbac.thy ===== *)
theory Rbac
  imports Prelude
begin

section \<open>Roles, permissions and branch scope\<close>

text \<open>
  Models src/rbac/permissions.ts, the role and user-status enumerations of
  src/types/auth.ts, the guard of src/middleware/permission.middleware.ts and the
  first-login gate of src/middleware/auth.middleware.ts. Permissions keep the registry's
  order; a role's permission list keeps the order of \<open>ROLE_PERMISSIONS\<close>.
\<close>

datatype role = USTA | MASTER | RAHBAR | SIFAT | ADMIN

definition ROLE_CODES :: "role list" where
  "ROLE_CODES = [USTA, MASTER, RAHBAR, SIFAT, ADMIN]"

datatype user_status = U_ACTIVE | U_BLOCKED

datatype permission =
    Users_view | Users_create | Users_update | Users_block | Users_assign_role
  | Users_reset_password | Branches_manage | Registration_review
  | Customers_view | Customers_manage | Vehicles_view | Vehicles_manage
  | Jobs_view | Jobs_create | Checklist_execute | Jobs_close | Jobs_reopen
  | Stops_approve | Services_view_all | Five_why_create | Templates_manage
  | Risks_create | Risks_resolve | Risks_override | Risk_matrix_approve
  | Jobs_assign | Gps_override | Catalog_view | Catalog_manage

definition PERMISSIONS :: "permission list" where
  "PERMISSIONS =
    [Users_view, Users_create, Users_update, Users_block, Users_assign_role,
     Users_reset_password, Branches_manage, Registration_review,
     Customers_view, Customers_manage, Vehicles_view, Vehicles_manage,
     Jobs_view, Jobs_create, Checklist_execute, Jobs_close, Jobs_reopen,
     Stops_approve, Services_view_all, Five_why_create, Templates_manage,
     Risks_create, Risks_resolve, Risks_override, Risk_matrix_approve,
     Jobs_assign, Gps_override, Catalog_view, Catalog_manage]"

fun ROLE_PERMISSIONS :: "role \<Rightarrow> permission list" where
  "ROLE_PERMISSIONS USTA =
    [Jobs_view, Jobs_create, Checklist_execute, Customers_view, Customers_manage,
     Vehicles_view, Vehicles_manage, Risks_create]"
| "ROLE_PERMISSIONS MASTER =
    [Jobs_view, Jobs_create, Checklist_execute, Stops_approve, Jobs_close, Five_why_create,
     Customers_view, Customers_manage, Vehicles_view, Vehicles_manage, Risks_create,
     Risks_resolve, Jobs_assign, Gps_override]"
| "ROLE_PERMISSIONS RAHBAR =
    [Jobs_view, Five_why_create, Users_view, Users_create, Customers_view, Vehicles_view,
     Catalog_view]"
| "ROLE_PERMISSIONS SIFAT =
    [Jobs_view, Jobs_reopen, Services_view_all, Five_why_create, Customers_view,
     Vehicles_view, Risks_resolve, Risks_override, Risk_matrix_approve, Gps_override,
     Catalog_view]"
| "ROLE_PERMISSIONS ADMIN =
    [Users_view, Users_create, Users_update, Users_block, Users_assign_role,
     Users_reset_password, Branches_manage, Registration_review, Customers_view,
     Customers_manage, Vehicles_view, Vehicles_manage, Jobs_view, Jobs_reopen,
     Services_view_all, Five_why_create, Templates_manage, Risks_resolve, Risks_override,
     Risk_matrix_approve, Jobs_assign, Gps_override, Catalog_view, Catalog_manage]"

definition can :: "role \<Rightarrow> permission \<Rightarrow> bool" where
  "can r p = (p \<in> set (ROLE_PERMISSIONS r))"

fun getAssignableRoles :: "role \<Rightarrow> role list" where
  "getAssignableRoles r =
    (if r = ADMIN then ROLE_CODES
     else if r = RAHBAR then [USTA, MASTER]
     else [])"

definition BRANCH_REQUIRED_ROLES :: "role list" where
  "BRANCH_REQUIRED_ROLES = [USTA, MASTER, RAHBAR]"

definition isBranchScoped :: "role \<Rightarrow> bool" where
  "isBranchScoped r = (r \<noteq> ADMIN)"

text \<open>
  The authenticated user (\<open>AuthUser\<close>), with the fields the services decide on.
\<close>

record auth_user =
  au_id :: nat
  au_role :: role
  au_branch :: "nat option"
  au_status :: user_status
  au_must_change :: bool

text \<open>
  \<open>jobsBranchScope\<close> returns null for access to all branches, otherwise the branch the actor
  is confined to; -1 (an actor without a branch) matches no job, so the scope is an integer.
\<close>

definition jobsBranchScope :: "auth_user \<Rightarrow> int option" where
  "jobsBranchScope a =
    (if can (au_role a) Services_view_all then None
     else Some (case au_branch a of Some b \<Rightarrow> int b | None \<Rightarrow> -1))"

text \<open>\<open>scope !== null && job.branch_id !== scope\<close>, negated: the job is in scope.\<close>

definition in_scope :: "auth_user \<Rightarrow> nat \<Rightarrow> bool" where
  "in_scope a branch = (case jobsBranchScope a of None \<Rightarrow> True | Some s \<Rightarrow> int branch = s)"

text \<open>The route guard: all listed permissions, 401 without a user and 403 otherwise.\<close>

definition requirePermission :: "permission list \<Rightarrow> auth_user option \<Rightarrow> api_error + auth_user" where
  "requirePermission ps u =
    (case u of
       None \<Rightarrow> Inl (unauthorized ''UNAUTHORIZED'')
     | Some a \<Rightarrow>
         if list_all (can (au_role a)) ps then Inr a else Inl (forbidden ''FORBIDDEN''))"

text \<open>
  The first-login restriction: a session opened with a temporary password reaches only the
  two allow-listed paths of the auth router.
\<close>

definition isTempPasswordAllowlisted :: "string \<Rightarrow> string \<Rightarrow> bool" where
  "isTempPasswordAllowlisted baseUrl path =
    (suffix ''/auth'' baseUrl \<and> (path = ''/change-password'' \<or> path = ''/me''))"

definition requireAuth :: "string \<Rightarrow> string \<Rightarrow> auth_user option \<Rightarrow> api_error + auth_user" where
  "requireAuth baseUrl path resolved =
    (case resolved of
       None \<Rightarrow> Inl (unauthorized ''UNAUTHORIZED'')
     | Some a \<Rightarrow>
         if au_must_change a \<and> \<not> isTempPasswordAllowlisted baseUrl path
         then Inl (forbidden ''PASSWORD_CHANGE_REQUIRED'')
         else Inr a)"

definition optionalAuth :: "auth_user option \<Rightarrow> auth_user option" where
  "optionalAuth resolved =
    (case resolved of
       None \<Rightarrow> None
     | Some a \<Rightarrow> if au_must_change a then None else Some a)"

subsection \<open>Facts about the registry\<close>

lemma can_simps:
  "can USTA p \<longleftrightarrow> p \<in> {Jobs_view, Jobs_create, Checklist_execute, Customers_view,
     Customers_manage, Vehicles_view, Vehicles_manage, Risks_create}"
  "can MASTER p \<longleftrightarrow> p \<in> {Jobs_view, Jobs_create, Checklist_execute, Stops_approve, Jobs_close,
     Five_why_create, Customers_view, Customers_manage, Vehicles_view, Vehicles_manage,
     Risks_create, Risks_resolve, Jobs_assign, Gps_override}"
  "can RAHBAR p \<longleftrightarrow> p \<in> {Jobs_view, Five_why_create, Users_view, Users_create,
     Customers_view, Vehicles_view, Catalog_view}"
  "can SIFAT p \<longleftrightarrow> p \<in> {Jobs_view, Jobs_reopen, Services_view_all, Five_why_create,
     Customers_view, Vehicles_view, Risks_resolve, Risks_override, Risk_matrix_approve,
     Gps_override, Catalog_view}"
  by (simp_all add: can_def)

lemma view_all_iff: "can r Services_view_all \<longleftrightarrow> r = SIFAT \<or> r = ADMIN"
  by (cases r) (simp_all add: can_def)

lemma in_scope_branch:
  "\<not> can (au_role a) Services_view_all \<Longrightarrow> in_scope a b \<longleftrightarrow> au_branch a = Some b"
  by (auto simp: in_scope_def jobsBranchScope_def split: option.splits)

lemma in_scope_all: "can (au_role a) Services_view_all \<Longrightarrow> in_scope a b"
  by (simp add: in_scope_def jobsBranchScope_def)

lemma in_scope_iff:
  "in_scope a b \<longleftrightarrow> au_role a = SIFAT \<or> au_role a = ADMIN \<or> au_branch a = Some b"
  by (metis in_scope_all in_scope_branch view_all_iff)

lemma PERMISSIONS_all: "p \<in> set PERMISSIONS"
  by (cases p) (simp_all add: PERMISSIONS_def)

end
