(* ===== verification/Schema.thy ===== *)
theory Schema
  imports Tables Rbac
begin

section \<open>The database schema\<close>

text \<open>
  The tables the workflow services read and write, one record per row type with the columns
  of the migrations that the code uses (src/modules and src/types/auth.ts). Enumerated
  string columns are datatypes. The columns \<open>created_at\<close> that no handler reads are left out.
\<close>

subsection \<open>Enumerations\<close>

text \<open>\<open>JOB_STATUSES\<close> of jobs.validators.ts.\<close>

datatype job_status =
    J_DRAFT | J_IN_PROGRESS | J_WAITING_STOP_APPROVAL | J_REJECTED
  | J_QUALITY_REVIEW | J_COMPLETED | J_REOPENED | J_CANCELLED

fun job_status_str :: "job_status \<Rightarrow> string" where
  "job_status_str J_DRAFT = ''DRAFT''"
| "job_status_str J_IN_PROGRESS = ''IN_PROGRESS''"
| "job_status_str J_WAITING_STOP_APPROVAL = ''WAITING_STOP_APPROVAL''"
| "job_status_str J_REJECTED = ''REJECTED''"
| "job_status_str J_QUALITY_REVIEW = ''QUALITY_REVIEW''"
| "job_status_str J_COMPLETED = ''COMPLETED''"
| "job_status_str J_REOPENED = ''REOPENED''"
| "job_status_str J_CANCELLED = ''CANCELLED''"

datatype gas_type = LPG | CNG

fun gas_str :: "gas_type \<Rightarrow> string" where
  "gas_str LPG = ''LPG''"
| "gas_str CNG = ''CNG''"

text \<open>\<open>JobStepStatus\<close> of execution.service.ts.\<close>

datatype step_status = S_PENDING | S_COMPLETED | S_WAITING_APPROVAL | S_APPROVED | S_REJECTED

fun step_status_str :: "step_status \<Rightarrow> string" where
  "step_status_str S_PENDING = ''PENDING''"
| "step_status_str S_COMPLETED = ''COMPLETED''"
| "step_status_str S_WAITING_APPROVAL = ''WAITING_APPROVAL''"
| "step_status_str S_APPROVED = ''APPROVED''"
| "step_status_str S_REJECTED = ''REJECTED''"

datatype approval_status = AP_PENDING | AP_APPROVED | AP_REJECTED

fun approval_status_str :: "approval_status \<Rightarrow> string" where
  "approval_status_str AP_PENDING = ''PENDING''"
| "approval_status_str AP_APPROVED = ''APPROVED''"
| "approval_status_str AP_REJECTED = ''REJECTED''"

text \<open>The evidence lifecycle of migration 20260816000019.\<close>

datatype evidence_status = E_PENDING | E_UNVERIFIED | E_READY | E_FAILED

datatype risk_source = MANUAL | STOP_REJECTED | MEASUREMENT_OUT_OF_RANGE | CHECKLIST_FLAG

fun risk_source_str :: "risk_source \<Rightarrow> string" where
  "risk_source_str MANUAL = ''MANUAL''"
| "risk_source_str STOP_REJECTED = ''STOP_REJECTED''"
| "risk_source_str MEASUREMENT_OUT_OF_RANGE = ''MEASUREMENT_OUT_OF_RANGE''"
| "risk_source_str CHECKLIST_FLAG = ''CHECKLIST_FLAG''"

datatype risk_status = R_OPEN | R_MITIGATION_IN_PROGRESS | R_RESOLVED | R_REJECTED

fun risk_status_str :: "risk_status \<Rightarrow> string" where
  "risk_status_str R_OPEN = ''OPEN''"
| "risk_status_str R_MITIGATION_IN_PROGRESS = ''MITIGATION_IN_PROGRESS''"
| "risk_status_str R_RESOLVED = ''RESOLVED''"
| "risk_status_str R_REJECTED = ''REJECTED''"

datatype matrix_status = M_DRAFT | M_ACTIVE | M_RETIRED

fun matrix_status_str :: "matrix_status \<Rightarrow> string" where
  "matrix_status_str M_DRAFT = ''DRAFT''"
| "matrix_status_str M_ACTIVE = ''ACTIVE''"
| "matrix_status_str M_RETIRED = ''RETIRED''"

datatype version_status = V_DRAFT | V_PUBLISHED | V_ARCHIVED

datatype assignment_status = A_UNASSIGNED | A_ASSIGNED | A_LEGACY_UNASSIGNED

fun assignment_status_str :: "assignment_status \<Rightarrow> string" where
  "assignment_status_str A_UNASSIGNED = ''UNASSIGNED''"
| "assignment_status_str A_ASSIGNED = ''ASSIGNED''"
| "assignment_status_str A_LEGACY_UNASSIGNED = ''LEGACY_UNASSIGNED''"

datatype provenance = SELF_AT_CREATION | REASSIGNED | UNASSIGNED

subsection \<open>Rows\<close>

record user_row =
  u_id :: nat
  u_first_name :: string
  u_last_name :: string
  u_phone :: string
  u_region :: string
  u_branch :: "nat option"
  u_role :: role
  u_status :: user_status
  u_must_change :: bool
  u_deleted :: bool

record branch_row =
  b_id :: nat
  b_name :: string
  b_region :: string
  b_address :: "string option"
  b_phone :: "string option"
  b_active :: bool

record customer_row =
  cu_id :: nat
  cu_name :: string
  cu_phone :: string
  cu_created_by :: nat
  cu_created_at :: nat
  cu_deleted :: bool

record vehicle_row =
  ve_id :: nat
  ve_customer :: nat
  ve_plate :: string
  ve_vin :: "string option"
  ve_make :: string
  ve_model :: string
  ve_year :: "nat option"
  ve_engine :: "string option"
  ve_mileage :: "nat option"
  ve_created_by :: nat
  ve_created_at :: nat
  ve_deleted :: bool

record job_row =
  j_id :: nat
  j_customer :: nat
  j_vehicle :: nat
  j_branch :: nat
  j_created_by :: nat
  j_status :: job_status
  j_started_at :: "nat option"
  j_cancel_reason :: "string option"
  j_cancelled_by :: "nat option"
  j_cancelled_at :: "nat option"
  j_closed_by :: "nat option"
  j_closed_at :: "nat option"
  j_reopen_reason :: "string option"
  j_reopened_by :: "nat option"
  j_reopened_at :: "nat option"
  j_assignee :: "nat option"
  j_assignment_status :: assignment_status
  j_cycle :: nat
  j_gas_type :: "gas_type option"
  j_kit :: "string option"
  j_ecu :: "string option"
  j_cylinder :: "string option"
  j_note :: "string option"
  j_created_at :: nat
  j_updated_at :: nat

record assignment_row =
  ja_id :: nat
  ja_job :: nat
  ja_cycle :: nat
  ja_technician :: "nat option"
  ja_assigned_by :: nat
  ja_provenance :: provenance
  ja_reason :: "string option"

record template_row =
  tp_id :: nat
  tp_name :: string
  tp_description :: "string option"
  tp_created_by :: nat

record version_row =
  tv_id :: nat
  tv_template :: nat
  tv_version :: nat
  tv_status :: version_status
  tv_published_at :: "nat option"
  tv_created_by :: nat

record cstep_row =
  cs_id :: nat
  cs_version :: nat
  cs_order :: nat
  cs_name :: string
  cs_description :: "string option"
  cs_requirements :: "string option"
  cs_is_stop :: bool
  cs_risk_weight :: nat
  cs_required_photos :: nat

record mdef_row =
  md_id :: nat
  md_step :: nat
  md_name :: string
  md_unit :: string
  md_min :: "rat option"
  md_max :: "rat option"
  md_expected :: "rat option"
  md_required :: bool

record checklist_row =
  cl_id :: nat
  cl_job :: nat
  cl_version :: nat
  cl_assigned_by :: nat
  cl_assigned_at :: nat
  cl_completed_at :: "nat option"

record jstep_row =
  js_id :: nat
  js_checklist :: nat
  js_step :: nat
  js_status :: step_status
  js_note :: "string option"
  js_completed_by :: "nat option"
  js_completed_at :: "nat option"
  js_attempt :: nat

record smeas_row =
  sm_id :: nat
  sm_job_step :: nat
  sm_measurement :: nat
  sm_value :: rat
  sm_within :: bool
  sm_attempt :: nat

record approval_row =
  sa_id :: nat
  sa_job :: nat
  sa_job_step :: nat
  sa_status :: approval_status
  sa_submitted_by :: nat
  sa_submitted_at :: nat
  sa_decided_by :: "nat option"
  sa_decided_at :: "nat option"
  sa_reject_reason :: "string option"
  sa_attempt :: nat

record photo_row =
  ph_id :: nat
  ph_job :: nat
  ph_job_step :: nat
  ph_attempt :: nat
  ph_status :: evidence_status
  ph_key :: string
  ph_original_name :: string
  ph_mime :: string
  ph_size :: nat
  ph_hash :: string
  ph_created_by :: nat
  ph_created_at :: nat
  ph_ready_at :: "nat option"
  ph_failed_at :: "nat option"
  ph_failure :: "string option"

record signature_row =
  sg_id :: nat
  sg_job :: nat
  sg_customer :: nat
  sg_cycle :: nat
  sg_status :: evidence_status
  sg_key :: string
  sg_mime :: string
  sg_size :: nat
  sg_hash :: string
  sg_summary_digest :: "string option"
  sg_created_at :: nat
  sg_ready_at :: "nat option"
  sg_failed_at :: "nat option"
  sg_failure :: "string option"
  sg_superseded_at :: "nat option"

record risk_row =
  rk_id :: nat
  rk_job :: nat
  rk_cycle :: nat
  rk_job_step :: "nat option"
  rk_attempt :: "nat option"
  rk_hazard :: string
  rk_description :: string
  rk_severity :: int
  rk_likelihood :: int
  rk_score :: int
  rk_level :: string
  rk_blocking :: bool
  rk_matrix_version :: string
  rk_source :: risk_source
  rk_status :: risk_status
  rk_mitigation :: "string option"
  rk_created_by :: nat
  rk_responsible :: "nat option"
  rk_resolved_by :: "nat option"
  rk_resolved_at :: "nat option"
  rk_resolution_note :: "string option"
  rk_resolution_approval :: "nat option"
  rk_supersedes :: "nat option"

text \<open>
  \<open>MatrixDefinition\<close> as it is parsed from its JSON column: levels are strings (nothing but
  \<open>validateDefinition\<close> looks at them), a missing array is the empty list, and the optional
  source overrides are an association list.
\<close>

record matrix_def =
  algorithm :: string
  allowedSeverity :: "rat list"
  allowedLikelihood :: "rat list"
  thresholds :: "(rat \<times> string) list"
  blockingLevels :: "string list"
  sourceOverrides :: "(risk_source \<times> string) list"
  severity4MinLevel :: "string option"

record matrix_row =
  mx_id :: nat
  mx_version :: string
  mx_definition :: matrix_def
  mx_status :: matrix_status
  mx_approved_by :: "nat option"
  mx_approved_at :: "nat option"
  mx_rationale :: "string option"
  mx_superseded_by :: "nat option"

record snapshot_row =
  sn_id :: nat
  sn_job :: nat
  sn_cycle :: nat
  sn_content :: json
  sn_digest :: string
  sn_summary_digest :: string
  sn_signature_hash :: "string option"
  sn_finalized_by :: nat
  sn_provenance :: string
  sn_created_at :: nat

datatype gps_purpose = G_JOB_START | G_CHECKLIST_COMPLETE | G_CUSTOMER_SIGNATURE | G_JOB_COMPLETE | G_RISK_STOP_EVENT

record gps_row =
  ge_id :: nat
  ge_job :: nat
  ge_cycle :: nat
  ge_actor :: nat
  ge_purpose :: gps_purpose
  ge_latitude :: "rat option"
  ge_longitude :: "rat option"
  ge_accuracy :: "rat option"
  ge_client_ts :: "rat option"
  ge_override_reason :: "string option"
  ge_override_by :: "nat option"

text \<open>What \<open>logAudit\<close> is called with (\<open>AuditEntry\<close> of audit.service.ts).\<close>

record audit_entry =
  ae_user :: "nat option"
  ae_action :: string
  ae_entity_type :: "string option"
  ae_entity_id :: "string option"
  ae_old :: "json option"
  ae_new :: "json option"
  ae_ip :: "string option"
  ae_agent :: "string option"

subsection \<open>The database\<close>

record db =
  users :: "user_row tbl"
  branches :: "branch_row tbl"
  customers :: "customer_row tbl"
  vehicles :: "vehicle_row tbl"
  jobs :: "job_row tbl"
  assignments :: "assignment_row tbl"
  templates :: "template_row tbl"
  versions :: "version_row tbl"
  csteps :: "cstep_row tbl"
  mdefs :: "mdef_row tbl"
  checklists :: "checklist_row tbl"
  jsteps :: "jstep_row tbl"
  smeas :: "smeas_row tbl"
  approvals :: "approval_row tbl"
  photos :: "photo_row tbl"
  signatures :: "signature_row tbl"
  risks :: "risk_row tbl"
  matrices :: "matrix_row tbl"
  snapshots :: "snapshot_row tbl"
  gps_events :: "gps_row tbl"
  audits :: "audit_entry list"

definition empty_db :: db where
  "empty_db = \<lparr>users = empty_tbl, branches = empty_tbl, customers = empty_tbl, vehicles = empty_tbl, jobs = empty_tbl,
     assignments = empty_tbl, templates = empty_tbl, versions = empty_tbl, csteps = empty_tbl,
     mdefs = empty_tbl, checklists = empty_tbl, jsteps = empty_tbl, smeas = empty_tbl,
     approvals = empty_tbl, photos = empty_tbl, signatures = empty_tbl, risks = empty_tbl,
     matrices = empty_tbl, snapshots = empty_tbl, gps_events = empty_tbl, audits = []\<rparr>"

text \<open>
  \<open>logAudit(entry, trx)\<close> as the workflow sees it: the entry joins the log in the order of the
  calls. How an entry becomes a hash-chained row is the subject of theory \<open>AuditLog\<close>.
\<close>

definition logAudit :: "req \<Rightarrow> nat \<Rightarrow> string \<Rightarrow> string \<Rightarrow> string \<Rightarrow> json option \<Rightarrow> json option \<Rightarrow> db \<Rightarrow> db" where
  "logAudit q user action etype eid old new d =
    d\<lparr>audits := audits d @
        [\<lparr>ae_user = Some user, ae_action = action, ae_entity_type = Some etype,
          ae_entity_id = Some eid, ae_old = old, ae_new = new,
          ae_ip = rq_ip q, ae_agent = rq_agent q\<rparr>]\<rparr>"

lemma logAudit_frame [simp]:
  "users (logAudit q u a et ei old new d) = users d"
  "branches (logAudit q u a et ei old new d) = branches d"
  "customers (logAudit q u a et ei old new d) = customers d"
  "vehicles (logAudit q u a et ei old new d) = vehicles d"
  "jobs (logAudit q u a et ei old new d) = jobs d"
  "assignments (logAudit q u a et ei old new d) = assignments d"
  "templates (logAudit q u a et ei old new d) = templates d"
  "versions (logAudit q u a et ei old new d) = versions d"
  "csteps (logAudit q u a et ei old new d) = csteps d"
  "mdefs (logAudit q u a et ei old new d) = mdefs d"
  "checklists (logAudit q u a et ei old new d) = checklists d"
  "jsteps (logAudit q u a et ei old new d) = jsteps d"
  "smeas (logAudit q u a et ei old new d) = smeas d"
  "approvals (logAudit q u a et ei old new d) = approvals d"
  "photos (logAudit q u a et ei old new d) = photos d"
  "signatures (logAudit q u a et ei old new d) = signatures d"
  "risks (logAudit q u a et ei old new d) = risks d"
  "matrices (logAudit q u a et ei old new d) = matrices d"
  "snapshots (logAudit q u a et ei old new d) = snapshots d"
  "gps_events (logAudit q u a et ei old new d) = gps_events d"
  by (simp_all add: logAudit_def)

lemma audits_logAudit:
  "\<exists>e. audits (logAudit q u a et ei old new d) = audits d @ [e] \<and> ae_action e = a \<and>
       ae_user e = Some u \<and> ae_entity_id e = Some ei \<and> ae_entity_type e = Some et"
  by (simp add: logAudit_def)

lemma audits_logAudit_eq:
  "audits (logAudit q u a et ei old new d) = audits d @
     [\<lparr>ae_user = Some u, ae_action = a, ae_entity_type = Some et, ae_entity_id = Some ei,
       ae_old = old, ae_new = new, ae_ip = rq_ip q, ae_agent = rq_agent q\<rparr>]"
  by (simp add: logAudit_def)

text \<open>
  A value written to a \<open>DECIMAL(_, k)\<close> column: MySQL rounds to \<open>k\<close> digits, halves away from
  zero.
\<close>

definition decimal :: "nat \<Rightarrow> rat \<Rightarrow> rat" where
  "decimal k v =
    (if v < 0 then - of_int \<lfloor>- v * 10 ^ k + 1/2\<rfloor> / 10 ^ k else of_int \<lfloor>v * 10 ^ k + 1/2\<rfloor> / 10 ^ k)"

abbreviation decimal3 :: "rat \<Rightarrow> rat" where
  "decimal3 \<equiv> decimal 3"

text \<open>
  A statement the database refuses: the error middleware answers 409 for a duplicate key and
  500 for anything else (src/middleware/error.middleware.ts).
\<close>

definition dbError :: "string \<Rightarrow> api_error" where
  "dbError c = ApiError 500 ''DATABASE_ERROR'' [c]"

definition duplicateKey :: api_error where
  "duplicateKey = ApiError 409 ''DUPLICATE'' []"

text \<open>An optional filter of a query: absent, or the column has the value.\<close>

definition opt_eq :: "'a option \<Rightarrow> 'a option \<Rightarrow> bool" where
  "opt_eq want got = (case want of None \<Rightarrow> True | Some v \<Rightarrow> got = Some v)"

text \<open>
  Loading a job with branch scope: the same three lines open the services (for example
  \<open>loadScopedJob\<close> of completion.service.ts); an out-of-scope job is reported missing.
\<close>

definition loadScopedJob :: "auth_user \<Rightarrow> nat \<Rightarrow> db \<Rightarrow> api_error + job_row" where
  "loadScopedJob a jobId d =
    (case by_id j_id jobId (jobs d) of
       None \<Rightarrow> Inl notFound
     | Some job \<Rightarrow> if in_scope a (j_branch job) then Inr job else Inl notFound)"

definition upd_job :: "nat \<Rightarrow> (job_row \<Rightarrow> job_row) \<Rightarrow> db \<Rightarrow> db" where
  "upd_job i f d = d\<lparr>jobs := update_id j_id i f (jobs d)\<rparr>"

lemma loadScopedJob_Inr:
  "loadScopedJob a i d = Inr job \<longleftrightarrow> by_id j_id i (jobs d) = Some job \<and> in_scope a (j_branch job)"
  by (auto simp: loadScopedJob_def split: option.splits)

lemma loadScopedJob_Inl: "loadScopedJob a i d = Inl e \<Longrightarrow> e = notFound"
  by (auto simp: loadScopedJob_def split: option.splits if_splits)

lemma upd_job_frame [simp]:
  "users (upd_job i f d) = users d" "branches (upd_job i f d) = branches d"
  "customers (upd_job i f d) = customers d" "vehicles (upd_job i f d) = vehicles d"
  "assignments (upd_job i f d) = assignments d" "templates (upd_job i f d) = templates d"
  "versions (upd_job i f d) = versions d" "csteps (upd_job i f d) = csteps d"
  "mdefs (upd_job i f d) = mdefs d" "checklists (upd_job i f d) = checklists d"
  "jsteps (upd_job i f d) = jsteps d" "smeas (upd_job i f d) = smeas d"
  "approvals (upd_job i f d) = approvals d" "photos (upd_job i f d) = photos d"
  "signatures (upd_job i f d) = signatures d" "risks (upd_job i f d) = risks d"
  "matrices (upd_job i f d) = matrices d" "snapshots (upd_job i f d) = snapshots d"
  "gps_events (upd_job i f d) = gps_events d"
  "audits (upd_job i f d) = audits d"
  by (simp_all add: upd_job_def)

lemma jobs_upd_job: "jobs (upd_job i f d) = update_id j_id i f (jobs d)"
  by (simp add: upd_job_def)

text \<open>Every keyed table provides the \<open>row_store\<close> interface.\<close>

interpretation job_store: row_store j_id "by_id j_id" t_insert "update_id j_id" next_id "keyed j_id"
  by (rule list_row_store)

interpretation jstep_store: row_store js_id "by_id js_id" t_insert "update_id js_id" next_id "keyed js_id"
  by (rule list_row_store)

interpretation approval_store: row_store sa_id "by_id sa_id" t_insert "update_id sa_id" next_id "keyed sa_id"
  by (rule list_row_store)

interpretation photo_store: row_store ph_id "by_id ph_id" t_insert "update_id ph_id" next_id "keyed ph_id"
  by (rule list_row_store)

interpretation signature_store: row_store sg_id "by_id sg_id" t_insert "update_id sg_id" next_id "keyed sg_id"
  by (rule list_row_store)

interpretation risk_store: row_store rk_id "by_id rk_id" t_insert "update_id rk_id" next_id "keyed rk_id"
  by (rule list_row_store)

interpretation matrix_store: row_store mx_id "by_id mx_id" t_insert "update_id mx_id" next_id "keyed mx_id"
  by (rule list_row_store)

end
