(* ===== verification/Canonical.thy ===== *)
theory Canonical
  imports Prelude "HOL-Library.List_Lexorder" "HOL-Library.Char_ord" "HOL-Library.Multiset"
begin

section \<open>Canonical serialization\<close>

text \<open>
  Models src/modules/completion/canonical.ts and the serializer of
  src/modules/audit/audit-chain.ts: \<open>JSON.stringify\<close> of strings, numbers and booleans, arrays in
  their order, object members sorted by key. The main fact is that two values have the same
  serialization exactly when they are equal up to the order of object members, so a digest
  collision is a collision of the hash function.

  Numbers are printed as JavaScript prints decimals with at most six fractional digits and a
  magnitude below 1e21 (\<open>short_decimal\<close>), which covers everything the digests contain: ids,
  counts and decimals of three digits. \<open>undefined\<close> members, which the code leaves out, are
  not values of the model.
\<close>

subsection \<open>Numbers\<close>

fun frac_str :: "nat \<Rightarrow> rat \<Rightarrow> string" where
  "frac_str 0 f = []"
| "frac_str (Suc n) f =
    (if f = 0 then []
     else digit_char (nat \<lfloor>10 * f\<rfloor>) # frac_str n (10 * f - of_int \<lfloor>10 * f\<rfloor>))"

definition num_str :: "rat \<Rightarrow> string" where
  "num_str q =
    (let m = \<bar>q\<bar>; f = m - of_int \<lfloor>m\<rfloor> in
     (if q < 0 then ''-'' else []) @ nat_str (nat \<lfloor>m\<rfloor>)
     @ (if f = 0 then [] else ''.'' @ frac_str 6 f))"

definition short_decimal :: "rat \<Rightarrow> bool" where
  "short_decimal q \<longleftrightarrow> q * 10 ^ 6 \<in> \<int>"

subsection \<open>Strings\<close>

definition hex_char :: "nat \<Rightarrow> char" where
  "hex_char d = (if d < 10 then char_of (48 + d) else char_of (87 + d))"

definition esc :: "char \<Rightarrow> string" where
  "esc c =
    (if c = CHR 0x22 then [CHR 0x5C, CHR 0x22]
     else if c = CHR 0x5C then [CHR 0x5C, CHR 0x5C]
     else if c = CHR 0x08 then [CHR 0x5C, CHR ''b'']
     else if c = CHR 0x09 then [CHR 0x5C, CHR ''t'']
     else if c = CHR 0x0A then [CHR 0x5C, CHR ''n'']
     else if c = CHR 0x0C then [CHR 0x5C, CHR ''f'']
     else if c = CHR 0x0D then [CHR 0x5C, CHR ''r'']
     else let n = (of_char c :: nat) in
       if n < 32 then [CHR 0x5C, CHR ''u'', CHR ''0'', CHR ''0'', hex_char (n div 16), hex_char (n mod 16)]
       else [c])"

definition json_string :: "string \<Rightarrow> string" where
  "json_string s = CHR 0x22 # concat (map esc s) @ [CHR 0x22]"

subsection \<open>The serializer\<close>

fun join :: "string list \<Rightarrow> string" where
  "join [] = []"
| "join [x] = x"
| "join (x # y # ys) = x @ '','' @ join (y # ys)"

primrec build :: "json \<Rightarrow> string" where
  "build JNull = ''null''"
| "build (JBool b) = (if b then ''true'' else ''false'')"
| "build (JNum q) = num_str q"
| "build (JStr s) = json_string s"
| "build (JArr xs) = ''['' @ join (map build xs) @ '']''"
| "build (JObj kvs) =
    ''{'' @ join (map (\<lambda>(k, s). json_string k @ '':'' @ s) (sort_key fst (map (map_prod id build) kvs))) @ ''}''"

definition canonicalStringify :: "json \<Rightarrow> string" where
  "canonicalStringify v = build v"

text \<open>The hash function is a parameter: SHA-256 in hexadecimal over the UTF-8 bytes.\<close>

definition digestOf :: "(string \<Rightarrow> string) \<Rightarrow> json \<Rightarrow> string" where
  "digestOf sha256 v = sha256 (canonicalStringify v)"

text \<open>The value with the members of every object sorted by key.\<close>

primrec canon :: "json \<Rightarrow> json" where
  "canon JNull = JNull"
| "canon (JBool b) = JBool b"
| "canon (JNum q) = JNum q"
| "canon (JStr s) = JStr s"
| "canon (JArr xs) = JArr (map canon xs)"
| "canon (JObj kvs) = JObj (sort_key fst (map (map_prod id canon) kvs))"

primrec short_numbers :: "json \<Rightarrow> bool" where
  "short_numbers JNull = True"
| "short_numbers (JBool b) = True"
| "short_numbers (JNum q) = short_decimal q"
| "short_numbers (JStr s) = True"
| "short_numbers (JArr xs) = list_all id (map short_numbers xs)"
| "short_numbers (JObj kvs) = list_all (\<lambda>kv. snd kv) (map (map_prod id short_numbers) kvs)"

subsection \<open>Strings can be read back\<close>

definition unhex :: "char \<Rightarrow> nat" where
  "unhex c = (let n = (of_char c :: nat) in if n < 58 then n - 48 else n - 87)"

definition unesc :: "string \<Rightarrow> (char \<times> string) option" where
  "unesc s =
    (case s of
       [] \<Rightarrow> None
     | c # cs \<Rightarrow>
         if c = CHR 0x22 then None
         else if c \<noteq> CHR 0x5C then Some (c, cs)
         else (case cs of
             [] \<Rightarrow> None
           | e # r \<Rightarrow>
               if e = CHR ''b'' then Some (CHR 0x08, r)
               else if e = CHR ''t'' then Some (CHR 0x09, r)
               else if e = CHR ''n'' then Some (CHR 0x0A, r)
               else if e = CHR ''f'' then Some (CHR 0x0C, r)
               else if e = CHR ''r'' then Some (CHR 0x0D, r)
               else if e = CHR ''u'' then
                 Some (char_of (16 * unhex (r ! 2) + unhex (r ! 3)), drop 4 r)
               else Some (e, r)))"

lemma unhex_hex_char: "d < 16 \<Longrightarrow> unhex (hex_char d) = d"
  by (simp add: unhex_def hex_char_def Let_def)

lemma unesc_esc: "unesc (esc c @ r) = Some (c, r)"
proof (cases "c \<in> {CHR 0x22, CHR 0x5C, CHR 0x08, CHR 0x09, CHR 0x0A, CHR 0x0C, CHR 0x0D}")
  case True
  then show ?thesis by (elim insertE) (simp_all add: esc_def unesc_def)
next
  case False
  define n where "n = (of_char c :: nat)"
  show ?thesis
  proof (cases "n < 32")
    case True
    then have "esc c = [CHR 0x5C, CHR ''u'', CHR ''0'', CHR ''0'', hex_char (n div 16), hex_char (n mod 16)]"
      using False by (simp add: esc_def n_def Let_def)
    moreover have "16 * (n div 16) + n mod 16 = n" by simp
    moreover have "char_of n = c" by (simp add: n_def)
    ultimately show ?thesis using True by (simp add: unesc_def unhex_hex_char)
  next
    case big: False
    then have "esc c = [c]" using False by (simp add: esc_def n_def Let_def)
    with False show ?thesis by (simp add: unesc_def)
  qed
qed

lemma esc_inj: "esc c @ r = esc d @ s \<Longrightarrow> c = d \<and> r = s"
  by (metis Pair_inject option.inject unesc_esc)

lemma esc_not_quote: "esc c @ r \<noteq> CHR 0x22 # s"
proof
  assume "esc c @ r = CHR 0x22 # s"
  then have "unesc (CHR 0x22 # s) = Some (c, r)" using unesc_esc [of c r] by simp
  then show False by (simp add: unesc_def)
qed

lemma json_string_inj: "json_string s @ r = json_string t @ u \<longleftrightarrow> s = t \<and> r = u"
proof
  have "concat (map esc s) @ CHR 0x22 # r = concat (map esc t) @ CHR 0x22 # u \<Longrightarrow> s = t \<and> r = u"
  proof (induction s arbitrary: t)
    case Nil
    then show ?case using esc_not_quote by (cases t) (auto dest: sym)
  next
    case (Cons c cs)
    show ?case
    proof (cases t)
      case Nil
      with Cons.prems esc_not_quote show ?thesis by auto
    next
      case (Cons d ds)
      with Cons.prems have "esc c @ (concat (map esc cs) @ CHR 0x22 # r) = esc d @ (concat (map esc ds) @ CHR 0x22 # u)"
        by simp
      then have "c = d" "concat (map esc cs) @ CHR 0x22 # r = concat (map esc ds) @ CHR 0x22 # u"
        using esc_inj by blast+
      with Cons.IH Cons show ?thesis by simp
    qed
  qed
  then show "json_string s @ r = json_string t @ u \<Longrightarrow> s = t \<and> r = u"
    by (simp add: json_string_def)
qed simp

subsection \<open>Numbers can be read back\<close>

lemma frac_str_digits: "0 \<le> f \<Longrightarrow> f < 1 \<Longrightarrow> c \<in> set (frac_str n f) \<Longrightarrow> is_digit c"
proof (induction n arbitrary: f)
  case 0
  then show ?case by simp
next
  case (Suc n)
  let ?k = "\<lfloor>10 * f\<rfloor>"
  have k: "0 \<le> ?k" "?k < 10" using Suc.prems by (simp_all add: floor_less_iff)
  show ?case
  proof (cases "c = digit_char (nat ?k)")
    case True
    with k show ?thesis by (simp add: digit_char_is_digit nat_less_iff)
  next
    case False
    with Suc.prems have "c \<in> set (frac_str n (10 * f - of_int ?k))" by (simp split: if_splits)
    moreover have "0 \<le> 10 * f - of_int ?k" "10 * f - of_int ?k < 1" by linarith+
    ultimately show ?thesis by (rule Suc.IH [rotated 2])
  qed
qed

lemma digit_char_inj: "d < 10 \<Longrightarrow> e < 10 \<Longrightarrow> digit_char d = digit_char e \<Longrightarrow> d = e"
  by (metis add_left_cancel of_char_digit_char)

lemma frac_str_inj:
  "0 \<le> f \<Longrightarrow> f < 1 \<Longrightarrow> 0 \<le> g \<Longrightarrow> g < 1 \<Longrightarrow> f * 10 ^ n \<in> \<int> \<Longrightarrow> g * 10 ^ n \<in> \<int> \<Longrightarrow>
   frac_str n f = frac_str n g \<Longrightarrow> f = g"
proof (induction n arbitrary: f g)
  case 0
  have "f = 0" using 0 by (auto elim!: Ints_cases)
  moreover have "g = 0" using 0 by (auto elim!: Ints_cases)
  ultimately show ?case by simp
next
  case (Suc n)
  let ?k = "\<lfloor>10 * f\<rfloor>" and ?l = "\<lfloor>10 * g\<rfloor>"
  show ?case
  proof (cases "f = 0 \<or> g = 0")
    case True
    then show ?thesis using Suc.prems(7) by (auto split: if_splits)
  next
    case False
    have k: "0 \<le> ?k" "?k < 10" "0 \<le> ?l" "?l < 10" using Suc.prems by (simp_all add: floor_less_iff)
    from False Suc.prems(7) have d: "digit_char (nat ?k) = digit_char (nat ?l)"
      and r: "frac_str n (10 * f - of_int ?k) = frac_str n (10 * g - of_int ?l)" by simp_all
    have "nat ?k = nat ?l" using k d by (intro digit_char_inj) (simp_all only: nat_less_iff of_nat_numeral)
    with k have kl: "?k = ?l" by (simp only: eq_nat_nat_iff)
    have i: "(10 * x - of_int m) * 10 ^ n \<in> \<int>" if "x * 10 ^ Suc n \<in> \<int>" for x :: rat and m
    proof -
      have "(10 * x - of_int m) * 10 ^ n = x * 10 ^ Suc n - of_int (m * 10 ^ n)" by (simp add: algebra_simps)
      then show ?thesis using that by (metis Ints_diff Ints_of_int)
    qed
    have "10 * f - of_int ?k = 10 * g - of_int ?l"
      by (rule Suc.IH [OF _ _ _ _ i i r]) (use Suc.prems in linarith)+
    with kl show ?thesis by simp
  qed
qed

text \<open>What may follow a value in a serialization: nothing, a comma or a closing bracket.\<close>

definition tail_ok :: "string \<Rightarrow> bool" where
  "tail_ok r \<longleftrightarrow> r = [] \<or> hd r \<in> {CHR '','', CHR '']'', CHR ''}''}"

lemma tail_ok_simps [simp]: "tail_ok (CHR '','' # r)" "tail_ok (CHR '']'' # r)" "tail_ok (CHR ''}'' # r)"
  by (simp_all add: tail_ok_def)

lemma tail_not_digit: "tail_ok r \<Longrightarrow> r = [] \<or> \<not> is_digit (hd r)"
  by (auto simp: tail_ok_def is_digit_def)

definition fraction :: "rat \<Rightarrow> rat" where
  "fraction q = \<bar>q\<bar> - of_int \<lfloor>\<bar>q\<bar>\<rfloor>"

lemma fraction_range: "0 \<le> fraction q" "fraction q < 1"
  unfolding fraction_def by linarith+

lemma fraction_short: "short_decimal q \<Longrightarrow> fraction q * 10 ^ 6 \<in> \<int>"
proof -
  assume "short_decimal q"
  then have "\<bar>q\<bar> * 10 ^ 6 \<in> \<int>" by (cases "q < 0") (simp_all add: short_decimal_def minus_in_Ints_iff)
  moreover have "fraction q * 10 ^ 6 = \<bar>q\<bar> * 10 ^ 6 - of_int (\<lfloor>\<bar>q\<bar>\<rfloor> * 10 ^ 6)"
    by (simp add: fraction_def algebra_simps)
  ultimately show ?thesis by (metis Ints_diff Ints_of_int)
qed

definition num_rest :: "rat \<Rightarrow> string" where
  "num_rest q = (if fraction q = 0 then [] else CHR ''.'' # frac_str 6 (fraction q))"

lemma num_str_eq:
  "num_str q = (if q < 0 then ''-'' else []) @ nat_str (nat \<lfloor>\<bar>q\<bar>\<rfloor>) @ num_rest q"
  by (simp add: num_str_def num_rest_def fraction_def Let_def)

lemma num_rest_inj:
  assumes "num_rest p @ r = num_rest q @ s" "short_decimal p" "short_decimal q" "tail_ok r" "tail_ok s"
  shows "fraction p = fraction q \<and> r = s"
proof (cases "fraction p = 0 \<or> fraction q = 0")
  case True
  then show ?thesis using assms(1,4,5) by (auto simp: num_rest_def tail_ok_def split: if_splits)
next
  case False
  then have "frac_str 6 (fraction p) @ r = frac_str 6 (fraction q) @ s"
    using assms(1) by (simp add: num_rest_def)
  then have "frac_str 6 (fraction p) = frac_str 6 (fraction q) \<and> r = s"
    using tail_not_digit [OF assms(4)] tail_not_digit [OF assms(5)]
    by (intro span_inj [where P = is_digit]) (auto intro: frac_str_digits [OF fraction_range])
  then show ?thesis
    using frac_str_inj [OF fraction_range fraction_range fraction_short fraction_short] assms(2,3) by blast
qed

lemma unsigned_inj:
  assumes "nat_str a @ num_rest p @ r = nat_str b @ num_rest q @ s"
    "short_decimal p" "short_decimal q" "tail_ok r" "tail_ok s"
  shows "a = b \<and> fraction p = fraction q \<and> r = s"
proof -
  have rest: "num_rest p @ r = [] \<or> \<not> is_digit (hd (num_rest p @ r))" if "tail_ok r" for p r
    using tail_not_digit [OF that] by (auto simp: num_rest_def is_digit_def)
  have "nat_str a = nat_str b \<and> num_rest p @ r = num_rest q @ s"
    using assms(1) rest [OF assms(4)] rest [OF assms(5)]
    by (intro span_inj [where P = is_digit]) (auto intro: nat_str_digits)
  with num_rest_inj [OF _ assms(2-5)] show ?thesis by (simp add: nat_str_inj)
qed

lemma nat_str_hd: "is_digit (hd (nat_str a))"
  using nat_str_digits nat_str_not_Nil by (metis list.set_sel(1))

lemma num_str_inj:
  assumes "num_str p @ r = num_str q @ s" "short_decimal p" "short_decimal q" "tail_ok r" "tail_ok s"
  shows "p = q \<and> r = s"
proof -
  have minus: "\<not> is_digit (CHR ''-'')" by (simp add: is_digit_def)
  have no: "nat_str a @ u \<noteq> CHR ''-'' # v" for a u v
    using nat_str_hd [of a] minus by (cases "nat_str a") auto
  have sgn: "(p < 0) = (q < 0)"
    using assms(1) no by (auto simp: num_str_eq split: if_splits dest: sym)
  have "nat_str (nat \<lfloor>\<bar>p\<bar>\<rfloor>) @ num_rest p @ r = nat_str (nat \<lfloor>\<bar>q\<bar>\<rfloor>) @ num_rest q @ s"
    using assms(1) sgn by (simp add: num_str_eq split: if_splits)
  from unsigned_inj [OF this assms(2-5)]
  have "nat \<lfloor>\<bar>p\<bar>\<rfloor> = nat \<lfloor>\<bar>q\<bar>\<rfloor>" and f: "fraction p = fraction q" and "r = s" by blast+
  then have "\<lfloor>\<bar>p\<bar>\<rfloor> = \<lfloor>\<bar>q\<bar>\<rfloor>" by (simp add: eq_nat_nat_iff)
  with f have "\<bar>p\<bar> = \<bar>q\<bar>" by (simp add: fraction_def)
  with sgn \<open>r = s\<close> show ?thesis by (auto simp: abs_if split: if_splits)
qed

lemma num_str_hd: "\<exists>c cs. num_str q = c # cs \<and> (is_digit c \<or> c = CHR ''-'')"
proof (cases "q < 0")
  case True
  then show ?thesis by (simp add: num_str_eq)
next
  case False
  then show ?thesis using nat_str_hd [of "nat \<lfloor>\<bar>q\<bar>\<rfloor>"]
    by (cases "nat_str (nat \<lfloor>\<bar>q\<bar>\<rfloor>)") (auto simp: num_str_eq)
qed

subsection \<open>Values can be read back\<close>

text \<open>The serializer without sorting, with the separators attached to the elements.\<close>

fun ser :: "json \<Rightarrow> string" and sers :: "json list \<Rightarrow> string" and serm :: "(string \<times> json) list \<Rightarrow> string" where
  "ser JNull = ''null''"
| "ser (JBool b) = (if b then ''true'' else ''false'')"
| "ser (JNum q) = num_str q"
| "ser (JStr s) = json_string s"
| "ser (JArr xs) = CHR ''['' # sers xs"
| "ser (JObj kvs) = CHR ''{'' # serm kvs"
| "sers [] = [CHR '']'']"
| "sers [x] = ser x @ [CHR '']'']"
| "sers (x # y # ys) = ser x @ CHR '','' # sers (y # ys)"
| "serm [] = [CHR ''}'']"
| "serm [(k, v)] = json_string k @ CHR '':'' # ser v @ [CHR ''}'']"
| "serm ((k, v) # y # ys) = json_string k @ CHR '':'' # ser v @ CHR '','' # serm (y # ys)"

lemma join_sers: "join (map ser xs) @ '']'' = sers xs"
  by (induction xs rule: induct_list012) simp_all

lemma join_serm: "join (map (\<lambda>(k, s). json_string k @ '':'' @ s) (map (map_prod id ser) kvs)) @ ''}'' = serm kvs"
  by (induction kvs rule: induct_list012) (auto simp: map_prod_def split: prod.splits)

lemma insort_key_fst_map:
  "insort_key fst (map_prod id f kv) (map (map_prod id f) xs) = map (map_prod id f) (insort_key fst kv xs)"
  by (induction xs) (auto simp: map_prod_def split: prod.splits)

lemma sort_key_fst_map: "sort_key fst (map (map_prod id f) kvs) = map (map_prod id f) (sort_key fst kvs)"
  by (induction kvs) (simp_all only: list.map sort_key_simps insort_key_fst_map)

lemma build_ser: "build v = ser (canon v)"
proof (induction v)
  case (JArr xs)
  then have "map build xs = map ser (map canon xs)" by simp
  then have "build (JArr xs) = CHR ''['' # (join (map ser (map canon xs)) @ '']'')"
    by (simp only: build.simps append.simps)
  then show ?case by (simp only: join_sers ser.simps canon.simps)
next
  case (JObj kvs)
  have "map (map_prod id build) kvs = map (map_prod id ser) (map (map_prod id canon) kvs)"
  proof -
    have "map_prod id build kv = map_prod id ser (map_prod id canon kv)" if "kv \<in> set kvs" for kv
      using JObj [OF that] by (cases kv) (auto simp: snds.simps)
    then show ?thesis by simp
  qed
  then have "sort_key fst (map (map_prod id build) kvs)
      = map (map_prod id ser) (sort_key fst (map (map_prod id canon) kvs))"
    by (simp only: sort_key_fst_map)
  then show ?case using join_serm [of "sort_key fst (map (map_prod id canon) kvs)"] by simp
qed simp_all

text \<open>The first character of a value tells its kind.\<close>

fun kind :: "json \<Rightarrow> nat" where
  "kind JNull = 0" | "kind (JBool True) = 1" | "kind (JBool False) = 2" | "kind (JNum _) = 3"
| "kind (JStr _) = 4" | "kind (JArr _) = 5" | "kind (JObj _) = 6"

definition char_kind :: "char \<Rightarrow> nat" where
  "char_kind c =
    (if c = CHR ''n'' then 0 else if c = CHR ''t'' then 1 else if c = CHR ''f'' then 2
     else if c = CHR 0x22 then 4 else if c = CHR ''['' then 5 else if c = CHR ''{'' then 6
     else if c = CHR '']'' \<or> c = CHR ''}'' then 7 else 3)"

lemma char_kind_number: "is_digit c \<or> c = CHR ''-'' \<Longrightarrow> char_kind c = 3"
proof -
  have "\<not> is_digit d" if "d \<in> set ''ntf[{]}''" for d using that by (auto simp: is_digit_def)
  moreover have "\<not> is_digit (CHR 0x22)" by (simp add: is_digit_def)
  ultimately have "c \<notin> set ''ntf[{]}''" "c \<noteq> CHR 0x22" if "is_digit c" using that by blast+
  then show "is_digit c \<or> c = CHR ''-'' \<Longrightarrow> char_kind c = 3"
    by (cases "is_digit c") (simp_all add: char_kind_def)
qed

lemma ser_head: "\<exists>c cs. ser v = c # cs \<and> char_kind c = kind v"
proof (cases v)
  case (JNum q)
  obtain c cs where "num_str q = c # cs" "is_digit c \<or> c = CHR ''-''" using num_str_hd by blast
  then show ?thesis using JNum char_kind_number by simp
qed (auto simp: char_kind_def json_string_def)

lemma ser_kind:
  assumes "ser a @ r = ser b @ s"
  shows "kind a = kind b"
proof -
  obtain c cs where a: "ser a = c # cs" "char_kind c = kind a" using ser_head by blast
  obtain e es where b: "ser b = e # es" "char_kind e = kind b" using ser_head by blast
  have "c = e" using assms unfolding a b by simp
  with a b show ?thesis by simp
qed

lemma kind_inv:
  "kind b = 0 \<longleftrightarrow> b = JNull" "kind b = 1 \<longleftrightarrow> b = JBool True" "kind b = 2 \<longleftrightarrow> b = JBool False"
  "kind b = 3 \<longleftrightarrow> (\<exists>q. b = JNum q)" "kind b = 4 \<longleftrightarrow> (\<exists>t. b = JStr t)"
  "kind b = 5 \<longleftrightarrow> (\<exists>xs. b = JArr xs)" "kind b = 6 \<longleftrightarrow> (\<exists>kvs. b = JObj kvs)"
  by (cases b rule: kind.cases; simp)+

lemma ser_not_close: "ser a @ r \<noteq> CHR '']'' # s" "ser a @ r \<noteq> CHR ''}'' # s"
proof -
  obtain c cs where c: "ser a = c # cs" "char_kind c = kind a" using ser_head by blast
  have "kind a \<noteq> 7" by (cases a rule: kind.cases) simp_all
  with c have "c \<noteq> CHR '']''" "c \<noteq> CHR ''}''" by (auto simp: char_kind_def)
  with c show "ser a @ r \<noteq> CHR '']'' # s" "ser a @ r \<noteq> CHR ''}'' # s" by simp_all
qed

lemma json_string_head: "json_string k @ r \<noteq> CHR ''}'' # s"
  by (simp add: json_string_def)

definition shorts :: "json list \<Rightarrow> bool" where
  "shorts xs = list_all short_numbers xs"

definition shortm :: "(string \<times> json) list \<Rightarrow> bool" where
  "shortm kvs = list_all (\<lambda>kv. short_numbers (snd kv)) kvs"

lemma short_simps [simp]:
  "short_numbers (JArr xs) = shorts xs" "short_numbers (JObj kvs) = shortm kvs"
  "shorts []" "shorts (x # xs) = (short_numbers x \<and> shorts xs)"
  "shortm []" "shortm ((k, x) # kvs) = (short_numbers x \<and> shortm kvs)"
  by (simp_all add: shorts_def shortm_def list_all_iff)

declare short_numbers.simps(5,6) [simp del]

lemma sers_Cons:
  "sers (x # xs) = ser x @ (if xs = [] then [CHR '']''] else CHR '','' # sers xs)"
  by (cases xs) simp_all

lemma serm_Cons:
  "serm ((k, x) # xs) = json_string k @ CHR '':'' # ser x @ (if xs = [] then [CHR ''}''] else CHR '','' # serm xs)"
  by (cases xs) simp_all

lemma ser_inj_all:
  "\<And>b r s. short_numbers a \<Longrightarrow> short_numbers b \<Longrightarrow> tail_ok r \<Longrightarrow> tail_ok s \<Longrightarrow>
     ser a @ r = ser b @ s \<Longrightarrow> a = b \<and> r = s"
  "\<And>ys r s. shorts xs \<Longrightarrow> shorts ys \<Longrightarrow> sers xs @ r = sers ys @ s \<Longrightarrow> xs = ys \<and> r = s"
  "\<And>kys r s. shortm kxs \<Longrightarrow> shortm kys \<Longrightarrow> serm kxs @ r = serm kys @ s \<Longrightarrow> kxs = kys \<and> r = s"
proof (induction a and xs and kxs rule: ser_sers_serm.induct)
  case 1
  have "b = JNull" using ser_kind [OF "1.prems"(5)] kind_inv(1) [of b] by simp
  then show ?case using "1.prems"(5) by simp
next
  case (2 v)
  have "kind b = (if v then 1 else 2)" using ser_kind [OF "2.prems"(5)] by (cases v) simp_all
  then have "b = JBool v" by (cases v) (simp_all only: if_True if_False kind_inv)
  then show ?case using "2.prems"(5) by simp
next
  case (3 q)
  obtain p where "b = JNum p" using ser_kind [OF "3.prems"(5)] kind_inv(4) [of b] by auto
  then show ?case using "3.prems" num_str_inj [of q r p s] by simp
next
  case (4 t)
  obtain u where "b = JStr u" using ser_kind [OF "4.prems"(5)] kind_inv(5) [of b] by auto
  then show ?case using "4.prems" by (simp add: json_string_inj)
next
  case (5 xs)
  obtain ys where b: "b = JArr ys" using ser_kind [OF "5.prems"(5)] kind_inv(6) [of b] by auto
  have e: "sers xs @ r = sers ys @ s" using "5.prems"(5) by (simp add: b)
  have "xs = ys \<and> r = s" by (rule "5.IH" [OF _ _ e]) (use "5.prems"(1,2) b in simp_all)
  then show ?case by (simp add: b)
next
  case (6 kxs)
  obtain kys where b: "b = JObj kys" using ser_kind [OF "6.prems"(5)] kind_inv(7) [of b] by auto
  have e: "serm kxs @ r = serm kys @ s" using "6.prems"(5) by (simp add: b)
  have "kxs = kys \<and> r = s" by (rule "6.IH" [OF _ _ e]) (use "6.prems"(1,2) b in simp_all)
  then show ?case by (simp add: b)
next
  case 7
  show ?case
  proof (cases ys)
    case Nil
    with "7.prems"(3) show ?thesis by simp
  next
    case (Cons y zs)
    have "ser y @ (if zs = [] then [CHR '']''] else CHR '','' # sers zs) @ s = CHR '']'' # r"
      using "7.prems"(3) unfolding Cons sers_Cons by simp
    then show ?thesis using ser_not_close(1) by blast
  qed
next
  case (8 x)
  show ?case
  proof (cases ys)
    case Nil
    have "ser x @ CHR '']'' # r = CHR '']'' # s" using "8.prems"(3) unfolding Nil by simp
    then show ?thesis using ser_not_close(1) by blast
  next
    case (Cons y zs)
    let ?t = "(if zs = [] then [CHR '']''] else CHR '','' # sers zs) @ s"
    have e: "ser x @ (CHR '']'' # r) = ser y @ ?t" using "8.prems"(3) unfolding Cons sers_Cons by simp
    have "x = y \<and> CHR '']'' # r = ?t"
      by (rule "8.IH" [OF _ _ _ _ e]) (use "8.prems"(1,2) Cons in simp_all)
    with Cons show ?thesis by (cases "zs = []") simp_all
  qed
next
  case (9 x y ys' zs)
  show ?case
  proof (cases zs)
    case Nil
    have "ser x @ CHR '','' # sers (y # ys') @ r = CHR '']'' # s" using "9.prems"(3) unfolding Nil by simp
    then show ?thesis using ser_not_close(1) by blast
  next
    case (Cons z ws)
    let ?t = "(if ws = [] then [CHR '']''] else CHR '','' # sers ws) @ s"
    have e: "ser x @ (CHR '','' # sers (y # ys') @ r) = ser z @ ?t"
      using "9.prems"(3) unfolding Cons sers_Cons [of z] by simp
    have xz: "x = z \<and> CHR '','' # sers (y # ys') @ r = ?t"
      by (rule "9.IH"(1) [OF _ _ _ _ e]) (use "9.prems"(1,2) Cons in simp_all)
    then have "ws \<noteq> []" and e': "sers (y # ys') @ r = sers ws @ s" by (cases "ws = []"; simp)+
    have "y # ys' = ws \<and> r = s"
      by (rule "9.IH"(2) [OF _ _ e']) (use "9.prems"(1,2) Cons in simp_all)
    with xz Cons show ?thesis by simp
  qed
next
  case 10
  show ?case
  proof (cases kys)
    case Nil
    with "10.prems"(3) show ?thesis by simp
  next
    case (Cons ky zs)
    obtain k y where ky: "ky = (k, y)" by (cases ky)
    have "json_string k @ (CHR '':'' # ser y @ (if zs = [] then [CHR ''}''] else CHR '','' # serm zs) @ s) = CHR ''}'' # r"
      using "10.prems"(3) unfolding Cons ky serm_Cons by simp
    then show ?thesis using json_string_head by blast
  qed
next
  case (11 k v)
  show ?case
  proof (cases kys)
    case Nil
    have "json_string k @ (CHR '':'' # ser v @ CHR ''}'' # r) = CHR ''}'' # s" using "11.prems"(3) unfolding Nil by simp
    then show ?thesis using json_string_head by blast
  next
    case (Cons kz zs)
    obtain k' z where kz: "kz = (k', z)" by (cases kz)
    let ?t = "(if zs = [] then [CHR ''}''] else CHR '','' # serm zs) @ s"
    have "json_string k @ (CHR '':'' # ser v @ CHR ''}'' # r) = json_string k' @ (CHR '':'' # ser z @ ?t)"
      using "11.prems"(3) unfolding Cons kz serm_Cons by simp
    then have k: "k = k'" and e: "ser v @ (CHR ''}'' # r) = ser z @ ?t" unfolding json_string_inj by simp_all
    have "v = z \<and> CHR ''}'' # r = ?t"
      by (rule "11.IH" [OF _ _ _ _ e]) (use "11.prems"(1,2) Cons kz in simp_all)
    with Cons kz k show ?thesis by (cases "zs = []") simp_all
  qed
next
  case (12 k v y ys')
  show ?case
  proof (cases kys)
    case Nil
    have "json_string k @ (CHR '':'' # ser v @ CHR '','' # serm (y # ys') @ r) = CHR ''}'' # s"
      using "12.prems"(3) unfolding Nil by simp
    then show ?thesis using json_string_head by blast
  next
    case (Cons kz ws)
    obtain k' z where kz: "kz = (k', z)" by (cases kz)
    let ?t = "(if ws = [] then [CHR ''}''] else CHR '','' # serm ws) @ s"
    have "json_string k @ (CHR '':'' # ser v @ CHR '','' # serm (y # ys') @ r) = json_string k' @ (CHR '':'' # ser z @ ?t)"
      using "12.prems"(3) unfolding Cons kz serm_Cons [of k'] by simp
    then have k: "k = k'" and e: "ser v @ (CHR '','' # serm (y # ys') @ r) = ser z @ ?t"
      unfolding json_string_inj by simp_all
    have vz: "v = z \<and> CHR '','' # serm (y # ys') @ r = ?t"
      by (rule "12.IH"(1) [OF _ _ _ _ e]) (use "12.prems"(1,2) Cons kz in simp_all)
    then have "ws \<noteq> []" and e': "serm (y # ys') @ r = serm ws @ s" by (cases "ws = []"; simp)+
    have "y # ys' = ws \<and> r = s"
      by (rule "12.IH"(2) [OF _ _ e']) (use "12.prems"(1,2) Cons kz in \<open>simp_all del: short_simps add: shortm_def\<close>)
    with vz k Cons kz show ?thesis by simp
  qed
qed

lemma ser_inj: "short_numbers a \<Longrightarrow> short_numbers b \<Longrightarrow> ser a = ser b \<Longrightarrow> a = b"
  using ser_inj_all(1) [of a b "[]" "[]"] by (simp add: tail_ok_def)

lemma short_numbers_canon: "short_numbers (canon v) = short_numbers v"
proof (induction v)
  case (JArr xs)
  then show ?case by (simp add: shorts_def list_all_iff)
next
  case (JObj kvs)
  then show ?case by (force simp: shortm_def list_all_iff snds.simps)
qed simp_all

subsection \<open>Properties\<close>



text \<open>The text does not depend on the order in which an object's members were written: any
  permutation of members with distinct keys is serialized identically.\<close>

theorem canonical_member_order:
  assumes "distinct (map fst kvs)" and "mset kvs' = mset kvs"
  shows "canonicalStringify (JObj kvs') = canonicalStringify (JObj kvs)"
proof -
  let ?f = "map_prod id build"
  have m: "mset (map ?f kvs) = mset (map ?f kvs')" using assms(2) by (metis mset_map)
  have "distinct (map fst (map ?f kvs))" using assms(1) by (simp add: comp_def)
  then have i: "inj_on fst (set (map ?f kvs))" by (simp only: distinct_map)
  have "sort_key fst (map ?f kvs) = sort_key fst (map ?f kvs')"
  proof (rule sort_key_inj_key_eq [OF _ i])
    show "mset (map ?f kvs) = mset (sort_key fst (map ?f kvs'))" by (simp only: m mset_sort)
    show "sorted (map fst (sort_key fst (map ?f kvs')))" by (rule sorted_sort_key)
  qed
  then show ?thesis by (simp only: canonicalStringify_def build.simps)
qed

theorem canonical_member_order_witness:
  "canonicalStringify (JObj [(''kit'', JNull), (''ecu'', JBool True)])
   = canonicalStringify (JObj [(''ecu'', JBool True), (''kit'', JNull)])"
  by (rule canonical_member_order) (simp_all add: add_mset_commute)

end
