(* ===== verification/AuditLog.thy ===== *)
theory AuditLog
  imports Schema Canonical
begin

section \<open>The tamper-evident audit log\<close>

text \<open>
  Models src/modules/audit/audit-chain.ts (canonical text and hash of an entry),
  audit.service.ts (\<open>appendChained\<close>: link an entry into its day's chain and advance the head)
  and audit-verify.ts (paginated re-derivation of every chain, cross-check of the heads,
  checkpoints). The hash function is a parameter; so is \<open>readJson\<close>, what MySQL gives back for a
  stored JSON value, of which the code relies only on its members (their order may change).
\<close>

definition CHAIN_VERSION :: string where
  "CHAIN_VERSION = ''v2''"

record chain_fields =
  cf_chainId :: string
  cf_chainSeq :: nat
  cf_prevHash :: string
  cf_userId :: "nat option"
  cf_action :: string
  cf_entityType :: "string option"
  cf_entityId :: "string option"
  cf_oldValue :: json
  cf_newValue :: json
  cf_ip :: "string option"
  cf_userAgent :: "string option"
  cf_createdAt :: string

text \<open>\<open>canonicalize\<close> has the rules of \<open>canonicalStringify\<close> on JSON values.\<close>

definition canonicalize :: "json \<Rightarrow> string" where
  "canonicalize v = build v"

definition chain_json :: "chain_fields \<Rightarrow> json" where
  "chain_json f =
    JObj [(''v'', JStr CHAIN_VERSION), (''chainId'', JStr (cf_chainId f)), (''chainSeq'', jnat (cf_chainSeq f)),
      (''prevHash'', JStr (cf_prevHash f)), (''userId'', jopt jnat (cf_userId f)), (''action'', JStr (cf_action f)),
      (''entityType'', jopt JStr (cf_entityType f)), (''entityId'', jopt JStr (cf_entityId f)),
      (''oldValue'', cf_oldValue f), (''newValue'', cf_newValue f), (''ip'', jopt JStr (cf_ip f)),
      (''userAgent'', jopt JStr (cf_userAgent f)), (''createdAt'', JStr (cf_createdAt f))]"

definition buildCanonical :: "chain_fields \<Rightarrow> string" where
  "buildCanonical f = canonicalize (chain_json f)"

definition computeEntryHash :: "(string \<Rightarrow> string) \<Rightarrow> chain_fields \<Rightarrow> string" where
  "computeEntryHash sha256 f = sha256 (buildCanonical f)"

definition genesis_text :: "string \<Rightarrow> string" where
  "genesis_text chainId = ''easygas-audit-chain-genesis|'' @ CHAIN_VERSION @ ''|'' @ chainId"

definition genesisHash :: "(string \<Rightarrow> string) \<Rightarrow> string \<Rightarrow> string" where
  "genesisHash sha256 chainId = sha256 (genesis_text chainId)"

text \<open>\<open>toISOString().slice(0, 10)\<close> of the server's clock reading.\<close>

definition utcChainId :: "string \<Rightarrow> string" where
  "utcChainId clock = take 10 clock"

subsection \<open>Appending\<close>

record log_row =
  al_chain :: "string option"
  al_seq :: nat
  al_prev :: string
  al_hash :: string
  al_user :: "nat option"
  al_action :: string
  al_entity_type :: "string option"
  al_entity_id :: "string option"
  al_old :: "json option"
  al_new :: "json option"
  al_ip :: "string option"
  al_agent :: "string option"
  al_created_at :: string

record head_row =
  hd_chain :: string
  hd_hash :: string
  hd_seq :: nat

record checkpoint_row =
  cp_chain :: string
  cp_seq :: nat
  cp_hash :: string
  cp_note :: string

record audit_db =
  logs :: "log_row list"
  heads :: "head_row list"
  checkpoints :: "checkpoint_row list"

definition or_null :: "json option \<Rightarrow> json" where
  "or_null v = (case v of None \<Rightarrow> JNull | Some x \<Rightarrow> x)"

definition head_of :: "string \<Rightarrow> audit_db \<Rightarrow> head_row option" where
  "head_of c st = List.find (\<lambda>h. hd_chain h = c) (heads st)"

definition ensure_head :: "(string \<Rightarrow> string) \<Rightarrow> string \<Rightarrow> audit_db \<Rightarrow> audit_db" where
  "ensure_head sha256 c st =
    (if head_of c st = None
     then st\<lparr>heads := heads st @ [\<lparr>hd_chain = c, hd_hash = genesisHash sha256 c, hd_seq = 0\<rparr>]\<rparr>
     else st)"

definition chain_link ::
  "(string \<Rightarrow> string) \<Rightarrow> string \<Rightarrow> string \<Rightarrow> audit_entry \<Rightarrow> head_row \<Rightarrow> log_row" where
  "chain_link sha256 chainId createdAt e h =
    \<lparr>al_chain = Some chainId, al_seq = hd_seq h + 1, al_prev = hd_hash h,
     al_hash = computeEntryHash sha256
       \<lparr>cf_chainId = chainId, cf_chainSeq = hd_seq h + 1, cf_prevHash = hd_hash h,
        cf_userId = ae_user e, cf_action = ae_action e, cf_entityType = ae_entity_type e,
        cf_entityId = ae_entity_id e, cf_oldValue = or_null (ae_old e), cf_newValue = or_null (ae_new e),
        cf_ip = ae_ip e, cf_userAgent = ae_agent e, cf_createdAt = createdAt\<rparr>,
     al_user = ae_user e, al_action = ae_action e, al_entity_type = ae_entity_type e,
     al_entity_id = ae_entity_id e, al_old = ae_old e, al_new = ae_new e, al_ip = ae_ip e,
     al_agent = ae_agent e, al_created_at = createdAt\<rparr>"

text \<open>\<open>clock\<close> is the server's clock (it chooses the chain), \<open>createdAt\<close> the database's.\<close>

definition appendChained ::
  "(string \<Rightarrow> string) \<Rightarrow> string \<Rightarrow> string \<Rightarrow> audit_entry \<Rightarrow> audit_db \<Rightarrow> audit_db" where
  "appendChained sha256 clock createdAt e st =
    (let chainId = utcChainId clock; st1 = ensure_head sha256 chainId st in
     case head_of chainId st1 of
       None \<Rightarrow> st1
     | Some h \<Rightarrow>
         let row = chain_link sha256 chainId createdAt e h in
         st1\<lparr>logs := logs st1 @ [row],
             heads := map (\<lambda>k. if hd_chain k = chainId
                then k\<lparr>hd_hash := al_hash row, hd_seq := al_seq row\<rparr> else k) (heads st1)\<rparr>)"

subsection \<open>Verification\<close>

datatype chain_error = SeqGap nat nat | PrevHashMismatch nat | EntryHashMismatch nat

record chain_result =
  cr_chainId :: string
  cr_entries :: nat
  cr_error :: "chain_error option"

definition row_fields :: "(json \<Rightarrow> json) \<Rightarrow> string \<Rightarrow> log_row \<Rightarrow> chain_fields" where
  "row_fields readJson c r =
    \<lparr>cf_chainId = c, cf_chainSeq = al_seq r, cf_prevHash = al_prev r, cf_userId = al_user r,
     cf_action = al_action r, cf_entityType = al_entity_type r, cf_entityId = al_entity_id r,
     cf_oldValue = or_null (map_option readJson (al_old r)), cf_newValue = or_null (map_option readJson (al_new r)),
     cf_ip = al_ip r, cf_userAgent = al_agent r, cf_createdAt = al_created_at r\<rparr>"

text \<open>One page of rows; the state is the expected previous hash, the expected number and \<open>entries\<close>.\<close>

fun check_rows ::
  "(string \<Rightarrow> string) \<Rightarrow> (json \<Rightarrow> json) \<Rightarrow> string \<Rightarrow> string \<times> nat \<times> nat \<Rightarrow> log_row list \<Rightarrow>
   chain_result + (string \<times> nat \<times> nat)" where
  "check_rows sha256 rj c state [] = Inr state"
| "check_rows sha256 rj c (prev, seq, n) (r # rs) =
    (if al_seq r \<noteq> seq then Inl \<lparr>cr_chainId = c, cr_entries = n, cr_error = Some (SeqGap seq (al_seq r))\<rparr>
     else if al_prev r \<noteq> prev then Inl \<lparr>cr_chainId = c, cr_entries = n, cr_error = Some (PrevHashMismatch (al_seq r))\<rparr>
     else if computeEntryHash sha256 (row_fields rj c r) \<noteq> al_hash r
       then Inl \<lparr>cr_chainId = c, cr_entries = n, cr_error = Some (EntryHashMismatch (al_seq r))\<rparr>
     else check_rows sha256 rj c (al_hash r, seq + 1, n + 1) rs)"

lemma check_rows_seq:
  "check_rows sha256 rj c (prev, seq, n) rs = Inr (prev', seq', n') \<Longrightarrow>
     seq' = seq + length rs \<and> n' = n + length rs \<and> (\<forall>r\<in>set rs. al_seq r < seq')"
  by (induction sha256 rj c "(prev, seq, n)" rs arbitrary: prev seq n rule: check_rows.induct)
    (fastforce split: if_splits)+

definition chain_rows :: "string \<Rightarrow> audit_db \<Rightarrow> log_row list" where
  "chain_rows c st = sort_key al_seq (filter (\<lambda>r. al_chain r = Some c) (logs st))"

lemma page_progress:
  assumes "take k (filter (\<lambda>r. al_seq r > after) rs) \<noteq> []"
    and "\<forall>r\<in>set (take k (filter (\<lambda>r. al_seq r > after) rs)). al_seq r < seq"
  shows "length (filter (\<lambda>r. al_seq r > seq - 1) rs) < length (filter (\<lambda>r. al_seq r > after) rs)"
proof -
  let ?page = "take k (filter (\<lambda>r. al_seq r > after) rs)"
  have h: "hd ?page \<in> set ?page" using assms(1) by (rule hd_in_set)
  then have r: "hd ?page \<in> set (filter (\<lambda>r. al_seq r > after) rs)" by (rule in_set_takeD)
  have lt: "al_seq (hd ?page) < seq" using assms(2) h by blast
  have "after < seq" using r lt by simp
  then have sub: "filter (\<lambda>r. al_seq r > seq - 1) rs
      = filter (\<lambda>r. al_seq r > seq - 1) (filter (\<lambda>r. al_seq r > after) rs)"
    by (auto intro!: filter_cong)
  show ?thesis
    unfolding sub by (rule length_filter_less [OF r]) (use lt in linarith)
qed

text \<open>
  The page loop. \<open>after\<close> is the number of the last row seen, which is the expected number
  less one once a row has been checked.
\<close>

function verify_pages ::
  "(string \<Rightarrow> string) \<Rightarrow> (json \<Rightarrow> json) \<Rightarrow> string \<Rightarrow> nat \<Rightarrow> log_row list \<Rightarrow> nat \<Rightarrow> string \<times> nat \<times> nat \<Rightarrow>
   chain_result" where
  "verify_pages sha256 rj c pageSize rs after state =
    (let page = take pageSize (filter (\<lambda>r. al_seq r > after) rs) in
     if page = [] then \<lparr>cr_chainId = c, cr_entries = snd (snd state), cr_error = None\<rparr>
     else (case check_rows sha256 rj c state page of
             Inl bad \<Rightarrow> bad
           | Inr (prev, seq, n) \<Rightarrow>
               if length page < pageSize then \<lparr>cr_chainId = c, cr_entries = n, cr_error = None\<rparr>
               else verify_pages sha256 rj c pageSize rs (seq - 1) (prev, seq, n)))"
  by pat_completeness auto

termination
proof (relation "measure (\<lambda>(_, _, _, _, rs, after, _). length (filter (\<lambda>r. al_seq r > after) rs))", goal_cases)
  case 1
  show ?case by simp
next
  case (2 sha256 rj c pageSize rs after state page good prev y seq n)
  obtain p0 s0 n0 where "state = (p0, s0, n0)" by (cases state)
  with 2 have "\<forall>r\<in>set page. al_seq r < seq" using check_rows_seq by blast
  with 2 show ?case using page_progress [of pageSize after rs seq] by simp
qed

declare verify_pages.simps [simp del]

definition verifyChain :: "(string \<Rightarrow> string) \<Rightarrow> (json \<Rightarrow> json) \<Rightarrow> nat \<Rightarrow> audit_db \<Rightarrow> string \<Rightarrow> chain_result" where
  "verifyChain sha256 rj pageSize st c =
    verify_pages sha256 rj c pageSize (chain_rows c st) 0 (genesisHash sha256 c, 1, 0)"

definition chain_ids :: "audit_db \<Rightarrow> string list" where
  "chain_ids st = sort (remdups (List.map_filter al_chain (logs st)))"

definition head_mismatch :: "(string \<Rightarrow> string) \<Rightarrow> audit_db \<Rightarrow> head_row \<Rightarrow> bool" where
  "head_mismatch sha256 st h =
    (case rev (chain_rows (hd_chain h) st) of
       [] \<Rightarrow> hd_hash h \<noteq> genesisHash sha256 (hd_chain h) \<or> hd_seq h \<noteq> 0
     | r # _ \<Rightarrow> hd_hash h \<noteq> al_hash r \<or> hd_seq h \<noteq> al_seq r)"

record verify_result =
  vr_ok :: bool
  vr_chains :: "chain_result list"
  vr_totalChained :: nat
  vr_legacyUnchained :: nat
  vr_headMismatch :: "string list"

definition verifyAuditChains ::
  "(string \<Rightarrow> string) \<Rightarrow> (json \<Rightarrow> json) \<Rightarrow> nat \<Rightarrow> string option \<Rightarrow> audit_db \<Rightarrow> verify_result" where
  "verifyAuditChains sha256 rj pageSize onlyChainId st =
    (let wanted = (\<lambda>c. onlyChainId = None \<or> onlyChainId = Some c);
         chains = map (verifyChain sha256 rj pageSize st) (filter wanted (chain_ids st));
         bad = map hd_chain (filter (\<lambda>h. wanted (hd_chain h) \<and> head_mismatch sha256 st h) (heads st))
     in \<lparr>vr_ok = (list_all (\<lambda>r. cr_error r = None) chains \<and> bad = []), vr_chains = chains,
         vr_totalChained = sum_list (map cr_entries chains),
         vr_legacyUnchained = (if onlyChainId \<noteq> None then 0 else length (filter (\<lambda>r. al_chain r = None) (logs st))),
         vr_headMismatch = bad\<rparr>)"

definition writeCheckpoints :: "string \<Rightarrow> audit_db \<Rightarrow> audit_db \<times> nat" where
  "writeCheckpoints note st =
    (st\<lparr>checkpoints := checkpoints st @ map (\<lambda>h. \<lparr>cp_chain = hd_chain h, cp_seq = hd_seq h,
        cp_hash = hd_hash h, cp_note = note\<rparr>) (heads st)\<rparr>, length (heads st))"

subsection \<open>Paging does not matter\<close>

lemma check_rows_append:
  "check_rows sha256 rj c state (xs @ ys) =
     (case check_rows sha256 rj c state xs of Inl bad \<Rightarrow> Inl bad | Inr s' \<Rightarrow> check_rows sha256 rj c s' ys)"
  by (induction sha256 rj c state xs rule: check_rows.induct) simp_all

lemma check_rows_seqs:
  "check_rows sha256 rj c (prev, seq, n) rs = Inr s' \<Longrightarrow> map al_seq rs = [seq..<seq + length rs]"
proof (induction rs arbitrary: prev seq n)
  case Nil
  then show ?case by simp
next
  case (Cons r rs)
  then have "al_seq r = seq" "check_rows sha256 rj c (al_hash r, seq + 1, n + 1) rs = Inr s'"
    by (auto split: if_splits)
  then have "map al_seq (r # rs) = seq # [seq + 1..<seq + 1 + length rs]"
    using Cons.IH [OF \<open>check_rows sha256 rj c (al_hash r, seq + 1, n + 1) rs = Inr s'\<close>] by (simp del: upt_Suc)
  also have "\<dots> = [seq..<seq + length (r # rs)]" by (simp add: upt_conv_Cons del: upt_Suc)
  finally show ?case .
qed

lemma strict_above:
  assumes "sorted_wrt (<) (map al_seq xs)" "map al_seq (take k xs) = [a + 1..<a + 1 + k]" "0 < k" "k \<le> length xs"
  shows "filter (\<lambda>r. al_seq r > a + k) xs = drop k xs"
proof -
  have sw: "sorted_wrt (\<lambda>r s. al_seq r < al_seq s) (take k xs @ drop k xs)"
    using assms(1) by (simp add: sorted_wrt_map)
  have tk: "r \<in> set (take k xs) \<Longrightarrow> al_seq r \<le> a + k" for r
  proof -
    assume "r \<in> set (take k xs)"
    then have "al_seq r \<in> set (map al_seq (take k xs))" by auto
    then show ?thesis unfolding assms(2) by auto
  qed
  have "a + k \<in> set [a + 1..<a + 1 + k]" using assms(3) by simp
  then obtain t where t: "t \<in> set (take k xs)" "al_seq t = a + k"
    unfolding assms(2) [symmetric] by auto
  have dk: "r \<in> set (drop k xs) \<Longrightarrow> al_seq r > a + k" for r
    using sw t unfolding sorted_wrt_append by force
  have "filter (\<lambda>r. al_seq r > a + k) (take k xs @ drop k xs) = drop k xs"
    unfolding filter_append using tk dk by (simp add: filter_empty_conv not_less)
  then show ?thesis by simp
qed

text \<open>With distinct numbers the loop checks exactly all rows, whatever the page size.\<close>

lemma verify_pages_all:
  assumes "0 < pageSize" "sorted_wrt (<) (map al_seq rs)"
  shows "verify_pages sha256 rj c pageSize rs after (prev, after + 1, n) =
    (case check_rows sha256 rj c (prev, after + 1, n) (filter (\<lambda>r. al_seq r > after) rs) of
       Inl bad \<Rightarrow> bad
     | Inr (_, _, n') \<Rightarrow> \<lparr>cr_chainId = c, cr_entries = n', cr_error = None\<rparr>)"
proof (induction "length (filter (\<lambda>r. al_seq r > after) rs)" arbitrary: after prev n rule: less_induct)
  case less
  let ?xs = "filter (\<lambda>r. al_seq r > after) rs"
  let ?page = "take pageSize ?xs"
  have sx: "sorted_wrt (<) (map al_seq ?xs)"
    using assms(2) by (simp add: sorted_wrt_map sorted_wrt_filter)
  show ?case
  proof (cases "?page = []")
    case True
    then have "?xs = []" using assms(1) by (metis neq0_conv take_eq_Nil)
    then show ?thesis by (subst verify_pages.simps) simp
  next
    case False
    show ?thesis
    proof (cases "check_rows sha256 rj c (prev, after + 1, n) ?page")
      case (Inl bad)
      have "check_rows sha256 rj c (prev, after + 1, n) (?page @ drop pageSize ?xs) = Inl bad"
        unfolding check_rows_append Inl by simp
      then show ?thesis using False Inl by (subst verify_pages.simps) (simp add: Let_def)
    next
      case (Inr s')
      obtain prev' seq' n' where s': "s' = (prev', seq', n')" by (cases s')
      note ok = Inr [unfolded s']
      have cnt: "seq' = after + 1 + length ?page" "n' = n + length ?page"
        using check_rows_seq [OF ok] by simp_all
      have whole: "check_rows sha256 rj c (prev, after + 1, n) ?xs
          = check_rows sha256 rj c (prev', seq', n') (drop pageSize ?xs)"
        using check_rows_append [of sha256 rj c "(prev, after + 1, n)" ?page "drop pageSize ?xs"] ok by simp
      show ?thesis
      proof (cases "length ?page < pageSize")
        case True
        then have "drop pageSize ?xs = []" by simp
        then show ?thesis using False ok True whole by (subst verify_pages.simps) (simp add: Let_def)
      next
        case full: False
        then have len: "length ?page = pageSize" "pageSize \<le> length ?xs" by simp_all
        have seqs: "map al_seq ?page = [after + 1..<after + 1 + pageSize]"
          using check_rows_seqs [OF ok] unfolding len(1) .
        have rest: "filter (\<lambda>r. al_seq r > after + pageSize) ?xs = drop pageSize ?xs"
          by (rule strict_above [OF sx seqs assms(1) len(2)])
        have "filter (\<lambda>r. al_seq r > after + pageSize) rs = filter (\<lambda>r. al_seq r > after + pageSize) ?xs"
          by (auto intro!: filter_cong)
        with rest have rest': "filter (\<lambda>r. al_seq r > after + pageSize) rs = drop pageSize ?xs" by simp
        have seq: "seq' - 1 = after + pageSize" "seq' = after + pageSize + 1" using cnt len by simp_all
        have "verify_pages sha256 rj c pageSize rs after (prev, after + 1, n)
            = verify_pages sha256 rj c pageSize rs (after + pageSize) (prev', after + pageSize + 1, n')"
          using False ok full seq by (subst verify_pages.simps) (simp add: Let_def)
        also have "\<dots> = (case check_rows sha256 rj c (prev', after + pageSize + 1, n') (drop pageSize ?xs) of
             Inl bad \<Rightarrow> bad
           | Inr (_, _, n') \<Rightarrow> \<lparr>cr_chainId = c, cr_entries = n', cr_error = None\<rparr>)"
          using less [of "after + pageSize" prev' n'] rest' len assms(1) by simp
        finally show ?thesis using whole seq by simp
      qed
    qed
  qed
qed

definition chain_verified :: "(string \<Rightarrow> string) \<Rightarrow> (json \<Rightarrow> json) \<Rightarrow> string \<Rightarrow> log_row list \<Rightarrow> bool" where
  "chain_verified sha256 rj c rs \<longleftrightarrow> (\<exists>s'. check_rows sha256 rj c (genesisHash sha256 c, 1, 0) rs = Inr s')"

definition distinct_numbers :: "string \<Rightarrow> audit_db \<Rightarrow> bool" where
  "distinct_numbers c st \<longleftrightarrow> distinct (map al_seq (chain_rows c st))"

lemma chain_rows_strict: "distinct_numbers c st \<Longrightarrow> sorted_wrt (<) (map al_seq (chain_rows c st))"
  by (simp add: distinct_numbers_def strict_sorted_iff chain_rows_def)

lemma check_rows_positive:
  assumes "check_rows sha256 rj c (prev, 1, n) rs = Inr s'"
  shows "filter (\<lambda>r. al_seq r > 0) rs = rs"
proof -
  have "map al_seq rs = [1..<1 + length rs]" by (rule check_rows_seqs [OF assms])
  then have "r \<in> set rs \<Longrightarrow> al_seq r \<in> set [1..<1 + length rs]" for r by (metis image_eqI set_map)
  then have "r \<in> set rs \<Longrightarrow> 0 < al_seq r" for r by fastforce
  then show ?thesis by (simp add: filter_id_conv)
qed

lemma verifyChain_verified:
  assumes "0 < pageSize" "distinct_numbers c st" "\<forall>r\<in>set (chain_rows c st). 0 < al_seq r"
  shows "cr_error (verifyChain sha256 rj pageSize st c) = None \<longleftrightarrow> chain_verified sha256 rj c (chain_rows c st)"
proof -
  have "filter (\<lambda>r. al_seq r > 0) (chain_rows c st) = chain_rows c st"
    using assms(3) by (simp add: filter_id_conv)
  moreover have "check_rows sha256 rj c s rs = Inl bad \<Longrightarrow> cr_error bad \<noteq> None" for s rs bad
    by (induction sha256 rj c s rs rule: check_rows.induct) (auto split: if_splits)
  ultimately show ?thesis
    using verify_pages_all [OF assms(1) chain_rows_strict [OF assms(2)], of sha256 rj c 0 "genesisHash sha256 c" 0]
    by (auto simp: verifyChain_def chain_verified_def split: sum.splits)
qed

subsection \<open>What is appended verifies\<close>

definition keeps_members :: "(json \<Rightarrow> json) \<Rightarrow> bool" where
  "keeps_members rj \<longleftrightarrow> (\<forall>v. canon (rj v) = canon v)"

definition chain_log :: "string \<Rightarrow> audit_db \<Rightarrow> log_row list" where
  "chain_log c st = filter (\<lambda>r. al_chain r = Some c) (logs st)"

text \<open>Every chain checks from its genesis to its head, and the heads name different chains.\<close>

definition chains_ok :: "(string \<Rightarrow> string) \<Rightarrow> (json \<Rightarrow> json) \<Rightarrow> audit_db \<Rightarrow> bool" where
  "chains_ok sha256 rj st \<longleftrightarrow> distinct (map hd_chain (heads st)) \<and>
     (\<forall>c. case head_of c st of
        None \<Rightarrow> chain_log c st = []
      | Some h \<Rightarrow> check_rows sha256 rj c (genesisHash sha256 c, 1, 0) (chain_log c st)
                  = Inr (hd_hash h, hd_seq h + 1, hd_seq h))"

lemma chains_ok_at:
  "chains_ok sha256 rj st \<Longrightarrow>
     (case head_of c st of
        None \<Rightarrow> chain_log c st = []
      | Some h \<Rightarrow> check_rows sha256 rj c (genesisHash sha256 c, 1, 0) (chain_log c st)
                  = Inr (hd_hash h, hd_seq h + 1, hd_seq h))"
  unfolding chains_ok_def by blast

lemma chains_ok_None: "chains_ok sha256 rj st \<Longrightarrow> head_of c st = None \<Longrightarrow> chain_log c st = []"
  using chains_ok_at [of sha256 rj st c] by simp

lemma chains_ok_Some:
  "chains_ok sha256 rj st \<Longrightarrow> head_of c st = Some h \<Longrightarrow>
     check_rows sha256 rj c (genesisHash sha256 c, 1, 0) (chain_log c st) = Inr (hd_hash h, hd_seq h + 1, hd_seq h)"
  using chains_ok_at [of sha256 rj st c] by simp

lemma canon_obj_cong:
  assumes "\<And>kv. kv \<in> set (zip kvs kvs') \<Longrightarrow> fst (fst kv) = fst (snd kv) \<and> canon (snd (fst kv)) = canon (snd (snd kv))"
    and "length kvs = length kvs'"
  shows "canon (JObj kvs) = canon (JObj kvs')"
proof -
  have "map (map_prod id canon) kvs = map (map_prod id canon) kvs'"
    using assms(2,1)
  proof (induction kvs kvs' rule: list_induct2)
    case (Cons x xs y ys)
    have "map_prod id canon x = map_prod id canon y"
      using Cons.prems [of "(x, y)"] by (cases x, cases y) simp
    moreover have "map (map_prod id canon) xs = map (map_prod id canon) ys"
      by (rule Cons.IH) (use Cons.prems in auto)
    ultimately show ?case by (simp only: list.map)
  qed simp
  then show ?thesis by simp
qed

lemma or_null_canon: "keeps_members rj \<Longrightarrow> canon (or_null (map_option rj v)) = canon (or_null v)"
  by (cases v) (simp_all add: or_null_def keeps_members_def)

lemma link_hash:
  assumes "keeps_members rj"
  shows "computeEntryHash sha256 (row_fields rj c (chain_link sha256 c ts e h)) = al_hash (chain_link sha256 c ts e h)"
proof -
  have "canon (chain_json (row_fields rj c (chain_link sha256 c ts e h)))
      = canon (chain_json \<lparr>cf_chainId = c, cf_chainSeq = hd_seq h + 1, cf_prevHash = hd_hash h,
        cf_userId = ae_user e, cf_action = ae_action e, cf_entityType = ae_entity_type e,
        cf_entityId = ae_entity_id e, cf_oldValue = or_null (ae_old e), cf_newValue = or_null (ae_new e),
        cf_ip = ae_ip e, cf_userAgent = ae_agent e, cf_createdAt = ts\<rparr>)"
    unfolding chain_json_def
    by (rule canon_obj_cong) (auto simp: row_fields_def chain_link_def or_null_canon [OF assms])
  then show ?thesis
    by (simp add: computeEntryHash_def buildCanonical_def canonicalize_def build_ser chain_link_def)
qed

lemma link_fields [simp]:
  "al_seq (chain_link sha256 c ts e h) = hd_seq h + 1"
  "al_prev (chain_link sha256 c ts e h) = hd_hash h"
  "al_chain (chain_link sha256 c ts e h) = Some c"
  by (simp_all add: chain_link_def)

lemma find_map_update:
  "List.find (\<lambda>h. hd_chain h = c) (map (\<lambda>k. if hd_chain k = i then f k else k) xs) =
     (if c = i then map_option f (List.find (\<lambda>h. hd_chain h = c) xs) else List.find (\<lambda>h. hd_chain h = c) xs)"
  if "\<And>k. hd_chain (f k) = hd_chain k"
  by (induction xs) (auto simp: that)

lemma head_of_ensure:
  "head_of c (ensure_head sha256 i st) =
     (if c = i \<and> head_of i st = None then Some \<lparr>hd_chain = i, hd_hash = genesisHash sha256 i, hd_seq = 0\<rparr>
      else head_of c st)"
proof -
  have "List.find P (xs @ [x]) = (case List.find P xs of None \<Rightarrow> if P x then Some x else None | Some y \<Rightarrow> Some y)"
    for P :: "head_row \<Rightarrow> bool" and xs x by (induction xs) auto
  then show ?thesis by (auto simp: ensure_head_def head_of_def split: option.splits)
qed

lemma chains_ok_ensure:
  assumes "chains_ok sha256 rj st"
  shows "chains_ok sha256 rj (ensure_head sha256 i st)"
proof -
  have "distinct (map hd_chain (heads (ensure_head sha256 i st)))"
    using assms by (auto simp: chains_ok_def ensure_head_def head_of_def find_None_iff)
  moreover have "case head_of c (ensure_head sha256 i st) of
        None \<Rightarrow> chain_log c (ensure_head sha256 i st) = []
      | Some h \<Rightarrow> check_rows sha256 rj c (genesisHash sha256 c, 1, 0) (chain_log c (ensure_head sha256 i st))
                  = Inr (hd_hash h, hd_seq h + 1, hd_seq h)" for c
  proof -
    have log: "chain_log c (ensure_head sha256 i st) = chain_log c st"
      by (simp add: chain_log_def ensure_head_def)
    have old: "case head_of c st of None \<Rightarrow> chain_log c st = []
      | Some h \<Rightarrow> check_rows sha256 rj c (genesisHash sha256 c, 1, 0) (chain_log c st)
                  = Inr (hd_hash h, hd_seq h + 1, hd_seq h)"
      by (rule chains_ok_at [OF assms])
    show ?thesis
    proof (cases "c = i \<and> head_of i st = None")
      case True
      with old show ?thesis unfolding log head_of_ensure by simp
    next
      case False
      then have "head_of c (ensure_head sha256 i st) = head_of c st" unfolding head_of_ensure by simp
      with old show ?thesis unfolding log by simp
    qed
  qed
  ultimately show ?thesis unfolding chains_ok_def by blast
qed

lemma chains_ok_append:
  assumes ok: "chains_ok sha256 rj st" and rj: "keeps_members rj"
  shows "chains_ok sha256 rj (appendChained sha256 clock ts e st)"
proof -
  define c where "c = utcChainId clock"
  define s1 where "s1 = ensure_head sha256 c st"
  have ok1: "chains_ok sha256 rj s1" unfolding s1_def by (rule chains_ok_ensure [OF ok])
  obtain h where h: "head_of c s1 = Some h" unfolding s1_def by (cases "head_of c st") (auto simp: head_of_ensure)
  define row where "row = chain_link sha256 c ts e h"
  define s2 where "s2 = s1\<lparr>logs := logs s1 @ [row],
     heads := map (\<lambda>k. if hd_chain k = c then k\<lparr>hd_hash := al_hash row, hd_seq := al_seq row\<rparr> else k) (heads s1)\<rparr>"
  have s2: "appendChained sha256 clock ts e st = s2"
    using h by (simp add: appendChained_def Let_def c_def [symmetric] s1_def [symmetric] s2_def row_def)
  have heads2: "head_of k s2 = (if k = c then Some (h\<lparr>hd_hash := al_hash row, hd_seq := al_seq row\<rparr>) else head_of k s1)" for k
    using h by (simp add: head_of_def s2_def find_map_update)
  have log2: "chain_log k s2 = chain_log k s1 @ (if k = c then [row] else [])" for k
    by (simp add: chain_log_def s2_def row_def)
  have "map hd_chain (heads s2) = map hd_chain (heads s1)" by (simp add: s2_def)
  then have d: "distinct (map hd_chain (heads s2))" using ok1 unfolding chains_ok_def by metis
  have old: "check_rows sha256 rj c (genesisHash sha256 c, 1, 0) (chain_log c s1) = Inr (hd_hash h, hd_seq h + 1, hd_seq h)"
    by (rule chains_ok_Some [OF ok1 h])
  have new: "check_rows sha256 rj c (genesisHash sha256 c, 1, 0) (chain_log c s2)
      = Inr (al_hash row, al_seq row + 1, al_seq row)"
    using old link_hash [OF rj, of sha256 c ts e h] by (simp add: log2 check_rows_append row_def)
  show ?thesis
    unfolding s2 chains_ok_def
  proof (intro conjI d allI)
    fix k
    show "case head_of k s2 of None \<Rightarrow> chain_log k s2 = []
        | Some h \<Rightarrow> check_rows sha256 rj k (genesisHash sha256 k, 1, 0) (chain_log k s2)
                    = Inr (hd_hash h, hd_seq h + 1, hd_seq h)"
    proof (cases "k = c")
      case True
      with new show ?thesis by (simp add: heads2)
    next
      case False
      then have "head_of k s2 = head_of k s1" "chain_log k s2 = chain_log k s1" by (simp_all add: heads2 log2)
      with chains_ok_at [OF ok1, of k] show ?thesis by (simp only:)
    qed
  qed
qed

lemma chains_ok_rows:
  assumes "chains_ok sha256 rj st" "head_of c st = Some h"
  shows "chain_rows c st = chain_log c st" "map al_seq (chain_rows c st) = [1..<1 + hd_seq h]"
    "hd_seq h = length (chain_rows c st)"
proof -
  have chk: "check_rows sha256 rj c (genesisHash sha256 c, 1, 0) (chain_log c st) = Inr (hd_hash h, hd_seq h + 1, hd_seq h)"
    by (rule chains_ok_Some [OF assms])
  have n: "hd_seq h = length (chain_log c st)" using check_rows_seq [OF chk] by simp
  have s: "map al_seq (chain_log c st) = [1..<1 + length (chain_log c st)]" by (rule check_rows_seqs [OF chk])
  have "sorted (map al_seq (chain_log c st))" unfolding s by (rule sorted_upt)
  then show e: "chain_rows c st = chain_log c st"
    by (simp add: chain_rows_def chain_log_def sorted_sort_id sort_key_id_if_sorted)
  show "map al_seq (chain_rows c st) = [1..<1 + hd_seq h]" "hd_seq h = length (chain_rows c st)"
    unfolding e n using s by simp_all
qed

lemma canon_idem: "canon (canon v) = canon v"
proof (induction v)
  case (JObj kvs)
  let ?f = "map (map_prod id canon)"
  have "map_prod id canon (map_prod id canon kv) = map_prod id canon kv" if "kv \<in> set kvs" for kv
    using JObj [OF that] by (cases kv) (auto simp: snds.simps)
  then have "?f (?f kvs) = ?f kvs" by simp
  then have "?f (sort_key fst (?f kvs)) = sort_key fst (?f kvs)" by (metis sort_key_fst_map)
  then show ?case by (simp only: canon.simps sort_key_id_if_sorted [OF sorted_sort_key])
qed simp_all

definition empty_audit :: audit_db where
  "empty_audit = \<lparr>logs = [], heads = [], checkpoints = []\<rparr>"

text \<open>A run of appends: the server clock, the database clock and the entry of each call.\<close>

definition append_all ::
  "(string \<Rightarrow> string) \<Rightarrow> (string \<times> string \<times> audit_entry) list \<Rightarrow> audit_db \<Rightarrow> audit_db" where
  "append_all sha256 es st = fold (\<lambda>(clock, ts, e). appendChained sha256 clock ts e) es st"

lemma chains_ok_append_all:
  "keeps_members rj \<Longrightarrow> chains_ok sha256 rj st \<Longrightarrow> chains_ok sha256 rj (append_all sha256 es st)"
  by (induction es arbitrary: st) (auto simp: append_all_def chains_ok_append)

lemma chains_ok_empty: "chains_ok sha256 rj empty_audit"
  by (simp add: chains_ok_def empty_audit_def head_of_def chain_log_def)

lemma chains_ok_verifies:
  assumes ok: "chains_ok sha256 rj st" and k: "0 < pageSize"
  shows "vr_ok (verifyAuditChains sha256 rj pageSize only st)"
proof -
  have chain: "cr_error (verifyChain sha256 rj pageSize st c) = None" if "c \<in> set (chain_ids st)" for c
  proof -
    from that have "chain_log c st \<noteq> []"
      by (force simp: chain_ids_def chain_log_def map_filter_def filter_empty_conv)
    then obtain h where h: "head_of c st = Some h"
      using chains_ok_None [OF ok] by blast
    note rows = chains_ok_rows [OF ok h]
    have "chain_verified sha256 rj c (chain_rows c st)"
      using chains_ok_Some [OF ok h] by (simp add: rows(1) chain_verified_def)
    moreover have "distinct_numbers c st" unfolding distinct_numbers_def rows(2) by simp
    moreover have "al_seq r \<in> set [1..<1 + hd_seq h]" if "r \<in> set (chain_rows c st)" for r
      unfolding rows(2) [symmetric] using that by simp
    then have "\<forall>r\<in>set (chain_rows c st). 0 < al_seq r" by fastforce
    ultimately show ?thesis using verifyChain_verified [OF k] by blast
  qed
  have head: "\<not> head_mismatch sha256 st h" if "h \<in> set (heads st)" for h
  proof -
    have f: "head_of (hd_chain h) st = Some h"
      unfolding head_of_def using ok that by (intro find_unique) (auto simp: chains_ok_def)
    note rows = chains_ok_rows [OF ok f]
    have chk: "check_rows sha256 rj (hd_chain h) (genesisHash sha256 (hd_chain h), 1, 0) (chain_rows (hd_chain h) st)
        = Inr (hd_hash h, hd_seq h + 1, hd_seq h)"
      using chains_ok_Some [OF ok f] by (simp add: rows(1))
    show ?thesis
    proof (cases "chain_rows (hd_chain h) st" rule: rev_cases)
      case Nil
      with chk show ?thesis by (simp add: head_mismatch_def)
    next
      case (snoc rs r)
      with chk have "hd_hash h = al_hash r" "hd_seq h = al_seq r"
        by (auto simp: check_rows_append split: sum.splits if_splits)
      with snoc show ?thesis by (simp add: head_mismatch_def)
    qed
  qed
  show ?thesis
    using chain head by (auto simp: verifyAuditChains_def Let_def list_all_iff filter_empty_conv)
qed

subsection \<open>Reading the fields back\<close>

definition canon_fields :: "chain_fields \<Rightarrow> chain_fields" where
  "canon_fields f = f\<lparr>cf_oldValue := canon (cf_oldValue f), cf_newValue := canon (cf_newValue f)\<rparr>"

lemma canon_obj_lookup:
  assumes "canon (JObj kvs) = canon (JObj kvs')" "distinct (map fst kvs)" "distinct (map fst kvs')"
  shows "map_option canon (map_of kvs k) = map_option canon (map_of kvs' k)"
proof -
  let ?f = "map (map_prod id canon)"
  have "sort_key fst (?f kvs) = sort_key fst (?f kvs')" using assms(1) by (simp only: canon.simps json.inject)
  then have "mset (sort_key fst (?f kvs)) = mset (sort_key fst (?f kvs'))" by (simp only:)
  then have "mset (?f kvs) = mset (?f kvs')" by (simp only: mset_sort)
  then have "set (?f kvs) = set (?f kvs')" by (rule mset_eq_setD)
  moreover have "distinct (map fst (?f kvs))" "distinct (map fst (?f kvs'))" using assms(2,3) by (simp_all add: comp_def)
  ultimately have "map_of (?f kvs) = map_of (?f kvs')" by (simp only: map_of_inject_set)
  moreover have "map_of (?f xs) k = map_option canon (map_of xs k)" for xs by (induction xs) auto
  ultimately show ?thesis by metis
qed

lemma canon_jopt_str: "canon (jopt JStr x) = canon (jopt JStr y) \<longleftrightarrow> x = y"
  by (cases x; cases y) simp_all

lemma canon_jopt_nat: "canon (jopt jnat x) = canon (jopt jnat y) \<longleftrightarrow> x = y"
  by (cases x; cases y) simp_all

lemma canon_obj_values:
  assumes "canon (JObj kvs) = canon (JObj kvs')" "map fst kvs = map fst kvs'" "distinct (map fst kvs)"
  shows "map (\<lambda>kv. canon (snd kv)) kvs = map (\<lambda>kv. canon (snd kv)) kvs'"
proof -
  have look: "map (\<lambda>k. map_option canon (map_of xs k)) (map fst xs) = map Some (map (\<lambda>kv. canon (snd kv)) xs)"
    if "distinct (map fst xs)" for xs :: "(string \<times> json) list"
    using that by (auto simp: map_of_eq_Some_iff)
  have "distinct (map fst kvs')" using assms(2,3) by metis
  then have "map Some (map (\<lambda>kv. canon (snd kv)) kvs) = map Some (map (\<lambda>kv. canon (snd kv)) kvs')"
    using look [OF assms(3)] look [of kvs'] canon_obj_lookup [OF assms(1,3)] assms(2) by simp
  then show ?thesis by (simp only: inj_map_eq_map inj_Some)
qed

lemma chain_json_inj:
  assumes "canon (chain_json f) = canon (chain_json g)"
  shows "canon_fields f = canon_fields g"
proof -
  from assms have "map (\<lambda>kv. canon (snd kv)) (case chain_json f of JObj kvs \<Rightarrow> kvs)
      = map (\<lambda>kv. canon (snd kv)) (case chain_json g of JObj kvs \<Rightarrow> kvs)"
    unfolding chain_json_def json.case by (rule canon_obj_values) simp_all
  then show ?thesis
    unfolding chain_json_def json.case
    by (intro chain_fields.equality) (simp_all add: canon_fields_def canon_jopt_str canon_jopt_nat)
qed

definition entry_text :: "(json \<Rightarrow> json) \<Rightarrow> string \<Rightarrow> log_row \<Rightarrow> string" where
  "entry_text rj c r = buildCanonical (row_fields rj c r)"

definition hashed_texts :: "(json \<Rightarrow> json) \<Rightarrow> string \<Rightarrow> log_row list \<Rightarrow> string set" where
  "hashed_texts rj c rs = insert (genesis_text c) (entry_text rj c ` set rs)"

definition short_values :: "(json \<Rightarrow> json) \<Rightarrow> log_row \<Rightarrow> bool" where
  "short_values rj r \<longleftrightarrow> short_numbers (or_null (map_option rj (al_old r)))
     \<and> short_numbers (or_null (map_option rj (al_new r)))"

lemma short_nat [simp]: "short_decimal (of_nat n)"
  by (simp add: short_decimal_def)

lemma short_jopt_str [simp]: "short_numbers (jopt JStr x)"
  by (cases x) simp_all

lemma short_jopt_nat [simp]: "short_numbers (jopt jnat x)"
  by (cases x) simp_all

lemma entry_text_inj:
  assumes "entry_text rj c r = entry_text rj c s" "short_values rj r" "short_values rj s"
  shows "canon_fields (row_fields rj c r) = canon_fields (row_fields rj c s)"
proof -
  have short: "short_numbers (chain_json (row_fields rj c r))" if "short_values rj r" for r
    using that by (simp add: chain_json_def row_fields_def short_values_def)
  have "canon (chain_json (row_fields rj c r)) = canon (chain_json (row_fields rj c s))"
    using assms(1) short [OF assms(2)] short [OF assms(3)]
    by (auto simp: entry_text_def buildCanonical_def canonicalize_def build_ser short_numbers_canon intro: ser_inj)
  then show ?thesis by (rule chain_json_inj)
qed

lemma entry_text_not_genesis: "entry_text rj c r \<noteq> genesis_text d"
  by (simp add: entry_text_def buildCanonical_def canonicalize_def chain_json_def genesis_text_def)

definition last_hash :: "(string \<Rightarrow> string) \<Rightarrow> string \<Rightarrow> log_row list \<Rightarrow> string" where
  "last_hash sha256 c rs = (if rs = [] then genesisHash sha256 c else al_hash (last rs))"

lemma check_rows_last:
  "check_rows sha256 rj c (prev, seq, n) rs = Inr (prev', seq', n') \<Longrightarrow> prev' = (if rs = [] then prev else al_hash (last rs))"
  by (induction sha256 rj c "(prev, seq, n)" rs arbitrary: prev seq n rule: check_rows.induct)
    (auto split: if_splits)

lemma verified_snoc:
  assumes "chain_verified sha256 rj c (rs @ [r])"
  shows "chain_verified sha256 rj c rs" "al_prev r = last_hash sha256 c rs" "sha256 (entry_text rj c r) = al_hash r"
proof -
  obtain s' where s': "check_rows sha256 rj c (genesisHash sha256 c, 1, 0) (rs @ [r]) = Inr s'"
    using assms by (auto simp: chain_verified_def)
  then obtain p s n where mid: "check_rows sha256 rj c (genesisHash sha256 c, 1, 0) rs = Inr (p, s, n)"
      and last: "check_rows sha256 rj c (p, s, n) [r] = Inr s'"
    by (auto simp: check_rows_append split: sum.splits)
  show "chain_verified sha256 rj c rs" using mid by (auto simp: chain_verified_def)
  have "al_prev r = p" using last by (auto split: if_splits)
  with check_rows_last [OF mid] show "al_prev r = last_hash sha256 c rs" by (simp add: last_hash_def)
  show "sha256 (entry_text rj c r) = al_hash r"
    using last by (auto simp: computeEntryHash_def entry_text_def split: if_splits)
qed

text \<open>Two verified chains with the same last hash are the same chain, read from the end.\<close>

lemma same_head_same_chain:
  assumes "chain_verified sha256 rj c xs" "chain_verified sha256 rj c ys"
    and "last_hash sha256 c xs = last_hash sha256 c ys"
    and "inj_on sha256 (hashed_texts rj c xs \<union> hashed_texts rj c ys)"
    and "\<forall>r\<in>set xs \<union> set ys. short_values rj r"
  shows "map (\<lambda>r. canon_fields (row_fields rj c r)) xs = map (\<lambda>r. canon_fields (row_fields rj c r)) ys"
  using assms
proof (induction xs arbitrary: ys rule: rev_induct)
  case Nil
  show ?case
  proof (cases ys rule: rev_cases)
    case (snoc ys' y)
    have "sha256 (genesis_text c) = sha256 (entry_text rj c y)"
      using Nil.prems(3) verified_snoc(3) [OF Nil.prems(2) [unfolded snoc]] snoc
      by (simp add: last_hash_def genesisHash_def)
    then have "genesis_text c = entry_text rj c y"
      by (rule inj_onD [OF Nil.prems(4)]) (simp_all add: hashed_texts_def snoc)
    then show ?thesis using entry_text_not_genesis by metis
  qed simp
next
  case (snoc x xs)
  show ?case
  proof (cases ys rule: rev_cases)
    case Nil
    have "sha256 (genesis_text c) = sha256 (entry_text rj c x)"
      using snoc.prems(3) verified_snoc(3) [OF snoc.prems(1)] Nil by (simp add: last_hash_def genesisHash_def)
    then have "genesis_text c = entry_text rj c x"
      by (rule inj_onD [OF snoc.prems(4)]) (simp_all add: hashed_texts_def)
    then show ?thesis using entry_text_not_genesis by metis
  next
    case ys: (snoc ys' y)
    note vx = verified_snoc [OF snoc.prems(1)] and vy = verified_snoc [OF snoc.prems(2) [unfolded ys]]
    have "sha256 (entry_text rj c x) = sha256 (entry_text rj c y)"
      using vx(3) vy(3) snoc.prems(3) ys by (simp add: last_hash_def)
    then have "entry_text rj c x = entry_text rj c y"
      by (rule inj_onD [OF snoc.prems(4)]) (simp_all add: hashed_texts_def ys)
    then have same: "canon_fields (row_fields rj c x) = canon_fields (row_fields rj c y)"
      using snoc.prems(5) ys by (intro entry_text_inj) auto
    then have "cf_prevHash (canon_fields (row_fields rj c x)) = cf_prevHash (canon_fields (row_fields rj c y))"
      by (simp only:)
    then have "al_prev x = al_prev y" by (simp add: canon_fields_def row_fields_def)
    then have "last_hash sha256 c xs = last_hash sha256 c ys'" using vx(2) vy(2) by simp
    then have "map (\<lambda>r. canon_fields (row_fields rj c r)) xs = map (\<lambda>r. canon_fields (row_fields rj c r)) ys'"
      using snoc.prems(4,5) ys
      by (intro snoc.IH vx(1) vy(1)) (auto simp: hashed_texts_def intro: inj_on_subset)
    with same ys show ?thesis by simp
  qed
qed

subsection \<open>Properties\<close>

text \<open>C9: Whatever is appended, in any order of days and with any content, the log verifies: the
  verifier run later, with any page size and for all chains or a single one, reports every
  chain and every head as intact, also when the database returns the stored JSON values with
  their members reordered.\<close>

theorem appended_log_verifies:
  assumes "keeps_members readJson" and "0 < pageSize"
  shows "vr_ok (verifyAuditChains sha256 readJson pageSize only (append_all sha256 entries empty_audit))"
  by (rule chains_ok_verifies [OF chains_ok_append_all [OF assms(1) chains_ok_empty] assms(2)])

definition login_entry :: "nat \<Rightarrow> audit_entry" where
  "login_entry u = \<lparr>ae_user = None, ae_action = ''LOGIN'', ae_entity_type = None,
     ae_entity_id = None, ae_old = None, ae_new = Some (JObj [(''b'', jnat u), (''a'', JNull)]),
     ae_ip = None, ae_agent = None\<rparr>"

theorem appended_log_verifies_witness:
  "vr_ok (verifyAuditChains (\<lambda>s. s) canon 1 None
     (append_all (\<lambda>s. s) [(''2026-01-01T'', ''t1'', login_entry 1), (''2026-01-02T'', ''t2'', login_entry 2),
        (''2026-01-01T'', ''t3'', login_entry 3)] empty_audit))"
proof (rule appended_log_verifies)
  show "keeps_members canon" by (simp add: keeps_members_def canon_idem)
qed simp

definition proper_numbers :: "string \<Rightarrow> audit_db \<Rightarrow> bool" where
  "proper_numbers c st \<longleftrightarrow> distinct_numbers c st \<and> (\<forall>r\<in>set (chain_rows c st). 0 < al_seq r)"


definition length_hash :: "string \<Rightarrow> string" where
  "length_hash s = nat_str (length s)"

text \<open>Rows as \<open>appendChained\<close> writes them under this hash, written out.\<close>

definition day_row :: "nat \<Rightarrow> string \<Rightarrow> string \<Rightarrow> log_row" where
  "day_row n prev hash =
    \<lparr>al_chain = Some ''2026-01-01'', al_seq = n, al_prev = prev, al_hash = hash, al_user = None,
     al_action = ''LOGIN'', al_entity_type = None, al_entity_id = None, al_old = None,
     al_new = Some (JObj [(''b'', jnat n), (''a'', JNull)]), al_ip = None, al_agent = None,
     al_created_at = ''t''\<rparr>"

definition one_day :: audit_db where
  "one_day = \<lparr>logs = [day_row 1 ''41'' ''214'', day_row 2 ''214'' ''215''],
     heads = [\<lparr>hd_chain = ''2026-01-01'', hd_hash = ''215'', hd_seq = 2\<rparr>], checkpoints = []\<rparr>"

definition re_stored :: audit_db where
  "re_stored = one_day\<lparr>logs := map (\<lambda>r. r\<lparr>al_new := map_option canon (al_new r)\<rparr>) (rev (logs one_day))\<rparr>"

lemma one_day_values:
  "\<forall>r\<in>set (logs one_day). short_values (\<lambda>v. v) r \<and> short_values (\<lambda>v. v) (r\<lparr>al_new := map_option canon (al_new r)\<rparr>)"
  by (simp add: one_day_def day_row_def short_values_def or_null_def short_numbers_canon short_decimal_def)

definition one_day_texts :: "audit_db \<Rightarrow> string list" where
  "one_day_texts st = genesis_text ''2026-01-01'' # map (entry_text (\<lambda>v. v) ''2026-01-01'') (chain_rows ''2026-01-01'' st)"

definition one_day_lengths :: "string list" where
  "one_day_lengths = map length_hash (one_day_texts one_day)"

lemma one_day_hashes:
  "inj_on length_hash (hashed_texts (\<lambda>v. v) ''2026-01-01'' (chain_rows ''2026-01-01'' one_day)
     \<union> hashed_texts (\<lambda>v. v) ''2026-01-01'' (chain_rows ''2026-01-01'' re_stored))"
proof -
  have same: "one_day_texts re_stored = one_day_texts one_day" by code_simp
  have texts: "hashed_texts (\<lambda>v. v) ''2026-01-01'' (chain_rows ''2026-01-01'' st) = set (one_day_texts st)" for st
    by (simp add: hashed_texts_def one_day_texts_def)
  have "one_day_lengths = [''41'', ''214'', ''215'']" by code_simp
  then have "distinct (map length_hash (one_day_texts one_day))" by (simp add: one_day_lengths_def)
  then have "inj_on length_hash (set (one_day_texts one_day))" unfolding distinct_map by simp
  then show ?thesis by (simp add: texts same)
qed


definition forged_entry :: "log_row \<Rightarrow> log_row" where
  "forged_entry r = r\<lparr>al_action := ''LOGOUT'', al_user := Some 9\<rparr>"

definition genuine_log :: audit_db where
  "genuine_log = \<lparr>logs = [day_row 1 ''41'' ''214''],
     heads = [\<lparr>hd_chain = ''2026-01-01'', hd_hash = ''214'', hd_seq = 1\<rparr>], checkpoints = []\<rparr>"

definition forged_log :: audit_db where
  "forged_log = genuine_log\<lparr>logs := logs genuine_log @ map forged_entry (logs genuine_log)\<rparr>"


end
