(* ===== verification/AuditPaging.thy ===== *)
theory AuditPaging
  imports AuditLog
begin

section \<open>The page loop of the audit verifier\<close>

text \<open>
  Models \<open>verifyChain\<close> of src/modules/audit/audit-verify.ts a second time, as the loop it is: one
  iteration per page read, with its own variable \<open>after\<close>, and a bound on the number of
  iterations. \<open>AuditLog.verifyChain\<close> is its specification: the loop, whatever the rows of the
  table are, ends within the bound and returns what the specification returns.
\<close>

text \<open>The loop variables: \<open>after\<close>, and \<open>expectedPrev\<close>, \<open>expectedSeq\<close>, \<open>entries\<close>.\<close>

type_synonym page_state = "nat \<times> string \<times> nat \<times> nat"

text \<open>One iteration: \<open>Inl\<close> is a break or return, \<open>Inr\<close> goes round again.\<close>

definition page_step ::
  "(string \<Rightarrow> string) \<Rightarrow> (json \<Rightarrow> json) \<Rightarrow> string \<Rightarrow> nat \<Rightarrow> log_row list \<Rightarrow> page_state \<Rightarrow> chain_result + page_state" where
  "page_step sha256 rj c pageSize rs st =
    (let (after, state) = st; page = take pageSize (filter (\<lambda>r. al_seq r > after) rs) in
     if page = [] then Inl \<lparr>cr_chainId = c, cr_entries = snd (snd state), cr_error = None\<rparr>
     else (case check_rows sha256 rj c state page of
             Inl bad \<Rightarrow> Inl bad
           | Inr (prev, seq, n) \<Rightarrow>
               if length page < pageSize then Inl \<lparr>cr_chainId = c, cr_entries = n, cr_error = None\<rparr>
               else Inr (al_seq (last page), prev, seq, n)))"

text \<open>\<open>for (;;)\<close> with at most \<open>fuel\<close> iterations; \<open>None\<close> when they are used up.\<close>

fun iterate :: "('s \<Rightarrow> 'r + 's) \<Rightarrow> nat \<Rightarrow> 's \<Rightarrow> 'r option" where
  "iterate f 0 s = None"
| "iterate f (Suc fuel) s = (case f s of Inl r \<Rightarrow> Some r | Inr s' \<Rightarrow> iterate f fuel s')"

lemma page_left:
  assumes "check_rows sha256 rj c (prev, seq, n) page = Inr s'" "page = take k (filter (\<lambda>r. al_seq r > after) rs)"
    and "page \<noteq> []" "\<not> length page < k"
  shows "length (filter (\<lambda>r. al_seq r > al_seq (last page)) rs) + k \<le> length (filter (\<lambda>r. al_seq r > after) rs)"
proof -
  let ?xs = "filter (\<lambda>r. al_seq r > after) rs" and ?fin = "al_seq (last page)"
  have seqs: "map al_seq page = [seq..<seq + length page]" by (rule check_rows_seqs [OF assms(1)])
  have "?fin = last (map al_seq page)" using assms(3) by (simp add: last_map)
  then have endp: "?fin = seq + length page - 1" using assms(3) by (simp add: seqs)
  have "al_seq r \<le> ?fin" if "r \<in> set page" for r
  proof -
    have "al_seq r \<in> set (map al_seq page)" using that by simp
    then show ?thesis unfolding seqs endp by auto
  qed
  then have none: "filter (\<lambda>r. al_seq r > ?fin) page = []" by (simp add: filter_empty_conv not_less)
  have "last page \<in> set ?xs" using last_in_set [OF assms(3)] unfolding assms(2) by (rule in_set_takeD)
  then have "after < ?fin" by simp
  then have "filter (\<lambda>r. al_seq r > ?fin) rs = filter (\<lambda>r. al_seq r > ?fin) ?xs" by (auto intro!: filter_cong)
  also have "\<dots> = filter (\<lambda>r. al_seq r > ?fin) (page @ drop k ?xs)" by (simp add: assms(2))
  also have "\<dots> = filter (\<lambda>r. al_seq r > ?fin) (drop k ?xs)" unfolding filter_append none by simp
  finally have "length (filter (\<lambda>r. al_seq r > ?fin) rs) \<le> length (drop k ?xs)" by (metis length_filter_le)
  moreover have "k \<le> length ?xs" using assms(2,4) by simp
  ultimately show ?thesis by simp
qed

lemma iterate_pages:
  assumes "length (filter (\<lambda>r. al_seq r > after) rs) div pageSize < fuel"
  shows "iterate (page_step sha256 rj c pageSize rs) fuel (after, prev, seq, n) =
    Some (verify_pages sha256 rj c pageSize rs after (prev, seq, n))"
  using assms
proof (induction fuel arbitrary: after prev seq n)
  case 0
  then show ?case by simp
next
  case (Suc fuel)
  let ?xs = "filter (\<lambda>r. al_seq r > after) rs"
  define page where "page = take pageSize ?xs"
  show ?case
  proof (cases "\<exists>s'. page_step sha256 rj c pageSize rs (after, prev, seq, n) = Inr s'")
    case False
    then show ?thesis
      by (subst verify_pages.simps) (auto simp: page_step_def Let_def split: sum.splits if_splits prod.splits)
  next
    case True
    then obtain prev' seq' n' where go: "page \<noteq> []" "check_rows sha256 rj c (prev, seq, n) page = Inr (prev', seq', n')"
        "\<not> length page < pageSize"
        "page_step sha256 rj c pageSize rs (after, prev, seq, n) = Inr (al_seq (last page), prev', seq', n')"
      by (auto simp: page_step_def Let_def page_def split: sum.splits if_splits)
    have seqs: "map al_seq page = [seq..<seq + length page]" by (rule check_rows_seqs [OF go(2)])
    have "al_seq (last page) = last (map al_seq page)" using go(1) by (simp add: last_map)
    then have last: "al_seq (last page) = seq' - 1" using check_rows_seq [OF go(2)] go(1) by (simp add: seqs)
    have pos: "0 < pageSize" using go(1) by (auto simp: page_def)
    have less: "length (filter (\<lambda>r. al_seq r > al_seq (last page)) rs) + pageSize \<le> length ?xs"
      by (rule page_left [OF go(2) page_def go(1,3)])
    then have "Suc (length (filter (\<lambda>r. al_seq r > al_seq (last page)) rs) div pageSize) \<le> length ?xs div pageSize"
      using div_le_mono [OF less, of pageSize] pos by simp
    then have "length (filter (\<lambda>r. al_seq r > al_seq (last page)) rs) div pageSize < fuel" using Suc.prems by simp
    from Suc.IH [OF this] have "iterate (page_step sha256 rj c pageSize rs) fuel (al_seq (last page), prev', seq', n')
        = Some (verify_pages sha256 rj c pageSize rs (seq' - 1) (prev', seq', n'))"
      by (simp add: last)
    moreover have "verify_pages sha256 rj c pageSize rs after (prev, seq, n)
        = verify_pages sha256 rj c pageSize rs (seq' - 1) (prev', seq', n')"
      using go(1-3) by (subst verify_pages.simps) (simp add: Let_def page_def)
    ultimately show ?thesis using go(4) by simp
  qed
qed

text \<open>C40: The verifier always stops: on any table, however its rows were tampered with, and for any page size, the
  loop over the pages of a chain ends after at most \<open>n div pageSize + 1\<close> reads, where the chain has \<open>n\<close> rows,
  and returns the result of \<open>verifyChain\<close>. A larger bound changes nothing.\<close>
theorem verifier_stops:
  "iterate (page_step sha256 rj c pageSize (chain_rows c st)) (Suc (length (chain_rows c st) div pageSize) + extra)
     (0, genesisHash sha256 c, 1, 0) = Some (verifyChain sha256 rj pageSize st c)"
  unfolding verifyChain_def
  by (rule iterate_pages) (meson div_le_mono le_imp_less_Suc length_filter_le less_le_trans le_add1)

end
