(* ===== verification/Assignment.thy ===== *)
theory Assignment
  imports Schema
begin

section \<open>Job cycle and responsible technician\<close>

text \<open>
  Models src/modules/jobs/job-cycle.ts (which working status a job returns to) and
  src/modules/jobs/assignment.service.ts (the responsible technician of a job, its immutable
  assignment history, and who may execute checklist work).
\<close>

subsection \<open>job-cycle.ts\<close>

definition isReopenCycle :: "job_row \<Rightarrow> bool" where
  "isReopenCycle job =
    (if j_status job = J_REOPENED then True
     else case j_reopened_at job of
            None \<Rightarrow> False
          | Some r \<Rightarrow> (case j_closed_at job of None \<Rightarrow> True | Some c \<Rightarrow> r \<ge> c))"

definition workingStatus :: "job_row \<Rightarrow> job_status" where
  "workingStatus job = (if isReopenCycle job then J_REOPENED else J_IN_PROGRESS)"

definition isWorkable :: "job_row \<Rightarrow> bool" where
  "isWorkable job = (j_status job = J_IN_PROGRESS \<or> j_status job = J_REOPENED)"

lemma workingStatus_cases: "workingStatus job = J_REOPENED \<or> workingStatus job = J_IN_PROGRESS"
  by (simp add: workingStatus_def)

subsection \<open>assignment.service.ts\<close>

definition ASSIGNABLE_ROLES :: "role list" where
  "ASSIGNABLE_ROLES = [USTA, MASTER]"

definition TERMINAL :: "job_status list" where
  "TERMINAL = [J_COMPLETED, J_CANCELLED]"

definition insert_assignment ::
  "nat \<Rightarrow> nat \<Rightarrow> nat option \<Rightarrow> nat \<Rightarrow> provenance \<Rightarrow> string option \<Rightarrow> db \<Rightarrow> db" where
  "insert_assignment jobId cycle tech by prov reason d =
    d\<lparr>assignments := t_insert (\<lambda>i. \<lparr>ja_id = i, ja_job = jobId, ja_cycle = cycle,
       ja_technician = tech, ja_assigned_by = by, ja_provenance = prov, ja_reason = reason\<rparr>)
       (assignments d)\<rparr>"

definition assignAtCreation :: "nat \<Rightarrow> auth_user \<Rightarrow> nat \<Rightarrow> db \<Rightarrow> db" where
  "assignAtCreation jobId creator cycle d =
    (if au_role creator \<notin> set ASSIGNABLE_ROLES then d
     else insert_assignment jobId cycle (Some (au_id creator)) (au_id creator) SELF_AT_CREATION None
            (upd_job jobId (\<lambda>j. j\<lparr>j_assignee := Some (au_id creator),
                                   j_assignment_status := A_ASSIGNED\<rparr>) d))"

text \<open>The target row of the join with \<open>roles\<close> and \<open>branches\<close>: a user that is not deleted.\<close>

definition live_user :: "nat \<Rightarrow> db \<Rightarrow> user_row option" where
  "live_user i d = t_first (\<lambda>u. u_id u = i \<and> \<not> u_deleted u) (users d)"

text \<open>
  What a handler writes once its checks have passed is a function of its own, so that its
  effect on each table is a lemma (\<open>_frame\<close>) and the handler reads as checks, then writes.
\<close>

definition reassign_writes :: "req \<Rightarrow> auth_user \<Rightarrow> nat \<Rightarrow> nat \<Rightarrow> string option \<Rightarrow> job_row \<Rightarrow> db \<Rightarrow> db" where
  "reassign_writes q a jobId technicianId reason job d =
    (let d1 = upd_job jobId (\<lambda>j. j\<lparr>j_assignee := Some technicianId,
                j_assignment_status := A_ASSIGNED, j_updated_at := rq_now q\<rparr>) d;
         d2 = insert_assignment jobId (j_cycle job) (Some technicianId) (au_id a) REASSIGNED reason d1
     in logAudit q (au_id a) ''JOB_REASSIGNED'' ''job'' (nat_str jobId)
           (Some (JObj [(''technicianId'', jopt jnat (j_assignee job))]))
           (Some (JObj [(''technicianId'', jnat technicianId), (''reason'', jopt JStr reason)])) d2)"

definition reassign :: "req \<Rightarrow> auth_user \<Rightarrow> nat \<Rightarrow> nat \<Rightarrow> string option \<Rightarrow> (db, unit) tx" where
  "reassign q a jobId technicianId reason d =
    throw_if (\<not> can (au_role a) Jobs_assign) (forbidden ''FORBIDDEN'')
    (andThen (loadScopedJob a jobId d) (\<lambda>job.
     throw_if (j_status job \<in> set TERMINAL) (conflict ''JOB_TERMINAL'')
    (need (live_user technicianId d) (badRequest ''INVALID_TECHNICIAN'') (\<lambda>target.
     throw_if (u_status target \<noteq> U_ACTIVE) (conflict ''TECHNICIAN_INACTIVE'')
    (throw_if (u_role target \<notin> set ASSIGNABLE_ROLES) (badRequest ''ROLE_NOT_ASSIGNABLE'')
    (throw_if (u_branch target \<noteq> Some (j_branch job)) (conflict ''CROSS_BRANCH_ASSIGNMENT'')
    (Inr ((), reassign_writes q a jobId technicianId reason job d))))))))"

definition unassign_writes :: "req \<Rightarrow> auth_user \<Rightarrow> nat \<Rightarrow> string option \<Rightarrow> job_row \<Rightarrow> db \<Rightarrow> db" where
  "unassign_writes q a jobId reason job d =
    (let d1 = upd_job jobId (\<lambda>j. j\<lparr>j_assignee := None,
                j_assignment_status := A_UNASSIGNED, j_updated_at := rq_now q\<rparr>) d;
         d2 = insert_assignment jobId (j_cycle job) None (au_id a) UNASSIGNED reason d1
     in logAudit q (au_id a) ''JOB_UNASSIGNED'' ''job'' (nat_str jobId)
           (Some (JObj [(''technicianId'', jopt jnat (j_assignee job))]))
           (Some (JObj [(''technicianId'', JNull), (''reason'', jopt JStr reason)])) d2)"

definition unassign :: "req \<Rightarrow> auth_user \<Rightarrow> nat \<Rightarrow> string option \<Rightarrow> (db, unit) tx" where
  "unassign q a jobId reason d =
    throw_if (\<not> can (au_role a) Jobs_assign) (forbidden ''FORBIDDEN'')
    (andThen (loadScopedJob a jobId d) (\<lambda>job.
     throw_if (j_status job \<in> set TERMINAL) (conflict ''JOB_TERMINAL'')
    (Inr ((), unassign_writes q a jobId reason job d))))"

definition getAssignmentHistory :: "auth_user \<Rightarrow> nat \<Rightarrow> db \<Rightarrow> api_error + assignment_row list" where
  "getAssignmentHistory a jobId d =
    andThen (loadScopedJob a jobId d) (\<lambda>_.
      Inr (t_where (\<lambda>r. ja_job r = jobId) (assignments d)))"

definition full_name :: "user_row \<Rightarrow> string" where
  "full_name u = u_first_name u @ '' '' @ u_last_name u"

text \<open>The candidates, in key order; the collation order of the names is not modelled.\<close>

definition listCandidates :: "auth_user \<Rightarrow> nat \<Rightarrow> db \<Rightarrow> api_error + (nat \<times> string \<times> role) list" where
  "listCandidates a jobId d =
    throw_if (\<not> can (au_role a) Jobs_assign) (forbidden ''FORBIDDEN'')
    (andThen (loadScopedJob a jobId d) (\<lambda>job.
      Inr (map (\<lambda>u. (u_id u, full_name u, u_role u))
        (t_where (\<lambda>u. u_branch u = Some (j_branch job) \<and> u_status u = U_ACTIVE \<and>
             \<not> u_deleted u \<and> u_role u \<in> set ASSIGNABLE_ROLES) (users d)))))"

definition canExecuteJob :: "auth_user \<Rightarrow> job_row \<Rightarrow> bool" where
  "canExecuteJob a job =
    (if au_role a = MASTER then True
     else case j_assignee job of None \<Rightarrow> True | Some t \<Rightarrow> t = au_id a)"

lemma insert_assignment_frame [simp]:
  "users (insert_assignment i c t b p r d) = users d"
  "branches (insert_assignment i c t b p r d) = branches d"
  "customers (insert_assignment i c t b p r d) = customers d"
  "vehicles (insert_assignment i c t b p r d) = vehicles d"
  "templates (insert_assignment i c t b p r d) = templates d"
  "jobs (insert_assignment i c t b p r d) = jobs d"
  "checklists (insert_assignment i c t b p r d) = checklists d"
  "jsteps (insert_assignment i c t b p r d) = jsteps d"
  "smeas (insert_assignment i c t b p r d) = smeas d"
  "approvals (insert_assignment i c t b p r d) = approvals d"
  "photos (insert_assignment i c t b p r d) = photos d"
  "signatures (insert_assignment i c t b p r d) = signatures d"
  "risks (insert_assignment i c t b p r d) = risks d"
  "matrices (insert_assignment i c t b p r d) = matrices d"
  "snapshots (insert_assignment i c t b p r d) = snapshots d"
  "gps_events (insert_assignment i c t b p r d) = gps_events d"
  "versions (insert_assignment i c t b p r d) = versions d"
  "csteps (insert_assignment i c t b p r d) = csteps d"
  "mdefs (insert_assignment i c t b p r d) = mdefs d"
  "audits (insert_assignment i c t b p r d) = audits d"
  by (simp_all add: insert_assignment_def)

subsection \<open>The assignment history and the pointer agree\<close>

text \<open>
  The responsible technician of every job is the technician of the last row of its
  assignment history, and a job without history is unassigned.
\<close>

definition last_assignment :: "nat \<Rightarrow> db \<Rightarrow> assignment_row option" where
  "last_assignment jobId d = t_last (\<lambda>r. ja_job r = jobId) (assignments d)"

definition assignment_ok :: "db \<Rightarrow> bool" where
  "assignment_ok d \<longleftrightarrow>
     (\<forall>j\<in>set (rows (jobs d)). j_assignee j =
        (case last_assignment (j_id j) d of None \<Rightarrow> None | Some r \<Rightarrow> ja_technician r)) \<and>
     (\<forall>r\<in>set (rows (assignments d)). ja_job r < next_id (jobs d))"

lemma last_assignment_insert:
  "last_assignment i (insert_assignment jobId c t b p r d) =
     (if i = jobId then Some \<lparr>ja_id = next_id (assignments d), ja_job = jobId, ja_cycle = c,
        ja_technician = t, ja_assigned_by = b, ja_provenance = p, ja_reason = r\<rparr>
      else last_assignment i d)"
  by (simp add: last_assignment_def insert_assignment_def t_last_def t_insert_def)

lemma last_assignment_cong: "assignments d = assignments e \<Longrightarrow> last_assignment i d = last_assignment i e"
  by (simp add: last_assignment_def)

lemma assignment_ok_cong:
  "assignments d = assignments e \<Longrightarrow> jobs d = jobs e \<Longrightarrow> assignment_ok d = assignment_ok e"
  by (simp add: assignment_ok_def last_assignment_def)

text \<open>A job update that leaves keys and assignees alone keeps the agreement.\<close>

lemma assignment_ok_upd_job:
  assumes "assignment_ok d" "\<And>j. j_assignee (f j) = j_assignee j" "\<And>j. j_id (f j) = j_id j"
  shows "assignment_ok (upd_job i f d)"
  using assms
  by (auto simp: assignment_ok_def jobs_upd_job update_id_def set_rows_update
      last_assignment_cong [of "upd_job i f d" d])

lemma assignment_ok_assign:
  assumes ok: "assignment_ok d" and ex: "by_id j_id i (jobs d) \<noteq> None" and key: "keyed j_id (jobs d)"
    and f: "\<And>j. j_assignee (f j) = t" "\<And>j. j_id (f j) = j_id j"
  shows "assignment_ok (insert_assignment i c t b p r (upd_job i f d))"
proof -
  let ?d = "insert_assignment i c t b p r (upd_job i f d)"
  have last: "last_assignment k ?d = (if k = i then Some \<lparr>ja_id = next_id (assignments d), ja_job = i,
      ja_cycle = c, ja_technician = t, ja_assigned_by = b, ja_provenance = p, ja_reason = r\<rparr>
      else last_assignment k d)" for k
    by (simp add: last_assignment_insert last_assignment_cong [of "upd_job i f d" d])
  have "j_assignee j = (case last_assignment (j_id j) ?d of None \<Rightarrow> None | Some r \<Rightarrow> ja_technician r)"
    if j: "j \<in> set (rows (jobs ?d))" for j
  proof -
    from j obtain j0 where j0: "j0 \<in> set (rows (jobs d))" "j = (if j_id j0 = i then f j0 else j0)"
      by (auto simp: jobs_upd_job update_id_def set_rows_update)
    show ?thesis
      using j0 ok f by (cases "j_id j0 = i") (simp_all add: last assignment_ok_def)
  qed
  moreover have "i < next_id (jobs d)"
    using ex key by (auto simp: keyed_def dest!: by_id_Some)
  ultimately show ?thesis
    using ok by (auto simp: assignment_ok_def insert_assignment_def set_rows_insert jobs_upd_job update_id_def)
qed

end
