(* ===== verification/RiskPolicy.thy ===== *)
theory RiskPolicy
  imports Schema
begin

section \<open>Risk matrix and its governance\<close>

text \<open>
  Models src/modules/risk/risk-matrix.ts (the fixed v1 matrix) and
  src/modules/risk/risk-policy.service.ts: classification of a risk under a stored matrix
  definition, validation of a definition, and the DRAFT, ACTIVE, RETIRED life cycle of the
  stored versions with its fail-closed readers.
\<close>

subsection \<open>The v1 matrix (risk-matrix.ts)\<close>

datatype risk_level = LOW | MEDIUM | HIGH | CRITICAL

fun risk_level_str :: "risk_level \<Rightarrow> string" where
  "risk_level_str LOW = ''LOW''"
| "risk_level_str MEDIUM = ''MEDIUM''"
| "risk_level_str HIGH = ''HIGH''"
| "risk_level_str CRITICAL = ''CRITICAL''"

text \<open>Levels are ordered by \<open>LEVEL_ORDER\<close>.\<close>

fun LEVEL_ORDER :: "risk_level \<Rightarrow> nat" where
  "LEVEL_ORDER LOW = 0"
| "LEVEL_ORDER MEDIUM = 1"
| "LEVEL_ORDER HIGH = 2"
| "LEVEL_ORDER CRITICAL = 3"

lemma LEVEL_ORDER_inj: "LEVEL_ORDER a = LEVEL_ORDER b \<longleftrightarrow> a = b"
  by (cases a; cases b) simp_all

instantiation risk_level :: linorder
begin

definition less_eq_risk_level :: "risk_level \<Rightarrow> risk_level \<Rightarrow> bool" where
  "less_eq_risk_level a b \<longleftrightarrow> LEVEL_ORDER a \<le> LEVEL_ORDER b"

definition less_risk_level :: "risk_level \<Rightarrow> risk_level \<Rightarrow> bool" where
  "less_risk_level a b \<longleftrightarrow> LEVEL_ORDER a < LEVEL_ORDER b"

instance
  by standard (auto simp: less_eq_risk_level_def less_risk_level_def LEVEL_ORDER_inj)

end

lemmas risk_level_order = less_eq_risk_level_def less_risk_level_def

definition RISK_MATRIX_VERSION :: string where
  "RISK_MATRIX_VERSION = ''v1''"

text \<open>\<open>clampInt\<close>: non-finite input counts as 1, finite input is rounded and clamped to 1..4.\<close>

definition clampInt :: "jsnum \<Rightarrow> int" where
  "clampInt v = (case v of Fin q \<Rightarrow> min 4 (max 1 (js_round q)) | _ \<Rightarrow> 1)"

record risk_assessment =
  as_version :: string
  as_score :: int
  as_level :: string
  as_blocking :: bool

definition computeRisk_level :: "jsnum \<Rightarrow> jsnum \<Rightarrow> risk_source \<Rightarrow> risk_level" where
  "computeRisk_level sev lik src =
    (let severity = clampInt sev; likelihood = clampInt lik; score = severity * likelihood;
         level = (if score \<ge> 12 then CRITICAL else if score \<ge> 8 then HIGH
                  else if score \<ge> 4 then MEDIUM else LOW)
     in if src = STOP_REJECTED then CRITICAL
        else if severity = 4 \<and> level \<noteq> CRITICAL then HIGH
        else level)"

definition computeRisk :: "jsnum \<Rightarrow> jsnum \<Rightarrow> risk_source \<Rightarrow> risk_assessment" where
  "computeRisk sev lik src =
    \<lparr>as_version = RISK_MATRIX_VERSION, as_score = clampInt sev * clampInt lik,
     as_level = risk_level_str (computeRisk_level sev lik src),
     as_blocking = (computeRisk_level sev lik src = CRITICAL)\<rparr>"

definition isBlockingLevel :: "string \<Rightarrow> bool" where
  "isBlockingLevel level = (level = ''CRITICAL'')"

lemma clampInt_range: "1 \<le> clampInt v \<and> clampInt v \<le> 4"
  by (cases v) (auto simp: clampInt_def)

lemma clampInt_id: "1 \<le> n \<Longrightarrow> n \<le> 4 \<Longrightarrow> clampInt (Fin (of_int n)) = n"
  by (simp add: clampInt_def)

lemma clampInt_mono: "p \<le> q \<Longrightarrow> clampInt (Fin p) \<le> clampInt (Fin q)"
  using js_round_mono [of p q] by (simp add: clampInt_def)

subsection \<open>Classification under a definition\<close>

definition V1_DEFINITION :: matrix_def where
  "V1_DEFINITION =
    \<lparr>algorithm = ''severity_x_likelihood'',
     allowedSeverity = [1, 2, 3, 4],
     allowedLikelihood = [1, 2, 3, 4],
     thresholds = [(12, ''CRITICAL''), (8, ''HIGH''), (4, ''MEDIUM''), (0, ''LOW'')],
     blockingLevels = [''CRITICAL''],
     sourceOverrides = [(STOP_REJECTED, ''CRITICAL'')],
     severity4MinLevel = Some ''HIGH''\<rparr>"

text \<open>\<open>LEVEL_ORDER[level]\<close> on a string; an unknown level reads \<open>undefined\<close>.\<close>

definition level_rank :: "string \<Rightarrow> nat option" where
  "level_rank s = (if s = ''LOW'' then Some 0 else if s = ''MEDIUM'' then Some 1
     else if s = ''HIGH'' then Some 2 else if s = ''CRITICAL'' then Some 3 else None)"

text \<open>Comparing with \<open>undefined\<close> is false.\<close>

definition rank_less :: "string \<Rightarrow> string \<Rightarrow> bool" where
  "rank_less a b = (case (level_rank a, level_rank b) of (Some m, Some n) \<Rightarrow> m < n | _ \<Rightarrow> False)"

text \<open>The first threshold that the score reaches; the initial value of the loop is LOW.\<close>

fun threshold_level :: "(rat \<times> string) list \<Rightarrow> int \<Rightarrow> string" where
  "threshold_level [] score = ''LOW''"
| "threshold_level ((m, l) # ts) score =
    (if m \<le> of_int score then l else threshold_level ts score)"

definition classify :: "matrix_def \<Rightarrow> jsnum \<Rightarrow> jsnum \<Rightarrow> risk_source \<Rightarrow> int \<times> string \<times> bool" where
  "classify def severity likelihood source =
    (let s = clampInt severity; l = clampInt likelihood; score = s * l;
         level0 = threshold_level (thresholds def) score;
         override = map_of (sourceOverrides def) source;
         level =
           (case override of
              Some ov \<Rightarrow> if ov \<noteq> [] then ov
                else (case severity4MinLevel def of
                        Some ml \<Rightarrow> if ml \<noteq> [] \<and> s = 4 \<and> rank_less level0 ml then ml else level0
                      | None \<Rightarrow> level0)
            | None \<Rightarrow>
                (case severity4MinLevel def of
                   Some ml \<Rightarrow> if ml \<noteq> [] \<and> s = 4 \<and> rank_less level0 ml then ml else level0
                 | None \<Rightarrow> level0))
     in (score, level, level \<in> set (blockingLevels def)))"

subsection \<open>Validation of a definition\<close>

text \<open>The problem strings; the two with an interpolated value carry it.\<close>

datatype problem =
    UnsupportedAlgorithm | SeverityRequired | LikelihoodRequired | ThresholdsRequired
  | NoCatchAll | InvalidThresholdLevel string | NotDescending
  | BlockingRequired | CriticalNotBlocking | ScoreUnclassified rat

definition RISK_LEVELS :: "string list" where
  "RISK_LEVELS = [''LOW'', ''MEDIUM'', ''HIGH'', ''CRITICAL'']"

fun not_descending :: "(rat \<times> string) list \<Rightarrow> problem list" where
  "not_descending ((m, _) # (n, k) # ts) =
    (if n > m then [NotDescending] else []) @ not_descending ((n, k) # ts)"
| "not_descending _ = []"

definition threshold_problems :: "(rat \<times> string) list \<Rightarrow> problem list" where
  "threshold_problems ts =
    (if ts = [] then [ThresholdsRequired]
     else (if \<not> list_ex (\<lambda>(m, _). m \<le> 1) ts then [NoCatchAll] else [])
        @ concat (map (\<lambda>(_, l). if l \<notin> set RISK_LEVELS then [InvalidThresholdLevel l] else []) ts)
        @ not_descending ts)"

definition coverage_problems :: "matrix_def \<Rightarrow> problem list" where
  "coverage_problems d =
    concat (map (\<lambda>s. concat (map (\<lambda>l.
        if \<not> list_ex (\<lambda>(m, _). m \<le> s * l) (thresholds d) then [ScoreUnclassified (s * l)] else [])
      (allowedLikelihood d))) (allowedSeverity d))"

definition validateDefinition :: "matrix_def \<Rightarrow> problem list" where
  "validateDefinition d =
    (if algorithm d \<noteq> ''severity_x_likelihood'' then [UnsupportedAlgorithm] else [])
    @ (if allowedSeverity d = [] then [SeverityRequired] else [])
    @ (if allowedLikelihood d = [] then [LikelihoodRequired] else [])
    @ threshold_problems (thresholds d)
    @ (if blockingLevels d = [] then [BlockingRequired]
       else if ''CRITICAL'' \<notin> set (blockingLevels d) then [CriticalNotBlocking] else [])
    @ coverage_problems d"

definition buildCells :: "matrix_def \<Rightarrow> (rat \<times> rat \<times> int \<times> string \<times> bool) list" where
  "buildCells d =
    concat (map (\<lambda>s. map (\<lambda>l. (s, l, classify d (Fin s) (Fin l) MANUAL)) (allowedLikelihood d))
      (allowedSeverity d))"

subsection \<open>Readers of the active matrix\<close>

definition getActiveMatrix :: "db \<Rightarrow> (string \<times> matrix_def) option" where
  "getActiveMatrix d =
    map_option (\<lambda>m. (mx_version m, mx_definition m))
      (t_first (\<lambda>m. mx_status m = M_ACTIVE) (matrices d))"

definition riskPolicyActive :: "db \<Rightarrow> bool" where
  "riskPolicyActive d = (getActiveMatrix d \<noteq> None)"

definition policyNotApproved :: api_error where
  "policyNotApproved = ApiError 409 ''RISK_POLICY_NOT_APPROVED'' []"

definition assessRisk :: "db \<Rightarrow> jsnum \<Rightarrow> jsnum \<Rightarrow> risk_source \<Rightarrow> api_error + risk_assessment" where
  "assessRisk d severity likelihood source =
    (case getActiveMatrix d of
       None \<Rightarrow> Inl policyNotApproved
     | Some (v, def) \<Rightarrow>
         (case classify def severity likelihood source of
            (score, level, blocking) \<Rightarrow>
              Inr \<lparr>as_version = v, as_score = score, as_level = level, as_blocking = blocking\<rparr>))"

definition assertRiskPolicyApproved :: "db \<Rightarrow> (api_error + 'a) \<Rightarrow> api_error + 'a" where
  "assertRiskPolicyApproved d k = throw_if (\<not> riskPolicyActive d) policyNotApproved k"

subsection \<open>Governance operations\<close>

definition canReadMatrices :: "auth_user \<Rightarrow> bool" where
  "canReadMatrices a = (can (au_role a) Risk_matrix_approve \<or> can (au_role a) Services_view_all)"

text \<open>Read-only illustrative classification of one stored version, whatever its status.\<close>

definition previewClassification ::
  "auth_user \<Rightarrow> string \<Rightarrow> rat \<Rightarrow> rat \<Rightarrow> risk_source option \<Rightarrow> db \<Rightarrow>
   api_error + (string \<times> matrix_status \<times> int \<times> string \<times> bool)" where
  "previewClassification a version severity likelihood source d =
    throw_if (\<not> canReadMatrices a) (forbidden ''FORBIDDEN'')
    (need (t_first (\<lambda>m. mx_version m = version) (matrices d)) notFound (\<lambda>row.
      let def = mx_definition row; src = (case source of None \<Rightarrow> MANUAL | Some s \<Rightarrow> s) in
      throw_if (severity \<notin> set (allowedSeverity def)) (ApiError 422 ''INVALID_SEVERITY'' [])
      (throw_if (likelihood \<notin> set (allowedLikelihood def)) (ApiError 422 ''INVALID_LIKELIHOOD'' [])
      (Inr (mx_version row, mx_status row, classify def (Fin severity) (Fin likelihood) src)))))"

text \<open>\<open>/^[a-zA-Z0-9._-]{1,32}$/\<close>\<close>

definition version_char :: "char \<Rightarrow> bool" where
  "version_char c =
    (let n = (of_char c :: nat)
     in (97 \<le> n \<and> n \<le> 122) \<or> (65 \<le> n \<and> n \<le> 90) \<or> (48 \<le> n \<and> n \<le> 57)
        \<or> c = CHR ''.'' \<or> c = CHR ''_'' \<or> c = CHR ''-'')"

definition valid_version :: "string \<Rightarrow> bool" where
  "valid_version v = (1 \<le> length v \<and> length v \<le> 32 \<and> list_all version_char v)"

definition createMatrixVersion ::
  "req \<Rightarrow> auth_user \<Rightarrow> string \<Rightarrow> matrix_def \<Rightarrow> (db, string) tx" where
  "createMatrixVersion q a version def d =
    throw_if (\<not> can (au_role a) Risk_matrix_approve) (forbidden ''FORBIDDEN'')
    (throw_if (\<not> valid_version version) (badRequest ''INVALID_VERSION'')
    (throw_if (validateDefinition def \<noteq> [])
       (ApiError 422 ''INVALID_MATRIX'' (map (\<lambda>_. ''definition'') (validateDefinition def)))
    (throw_if (t_first (\<lambda>m. mx_version m = version) (matrices d) \<noteq> None) (conflict ''VERSION_EXISTS'')
    (let d1 = d\<lparr>matrices := t_insert (\<lambda>i. \<lparr>mx_id = i, mx_version = version, mx_definition = def,
                 mx_status = M_DRAFT, mx_approved_by = None, mx_approved_at = None,
                 mx_rationale = None, mx_superseded_by = None\<rparr>) (matrices d)\<rparr>
     in Inr (version, logAudit q (au_id a) ''RISK_MATRIX_CREATED'' ''risk_matrix'' version None
              (Some (JObj [(''version'', JStr version), (''status'', JStr ''DRAFT'')])) d1)))))"

text \<open>
  \<open>lockPolicyControl\<close> serializes activations and retirements; here every transaction body is
  one atomic function already. The loop retires each other ACTIVE version with its audit.
\<close>

definition retire_other :: "req \<Rightarrow> auth_user \<Rightarrow> matrix_row \<Rightarrow> matrix_row \<Rightarrow> db \<Rightarrow> db" where
  "retire_other q a target r d =
    logAudit q (au_id a) ''RISK_MATRIX_RETIRED'' ''risk_matrix'' (mx_version r)
      (Some (JObj [(''status'', JStr ''ACTIVE'')]))
      (Some (JObj [(''status'', JStr ''RETIRED''), (''supersededBy'', JStr (mx_version target))]))
      (d\<lparr>matrices := update_id mx_id (mx_id r)
           (\<lambda>m. m\<lparr>mx_status := M_RETIRED, mx_superseded_by := Some (mx_id target)\<rparr>) (matrices d)\<rparr>)"

definition activateMatrix :: "req \<Rightarrow> auth_user \<Rightarrow> string \<Rightarrow> string \<Rightarrow> (db, unit) tx" where
  "activateMatrix q a version rationale d =
    throw_if (\<not> can (au_role a) Risk_matrix_approve) (forbidden ''FORBIDDEN'')
    (throw_if (blank rationale) (badRequest ''RATIONALE_REQUIRED'')
    (need (t_first (\<lambda>m. mx_version m = version) (matrices d)) notFound (\<lambda>target.
      throw_if (mx_status target = M_RETIRED) (conflict ''MATRIX_RETIRED'')
      (throw_if (validateDefinition (mx_definition target) \<noteq> [])
         (ApiError 422 ''INVALID_MATRIX''
            (map (\<lambda>_. ''definition'') (validateDefinition (mx_definition target))))
      (let others = t_where (\<lambda>m. mx_status m = M_ACTIVE \<and> mx_version m \<noteq> version) (matrices d);
           d1 = fold (retire_other q a target) others d;
           d2 = d1\<lparr>matrices := update_id mx_id (mx_id target)
                  (\<lambda>m. m\<lparr>mx_status := M_ACTIVE, mx_approved_by := Some (au_id a),
                         mx_approved_at := Some (rq_now q), mx_rationale := Some (trim rationale)\<rparr>)
                  (matrices d1)\<rparr>
       in Inr ((), logAudit q (au_id a) ''RISK_MATRIX_ACTIVATED'' ''risk_matrix'' version None
             (Some (JObj [(''version'', JStr version), (''rationale'', JStr (trim rationale))])) d2))))))"

definition retire_writes :: "req \<Rightarrow> auth_user \<Rightarrow> string \<Rightarrow> matrix_row \<Rightarrow> db \<Rightarrow> db" where
  "retire_writes q a version row d =
    logAudit q (au_id a) ''RISK_MATRIX_RETIRED'' ''risk_matrix'' version
      (Some (JObj [(''status'', JStr (matrix_status_str (mx_status row)))]))
      (Some (JObj [(''status'', JStr ''RETIRED'')]))
      (d\<lparr>matrices := update_id mx_id (mx_id row) (\<lambda>m. m\<lparr>mx_status := M_RETIRED\<rparr>) (matrices d)\<rparr>)"

definition retireMatrix :: "req \<Rightarrow> auth_user \<Rightarrow> string \<Rightarrow> (db, unit) tx" where
  "retireMatrix q a version d =
    throw_if (\<not> can (au_role a) Risk_matrix_approve) (forbidden ''FORBIDDEN'')
    (need (t_first (\<lambda>m. mx_version m = version) (matrices d)) notFound (\<lambda>row.
      if mx_status row = M_RETIRED then Inr ((), d)
      else Inr ((), retire_writes q a version row d)))"

subsection \<open>Classification: lemmas\<close>

lemma threshold_level_first:
  "threshold_level ts score = (case List.find (\<lambda>(m, l). m \<le> of_int score) ts of
     None \<Rightarrow> ''LOW'' | Some (m, l) \<Rightarrow> l)"
  by (induction ts score rule: threshold_level.induct) auto

lemma not_descending_Nil_Cons:
  "not_descending (p # ts) = [] \<Longrightarrow> not_descending ts = [] \<and> (\<forall>(n, k)\<in>set ts. n \<le> fst p)"
proof (induction ts arbitrary: p)
  case Nil
  then show ?case by simp
next
  case (Cons b ts)
  obtain m l where p: "p = (m, l)" by (cases p)
  obtain n k where b: "b = (n, k)" by (cases b)
  from Cons.prems have "n \<le> m" and nd: "not_descending (b # ts) = []"
    by (auto simp: p b split: if_splits)
  with Cons.IH [OF nd] show ?case by (auto simp: p b)
qed

text \<open>On a descending list the first threshold reached is the highest one reached.\<close>

lemma threshold_level_highest:
  assumes "not_descending ts = []" and "\<exists>(m, l)\<in>set ts. m \<le> of_int score"
  shows "\<exists>m. (m, threshold_level ts score) \<in> set ts \<and> m \<le> of_int score \<and>
           (\<forall>(n, k)\<in>set ts. n \<le> of_int score \<longrightarrow> n \<le> m)"
  using assms
proof (induction ts)
  case Nil
  then show ?case by simp
next
  case (Cons p ts)
  obtain m l where p: "p = (m, l)" by (cases p)
  have nd: "not_descending ts = []" and le: "\<forall>(n, k)\<in>set ts. n \<le> m"
    using not_descending_Nil_Cons [OF Cons.prems(1)] p by auto
  show ?case
  proof (cases "m \<le> of_int score")
    case True
    then show ?thesis using le p by (auto intro!: exI [of _ m])
  next
    case False
    with Cons.prems(2) p have "\<exists>(m, l)\<in>set ts. m \<le> of_int score" by auto
    from Cons.IH [OF nd this] show ?thesis using False p by auto
  qed
qed

lemma valid_thresholds:
  assumes "validateDefinition d = []"
  shows "not_descending (thresholds d) = []" "\<exists>(m, l)\<in>set (thresholds d). m \<le> 1"
    "\<forall>(m, l)\<in>set (thresholds d). l \<in> set RISK_LEVELS" "''CRITICAL'' \<in> set (blockingLevels d)"
  using assms
  by (auto simp: validateDefinition_def threshold_problems_def list_ex_iff split: if_splits)

lemma score_pos: "1 \<le> clampInt s * clampInt l"
  using clampInt_range [of s] clampInt_range [of l]
  by (metis mult.right_neutral mult_mono zero_le_one order_trans)

lemma score_bound: "clampInt s * clampInt l \<le> 16"
proof -
  have "clampInt s * clampInt l \<le> 4 * 4"
    using clampInt_range [of s] clampInt_range [of l] by (intro mult_mono) auto
  then show ?thesis by simp
qed

lemma v1_threshold:
  "threshold_level (thresholds V1_DEFINITION) n =
    (if n \<ge> 12 then ''CRITICAL'' else if n \<ge> 8 then ''HIGH''
     else if n \<ge> 4 then ''MEDIUM'' else ''LOW'')"
proof -
  have "(k::rat) \<le> of_int n \<longleftrightarrow> \<lceil>k\<rceil> \<le> n" for k by (simp add: ceiling_le_iff)
  then show ?thesis by (simp add: V1_DEFINITION_def)
qed

subsection \<open>Governance: the invariant of the matrix table\<close>

text \<open>
  What the two unique indexes and the governance operations keep: distinct keys and version
  names, at most one ACTIVE version, and an ACTIVE version has passed validation.
\<close>

definition matrices_ok :: "db \<Rightarrow> bool" where
  "matrices_ok d \<longleftrightarrow>
     keyed mx_id (matrices d) \<and> distinct (map mx_version (rows (matrices d))) \<and>
     (\<forall>m\<in>set (rows (matrices d)). \<forall>n\<in>set (rows (matrices d)).
        mx_status m = M_ACTIVE \<longrightarrow> mx_status n = M_ACTIVE \<longrightarrow> m = n) \<and>
     (\<forall>m\<in>set (rows (matrices d)). mx_status m = M_ACTIVE \<longrightarrow> validateDefinition (mx_definition m) = [])"

lemma matrices_ok_cong: "matrices d = matrices e \<Longrightarrow> matrices_ok d = matrices_ok e"
  by (simp add: matrices_ok_def)

lemma matrices_ok_empty: "matrices_ok empty_db"
  by (simp add: matrices_ok_def empty_db_def keyed_empty) (simp add: empty_tbl_def)

lemma matrix_version_inj:
  "distinct (map mx_version xs) \<Longrightarrow> m \<in> set xs \<Longrightarrow> n \<in> set xs \<Longrightarrow> mx_version m = mx_version n \<Longrightarrow> m = n"
  by (induction xs) (auto simp: rev_image_eqI)

definition retired_by :: "nat \<Rightarrow> matrix_row \<Rightarrow> matrix_row" where
  "retired_by t m = m\<lparr>mx_status := M_RETIRED, mx_superseded_by := Some t\<rparr>"

lemma t_update_twice:
  assumes "\<And>r. P (f r) = P r" "\<And>r. f (f r) = f r"
  shows "t_update P f (t_update Q f t) = t_update (\<lambda>r. P r \<or> Q r) f t"
  using assms by (auto simp: t_update_def)

lemma fold_retire_other:
  "matrices (fold (retire_other q a target) rs d)
     = t_update (\<lambda>m. mx_id m \<in> mx_id ` set rs) (retired_by (mx_id target)) (matrices d)"
proof (induction rs arbitrary: d)
  case Nil
  then show ?case by (simp add: t_update_none)
next
  case (Cons r rs)
  have step: "matrices (retire_other q a target r d)
      = t_update (\<lambda>m. mx_id m = mx_id r) (retired_by (mx_id target)) (matrices d)"
    by (simp add: retire_other_def update_id_def retired_by_def [abs_def])
  have "t_update (\<lambda>m. mx_id m \<in> mx_id ` set rs) (retired_by (mx_id target))
      (t_update (\<lambda>m. mx_id m = mx_id r) (retired_by (mx_id target)) (matrices d))
     = t_update (\<lambda>m. mx_id m \<in> mx_id ` set rs \<or> mx_id m = mx_id r) (retired_by (mx_id target)) (matrices d)"
    by (rule t_update_twice) (simp_all add: retired_by_def)
  then show ?case by (simp add: Cons.IH step disj_commute)
qed

text \<open>The table that \<open>activateMatrix\<close> leaves, row by row.\<close>

definition activated :: "req \<Rightarrow> auth_user \<Rightarrow> string \<Rightarrow> matrix_row \<Rightarrow> matrix_row \<Rightarrow> matrix_row" where
  "activated q a rationale target m =
    (if mx_id m = mx_id target
     then m\<lparr>mx_status := M_ACTIVE, mx_approved_by := Some (au_id a),
            mx_approved_at := Some (rq_now q), mx_rationale := Some (trim rationale)\<rparr>
     else if mx_status m = M_ACTIVE then retired_by (mx_id target) m
     else m)"

lemma activateMatrix_rows:
  assumes ok: "matrices_ok d" and act: "activateMatrix q a version rationale d = Inr ((), d')"
  obtains target where
    "target \<in> set (rows (matrices d))" "mx_version target = version" "mx_status target \<noteq> M_RETIRED"
    "validateDefinition (mx_definition target) = []"
    "rows (matrices d') = map (activated q a rationale target) (rows (matrices d))"
    "next_id (matrices d') = next_id (matrices d)"
proof -
  define approve where "approve = (\<lambda>m :: matrix_row. m\<lparr>mx_status := M_ACTIVE, mx_approved_by := Some (au_id a),
     mx_approved_at := Some (rq_now q), mx_rationale := Some (trim rationale)\<rparr>)"
  define others where "others = t_where (\<lambda>m. mx_status m = M_ACTIVE \<and> mx_version m \<noteq> version) (matrices d)"
  from act obtain target where
    first: "t_first (\<lambda>m. mx_version m = version) (matrices d) = Some target"
    and st: "mx_status target \<noteq> M_RETIRED" and val: "validateDefinition (mx_definition target) = []"
    and d': "matrices d' = update_id mx_id (mx_id target) approve
       (matrices (fold (retire_other q a target) others d))"
    unfolding activateMatrix_def approve_def others_def
    by (clarsimp simp: need_Inr_iff Let_def)
  from first have mem: "target \<in> set (rows (matrices d))" and ver: "mx_version target = version"
    by (auto dest: t_first_Some)
  have keyed: "keyed mx_id (matrices d)" and dv: "distinct (map mx_version (rows (matrices d)))"
    using ok by (auto simp: matrices_ok_def)
  have same: "mx_id m \<in> mx_id ` set others \<longleftrightarrow> mx_status m = M_ACTIVE \<and> mx_id m \<noteq> mx_id target"
    if m: "m \<in> set (rows (matrices d))" for m
  proof
    assume "mx_id m \<in> mx_id ` set others"
    then obtain r where "r \<in> set (rows (matrices d))" "mx_id m = mx_id r"
      "mx_status r = M_ACTIVE" "mx_version r \<noteq> version" by (auto simp: others_def)
    with keyed_inj [OF keyed m] keyed_inj [OF keyed m mem] ver
    show "mx_status m = M_ACTIVE \<and> mx_id m \<noteq> mx_id target" by auto
  next
    assume act: "mx_status m = M_ACTIVE \<and> mx_id m \<noteq> mx_id target"
    with matrix_version_inj [OF dv m mem] ver have "mx_version m \<noteq> version" by auto
    with act m have "m \<in> set others" by (simp add: others_def)
    then show "mx_id m \<in> mx_id ` set others" by (rule imageI)
  qed
  have row: "(let m' = if mx_id m \<in> mx_id ` set others then retired_by (mx_id target) m else m
      in if mx_id m' = mx_id target then approve m' else m') = activated q a rationale target m"
    if m: "m \<in> set (rows (matrices d))" for m
    using same [OF m] by (cases "mx_id m = mx_id target") (simp_all add: activated_def retired_by_def approve_def Let_def)
  have "rows (matrices d') = map (activated q a rationale target) (rows (matrices d))"
    unfolding d' fold_retire_other update_id_def t_update_def using row by (simp add: Let_def)
  moreover have "next_id (matrices d') = next_id (matrices d)"
    by (simp add: d' fold_retire_other update_id_def)
  ultimately show thesis using that mem ver st val by blast
qed

lemma activated_id [simp]: "mx_id (activated q a r t m) = mx_id m"
  and activated_version [simp]: "mx_version (activated q a r t m) = mx_version m"
  and activated_definition [simp]: "mx_definition (activated q a r t m) = mx_definition m"
  and activated_status: "mx_status (activated q a r t m) =
    (if mx_id m = mx_id t then M_ACTIVE else if mx_status m = M_ACTIVE then M_RETIRED else mx_status m)"
  by (simp_all add: activated_def retired_by_def)

lemma activateMatrix_matrices_ok:
  assumes ok: "matrices_ok d" and act: "activateMatrix q a version rationale d = Inr ((), d')"
  shows "matrices_ok d'"
proof -
  from activateMatrix_rows [OF ok act] obtain t where t: "t \<in> set (rows (matrices d))"
    "validateDefinition (mx_definition t) = []"
    and rows: "rows (matrices d') = map (activated q a rationale t) (rows (matrices d))"
    and nxt: "next_id (matrices d') = next_id (matrices d)" by metis
  have keyed: "keyed mx_id (matrices d)" using ok by (simp add: matrices_ok_def)
  have active: "m = t" if "m \<in> set (rows (matrices d))" "mx_status (activated q a rationale t m) = M_ACTIVE" for m
    using that keyed_inj [OF keyed _ t(1)] by (auto simp: activated_status split: if_splits)
  have comp: "map mx_id (rows (matrices d')) = map mx_id (rows (matrices d))"
    "map mx_version (rows (matrices d')) = map mx_version (rows (matrices d))"
    by (simp_all add: rows)
  have one: "m = activated q a rationale t t"
    if "m \<in> set (rows (matrices d'))" "mx_status m = M_ACTIVE" for m
    using that active by (auto simp: rows)
  have "validateDefinition (mx_definition m) = []"
    if "m \<in> set (rows (matrices d'))" "mx_status m = M_ACTIVE" for m
    using one [OF that] t(2) by simp
  moreover have "keyed mx_id (matrices d')"
    using keyed unfolding keyed_def comp nxt by (simp add: rows)
  moreover have "m = n" if "m \<in> set (rows (matrices d'))" "mx_status m = M_ACTIVE"
    "n \<in> set (rows (matrices d'))" "mx_status n = M_ACTIVE" for m n
    using one [OF that(1,2)] one [OF that(3,4)] by simp
  ultimately show ?thesis using ok unfolding matrices_ok_def comp by blast
qed

lemma createMatrixVersion_matrices_ok:
  assumes ok: "matrices_ok d" and run: "createMatrixVersion q a version def d = Inr (v, d')"
  shows "matrices_ok d'"
proof -
  obtain mk where d': "matrices d' = t_insert mk (matrices d)"
    and mk: "\<And>i. mx_id (mk i) = i" "\<And>i. mx_version (mk i) = version" "\<And>i. mx_status (mk i) = M_DRAFT"
    and new: "t_first (\<lambda>m. mx_version m = version) (matrices d) = None"
    using run unfolding createMatrixVersion_def Let_def
    by (clarsimp simp del: not_None_eq)
  have "keyed mx_id (matrices d')" using ok mk(1) by (simp add: d' keyed_insert matrices_ok_def)
  moreover have "version \<notin> mx_version ` set (rows (matrices d))"
    using new by (auto simp: t_first_None)
  ultimately show ?thesis
    using ok by (auto simp: matrices_ok_def d' set_rows_insert mk) (simp add: t_insert_def mk)
qed

lemma retireMatrix_rows:
  assumes run: "retireMatrix q a version d = Inr ((), d')"
  shows "matrices d' = matrices d \<or>
    (\<exists>i. matrices d' = update_id mx_id i (\<lambda>m. m\<lparr>mx_status := M_RETIRED\<rparr>) (matrices d))"
  using run unfolding retireMatrix_def retire_writes_def throw_if_Inr_iff need_Inr_iff
  by (elim conjE exE) (auto split: if_split_asm)

lemma retireMatrix_matrices_ok:
  assumes ok: "matrices_ok d" and run: "retireMatrix q a version d = Inr ((), d')"
  shows "matrices_ok d'"
  using retireMatrix_rows [OF run]
proof
  assume "matrices d' = matrices d"
  with ok show ?thesis by (simp add: matrices_ok_def)
next
  assume "\<exists>i. matrices d' = update_id mx_id i (\<lambda>m. m\<lparr>mx_status := M_RETIRED\<rparr>) (matrices d)"
  then obtain i where d': "matrices d' = update_id mx_id i (\<lambda>m. m\<lparr>mx_status := M_RETIRED\<rparr>) (matrices d)" ..
  have "keyed mx_id (matrices d')"
    using ok by (simp add: d' matrices_ok_def matrix_store.ok_upd)
  moreover have "map mx_version (rows (matrices d')) = map mx_version (rows (matrices d))"
    by (simp add: d' update_id_def t_update_def)
  moreover have old: "m \<in> set (rows (matrices d))"
    if "m \<in> set (rows (matrices d'))" "mx_status m = M_ACTIVE" for m
    using that by (auto simp: d' update_id_def set_rows_update split: if_splits)
  ultimately show ?thesis using ok unfolding matrices_ok_def by simp
qed

text \<open>No operation of the governance edits a stored definition.\<close>

definition stored_definition :: "db \<Rightarrow> nat \<Rightarrow> (string \<times> matrix_def) option" where
  "stored_definition d i = map_option (\<lambda>m. (mx_version m, mx_definition m)) (by_id mx_id i (matrices d))"

lemma activateMatrix_stored_definition:
  assumes "matrices_ok d" "activateMatrix q a version rationale d = Inr ((), d')"
  shows "stored_definition d' i = stored_definition d i"
proof -
  from activateMatrix_rows [OF assms] obtain t where
    rows: "rows (matrices d') = map (activated q a rationale t) (rows (matrices d))" by metis
  have "List.find (\<lambda>r. mx_id r = i) (map (activated q a rationale t) xs)
      = map_option (activated q a rationale t) (List.find (\<lambda>r. mx_id r = i) xs)" for xs
    by (induction xs) auto
  then show ?thesis
    by (simp add: stored_definition_def by_id_def t_first_def rows option.map_comp comp_def)
qed

subsection \<open>Properties\<close>

text \<open>C1: The stored PROVISIONAL v1 policy and the hard-coded v1 matrix classify every risk
  identically: for every severity, likelihood (finite or not) and source, \<open>classify\<close> under
  \<open>V1_DEFINITION\<close> gives the score, the level and the blocking flag of \<open>computeRisk\<close>.\<close>

theorem classify_v1_is_computeRisk:
  "classify V1_DEFINITION severity likelihood source =
     (as_score (computeRisk severity likelihood source),
      as_level (computeRisk severity likelihood source),
      as_blocking (computeRisk severity likelihood source))"
proof -
  define s where "s = clampInt severity"
  define l where "l = clampInt likelihood"
  have override: "map_of (sourceOverrides V1_DEFINITION) source =
      (if source = STOP_REJECTED then Some ''CRITICAL'' else None)"
    by (simp add: V1_DEFINITION_def)
  have min4: "severity4MinLevel V1_DEFINITION = Some ''HIGH''"
    and block: "blockingLevels V1_DEFINITION = [''CRITICAL'']"
    by (simp_all add: V1_DEFINITION_def)
  show ?thesis
    unfolding classify_def computeRisk_def computeRisk_level_def Let_def override min4 block v1_threshold
    by (simp add: rank_less_def level_rank_def)
qed



text \<open>C7: A successful activation leaves exactly one ACTIVE version, the requested one, with a
  validated definition; every other previously ACTIVE version is RETIRED and points to it; the
  table invariant is kept; and no stored definition changes.\<close>

theorem activation_exactly_one:
  assumes ok: "matrices_ok d" and act: "activateMatrix q a version rationale d = Inr ((), d')"
  shows "matrices_ok d' \<and>
    (\<exists>def. getActiveMatrix d' = Some (version, def) \<and> validateDefinition def = []) \<and>
    (\<forall>m\<in>set (rows (matrices d')). mx_status m = M_ACTIVE \<longleftrightarrow> mx_version m = version) \<and>
    (\<forall>m\<in>set (rows (matrices d)). mx_status m = M_ACTIVE \<and> mx_version m \<noteq> version \<longrightarrow>
       (\<exists>m' t. by_id mx_id (mx_id m) (matrices d') = Some m' \<and> mx_status m' = M_RETIRED \<and>
          mx_superseded_by m' = Some t \<and>
          map_option fst (stored_definition d' t) = Some version)) \<and>
    (\<forall>i. stored_definition d' i = stored_definition d i)"
proof -
  from activateMatrix_rows [OF ok act] obtain t where
    t: "t \<in> set (rows (matrices d))" "mx_version t = version" "validateDefinition (mx_definition t) = []"
    and rows: "rows (matrices d') = map (activated q a rationale t) (rows (matrices d))" by metis
  let ?f = "activated q a rationale t"
  have ok': "matrices_ok d'" by (rule activateMatrix_matrices_ok [OF ok act])
  have keyed: "keyed mx_id (matrices d)" and dv: "distinct (map mx_version (rows (matrices d)))"
    and keyed': "keyed mx_id (matrices d')" using ok ok' by (auto simp: matrices_ok_def)
  have active: "mx_status (?f m) = M_ACTIVE \<longleftrightarrow> mx_version m = version"
    if "m \<in> set (rows (matrices d))" for m
    using keyed_inj [OF keyed that t(1)] matrix_version_inj [OF dv that t(1)] t(2)
    by (auto simp: activated_status)
  have uniq: "\<forall>m\<in>set (rows (matrices d')). mx_status m = M_ACTIVE \<longleftrightarrow> mx_version m = version"
    using active by (simp add: rows)
  have ft: "?f t \<in> set (rows (matrices d'))" using t(1) by (simp add: rows)
  then have "t_first (\<lambda>m. mx_status m = M_ACTIVE) (matrices d') \<noteq> None"
    using active [OF t(1)] t(2) by (auto simp: t_first_None)
  then obtain m where m: "t_first (\<lambda>m. mx_status m = M_ACTIVE) (matrices d') = Some m" by blast
  then have "getActiveMatrix d' = Some (version, mx_definition m)"
    and "validateDefinition (mx_definition m) = []"
    using uniq ok' by (auto simp: getActiveMatrix_def matrices_ok_def dest!: t_first_Some)
  moreover have "\<exists>m' t. by_id mx_id (mx_id n) (matrices d') = Some m' \<and> mx_status m' = M_RETIRED \<and>
      mx_superseded_by m' = Some t \<and> map_option fst (stored_definition d' t) = Some version"
    if n: "n \<in> set (rows (matrices d))" "mx_status n = M_ACTIVE" "mx_version n \<noteq> version" for n
  proof -
    have "by_id mx_id (mx_id n) (matrices d') = Some (?f n)"
      using by_id_member [OF keyed', of "?f n"] n(1) by (simp add: rows)
    moreover have "mx_id n \<noteq> mx_id t" using keyed_inj [OF keyed n(1) t(1)] n(3) t(2) by auto
    moreover have "by_id mx_id (mx_id t) (matrices d') = Some (?f t)"
      using by_id_member [OF keyed' ft] by simp
    ultimately show ?thesis
      using n(2) t(2) by (auto simp: activated_def retired_by_def stored_definition_def)
  qed
  ultimately show ?thesis
    using ok' uniq activateMatrix_stored_definition [OF ok act] by blast
qed

text \<open>A database with v1 ACTIVE and a stricter v2 as DRAFT, to apply the theorem at.\<close>

definition policy_example :: db where
  "policy_example = empty_db\<lparr>matrices :=
     \<lparr>rows =
        [\<lparr>mx_id = 1, mx_version = ''v1'', mx_definition = V1_DEFINITION, mx_status = M_ACTIVE,
          mx_approved_by = Some 7, mx_approved_at = Some 10, mx_rationale = Some ''first'',
          mx_superseded_by = None\<rparr>,
         \<lparr>mx_id = 2, mx_version = ''v2'',
          mx_definition = V1_DEFINITION\<lparr>blockingLevels := [''HIGH'', ''CRITICAL'']\<rparr>,
          mx_status = M_DRAFT, mx_approved_by = None, mx_approved_at = None,
          mx_rationale = None, mx_superseded_by = None\<rparr>],
      next_id = 3\<rparr>\<rparr>"

definition quality_head :: auth_user where
  "quality_head = \<lparr>au_id = 9, au_role = SIFAT, au_branch = None, au_status = U_ACTIVE,
     au_must_change = False\<rparr>"

definition req_at :: "nat \<Rightarrow> req" where
  "req_at t = \<lparr>rq_now = t, rq_ip = None, rq_agent = None\<rparr>"

lemma V1_valid: "validateDefinition V1_DEFINITION = []"
  "validateDefinition (V1_DEFINITION\<lparr>blockingLevels := [''HIGH'', ''CRITICAL'']\<rparr>) = []"
  by (simp_all add: V1_DEFINITION_def validateDefinition_def threshold_problems_def
      coverage_problems_def RISK_LEVELS_def)

lemma policy_example_ok: "matrices_ok policy_example"
  by (simp add: matrices_ok_def policy_example_def keyed_def V1_valid)

theorem activation_exactly_one_witness:
  "\<exists>d'. activateMatrix (req_at 20) quality_head ''v2'' '' stricter '' policy_example = Inr ((), d') \<and>
     matrices_ok d' \<and> (\<forall>m\<in>set (rows (matrices d')). mx_status m = M_ACTIVE \<longleftrightarrow> mx_version m = ''v2'')"
proof -
  have "\<not> blank '' stricter ''" "can SIFAT Risk_matrix_approve"
    by (simp_all add: blank_iff js_ws_def can_def)
  then have "\<exists>d'. activateMatrix (req_at 20) quality_head ''v2'' '' stricter '' policy_example = Inr ((), d')"
    by (simp add: activateMatrix_def quality_head_def policy_example_def t_first_def V1_valid Let_def)
  then show ?thesis using activation_exactly_one [OF policy_example_ok] by blast
qed

definition lenient_definition :: matrix_def where
  "lenient_definition =
    \<lparr>algorithm = ''severity_x_likelihood'', allowedSeverity = [1, 2, 3, 4],
     allowedLikelihood = [1, 2, 3, 4], thresholds = [(0, ''LOW'')],
     blockingLevels = [''CRITICAL''], sourceOverrides = [], severity4MinLevel = None\<rparr>"

text \<open>C15: Validation does not protect the STOP checkpoint: there is a definition that
  \<open>createMatrixVersion\<close> and \<open>activateMatrix\<close> accept under which the severest rejected STOP is
  classified LOW and does not block completion, although the comment of
  \<open>linkStopRejectionRisk\<close> calls it "CRITICAL by policy".\<close>

theorem valid_definition_may_unblock_stop:
  "\<exists>def. validateDefinition def = [] \<and> classify def (Fin 4) (Fin 4) STOP_REJECTED = (16, ''LOW'', False)"
proof (intro exI conjI)
  show "validateDefinition lenient_definition = []"
    by (simp add: lenient_definition_def validateDefinition_def threshold_problems_def
        coverage_problems_def RISK_LEVELS_def)
  have "clampInt (Fin 4) = 4" using clampInt_id [of 4] by simp
  then show "classify lenient_definition (Fin 4) (Fin 4) STOP_REJECTED = (16, ''LOW'', False)"
    by (simp add: classify_def lenient_definition_def)
qed

end
