(* ===== verification/Jobs.thy ===== *)
theory Jobs
  imports Assignment RiskPolicy
begin

section \<open>Jobs: views, creation and the explicit transitions\<close>

text \<open>
  Models src/modules/jobs/jobs.service.ts: the joined job view, the branch-scoped queries,
  creation, start, installation details and cancellation. Each write handler is its
  transaction body; \<open>run_and_view\<close> adds the \<open>return getJob(actor, id)\<close> that follows the commit.
\<close>

subsection \<open>The joined view\<close>

text \<open>
  \<open>JobDetail\<close>: the job's own columns (\<open>jd_job\<close>) and what the joins of \<open>baseSelect\<close> add. The
  inner joins drop a job whose customer, vehicle, branch or creator row is missing.
\<close>

record job_detail =
  jd_job :: job_row
  jd_customer_name :: string
  jd_customer_phone :: string
  jd_plate :: string
  jd_vin :: "string option"
  jd_make :: string
  jd_model :: string
  jd_year :: "nat option"
  jd_branch_name :: string
  jd_created_by_name :: string
  jd_cancelled_by_name :: "string option"
  jd_closed_by_name :: "string option"
  jd_reopened_by_name :: "string option"
  jd_technician_name :: "string option"

text \<open>\<open>row.first_name ? `${first} ${last}` : null\<close> over a left join.\<close>

definition joined_name :: "nat option \<Rightarrow> db \<Rightarrow> string option" where
  "joined_name uid d =
    (case uid of None \<Rightarrow> None
     | Some i \<Rightarrow> (case by_id u_id i (users d) of None \<Rightarrow> None
         | Some u \<Rightarrow> if u_first_name u = [] then None else Some (full_name u)))"

definition toDetail :: "db \<Rightarrow> job_row \<Rightarrow> job_detail option" where
  "toDetail d job =
    (case (by_id cu_id (j_customer job) (customers d), by_id ve_id (j_vehicle job) (vehicles d),
           by_id b_id (j_branch job) (branches d), by_id u_id (j_created_by job) (users d)) of
       (Some cu, Some ve, Some b, Some u) \<Rightarrow>
         Some \<lparr>jd_job = job, jd_customer_name = cu_name cu, jd_customer_phone = cu_phone cu,
           jd_plate = ve_plate ve, jd_vin = ve_vin ve, jd_make = ve_make ve, jd_model = ve_model ve,
           jd_year = ve_year ve, jd_branch_name = b_name b, jd_created_by_name = full_name u,
           jd_cancelled_by_name = joined_name (j_cancelled_by job) d,
           jd_closed_by_name = joined_name (j_closed_by job) d,
           jd_reopened_by_name = joined_name (j_reopened_by job) d,
           jd_technician_name = joined_name (j_assignee job) d\<rparr>
     | _ \<Rightarrow> None)"

definition getJob :: "auth_user \<Rightarrow> nat \<Rightarrow> db \<Rightarrow> api_error + job_detail" where
  "getJob a i d =
    (case Option.bind (by_id j_id i (jobs d)) (toDetail d) of
       None \<Rightarrow> Inl notFound
     | Some jd \<Rightarrow> if in_scope a (j_branch (jd_job jd)) then Inr jd else Inl notFound)"

text \<open>
  \<open>listJobs\<close>: scope, then the optional filters, ordered by creation time and id descending,
  one page. The \<open>LIKE\<close> search and the date bounds are evaluated by the database; they enter
  as the predicate \<open>search\<close>.
\<close>

record jobs_query =
  jq_branch :: "nat option"
  jq_status :: "job_status option"
  jq_technician :: "nat option"
  jq_page :: nat
  jq_limit :: nat

definition job_matches :: "auth_user \<Rightarrow> jobs_query \<Rightarrow> (job_detail \<Rightarrow> bool) \<Rightarrow> job_detail \<Rightarrow> bool" where
  "job_matches a qy search jd =
    ((case jobsBranchScope a of
        Some s \<Rightarrow> int (j_branch (jd_job jd)) = s
      | None \<Rightarrow> opt_eq (jq_branch qy) (Some (j_branch (jd_job jd))))
     \<and> opt_eq (jq_status qy) (Some (j_status (jd_job jd)))
     \<and> (case jq_technician qy of None \<Rightarrow> True | Some t \<Rightarrow> j_assignee (jd_job jd) = Some t)
     \<and> search jd)"

definition newest_first :: "job_detail list \<Rightarrow> job_detail list" where
  "newest_first xs =
    rev (sort_key (\<lambda>jd. j_created_at (jd_job jd)) (sort_key (\<lambda>jd. j_id (jd_job jd)) xs))"

definition listJobs ::
  "auth_user \<Rightarrow> jobs_query \<Rightarrow> (job_detail \<Rightarrow> bool) \<Rightarrow> db \<Rightarrow> job_detail list \<times> nat" where
  "listJobs a qy search d =
    (let found = filter (job_matches a qy search) (List.map_filter (toDetail d) (rows (jobs d)))
     in (take (jq_limit qy) (drop ((jq_page qy - 1) * jq_limit qy) (newest_first found)),
         length found))"

subsection \<open>Creation\<close>

definition new_job :: "nat \<Rightarrow> nat \<Rightarrow> nat \<Rightarrow> nat \<Rightarrow> nat \<Rightarrow> nat \<Rightarrow> job_row" where
  "new_job now customerId vehicleId branch creator i =
    \<lparr>j_id = i, j_customer = customerId, j_vehicle = vehicleId, j_branch = branch,
     j_created_by = creator, j_status = J_DRAFT, j_started_at = None, j_cancel_reason = None,
     j_cancelled_by = None, j_cancelled_at = None, j_closed_by = None, j_closed_at = None,
     j_reopen_reason = None, j_reopened_by = None, j_reopened_at = None, j_assignee = None,
     j_assignment_status = A_UNASSIGNED, j_cycle = 1, j_gas_type = None, j_kit = None,
     j_ecu = None, j_cylinder = None, j_note = None, j_created_at = now, j_updated_at = now\<rparr>"

definition create_writes :: "req \<Rightarrow> auth_user \<Rightarrow> nat \<Rightarrow> nat \<Rightarrow> nat \<Rightarrow> db \<Rightarrow> db" where
  "create_writes q a customerId vehicleId branch d =
    (let newId = next_id (jobs d);
         d1 = d\<lparr>jobs := t_insert (new_job (rq_now q) customerId vehicleId branch (au_id a)) (jobs d)\<rparr>;
         d2 = assignAtCreation newId a 1 d1
     in logAudit q (au_id a) ''JOB_CREATED'' ''job'' (nat_str newId) None
          (Some (JObj [(''customerId'', jnat customerId), (''vehicleId'', jnat vehicleId),
             (''branchId'', jnat branch), (''status'', JStr ''DRAFT''),
             (''assignedTechnicianId'',
                if au_role a \<in> {USTA, MASTER} then jnat (au_id a) else JNull)])) d2)"

definition createJob :: "req \<Rightarrow> auth_user \<Rightarrow> nat \<Rightarrow> nat \<Rightarrow> (db, nat) tx" where
  "createJob q a customerId vehicleId d =
    (case au_branch a of
       None \<Rightarrow> Inl (forbidden ''NO_BRANCH'')
     | Some branch \<Rightarrow>
         throw_if (branch = 0) (forbidden ''NO_BRANCH'')
         (need (t_first (\<lambda>c. cu_id c = customerId \<and> \<not> cu_deleted c) (customers d))
            (badRequest ''INVALID_CUSTOMER'') (\<lambda>_.
          need (t_first (\<lambda>v. ve_id v = vehicleId \<and> \<not> ve_deleted v) (vehicles d))
            (badRequest ''INVALID_VEHICLE'') (\<lambda>vehicle.
          throw_if (ve_customer vehicle \<noteq> customerId) (badRequest ''VEHICLE_CUSTOMER_MISMATCH'')
          (Inr (next_id (jobs d), create_writes q a customerId vehicleId branch d))))))"

subsection \<open>Transitions\<close>

definition lockJobForTransition :: "auth_user \<Rightarrow> nat \<Rightarrow> job_status list \<Rightarrow> db \<Rightarrow> api_error + job_row" where
  "lockJobForTransition a i allowedFrom d =
    andThen (loadScopedJob a i d) (\<lambda>job.
      throw_if (j_status job \<notin> set allowedFrom) (conflict ''INVALID_TRANSITION'') (Inr job))"

definition status_obj :: "job_status \<Rightarrow> json" where
  "status_obj s = JObj [(''status'', JStr (job_status_str s))]"

definition start_writes :: "req \<Rightarrow> auth_user \<Rightarrow> nat \<Rightarrow> db \<Rightarrow> db" where
  "start_writes q a i d =
    logAudit q (au_id a) ''JOB_STARTED'' ''job'' (nat_str i)
      (Some (status_obj J_DRAFT)) (Some (status_obj J_IN_PROGRESS))
      (upd_job i (\<lambda>j. j\<lparr>j_status := J_IN_PROGRESS, j_started_at := Some (rq_now q),
                         j_updated_at := rq_now q\<rparr>) d)"

definition startJob :: "req \<Rightarrow> auth_user \<Rightarrow> nat \<Rightarrow> (db, unit) tx" where
  "startJob q a i d =
    andThen (lockJobForTransition a i [J_DRAFT] d) (\<lambda>_.
    assertRiskPolicyApproved d
    (Inr ((), start_writes q a i d)))"

text \<open>
  \<open>InstallationInput\<close>: a field is absent (\<open>undefined\<close>), or present with null or a value.
  Only present fields that differ from the stored column are written and audited.
\<close>

record installation_input =
  in_gasType :: "gas_type option option"
  in_kit :: "string option option"
  in_ecu :: "string option option"
  in_cylinder :: "string option option"
  in_note :: "string option option"

definition changed :: "'a option option \<Rightarrow> 'a option \<Rightarrow> bool" where
  "changed next current = (case next of None \<Rightarrow> False | Some v \<Rightarrow> v \<noteq> current)"

definition merged :: "'a option option \<Rightarrow> 'a option \<Rightarrow> 'a option" where
  "merged next current = (case next of None \<Rightarrow> current | Some v \<Rightarrow> v)"

definition change_entry :: "string \<Rightarrow> ('a \<Rightarrow> json) \<Rightarrow> 'a option option \<Rightarrow> 'a option \<Rightarrow> (string \<times> json) list" where
  "change_entry key f next current =
    (if changed next current
     then [(key, JObj [(''old'', jopt f current), (''new'', jopt f (merged next current))])]
     else [])"

definition installation_changes :: "installation_input \<Rightarrow> job_row \<Rightarrow> (string \<times> json) list" where
  "installation_changes inp job =
     change_entry ''gasType'' (\<lambda>g. JStr (gas_str g)) (in_gasType inp) (j_gas_type job)
   @ change_entry ''kit'' JStr (in_kit inp) (j_kit job)
   @ change_entry ''ecu'' JStr (in_ecu inp) (j_ecu job)
   @ change_entry ''cylinder'' JStr (in_cylinder inp) (j_cylinder job)
   @ change_entry ''note'' JStr (in_note inp) (j_note job)"

definition installation_writes :: "req \<Rightarrow> auth_user \<Rightarrow> nat \<Rightarrow> installation_input \<Rightarrow> job_row \<Rightarrow> db \<Rightarrow> db" where
  "installation_writes q a i inp job d =
    logAudit q (au_id a) ''JOB_INSTALLATION_UPDATED'' ''job'' (nat_str i) None
      (Some (JObj (installation_changes inp job)))
      (upd_job i (\<lambda>j. j\<lparr>j_gas_type := merged (in_gasType inp) (j_gas_type j),
         j_kit := merged (in_kit inp) (j_kit j), j_ecu := merged (in_ecu inp) (j_ecu j),
         j_cylinder := merged (in_cylinder inp) (j_cylinder j),
         j_note := merged (in_note inp) (j_note j), j_updated_at := rq_now q\<rparr>) d)"

definition updateInstallation :: "req \<Rightarrow> auth_user \<Rightarrow> nat \<Rightarrow> installation_input \<Rightarrow> (db, unit) tx" where
  "updateInstallation q a i inp d =
    andThen (lockJobForTransition a i [J_DRAFT, J_IN_PROGRESS] d) (\<lambda>job.
      if installation_changes inp job = [] then Inr ((), d)
      else Inr ((), installation_writes q a i inp job d))"

definition cancel_writes :: "req \<Rightarrow> auth_user \<Rightarrow> nat \<Rightarrow> string \<Rightarrow> job_row \<Rightarrow> db \<Rightarrow> db" where
  "cancel_writes q a i reason job d =
    logAudit q (au_id a) ''JOB_CANCELLED'' ''job'' (nat_str i)
      (Some (status_obj (j_status job)))
      (Some (JObj [(''status'', JStr ''CANCELLED''), (''reason'', JStr reason)]))
      (upd_job i (\<lambda>j. j\<lparr>j_status := J_CANCELLED, j_cancel_reason := Some reason,
         j_cancelled_by := Some (au_id a), j_cancelled_at := Some (rq_now q),
         j_updated_at := rq_now q\<rparr>) d)"

definition cancelJob :: "req \<Rightarrow> auth_user \<Rightarrow> nat \<Rightarrow> string \<Rightarrow> (db, unit) tx" where
  "cancelJob q a i reason d =
    andThen (lockJobForTransition a i [J_DRAFT, J_IN_PROGRESS] d) (\<lambda>job.
      Inr ((), cancel_writes q a i reason job d))"

text \<open>The handler as the route calls it: the transaction, then the view of the job.\<close>

definition run_and_view ::
  "(db, unit) tx \<Rightarrow> auth_user \<Rightarrow> nat \<Rightarrow> db \<Rightarrow> (api_error + job_detail) \<times> db" where
  "run_and_view body a i d =
    (case transaction body d of
       (Inl e, d') \<Rightarrow> (Inl e, d')
     | (Inr _, d') \<Rightarrow> (getJob a i d', d'))"

lemma lockJobForTransition_Inr:
  "lockJobForTransition a i fr d = Inr job \<longleftrightarrow>
     by_id j_id i (jobs d) = Some job \<and> in_scope a (j_branch job) \<and> j_status job \<in> set fr"
  by (auto simp: lockJobForTransition_def andThen_Inr_iff loadScopedJob_Inr)

end
