(* ===== verification/Risk.thy ===== *)
theory Risk
  imports RiskPolicy
begin

section \<open>Risk events\<close>

text \<open>
  Models src/modules/risk/risk.service.ts: raising, resolving, revising and overriding risks,
  the risks linked to rejected STOP checkpoints, and the count of open blocking risks that
  gates completion. Severity and likelihood are integers, as the route schema coerces them.
\<close>

definition OPEN_STATUSES :: "risk_status list" where
  "OPEN_STATUSES = [R_OPEN, R_MITIGATION_IN_PROGRESS]"

definition isRiskRaisable :: "job_row \<Rightarrow> bool" where
  "isRiskRaisable job = (j_status job \<noteq> J_COMPLETED \<and> j_status job \<noteq> J_CANCELLED)"

definition open_blocking :: "nat \<Rightarrow> nat \<Rightarrow> risk_row \<Rightarrow> bool" where
  "open_blocking jobId cycle r =
    (rk_job r = jobId \<and> rk_cycle r = cycle \<and> rk_blocking r \<and> rk_status r \<in> set OPEN_STATUSES)"

definition countOpenBlockingRisks :: "db \<Rightarrow> nat \<Rightarrow> nat \<Rightarrow> nat" where
  "countOpenBlockingRisks d jobId cycle = t_count (open_blocking jobId cycle) (risks d)"

text \<open>
  The insert into \<open>risk_events\<close>. The column \<open>matrix_version\<close> is \<open>VARCHAR(16)\<close> (migration
  20260905000001) while a version name has up to 32 characters; a longer one is refused by
  the database (strict mode), which the error middleware answers with 500 (\<open>dbError\<close>).
\<close>

definition insertRisk :: "(nat \<Rightarrow> risk_row) \<Rightarrow> db \<Rightarrow> (nat \<Rightarrow> db \<Rightarrow> api_error + 'a) \<Rightarrow> api_error + 'a" where
  "insertRisk mk d k =
    throw_if (16 < length (rk_matrix_version (mk (next_id (risks d))))) (dbError ''ER_DATA_TOO_LONG'')
      (k (next_id (risks d)) (d\<lparr>risks := t_insert mk (risks d)\<rparr>))"

record create_risk_input =
  cr_hazard :: string
  cr_description :: string
  cr_severity :: int
  cr_likelihood :: int
  cr_job_step :: "nat option"
  cr_responsible :: "nat option"
  cr_source :: "risk_source option"

text \<open>\<open>jobStepId\<close> must name a step of this job; the row records that step's attempt.\<close>

definition step_of_job :: "nat \<Rightarrow> nat \<Rightarrow> db \<Rightarrow> jstep_row option" where
  "step_of_job jobStepId jobId d =
    (case by_id js_id jobStepId (jsteps d) of
       None \<Rightarrow> None
     | Some s \<Rightarrow> (case by_id cl_id (js_checklist s) (checklists d) of
         None \<Rightarrow> None
       | Some c \<Rightarrow> if cl_job c = jobId then Some s else None))"

definition risk_attempt :: "nat option \<Rightarrow> nat \<Rightarrow> db \<Rightarrow> api_error + nat option" where
  "risk_attempt stepId jobId d =
    (case stepId of None \<Rightarrow> Inr None
     | Some i \<Rightarrow> need (step_of_job i jobId d) (badRequest ''INVALID_STEP'') (\<lambda>s. Inr (Some (js_attempt s))))"

definition or_else :: "'a option \<Rightarrow> 'a option \<Rightarrow> 'a option" where
  "or_else x y = (case x of None \<Rightarrow> y | Some _ \<Rightarrow> x)"

definition createRisk :: "req \<Rightarrow> auth_user \<Rightarrow> nat \<Rightarrow> create_risk_input \<Rightarrow> (db, nat) tx" where
  "createRisk q a jobId inp d =
    throw_if (\<not> can (au_role a) Risks_create) (forbidden ''FORBIDDEN'')
    (throw_if (blank (cr_hazard inp) \<or> blank (cr_description inp)) (badRequest ''RISK_INPUT_REQUIRED'')
    (let source = (case cr_source inp of None \<Rightarrow> MANUAL | Some s \<Rightarrow> s) in
     andThen (loadScopedJob a jobId d) (\<lambda>job.
     throw_if (\<not> isRiskRaisable job) (conflict ''JOB_NOT_WORKABLE'')
    (andThen (assessRisk d (Fin (of_int (cr_severity inp))) (Fin (of_int (cr_likelihood inp))) source) (\<lambda>as.
     andThen (risk_attempt (cr_job_step inp) jobId d) (\<lambda>attempt.
     insertRisk (\<lambda>i. \<lparr>rk_id = i, rk_job = jobId, rk_cycle = j_cycle job, rk_job_step = cr_job_step inp,
        rk_attempt = attempt, rk_hazard = take 80 (trim (cr_hazard inp)),
        rk_description = trim (cr_description inp), rk_severity = cr_severity inp,
        rk_likelihood = cr_likelihood inp, rk_score = as_score as, rk_level = as_level as,
        rk_blocking = as_blocking as, rk_matrix_version = as_version as, rk_source = source,
        rk_status = R_OPEN, rk_mitigation = None, rk_created_by = au_id a,
        rk_responsible = or_else (cr_responsible inp) (j_assignee job),
        rk_resolved_by = None, rk_resolved_at = None, rk_resolution_note = None,
        rk_resolution_approval = None, rk_supersedes = None\<rparr>) d
     (\<lambda>i d1. Inr (i, logAudit q (au_id a) ''RISK_CREATED'' ''risk_event'' (nat_str i) None
        (Some (JObj [(''jobId'', jnat jobId), (''cycle'', jnat (j_cycle job)),
           (''level'', JStr (as_level as)), (''blocking'', JBool (as_blocking as)),
           (''source'', JStr (risk_source_str source)),
           (''matrixVersion'', JStr (as_version as))])) d1))))))))"

subsection \<open>Risks linked to STOP decisions\<close>

definition open_stop_risk :: "nat \<Rightarrow> nat \<Rightarrow> nat \<Rightarrow> risk_row \<Rightarrow> bool" where
  "open_stop_risk jobId cycle stepId r =
    (rk_job r = jobId \<and> rk_cycle r = cycle \<and> rk_job_step r = Some stepId \<and>
     rk_source r = STOP_REJECTED \<and> rk_status r \<in> set OPEN_STATUSES)"

definition linkStopRejectionRisk ::
  "req \<Rightarrow> nat \<Rightarrow> nat \<Rightarrow> nat \<Rightarrow> nat \<Rightarrow> nat \<Rightarrow> string \<Rightarrow> string \<Rightarrow> db \<Rightarrow> api_error + db" where
  "linkStopRejectionRisk q jobId cycle jobStepId attempt actorId stepName reason d =
    (if t_first (open_stop_risk jobId cycle jobStepId) (risks d) \<noteq> None then Inr d
     else andThen (assessRisk d (Fin 4) (Fin 4) STOP_REJECTED) (\<lambda>as.
       insertRisk (\<lambda>i. \<lparr>rk_id = i, rk_job = jobId, rk_cycle = cycle, rk_job_step = Some jobStepId,
          rk_attempt = Some attempt, rk_hazard = ''STOP_CHECKPOINT_REJECTED'',
          rk_description = take 1000 (''STOP \"'' @ stepName @ ''\" rad etildi: '' @ reason),
          rk_severity = 4, rk_likelihood = 4, rk_score = as_score as, rk_level = as_level as,
          rk_blocking = as_blocking as, rk_matrix_version = as_version as,
          rk_source = STOP_REJECTED, rk_status = R_OPEN, rk_mitigation = None,
          rk_created_by = actorId, rk_responsible = None, rk_resolved_by = None,
          rk_resolved_at = None, rk_resolution_note = None, rk_resolution_approval = None,
          rk_supersedes = None\<rparr>) d
       (\<lambda>i d1. Inr (logAudit q actorId ''RISK_CREATED'' ''risk_event'' (nat_str i) None
          (Some (JObj [(''jobId'', jnat jobId), (''cycle'', jnat cycle),
             (''source'', JStr ''STOP_REJECTED''), (''level'', JStr (as_level as))])) d1))))"

definition stop_resolution :: "req \<Rightarrow> nat \<Rightarrow> nat \<Rightarrow> risk_row \<Rightarrow> risk_row" where
  "stop_resolution q actorId approvalId r =
    r\<lparr>rk_status := R_RESOLVED, rk_resolved_by := Some actorId, rk_resolved_at := Some (rq_now q),
      rk_resolution_note := Some ''STOP tasdiqlandi (mitigatsiya qabul qilindi)'',
      rk_resolution_approval := Some approvalId\<rparr>"

definition resolve_one :: "req \<Rightarrow> nat \<Rightarrow> nat \<Rightarrow> risk_row \<Rightarrow> db \<Rightarrow> db" where
  "resolve_one q actorId approvalId r d =
    logAudit q actorId ''RISK_RESOLVED'' ''risk_event'' (nat_str (rk_id r)) None
      (Some (JObj [(''via'', JStr ''STOP_APPROVAL''), (''stopApprovalId'', jnat approvalId)]))
      (d\<lparr>risks := update_id rk_id (rk_id r) (stop_resolution q actorId approvalId) (risks d)\<rparr>)"

definition resolveStopRisk :: "req \<Rightarrow> nat \<Rightarrow> nat \<Rightarrow> nat \<Rightarrow> nat \<Rightarrow> nat \<Rightarrow> db \<Rightarrow> db" where
  "resolveStopRisk q jobId cycle jobStepId actorId approvalId d =
    fold (resolve_one q actorId approvalId) (t_where (open_stop_risk jobId cycle jobStepId) (risks d)) d"

lemma resolve_one_frame [simp]:
  "users (resolve_one q u ap r d) = users d" "branches (resolve_one q u ap r d) = branches d"
  "customers (resolve_one q u ap r d) = customers d"
  "vehicles (resolve_one q u ap r d) = vehicles d" "jobs (resolve_one q u ap r d) = jobs d"
  "assignments (resolve_one q u ap r d) = assignments d"
  "templates (resolve_one q u ap r d) = templates d"
  "versions (resolve_one q u ap r d) = versions d" "csteps (resolve_one q u ap r d) = csteps d"
  "mdefs (resolve_one q u ap r d) = mdefs d" "checklists (resolve_one q u ap r d) = checklists d"
  "jsteps (resolve_one q u ap r d) = jsteps d" "smeas (resolve_one q u ap r d) = smeas d"
  "approvals (resolve_one q u ap r d) = approvals d" "photos (resolve_one q u ap r d) = photos d"
  "signatures (resolve_one q u ap r d) = signatures d"
  "matrices (resolve_one q u ap r d) = matrices d"
  "snapshots (resolve_one q u ap r d) = snapshots d"
  "gps_events (resolve_one q u ap r d) = gps_events d"
  by (simp_all add: resolve_one_def)

lemma resolve_all_frame [simp]:
  "users (fold (resolve_one q u ap) rs d) = users d"
  "branches (fold (resolve_one q u ap) rs d) = branches d"
  "customers (fold (resolve_one q u ap) rs d) = customers d"
  "vehicles (fold (resolve_one q u ap) rs d) = vehicles d"
  "jobs (fold (resolve_one q u ap) rs d) = jobs d"
  "assignments (fold (resolve_one q u ap) rs d) = assignments d"
  "templates (fold (resolve_one q u ap) rs d) = templates d"
  "versions (fold (resolve_one q u ap) rs d) = versions d"
  "csteps (fold (resolve_one q u ap) rs d) = csteps d"
  "mdefs (fold (resolve_one q u ap) rs d) = mdefs d"
  "checklists (fold (resolve_one q u ap) rs d) = checklists d"
  "jsteps (fold (resolve_one q u ap) rs d) = jsteps d"
  "smeas (fold (resolve_one q u ap) rs d) = smeas d"
  "approvals (fold (resolve_one q u ap) rs d) = approvals d"
  "photos (fold (resolve_one q u ap) rs d) = photos d"
  "signatures (fold (resolve_one q u ap) rs d) = signatures d"
  "matrices (fold (resolve_one q u ap) rs d) = matrices d"
  "snapshots (fold (resolve_one q u ap) rs d) = snapshots d"
  "gps_events (fold (resolve_one q u ap) rs d) = gps_events d"
  by (induction rs arbitrary: d) simp_all

lemma resolveStopRisk_frame [simp]:
  "users (resolveStopRisk q i c s u ap d) = users d"
  "branches (resolveStopRisk q i c s u ap d) = branches d"
  "customers (resolveStopRisk q i c s u ap d) = customers d"
  "vehicles (resolveStopRisk q i c s u ap d) = vehicles d"
  "jobs (resolveStopRisk q i c s u ap d) = jobs d"
  "assignments (resolveStopRisk q i c s u ap d) = assignments d"
  "templates (resolveStopRisk q i c s u ap d) = templates d"
  "versions (resolveStopRisk q i c s u ap d) = versions d"
  "csteps (resolveStopRisk q i c s u ap d) = csteps d"
  "mdefs (resolveStopRisk q i c s u ap d) = mdefs d"
  "checklists (resolveStopRisk q i c s u ap d) = checklists d"
  "jsteps (resolveStopRisk q i c s u ap d) = jsteps d"
  "smeas (resolveStopRisk q i c s u ap d) = smeas d"
  "approvals (resolveStopRisk q i c s u ap d) = approvals d"
  "photos (resolveStopRisk q i c s u ap d) = photos d"
  "signatures (resolveStopRisk q i c s u ap d) = signatures d"
  "matrices (resolveStopRisk q i c s u ap d) = matrices d"
  "snapshots (resolveStopRisk q i c s u ap d) = snapshots d"
  "gps_events (resolveStopRisk q i c s u ap d) = gps_events d"
  by (simp_all add: resolveStopRisk_def)

subsection \<open>Resolution, revision, override\<close>

text \<open>\<open>risk_events\<close> row first, then the scoped job, then the status check.\<close>

definition load_open_risk :: "auth_user \<Rightarrow> nat \<Rightarrow> db \<Rightarrow> api_error + (risk_row \<times> job_row)" where
  "load_open_risk a riskId d =
    need (by_id rk_id riskId (risks d)) notFound (\<lambda>risk.
    andThen (loadScopedJob a (rk_job risk) d) (\<lambda>job.
    throw_if (rk_status risk \<notin> set OPEN_STATUSES) (conflict ''RISK_NOT_OPEN'') (Inr (risk, job))))"

definition resolveRisk :: "req \<Rightarrow> auth_user \<Rightarrow> nat \<Rightarrow> string \<Rightarrow> string option \<Rightarrow> (db, unit) tx" where
  "resolveRisk q a riskId note mitigation d =
    throw_if (\<not> can (au_role a) Risks_resolve) (forbidden ''FORBIDDEN'')
    (throw_if (blank note) (badRequest ''RESOLUTION_NOTE_REQUIRED'')
    (andThen (load_open_risk a riskId d) (\<lambda>(risk, job).
      Inr ((), logAudit q (au_id a) ''RISK_RESOLVED'' ''risk_event'' (nat_str riskId)
        (Some (JObj [(''status'', JStr (risk_status_str (rk_status risk))), (''level'', JStr (rk_level risk))]))
        (Some (JObj [(''status'', JStr ''RESOLVED'')]))
        (d\<lparr>risks := update_id rk_id riskId
             (\<lambda>r. r\<lparr>rk_status := R_RESOLVED, rk_mitigation := or_else mitigation (rk_mitigation risk),
                    rk_resolution_note := Some (trim note), rk_resolved_by := Some (au_id a),
                    rk_resolved_at := Some (rq_now q)\<rparr>) (risks d)\<rparr>)))))"

record revise_risk_input =
  rv_severity :: int
  rv_likelihood :: int
  rv_hazard :: "string option"
  rv_description :: "string option"
  rv_reason :: string

definition reviseRisk :: "req \<Rightarrow> auth_user \<Rightarrow> nat \<Rightarrow> revise_risk_input \<Rightarrow> (db, nat) tx" where
  "reviseRisk q a riskId inp d =
    throw_if (\<not> can (au_role a) Risks_resolve) (forbidden ''FORBIDDEN'')
    (throw_if (blank (rv_reason inp)) (badRequest ''REVISION_REASON_REQUIRED'')
    (andThen (load_open_risk a riskId d) (\<lambda>(orig, job).
     andThen (assessRisk d (Fin (of_int (rv_severity inp))) (Fin (of_int (rv_likelihood inp))) (rk_source orig)) (\<lambda>as.
     insertRisk (\<lambda>i. \<lparr>rk_id = i, rk_job = rk_job orig, rk_cycle = rk_cycle orig,
        rk_job_step = rk_job_step orig, rk_attempt = rk_attempt orig,
        rk_hazard = take 80 (case rv_hazard inp of None \<Rightarrow> rk_hazard orig | Some h \<Rightarrow> h),
        rk_description = (case rv_description inp of None \<Rightarrow> rk_description orig | Some s \<Rightarrow> s),
        rk_severity = rv_severity inp, rk_likelihood = rv_likelihood inp,
        rk_score = as_score as, rk_level = as_level as, rk_blocking = as_blocking as,
        rk_matrix_version = as_version as, rk_source = rk_source orig, rk_status = R_OPEN,
        rk_mitigation = None, rk_created_by = au_id a, rk_responsible = rk_responsible orig,
        rk_resolved_by = None, rk_resolved_at = None, rk_resolution_note = None,
        rk_resolution_approval = None, rk_supersedes = Some (rk_id orig)\<rparr>) d
     (\<lambda>newId d1. Inr (newId, logAudit q (au_id a) ''RISK_REVISED'' ''risk_event'' (nat_str newId)
        (Some (JObj [(''id'', jnat (rk_id orig)), (''level'', JStr (rk_level orig)),
                     (''blocking'', JBool (rk_blocking orig))]))
        (Some (JObj [(''id'', jnat newId), (''level'', JStr (as_level as)),
                     (''blocking'', JBool (as_blocking as)), (''reason'', JStr (trim (rv_reason inp)))]))
        (d1\<lparr>risks := update_id rk_id (rk_id orig) (\<lambda>r. r\<lparr>rk_status := R_REJECTED\<rparr>) (risks d1)\<rparr>)))))))"

definition overrideRisk :: "req \<Rightarrow> auth_user \<Rightarrow> nat \<Rightarrow> string \<Rightarrow> (db, unit) tx" where
  "overrideRisk q a riskId reason d =
    throw_if (\<not> can (au_role a) Risks_override) (forbidden ''FORBIDDEN'')
    (throw_if (blank reason) (badRequest ''OVERRIDE_REASON_REQUIRED'')
    (andThen (load_open_risk a riskId d) (\<lambda>(risk, job).
      Inr ((), logAudit q (au_id a) ''RISK_OVERRIDE'' ''risk_event'' (nat_str riskId)
        (Some (JObj [(''level'', JStr (rk_level risk)), (''blocking'', JBool (rk_blocking risk))]))
        (Some (JObj [(''status'', JStr ''RESOLVED''), (''reason'', JStr (trim reason))]))
        (d\<lparr>risks := update_id rk_id riskId
             (\<lambda>r. r\<lparr>rk_status := R_RESOLVED, rk_resolution_note := Some (''OVERRIDE: '' @ trim reason),
                    rk_resolved_by := Some (au_id a), rk_resolved_at := Some (rq_now q)\<rparr>) (risks d)\<rparr>)))))"

text \<open>The paginated listing, newest first; creation order is key order.\<close>

definition listRisks :: "auth_user \<Rightarrow> nat \<Rightarrow> nat option \<Rightarrow> nat \<Rightarrow> nat \<Rightarrow> db \<Rightarrow> api_error + risk_row list \<times> nat" where
  "listRisks a jobId cycle page pageSize d =
    andThen (loadScopedJob a jobId d) (\<lambda>_.
      let found = t_where (\<lambda>r. rk_job r = jobId \<and> opt_eq cycle (Some (rk_cycle r))) (risks d)
      in Inr (take pageSize (drop ((page - 1) * pageSize) (rev found)), length found))"

end
