(* ===== verification/Checklist.thy ===== *)
theory Checklist
  imports Jobs Risk
begin

section \<open>Checklist execution\<close>

text \<open>
  Models src/modules/checklist/execution.service.ts: assigning the published template version
  to a job, completing steps in order with photo and measurement checks, submitting STOP
  steps, redoing steps of a reopened job, and the checklist view.
\<close>

definition STEP_DONE_STATUSES :: "step_status list" where
  "STEP_DONE_STATUSES = [S_COMPLETED, S_APPROVED]"

definition step_done :: "jstep_row \<Rightarrow> bool" where
  "step_done s = (js_status s \<in> set STEP_DONE_STATUSES)"

definition upd_step :: "nat \<Rightarrow> (jstep_row \<Rightarrow> jstep_row) \<Rightarrow> db \<Rightarrow> db" where
  "upd_step i f d = d\<lparr>jsteps := update_id js_id i f (jsteps d)\<rparr>"

definition upd_checklist :: "nat \<Rightarrow> (checklist_row \<Rightarrow> checklist_row) \<Rightarrow> db \<Rightarrow> db" where
  "upd_checklist i f d = d\<lparr>checklists := update_id cl_id i f (checklists d)\<rparr>"

definition job_checklist :: "nat \<Rightarrow> db \<Rightarrow> checklist_row option" where
  "job_checklist jobId d = t_first (\<lambda>c. cl_job c = jobId) (checklists d)"

lemma upd_step_frame [simp]:
  "users (upd_step i f d) = users d" "branches (upd_step i f d) = branches d"
  "customers (upd_step i f d) = customers d" "vehicles (upd_step i f d) = vehicles d"
  "jobs (upd_step i f d) = jobs d" "assignments (upd_step i f d) = assignments d"
  "templates (upd_step i f d) = templates d" "versions (upd_step i f d) = versions d"
  "csteps (upd_step i f d) = csteps d" "mdefs (upd_step i f d) = mdefs d"
  "checklists (upd_step i f d) = checklists d" "smeas (upd_step i f d) = smeas d"
  "approvals (upd_step i f d) = approvals d" "photos (upd_step i f d) = photos d"
  "signatures (upd_step i f d) = signatures d" "risks (upd_step i f d) = risks d"
  "matrices (upd_step i f d) = matrices d" "snapshots (upd_step i f d) = snapshots d"
  "gps_events (upd_step i f d) = gps_events d" "audits (upd_step i f d) = audits d"
  by (simp_all add: upd_step_def)

lemma upd_checklist_frame [simp]:
  "users (upd_checklist i f d) = users d" "branches (upd_checklist i f d) = branches d"
  "customers (upd_checklist i f d) = customers d" "vehicles (upd_checklist i f d) = vehicles d"
  "jobs (upd_checklist i f d) = jobs d" "assignments (upd_checklist i f d) = assignments d"
  "templates (upd_checklist i f d) = templates d" "versions (upd_checklist i f d) = versions d"
  "csteps (upd_checklist i f d) = csteps d" "mdefs (upd_checklist i f d) = mdefs d"
  "jsteps (upd_checklist i f d) = jsteps d" "smeas (upd_checklist i f d) = smeas d"
  "approvals (upd_checklist i f d) = approvals d" "photos (upd_checklist i f d) = photos d"
  "signatures (upd_checklist i f d) = signatures d" "risks (upd_checklist i f d) = risks d"
  "matrices (upd_checklist i f d) = matrices d" "snapshots (upd_checklist i f d) = snapshots d"
  "gps_events (upd_checklist i f d) = gps_events d" "audits (upd_checklist i f d) = audits d"
  by (simp_all add: upd_checklist_def)

text \<open>\<open>job_steps\<close> of a checklist joined with \<open>checklist_steps\<close>, and one of them by id.\<close>

definition with_def :: "db \<Rightarrow> jstep_row \<Rightarrow> (jstep_row \<times> cstep_row) option" where
  "with_def d s = map_option (Pair s) (by_id cs_id (js_step s) (csteps d))"

definition joined_steps :: "nat \<Rightarrow> db \<Rightarrow> (jstep_row \<times> cstep_row) list" where
  "joined_steps clId d = List.map_filter (with_def d) (t_where (\<lambda>s. js_checklist s = clId) (jsteps d))"

definition joined_step :: "nat \<Rightarrow> nat \<Rightarrow> db \<Rightarrow> (jstep_row \<times> cstep_row) option" where
  "joined_step clId stepId d =
    Option.bind (t_first (\<lambda>s. js_id s = stepId \<and> js_checklist s = clId) (jsteps d)) (with_def d)"

subsection \<open>Assignment\<close>

definition new_jstep :: "nat \<Rightarrow> nat \<Rightarrow> nat \<Rightarrow> jstep_row" where
  "new_jstep clId stepId i =
    \<lparr>js_id = i, js_checklist = clId, js_step = stepId, js_status = S_PENDING, js_note = None,
     js_completed_by = None, js_completed_at = None, js_attempt = 1\<rparr>"

definition insert_jstep :: "nat \<Rightarrow> cstep_row \<Rightarrow> db \<Rightarrow> db" where
  "insert_jstep clId c d = d\<lparr>jsteps := t_insert (new_jstep clId (cs_id c)) (jsteps d)\<rparr>"

lemma insert_jstep_frame [simp]:
  "users (insert_jstep clId c d) = users d" "branches (insert_jstep clId c d) = branches d"
  "customers (insert_jstep clId c d) = customers d" "vehicles (insert_jstep clId c d) = vehicles d"
  "jobs (insert_jstep clId c d) = jobs d" "assignments (insert_jstep clId c d) = assignments d"
  "templates (insert_jstep clId c d) = templates d" "versions (insert_jstep clId c d) = versions d"
  "csteps (insert_jstep clId c d) = csteps d" "mdefs (insert_jstep clId c d) = mdefs d"
  "checklists (insert_jstep clId c d) = checklists d" "smeas (insert_jstep clId c d) = smeas d"
  "approvals (insert_jstep clId c d) = approvals d" "photos (insert_jstep clId c d) = photos d"
  "signatures (insert_jstep clId c d) = signatures d" "risks (insert_jstep clId c d) = risks d"
  "matrices (insert_jstep clId c d) = matrices d" "snapshots (insert_jstep clId c d) = snapshots d"
  "gps_events (insert_jstep clId c d) = gps_events d" "audits (insert_jstep clId c d) = audits d"
  by (simp_all add: insert_jstep_def)

lemma insert_jsteps_frame [simp]:
  "users (fold (insert_jstep clId) cs d) = users d"
  "branches (fold (insert_jstep clId) cs d) = branches d"
  "customers (fold (insert_jstep clId) cs d) = customers d"
  "vehicles (fold (insert_jstep clId) cs d) = vehicles d"
  "jobs (fold (insert_jstep clId) cs d) = jobs d"
  "assignments (fold (insert_jstep clId) cs d) = assignments d"
  "templates (fold (insert_jstep clId) cs d) = templates d"
  "versions (fold (insert_jstep clId) cs d) = versions d"
  "csteps (fold (insert_jstep clId) cs d) = csteps d"
  "mdefs (fold (insert_jstep clId) cs d) = mdefs d"
  "checklists (fold (insert_jstep clId) cs d) = checklists d"
  "smeas (fold (insert_jstep clId) cs d) = smeas d"
  "approvals (fold (insert_jstep clId) cs d) = approvals d"
  "photos (fold (insert_jstep clId) cs d) = photos d"
  "signatures (fold (insert_jstep clId) cs d) = signatures d"
  "risks (fold (insert_jstep clId) cs d) = risks d"
  "matrices (fold (insert_jstep clId) cs d) = matrices d"
  "snapshots (fold (insert_jstep clId) cs d) = snapshots d"
  "gps_events (fold (insert_jstep clId) cs d) = gps_events d"
  "audits (fold (insert_jstep clId) cs d) = audits d"
  by (induction cs arbitrary: d) simp_all

definition assign_writes :: "req \<Rightarrow> auth_user \<Rightarrow> nat \<Rightarrow> nat \<Rightarrow> version_row \<Rightarrow> cstep_row list \<Rightarrow> db \<Rightarrow> db" where
  "assign_writes q a jobId templateId version steps d =
    (let clId = next_id (checklists d);
         d1 = d\<lparr>checklists := t_insert (\<lambda>i. \<lparr>cl_id = i, cl_job = jobId, cl_version = tv_id version,
                cl_assigned_by = au_id a, cl_assigned_at = rq_now q, cl_completed_at = None\<rparr>)
                (checklists d)\<rparr>;
         d2 = fold (insert_jstep clId) steps d1
     in logAudit q (au_id a) ''CHECKLIST_ASSIGNED'' ''job'' (nat_str jobId) None
          (Some (JObj [(''templateId'', jnat templateId), (''versionId'', jnat (tv_id version)),
             (''version'', jnat (tv_version version)), (''stepCount'', jnat (length steps))])) d2)"

definition assignChecklist :: "req \<Rightarrow> auth_user \<Rightarrow> nat \<Rightarrow> nat \<Rightarrow> (db, unit) tx" where
  "assignChecklist q a jobId templateId d =
    andThen (loadScopedJob a jobId d) (\<lambda>job.
    throw_if (j_status job \<noteq> J_DRAFT \<and> j_status job \<noteq> J_IN_PROGRESS) (conflict ''JOB_STATE_INVALID'')
    (throw_if (job_checklist jobId d \<noteq> None) (conflict ''CHECKLIST_EXISTS'')
    (need (t_first (\<lambda>v. tv_template v = templateId \<and> tv_status v = V_PUBLISHED) (versions d))
       (badRequest ''NO_PUBLISHED_VERSION'') (\<lambda>version.
     let steps = sort_key cs_order (t_where (\<lambda>c. cs_version c = tv_id version) (csteps d)) in
     throw_if (steps = []) (conflict ''EMPTY_VERSION'')
    (Inr ((), assign_writes q a jobId templateId version steps d))))))"

subsection \<open>Measurements\<close>

text \<open>\<open>Math.round(v * 1000)\<close>.\<close>

definition toThousandths :: "rat \<Rightarrow> int" where
  "toThousandths v = js_round (v * 1000)"

definition within_range :: "mdef_row \<Rightarrow> rat \<Rightarrow> bool" where
  "within_range def v =
    ((case md_min def of None \<Rightarrow> True | Some m \<Rightarrow> toThousandths v \<ge> toThousandths m) \<and>
     (case md_max def of None \<Rightarrow> True | Some m \<Rightarrow> toThousandths v \<le> toThousandths m))"

text \<open>\<open>new Map(measurements.map(...))\<close>: a repeated id keeps its last value.\<close>

definition submitted_value :: "(nat \<times> rat) list \<Rightarrow> nat \<Rightarrow> rat option" where
  "submitted_value ms i = map_of (rev ms) i"

text \<open>What the loop does with one definition: a validation error for its field, or a row to store.\<close>

definition measurement_error :: "(nat \<times> rat) list \<Rightarrow> mdef_row \<Rightarrow> bool" where
  "measurement_error ms def =
    (case submitted_value ms (md_id def) of
       None \<Rightarrow> md_required def
     | Some v \<Rightarrow> \<not> within_range def v)"

definition validation_errors :: "(nat \<times> rat) list \<Rightarrow> mdef_row list \<Rightarrow> string list" where
  "validation_errors ms defs = map md_name (filter (measurement_error ms) defs)"

definition to_store :: "(nat \<times> rat) list \<Rightarrow> mdef_row list \<Rightarrow> (nat \<times> rat) list" where
  "to_store ms defs =
    List.map_filter (\<lambda>def. case submitted_value ms (md_id def) of
       None \<Rightarrow> None
     | Some v \<Rightarrow> if within_range def v then Some (md_id def, v) else None) defs"

text \<open>The column \<open>value\<close> is \<open>DECIMAL(12,3)\<close>.\<close>

definition insert_smeas :: "nat \<Rightarrow> nat \<Rightarrow> nat \<times> rat \<Rightarrow> db \<Rightarrow> db" where
  "insert_smeas stepId attempt mv d =
    d\<lparr>smeas := t_insert (\<lambda>i. \<lparr>sm_id = i, sm_job_step = stepId, sm_measurement = fst mv,
       sm_value = decimal3 (snd mv), sm_within = True, sm_attempt = attempt\<rparr>) (smeas d)\<rparr>"

lemma insert_smeas_frame [simp]:
  "users (insert_smeas stepId attempt mv d) = users d"
  "branches (insert_smeas stepId attempt mv d) = branches d"
  "customers (insert_smeas stepId attempt mv d) = customers d"
  "vehicles (insert_smeas stepId attempt mv d) = vehicles d"
  "jobs (insert_smeas stepId attempt mv d) = jobs d"
  "assignments (insert_smeas stepId attempt mv d) = assignments d"
  "templates (insert_smeas stepId attempt mv d) = templates d"
  "versions (insert_smeas stepId attempt mv d) = versions d"
  "csteps (insert_smeas stepId attempt mv d) = csteps d"
  "mdefs (insert_smeas stepId attempt mv d) = mdefs d"
  "checklists (insert_smeas stepId attempt mv d) = checklists d"
  "jsteps (insert_smeas stepId attempt mv d) = jsteps d"
  "approvals (insert_smeas stepId attempt mv d) = approvals d"
  "photos (insert_smeas stepId attempt mv d) = photos d"
  "signatures (insert_smeas stepId attempt mv d) = signatures d"
  "risks (insert_smeas stepId attempt mv d) = risks d"
  "matrices (insert_smeas stepId attempt mv d) = matrices d"
  "snapshots (insert_smeas stepId attempt mv d) = snapshots d"
  "gps_events (insert_smeas stepId attempt mv d) = gps_events d"
  "audits (insert_smeas stepId attempt mv d) = audits d"
  by (simp_all add: insert_smeas_def)

lemma insert_smeas_all_frame [simp]:
  "users (fold (insert_smeas stepId attempt) mvs d) = users d"
  "branches (fold (insert_smeas stepId attempt) mvs d) = branches d"
  "customers (fold (insert_smeas stepId attempt) mvs d) = customers d"
  "vehicles (fold (insert_smeas stepId attempt) mvs d) = vehicles d"
  "jobs (fold (insert_smeas stepId attempt) mvs d) = jobs d"
  "assignments (fold (insert_smeas stepId attempt) mvs d) = assignments d"
  "templates (fold (insert_smeas stepId attempt) mvs d) = templates d"
  "versions (fold (insert_smeas stepId attempt) mvs d) = versions d"
  "csteps (fold (insert_smeas stepId attempt) mvs d) = csteps d"
  "mdefs (fold (insert_smeas stepId attempt) mvs d) = mdefs d"
  "checklists (fold (insert_smeas stepId attempt) mvs d) = checklists d"
  "jsteps (fold (insert_smeas stepId attempt) mvs d) = jsteps d"
  "approvals (fold (insert_smeas stepId attempt) mvs d) = approvals d"
  "photos (fold (insert_smeas stepId attempt) mvs d) = photos d"
  "signatures (fold (insert_smeas stepId attempt) mvs d) = signatures d"
  "risks (fold (insert_smeas stepId attempt) mvs d) = risks d"
  "matrices (fold (insert_smeas stepId attempt) mvs d) = matrices d"
  "snapshots (fold (insert_smeas stepId attempt) mvs d) = snapshots d"
  "gps_events (fold (insert_smeas stepId attempt) mvs d) = gps_events d"
  "audits (fold (insert_smeas stepId attempt) mvs d) = audits d"
  by (induction mvs arbitrary: d) simp_all

subsection \<open>Completing a step\<close>

definition ready_photos :: "nat \<Rightarrow> nat \<Rightarrow> db \<Rightarrow> nat" where
  "ready_photos stepId attempt d =
    t_count (\<lambda>p. ph_job_step p = stepId \<and> ph_attempt p = attempt \<and> ph_status p = E_READY) (photos d)"

definition incomplete_before :: "nat \<Rightarrow> nat \<Rightarrow> db \<Rightarrow> bool" where
  "incomplete_before clId order d =
    (\<exists>(s, c)\<in>set (joined_steps clId d). cs_order c < order \<and> \<not> step_done s)"

definition steps_remaining :: "nat \<Rightarrow> db \<Rightarrow> bool" where
  "steps_remaining clId d = (t_first (\<lambda>s. js_checklist s = clId \<and> \<not> step_done s) (jsteps d) \<noteq> None)"

definition measurement_objs :: "(nat \<times> rat) list \<Rightarrow> json" where
  "measurement_objs ms = JArr (map (\<lambda>(i, v). JObj [(''id'', jnat i), (''value'', JNum v)]) ms)"

text \<open>The checks of \<open>completeStep\<close> up to the first write.\<close>

definition completable ::
  "auth_user \<Rightarrow> nat \<Rightarrow> nat \<Rightarrow> (nat \<times> rat) list \<Rightarrow> db \<Rightarrow>
   api_error + (job_row \<times> checklist_row \<times> jstep_row \<times> cstep_row \<times> (nat \<times> rat) list)" where
  "completable a jobId jobStepId ms d =
    andThen (loadScopedJob a jobId d) (\<lambda>job.
    throw_if (\<not> isWorkable job) (conflict ''JOB_NOT_IN_PROGRESS'')
    (throw_if (\<not> canExecuteJob a job) (forbidden ''FORBIDDEN'')
    (need (job_checklist jobId d) notFound (\<lambda>cl.
     need (joined_step (cl_id cl) jobStepId d) notFound (\<lambda>(s, c).
     throw_if (js_status s \<noteq> S_PENDING) (conflict ''STEP_ALREADY_COMPLETED'')
    (throw_if (cs_required_photos c > 0 \<and> ready_photos (js_id s) (js_attempt s) d < cs_required_photos c)
       (ApiError 422 ''PHOTOS_REQUIRED'' [''photos''])
    (throw_if (incomplete_before (cl_id cl) (cs_order c) d) (conflict ''PREVIOUS_STEP_INCOMPLETE'')
    (let defs = t_where (\<lambda>m. md_step m = js_step s) (mdefs d) in
     throw_if (\<exists>m\<in>set ms. fst m \<notin> set (map md_id defs)) (badRequest ''INVALID_MEASUREMENT'')
    (throw_if (validation_errors ms defs \<noteq> []) (ApiError 422 ''OUT_OF_RANGE'' (validation_errors ms defs))
    (Inr (job, cl, s, c, to_store ms defs)))))))))))"

definition submit_stop ::
  "req \<Rightarrow> auth_user \<Rightarrow> job_row \<Rightarrow> jstep_row \<Rightarrow> cstep_row \<Rightarrow> string option \<Rightarrow> (nat \<times> rat) list \<Rightarrow> db \<Rightarrow> db" where
  "submit_stop q a job s c note stored d =
    (let d1 = upd_step (js_id s) (\<lambda>r. r\<lparr>js_status := S_WAITING_APPROVAL, js_note := note,
                js_completed_by := Some (au_id a), js_completed_at := Some (rq_now q)\<rparr>) d;
         d2 = d1\<lparr>approvals := t_insert (\<lambda>i. \<lparr>sa_id = i, sa_job = j_id job, sa_job_step = js_id s,
                sa_status = AP_PENDING, sa_submitted_by = au_id a, sa_submitted_at = rq_now q,
                sa_decided_by = None, sa_decided_at = None, sa_reject_reason = None,
                sa_attempt = js_attempt s\<rparr>) (approvals d1)\<rparr>;
         d3 = upd_job (j_id job) (\<lambda>j. j\<lparr>j_status := J_WAITING_STOP_APPROVAL, j_updated_at := rq_now q\<rparr>) d2
     in logAudit q (au_id a) ''STOP_SUBMITTED'' ''job_step'' (nat_str (js_id s))
          (Some (JObj [(''jobStatus'', JStr (job_status_str (j_status job))), (''stepStatus'', JStr ''PENDING'')]))
          (Some (JObj [(''jobId'', jnat (j_id job)), (''step'', JStr (cs_name c)),
             (''sortOrder'', jnat (cs_order c)), (''jobStatus'', JStr ''WAITING_STOP_APPROVAL''),
             (''stepStatus'', JStr ''WAITING_APPROVAL''), (''attempt'', jnat (js_attempt s)),
             (''note'', jopt JStr note), (''measurements'', measurement_objs stored)])) d3)"

definition finish_step ::
  "req \<Rightarrow> auth_user \<Rightarrow> job_row \<Rightarrow> checklist_row \<Rightarrow> jstep_row \<Rightarrow> cstep_row \<Rightarrow> string option \<Rightarrow>
   (nat \<times> rat) list \<Rightarrow> db \<Rightarrow> db" where
  "finish_step q a job cl s c note stored d =
    (let d1 = upd_step (js_id s) (\<lambda>r. r\<lparr>js_status := S_COMPLETED, js_note := note,
                js_completed_by := Some (au_id a), js_completed_at := Some (rq_now q)\<rparr>) d;
         remaining = steps_remaining (cl_id cl) d1;
         d2 = (if remaining then d1
               else upd_checklist (cl_id cl) (\<lambda>r. r\<lparr>cl_completed_at := Some (rq_now q)\<rparr>) d1)
     in logAudit q (au_id a) ''STEP_COMPLETED'' ''job_step'' (nat_str (js_id s)) None
          (Some (JObj [(''jobId'', jnat (j_id job)), (''step'', JStr (cs_name c)),
             (''sortOrder'', jnat (cs_order c)), (''measurements'', measurement_objs stored),
             (''checklistCompleted'', JBool (\<not> remaining))])) d2)"

definition completeStep ::
  "req \<Rightarrow> auth_user \<Rightarrow> nat \<Rightarrow> nat \<Rightarrow> string option \<Rightarrow> (nat \<times> rat) list \<Rightarrow> (db, unit) tx" where
  "completeStep q a jobId jobStepId note ms d =
    andThen (completable a jobId jobStepId ms d) (\<lambda>(job, cl, s, c, stored).
      let d1 = fold (insert_smeas (js_id s) (js_attempt s)) stored d
      in if cs_is_stop c then Inr ((), submit_stop q a job s c note stored d1)
         else Inr ((), finish_step q a job cl s c note stored d1))"

subsection \<open>Redoing a step of a reopened job\<close>

definition redo_writes :: "req \<Rightarrow> auth_user \<Rightarrow> nat \<Rightarrow> checklist_row \<Rightarrow> jstep_row \<Rightarrow> cstep_row \<Rightarrow> db \<Rightarrow> db" where
  "redo_writes q a jobId cl s c d =
    (let d1 = upd_step (js_id s) (\<lambda>r. r\<lparr>js_status := S_PENDING, js_attempt := js_attempt s + 1\<rparr>) d;
         d2 = upd_checklist (cl_id cl) (\<lambda>r. r\<lparr>cl_completed_at := None\<rparr>) d1
     in logAudit q (au_id a) ''STEP_CORRECTION_STARTED'' ''job_step'' (nat_str (js_id s))
          (Some (JObj [(''stepStatus'', JStr (step_status_str (js_status s))), (''attempt'', jnat (js_attempt s))]))
          (Some (JObj [(''jobId'', jnat jobId), (''step'', JStr (cs_name c)),
             (''sortOrder'', jnat (cs_order c)), (''stepStatus'', JStr ''PENDING''),
             (''attempt'', jnat (js_attempt s + 1))])) d2)"

definition redoStep :: "req \<Rightarrow> auth_user \<Rightarrow> nat \<Rightarrow> nat \<Rightarrow> (db, unit) tx" where
  "redoStep q a jobId jobStepId d =
    andThen (loadScopedJob a jobId d) (\<lambda>job.
    throw_if (j_status job \<noteq> J_REOPENED) (conflict ''JOB_NOT_REOPENED'')
    (need (job_checklist jobId d) notFound (\<lambda>cl.
     need (joined_step (cl_id cl) jobStepId d) notFound (\<lambda>(s, c).
     throw_if (\<not> step_done s) (conflict ''STEP_NOT_DONE'')
    (Inr ((), redo_writes q a jobId cl s c d))))))"

subsection \<open>The checklist view\<close>

record step_view =
  sv_id :: nat
  sv_template_step :: nat
  sv_order :: nat
  sv_name :: string
  sv_description :: "string option"
  sv_requirements :: "string option"
  sv_is_stop :: bool
  sv_risk_weight :: nat
  sv_status :: step_status
  sv_note :: "string option"
  sv_completed_by_name :: "string option"
  sv_completed_at :: "nat option"
  sv_is_current :: bool
  sv_current_attempt :: nat
  sv_photos :: "(photo_row \<times> string) list"
  sv_have :: nat
  sv_need :: nat
  sv_measurements :: "(mdef_row \<times> (rat \<times> bool) option) list"
  sv_approval :: "approval_row option"

record checklist_view =
  cv_id :: nat
  cv_template_name :: string
  cv_version :: nat
  cv_assigned_at :: nat
  cv_completed_at :: "nat option"
  cv_completed :: nat
  cv_total :: nat
  cv_current :: "nat option"
  cv_steps :: "step_view list"

text \<open>Values are read latest attempt first; the first one seen for a measurement is shown.\<close>

definition latest_value :: "db \<Rightarrow> nat \<Rightarrow> nat \<Rightarrow> (rat \<times> bool) option" where
  "latest_value d stepId mid =
    map_option (\<lambda>v. (sm_value v, sm_within v))
      (List.find (\<lambda>v. sm_job_step v = stepId \<and> sm_measurement v = mid)
        (rev (sort_key sm_attempt (rows (smeas d)))))"

text \<open>
  One template step of the view with its execution row, if any. \<open>photos\<close> are all photo rows of
  the step whatever their status, and \<open>photoProgress.have\<close> counts those of the current attempt.
\<close>

definition view_step :: "db \<Rightarrow> nat \<Rightarrow> bool \<Rightarrow> cstep_row \<Rightarrow> step_view" where
  "view_step d clId current c =
    (let exec = t_first (\<lambda>s. js_checklist s = clId \<and> js_step s = cs_id c) (jsteps d);
         attempt = (case exec of None \<Rightarrow> 1 | Some s \<Rightarrow> js_attempt s);
         ps = (case exec of None \<Rightarrow> [] | Some s \<Rightarrow>
           List.map_filter (\<lambda>p. map_option (\<lambda>u. (p, full_name u)) (by_id u_id (ph_created_by p) (users d)))
             (t_where (\<lambda>p. ph_job_step p = js_id s) (photos d)))
     in \<lparr>sv_id = (case exec of None \<Rightarrow> 0 | Some s \<Rightarrow> js_id s), sv_template_step = cs_id c,
         sv_order = cs_order c, sv_name = cs_name c, sv_description = cs_description c,
         sv_requirements = cs_requirements c, sv_is_stop = cs_is_stop c, sv_risk_weight = cs_risk_weight c,
         sv_status = (case exec of None \<Rightarrow> S_PENDING | Some s \<Rightarrow> js_status s),
         sv_note = (case exec of None \<Rightarrow> None | Some s \<Rightarrow> js_note s),
         sv_completed_by_name = (case exec of None \<Rightarrow> None | Some s \<Rightarrow> joined_name (js_completed_by s) d),
         sv_completed_at = (case exec of None \<Rightarrow> None | Some s \<Rightarrow> js_completed_at s),
         sv_is_current = current, sv_current_attempt = attempt, sv_photos = ps,
         sv_have = length (filter (\<lambda>(p, _). ph_attempt p = attempt) ps), sv_need = cs_required_photos c,
         sv_measurements = map (\<lambda>m. (m, case exec of None \<Rightarrow> None
             | Some s \<Rightarrow> latest_value d (js_id s) (md_id m))) (t_where (\<lambda>m. md_step m = cs_id c) (mdefs d)),
         sv_approval = (case exec of None \<Rightarrow> None
             | Some s \<Rightarrow> t_last (\<lambda>r. sa_job_step r = js_id s) (approvals d))\<rparr>)"

definition exec_status :: "db \<Rightarrow> nat \<Rightarrow> cstep_row \<Rightarrow> step_status" where
  "exec_status d clId c =
    (case t_first (\<lambda>s. js_checklist s = clId \<and> js_step s = cs_id c) (jsteps d) of
       None \<Rightarrow> S_PENDING | Some s \<Rightarrow> js_status s)"

text \<open>The first step that is not done is the current one (\<open>currentAssigned\<close>).\<close>

fun view_steps :: "db \<Rightarrow> nat \<Rightarrow> bool \<Rightarrow> cstep_row list \<Rightarrow> step_view list" where
  "view_steps d clId assigned [] = []"
| "view_steps d clId assigned (c # cs) =
    (let current = (\<not> assigned \<and> exec_status d clId c \<notin> set STEP_DONE_STATUSES)
     in view_step d clId current c # view_steps d clId (assigned \<or> current) cs)"

definition getJobChecklist :: "auth_user \<Rightarrow> nat \<Rightarrow> db \<Rightarrow> api_error + checklist_view option" where
  "getJobChecklist a jobId d =
    andThen (loadScopedJob a jobId d) (\<lambda>_.
      Inr (Option.bind (job_checklist jobId d) (\<lambda>cl.
           Option.bind (by_id tv_id (cl_version cl) (versions d)) (\<lambda>v.
           map_option (\<lambda>tp.
             let cs = sort_key cs_order (t_where (\<lambda>c. cs_version c = cl_version cl) (csteps d));
                 steps = view_steps d (cl_id cl) False cs
             in \<lparr>cv_id = cl_id cl, cv_template_name = tp_name tp, cv_version = tv_version v,
                  cv_assigned_at = cl_assigned_at cl, cv_completed_at = cl_completed_at cl,
                  cv_completed = length (filter (\<lambda>v. sv_status v \<in> set STEP_DONE_STATUSES) steps),
                  cv_total = length steps,
                  cv_current = map_option sv_id (List.find sv_is_current steps), cv_steps = steps\<rparr>)
             (by_id tp_id (tv_template v) (templates d))))))"

end
