(* ===== verification/Stop.thy ===== *)
theory Stop
  imports Checklist
begin

section \<open>STOP decisions and rework\<close>

text \<open>
  Models src/modules/checklist/stop.service.ts: the locked pending STOP of a job, approval,
  rejection with its linked risk, and the rework that opens the next attempt.
\<close>

text \<open>
  \<open>lockPendingStop\<close>; the step is read by its id alone, joined with its definition.
\<close>

definition lockPendingStop ::
  "auth_user \<Rightarrow> nat \<Rightarrow> db \<Rightarrow> api_error + (job_row \<times> approval_row \<times> jstep_row \<times> cstep_row)" where
  "lockPendingStop a jobId d =
    andThen (loadScopedJob a jobId d) (\<lambda>job.
    throw_if (j_status job \<noteq> J_WAITING_STOP_APPROVAL) (conflict ''JOB_NOT_WAITING_STOP'')
    (need (t_first (\<lambda>r. sa_job r = jobId \<and> sa_status r = AP_PENDING) (approvals d))
       (conflict ''NO_PENDING_STOP'') (\<lambda>ap.
     need (Option.bind (by_id js_id (sa_job_step ap) (jsteps d)) (with_def d))
       (conflict ''STOP_STEP_STATE_INVALID'') (\<lambda>(s, c).
     throw_if (js_status s \<noteq> S_WAITING_APPROVAL) (conflict ''STOP_STEP_STATE_INVALID'')
       (Inr (job, ap, s, c))))))"

definition upd_approval :: "nat \<Rightarrow> (approval_row \<Rightarrow> approval_row) \<Rightarrow> db \<Rightarrow> db" where
  "upd_approval i f d = d\<lparr>approvals := update_id sa_id i f (approvals d)\<rparr>"

lemma upd_approval_frame [simp]:
  "users (upd_approval i f d) = users d" "branches (upd_approval i f d) = branches d"
  "customers (upd_approval i f d) = customers d" "vehicles (upd_approval i f d) = vehicles d"
  "jobs (upd_approval i f d) = jobs d" "assignments (upd_approval i f d) = assignments d"
  "templates (upd_approval i f d) = templates d" "versions (upd_approval i f d) = versions d"
  "csteps (upd_approval i f d) = csteps d" "mdefs (upd_approval i f d) = mdefs d"
  "checklists (upd_approval i f d) = checklists d" "jsteps (upd_approval i f d) = jsteps d"
  "smeas (upd_approval i f d) = smeas d" "photos (upd_approval i f d) = photos d"
  "signatures (upd_approval i f d) = signatures d" "risks (upd_approval i f d) = risks d"
  "matrices (upd_approval i f d) = matrices d" "snapshots (upd_approval i f d) = snapshots d"
  "gps_events (upd_approval i f d) = gps_events d" "audits (upd_approval i f d) = audits d"
  by (simp_all add: upd_approval_def)

definition approve_writes :: "req \<Rightarrow> auth_user \<Rightarrow> nat \<Rightarrow> job_row \<Rightarrow> approval_row \<Rightarrow> jstep_row \<Rightarrow> cstep_row \<Rightarrow> db \<Rightarrow> db" where
  "approve_writes q a jobId job ap s c d =
     (let next = workingStatus job;
          d1 = resolveStopRisk q jobId (j_cycle job) (js_id s) (au_id a) (sa_id ap) d;
          d2 = upd_approval (sa_id ap) (\<lambda>r. r\<lparr>sa_status := AP_APPROVED, sa_decided_by := Some (au_id a),
                 sa_decided_at := Some (rq_now q)\<rparr>) d1;
          d3 = upd_step (js_id s) (\<lambda>r. r\<lparr>js_status := S_APPROVED\<rparr>) d2;
          d4 = upd_job jobId (\<lambda>j. j\<lparr>j_status := next, j_updated_at := rq_now q\<rparr>) d3;
          remaining = steps_remaining (js_checklist s) d4;
          d5 = (if remaining then d4
                else upd_checklist (js_checklist s) (\<lambda>r. r\<lparr>cl_completed_at := Some (rq_now q)\<rparr>) d4)
      in logAudit q (au_id a) ''STOP_APPROVED'' ''stop_approval'' (nat_str (sa_id ap))
           (Some (JObj [(''jobStatus'', JStr ''WAITING_STOP_APPROVAL''), (''stepStatus'', JStr ''WAITING_APPROVAL'')]))
           (Some (JObj [(''jobId'', jnat jobId), (''step'', JStr (cs_name c)),
              (''sortOrder'', jnat (cs_order c)), (''jobStatus'', JStr (job_status_str next)),
              (''stepStatus'', JStr ''APPROVED''), (''checklistCompleted'', JBool (\<not> remaining))])) d5)"

definition approveStop :: "req \<Rightarrow> auth_user \<Rightarrow> nat \<Rightarrow> (db, unit) tx" where
  "approveStop q a jobId d =
    andThen (lockPendingStop a jobId d) (\<lambda>(job, ap, s, c).
      Inr ((), approve_writes q a jobId job ap s c d))"

definition reject_marks :: "req \<Rightarrow> auth_user \<Rightarrow> nat \<Rightarrow> string \<Rightarrow> approval_row \<Rightarrow> jstep_row \<Rightarrow> db \<Rightarrow> db" where
  "reject_marks q a jobId reason ap s d =
    upd_job jobId (\<lambda>j. j\<lparr>j_status := J_REJECTED, j_updated_at := rq_now q\<rparr>)
      (upd_step (js_id s) (\<lambda>r. r\<lparr>js_status := S_REJECTED\<rparr>)
        (upd_approval (sa_id ap) (\<lambda>r. r\<lparr>sa_status := AP_REJECTED, sa_decided_by := Some (au_id a),
           sa_decided_at := Some (rq_now q), sa_reject_reason := Some reason\<rparr>) d))"

definition reject_log :: "req \<Rightarrow> auth_user \<Rightarrow> nat \<Rightarrow> string \<Rightarrow> approval_row \<Rightarrow> cstep_row \<Rightarrow> db \<Rightarrow> db" where
  "reject_log q a jobId reason ap c d =
    logAudit q (au_id a) ''STOP_REJECTED'' ''stop_approval'' (nat_str (sa_id ap))
      (Some (JObj [(''jobStatus'', JStr ''WAITING_STOP_APPROVAL''), (''stepStatus'', JStr ''WAITING_APPROVAL'')]))
      (Some (JObj [(''jobId'', jnat jobId), (''step'', JStr (cs_name c)),
         (''sortOrder'', jnat (cs_order c)), (''jobStatus'', JStr ''REJECTED''),
         (''stepStatus'', JStr ''REJECTED''), (''reason'', JStr reason)])) d"

definition rejectStop :: "req \<Rightarrow> auth_user \<Rightarrow> nat \<Rightarrow> string \<Rightarrow> (db, unit) tx" where
  "rejectStop q a jobId reason d =
    andThen (lockPendingStop a jobId d) (\<lambda>(job, ap, s, c).
      andThen (linkStopRejectionRisk q jobId (j_cycle job) (js_id s) (js_attempt s) (au_id a)
                    (cs_name c) reason (reject_marks q a jobId reason ap s d)) (\<lambda>d4.
         Inr ((), reject_log q a jobId reason ap c d4)))"

text \<open>The first rejected step of the checklist becomes PENDING on its next attempt.\<close>

definition rejected_step :: "nat \<Rightarrow> db \<Rightarrow> (jstep_row \<times> cstep_row) option" where
  "rejected_step clId d =
    List.find (\<lambda>(s, c). js_status s = S_REJECTED) (joined_steps clId d)"

definition rework_writes :: "req \<Rightarrow> auth_user \<Rightarrow> nat \<Rightarrow> job_row \<Rightarrow> jstep_row \<Rightarrow> cstep_row \<Rightarrow> db \<Rightarrow> db" where
  "rework_writes q a jobId job s c d =
    (let d1 = upd_step (js_id s) (\<lambda>r. r\<lparr>js_status := S_PENDING, js_attempt := js_attempt s + 1\<rparr>) d;
         d2 = upd_job jobId (\<lambda>j. j\<lparr>j_status := workingStatus job, j_updated_at := rq_now q\<rparr>) d1
     in logAudit q (au_id a) ''STOP_CORRECTION_STARTED'' ''job_step'' (nat_str (js_id s))
          (Some (JObj [(''jobStatus'', JStr ''REJECTED''), (''stepStatus'', JStr ''REJECTED'')]))
          (Some (JObj [(''jobId'', jnat jobId), (''step'', JStr (cs_name c)),
             (''sortOrder'', jnat (cs_order c)), (''jobStatus'', JStr (job_status_str (workingStatus job))),
             (''stepStatus'', JStr ''PENDING''), (''nextAttempt'', jnat (js_attempt s + 1))])) d2)"

definition reworkStop :: "req \<Rightarrow> auth_user \<Rightarrow> nat \<Rightarrow> (db, unit) tx" where
  "reworkStop q a jobId d =
    andThen (loadScopedJob a jobId d) (\<lambda>job.
    throw_if (j_status job \<noteq> J_REJECTED) (conflict ''JOB_NOT_REJECTED'')
    (need (job_checklist jobId d) (conflict ''NO_CHECKLIST'') (\<lambda>cl.
     need (rejected_step (cl_id cl) d) (conflict ''NO_REJECTED_STEP'') (\<lambda>(s, c).
     Inr ((), rework_writes q a jobId job s c d)))))"

text \<open>The STOP history of a job, newest first.\<close>

record stop_record =
  sr_approval :: approval_row
  sr_step_name :: string
  sr_step_order :: nat
  sr_submitted_by_name :: string
  sr_decided_by_name :: "string option"

definition stop_record_of :: "db \<Rightarrow> approval_row \<Rightarrow> stop_record option" where
  "stop_record_of d ap =
    (case (Option.bind (by_id js_id (sa_job_step ap) (jsteps d)) (with_def d),
           by_id u_id (sa_submitted_by ap) (users d)) of
       (Some (s, c), Some u) \<Rightarrow>
         Some \<lparr>sr_approval = ap, sr_step_name = cs_name c, sr_step_order = cs_order c,
           sr_submitted_by_name = full_name u, sr_decided_by_name = joined_name (sa_decided_by ap) d\<rparr>
     | _ \<Rightarrow> None)"

definition getJobStopApprovals :: "auth_user \<Rightarrow> nat \<Rightarrow> db \<Rightarrow> api_error + stop_record list" where
  "getJobStopApprovals a jobId d =
    andThen (loadScopedJob a jobId d) (\<lambda>_.
      Inr (rev (List.map_filter (stop_record_of d) (t_where (\<lambda>r. sa_job r = jobId) (approvals d)))))"

end
