(* ===== verification/Summary.thy ===== *)
theory Summary
  imports Checklist Canonical
begin

section \<open>The signable summary and the completion snapshot\<close>

text \<open>
  Models src/modules/completion/summary.service.ts: the material state of a job as a JSON
  value, its digest, and the content of the immutable completion snapshot. Everything is
  read from the database; the hash function is a parameter.
\<close>

definition SUMMARY_SCHEMA_VERSION :: string where
  "SUMMARY_SCHEMA_VERSION = ''summary-v1''"

definition SNAPSHOT_SCHEMA_VERSION :: string where
  "SNAPSHOT_SCHEMA_VERSION = ''snapshot-v1''"

definition maskPhone :: "string \<Rightarrow> json" where
  "maskPhone p =
    (if p = [] then JNull
     else let digits = filter is_digit p in
       JStr (if length digits \<ge> 4 then ''***'' @ drop (length digits - 4) digits else ''***''))"

text \<open>
  The attempt of a step that its latest STOP decision covers, or 1. The approval rows are read
  by attempt descending and the first one of each step wins.
\<close>

definition latest_approval :: "db \<Rightarrow> nat \<Rightarrow> approval_row option" where
  "latest_approval d stepId =
    List.find (\<lambda>r. sa_job_step r = stepId) (rev (sort_key sa_attempt (rows (approvals d))))"

definition relevantAttempt :: "db \<Rightarrow> nat \<Rightarrow> nat" where
  "relevantAttempt d stepId = (case latest_approval d stepId of None \<Rightarrow> 1 | Some r \<Rightarrow> sa_attempt r)"

text \<open>\<open>String(value)\<close> of a \<open>DECIMAL(12,3)\<close> column: always three fractional digits.\<close>

definition pad3 :: "nat \<Rightarrow> string" where
  "pad3 n = [digit_char (n div 100 mod 10), digit_char (n div 10 mod 10), digit_char (n mod 10)]"

definition decimal_str :: "rat \<Rightarrow> string" where
  "decimal_str q =
    (let t = nat \<lfloor>\<bar>q\<bar> * 1000\<rfloor> in
     (if q < 0 then ''-'' else []) @ nat_str (t div 1000) @ ''.'' @ pad3 (t mod 1000))"

definition ordered_steps :: "nat \<Rightarrow> db \<Rightarrow> (jstep_row \<times> cstep_row) list" where
  "ordered_steps clId d = sort_key (\<lambda>(s, c). cs_order c) (joined_steps clId d)"

definition evidence_of :: "db \<Rightarrow> nat \<Rightarrow> nat \<Rightarrow> photo_row list" where
  "evidence_of d stepId attempt =
    t_where (\<lambda>p. ph_job_step p = stepId \<and> ph_attempt p = attempt \<and> ph_status p = E_READY) (photos d)"

definition step_summary :: "db \<Rightarrow> jstep_row \<times> cstep_row \<Rightarrow> json" where
  "step_summary d sc =
    (let (s, c) = sc; attempt = relevantAttempt d (js_id s);
         ms = sort_key sm_measurement (t_where (\<lambda>m. sm_job_step m = js_id s \<and> sm_attempt m = attempt) (smeas d))
     in JObj
      [(''stepId'', jnat (js_step s)), (''jobStepId'', jnat (js_id s)), (''order'', jnat (cs_order c)),
       (''name'', JStr (cs_name c)), (''isStop'', JBool (cs_is_stop c)),
       (''status'', JStr (step_status_str (js_status s))), (''attempt'', jnat attempt),
       (''requiredPhotos'', jnat (cs_required_photos c)),
       (''evidence'', JArr (map (\<lambda>p. JObj [(''photoId'', jnat (ph_id p)), (''sha256'', JStr (ph_hash p)),
          (''size'', jnat (ph_size p))]) (evidence_of d (js_id s) attempt))),
       (''measurements'', JArr (map (\<lambda>m. JObj [(''measurementId'', jnat (sm_measurement m)),
          (''value'', JStr (decimal_str (sm_value m))), (''withinRange'', JBool (sm_within m))]) ms))])"

definition steps_of_job :: "nat \<Rightarrow> db \<Rightarrow> (jstep_row \<times> cstep_row) list" where
  "steps_of_job jobId d =
    (case job_checklist jobId d of None \<Rightarrow> [] | Some cl \<Rightarrow> ordered_steps (cl_id cl) d)"

definition summary_stops :: "db \<Rightarrow> nat list \<Rightarrow> json" where
  "summary_stops d stepIds =
    JArr (map (\<lambda>r. JObj [(''jobStepId'', jnat (sa_job_step r)), (''attempt'', jnat (sa_attempt r)),
        (''status'', JStr (approval_status_str (sa_status r)))])
      (sort_key sa_job_step (sort_key sa_attempt (t_where (\<lambda>r. sa_job_step r \<in> set stepIds) (approvals d)))))"

definition summary_customer :: "db \<Rightarrow> job_row \<Rightarrow> json" where
  "summary_customer d job =
    jopt (\<lambda>c. JObj [(''id'', jnat (cu_id c)), (''name'', JStr (cu_name c)), (''phoneMasked'', maskPhone (cu_phone c))])
      (by_id cu_id (j_customer job) (customers d))"

definition summary_vehicle :: "db \<Rightarrow> job_row \<Rightarrow> json" where
  "summary_vehicle d job =
    jopt (\<lambda>v. JObj [(''id'', jnat (ve_id v)), (''plate'', JStr (ve_plate v)), (''vin'', jopt JStr (ve_vin v)),
        (''make'', JStr (ve_make v)), (''model'', JStr (ve_model v)), (''year'', jopt jnat (ve_year v))])
      (by_id ve_id (j_vehicle job) (vehicles d))"

definition summary_installation :: "job_row \<Rightarrow> json" where
  "summary_installation job =
    JObj [(''gasType'', jopt (\<lambda>g. JStr (gas_str g)) (j_gas_type job)), (''kit'', jopt JStr (j_kit job)),
      (''ecu'', jopt JStr (j_ecu job)), (''cylinder'', jopt JStr (j_cylinder job)), (''note'', jopt JStr (j_note job))]"

definition summary_of_job :: "db \<Rightarrow> job_row \<Rightarrow> json" where
  "summary_of_job d job =
    (let version = Option.bind (job_checklist (j_id job) d) (\<lambda>cl. by_id tv_id (cl_version cl) (versions d));
         steps = steps_of_job (j_id job) d
     in JObj
      [(''schemaVersion'', JStr SUMMARY_SCHEMA_VERSION), (''jobId'', jnat (j_id job)), (''cycle'', jnat (j_cycle job)),
       (''branchId'', jnat (j_branch job)), (''assignedTechnicianId'', jopt jnat (j_assignee job)),
       (''checklistTemplateId'', jopt (\<lambda>v. jnat (tv_template v)) version),
       (''checklistVersion'', jopt (\<lambda>v. jnat (tv_version v)) version),
       (''installation'', summary_installation job), (''customer'', summary_customer d job),
       (''vehicle'', summary_vehicle d job), (''steps'', JArr (map (step_summary d) steps)),
       (''stops'', summary_stops d (map (\<lambda>(s, c). js_id s) steps)),
       (''openBlockingRiskIds'', JArr (map (\<lambda>r. jnat (rk_id r)) (t_where (open_blocking (j_id job) (j_cycle job)) (risks d))))])"

definition collectMaterial :: "nat \<Rightarrow> db \<Rightarrow> (job_row \<times> json) option" where
  "collectMaterial jobId d = map_option (\<lambda>job. (job, summary_of_job d job)) (by_id j_id jobId (jobs d))"

definition buildSignableSummary :: "(string \<Rightarrow> string) \<Rightarrow> nat \<Rightarrow> db \<Rightarrow> (nat \<times> json \<times> string) option" where
  "buildSignableSummary sha256 jobId d =
    map_option (\<lambda>(job, summary). (j_cycle job, summary, digestOf sha256 summary)) (collectMaterial jobId d)"

definition currentSummaryDigest :: "(string \<Rightarrow> string) \<Rightarrow> nat \<Rightarrow> db \<Rightarrow> string option" where
  "currentSummaryDigest sha256 jobId d = map_option (\<lambda>(_, _, digest). digest) (buildSignableSummary sha256 jobId d)"

text \<open>The active READY signature of a cycle: the newest one that is not superseded.\<close>

definition active_signature :: "nat \<Rightarrow> nat \<Rightarrow> db \<Rightarrow> signature_row option" where
  "active_signature jobId cycle d =
    t_last (\<lambda>s. sg_job s = jobId \<and> sg_cycle s = cycle \<and> sg_status s = E_READY \<and> sg_superseded_at s = None)
      (signatures d)"

record snapshot_build =
  sb_content :: json
  sb_digest :: string
  sb_summary_digest :: string
  sb_signature_hash :: "string option"

definition snapshot_content :: "(string \<Rightarrow> string) \<Rightarrow> db \<Rightarrow> job_row \<Rightarrow> json \<Rightarrow> nat \<Rightarrow> nat \<Rightarrow> json" where
  "snapshot_content sha256 d job summary cycle finalizedBy =
    JObj
     [(''schemaVersion'', JStr SNAPSHOT_SCHEMA_VERSION), (''provenance'', JStr ''FINALIZED''),
      (''job'', JObj [(''id'', jnat (j_id job)), (''cycle'', jnat cycle),
         (''status'', JStr (job_status_str (j_status job))), (''branchId'', jnat (j_branch job)),
         (''closedBy'', jopt jnat (j_closed_by job))]),
      (''assignment'', JObj [(''technicianId'', jopt jnat (j_assignee job)),
         (''status'', JStr (assignment_status_str (j_assignment_status job)))]),
      (''summary'', summary), (''summaryDigest'', JStr (digestOf sha256 summary)),
      (''signature'', jopt (\<lambda>s. JObj [(''id'', jnat (sg_id s)), (''sha256'', JStr (sg_hash s)),
         (''sizeBytes'', jnat (sg_size s)), (''summaryDigest'', jopt JStr (sg_summary_digest s))])
         (active_signature (j_id job) cycle d)),
      (''risks'', JArr (map (\<lambda>r. JObj [(''id'', jnat (rk_id r)), (''level'', JStr (rk_level r)),
         (''blocking'', JBool (rk_blocking r)), (''status'', JStr (risk_status_str (rk_status r))),
         (''source'', JStr (risk_source_str (rk_source r))), (''matrixVersion'', JStr (rk_matrix_version r))])
         (t_where (\<lambda>r. rk_job r = j_id job \<and> rk_cycle r = cycle) (risks d)))),
      (''finalizedBy'', jnat finalizedBy)]"

definition buildCompletionSnapshot ::
  "(string \<Rightarrow> string) \<Rightarrow> nat \<Rightarrow> nat \<Rightarrow> nat \<Rightarrow> db \<Rightarrow> api_error + snapshot_build" where
  "buildCompletionSnapshot sha256 jobId cycle finalizedBy d =
    (case collectMaterial jobId d of
       None \<Rightarrow> Inl (ApiError 500 ''INTERNAL_ERROR'' [])
     | Some (job, summary) \<Rightarrow>
         (let content = snapshot_content sha256 d job summary cycle finalizedBy in
          Inr \<lparr>sb_content = content, sb_digest = digestOf sha256 content,
            sb_summary_digest = digestOf sha256 summary,
            sb_signature_hash = map_option sg_hash (active_signature jobId cycle d)\<rparr>))"

text \<open>A stored snapshot: of the given cycle, or of the latest one.\<close>

definition getCompletionSnapshot :: "nat \<Rightarrow> nat option \<Rightarrow> db \<Rightarrow> snapshot_row option" where
  "getCompletionSnapshot jobId cycle d =
    (case cycle of
       Some c \<Rightarrow> t_first (\<lambda>s. sn_job s = jobId \<and> sn_cycle s = c) (snapshots d)
     | None \<Rightarrow> List.find (\<lambda>s. sn_job s = jobId) (rev (sort_key sn_cycle (rows (snapshots d)))))"

end
