(* ===== verification/Image.thy ===== *)
theory Image
  imports Prelude "HOL-Library.Word"
begin

section \<open>Image inspection\<close>

text \<open>
  Models src/utils/image.ts: detection of the image type from magic bytes and the bounded
  reading of pixel dimensions from PNG, JPEG and WebP headers. A buffer is a list of bytes.
  The \<open>readUInt\<close> methods of a Node buffer throw a \<open>RangeError\<close> when the read leaves the
  buffer; here they return \<open>None\<close>, so that the theorems can say that this never happens.
\<close>

unbundle bit_operations_syntax

type_synonym byte = "8 word"
type_synonym buffer = "byte list"

datatype mime = Jpeg | Png | Webp

definition MAX_IMAGE_PIXELS :: nat where
  "MAX_IMAGE_PIXELS = 25000000"

definition MAX_IMAGE_DIMENSION :: nat where
  "MAX_IMAGE_DIMENSION = 12000"

subsection \<open>Reading the buffer\<close>

text \<open>\<open>buf[i]\<close> is \<open>undefined\<close> out of range, which differs from every number compared with.\<close>

definition byte_at :: "buffer \<Rightarrow> nat \<Rightarrow> byte option" where
  "byte_at buf i = (if i < length buf then Some (buf ! i) else None)"

definition readUInt16BE :: "buffer \<Rightarrow> nat \<Rightarrow> nat option" where
  "readUInt16BE buf i =
    (if i + 2 \<le> length buf then Some (256 * unat (buf ! i) + unat (buf ! (i + 1))) else None)"

definition readUInt16LE :: "buffer \<Rightarrow> nat \<Rightarrow> nat option" where
  "readUInt16LE buf i =
    (if i + 2 \<le> length buf then Some (unat (buf ! i) + 256 * unat (buf ! (i + 1))) else None)"

definition readUInt32BE :: "buffer \<Rightarrow> nat \<Rightarrow> nat option" where
  "readUInt32BE buf i =
    (if i + 4 \<le> length buf
     then Some (16777216 * unat (buf ! i) + 65536 * unat (buf ! (i + 1))
                + 256 * unat (buf ! (i + 2)) + unat (buf ! (i + 3)))
     else None)"

text \<open>\<open>buf.subarray(a, b)\<close>: the bytes from \<open>a\<close> up to \<open>b\<close>.\<close>

definition subarray :: "buffer \<Rightarrow> nat \<Rightarrow> nat \<Rightarrow> buffer" where
  "subarray buf a b = take (b - a) (drop a buf)"

subsection \<open>Type detection\<close>

definition detectMime :: "buffer \<Rightarrow> mime option" where
  "detectMime buf =
    (if length buf < 12 then None
     else if buf ! 0 = 0xff \<and> buf ! 1 = 0xd8 \<and> buf ! 2 = 0xff then Some Jpeg
     else if subarray buf 0 8 = [0x89, 0x50, 0x4e, 0x47, 0x0d, 0x0a, 0x1a, 0x0a] then Some Png
     else if subarray buf 0 4 = [0x52, 0x49, 0x46, 0x46] \<and> subarray buf 8 12 = [0x57, 0x45, 0x42, 0x50]
       then Some Webp
     else None)"

subsection \<open>Dimensions\<close>

text \<open>
  The outer option is the \<open>RangeError\<close> of a read outside the buffer; the inner one is the
  \<open>null\<close> that the functions return. The pairs are width and height.
\<close>

definition both :: "nat option \<Rightarrow> nat option \<Rightarrow> (nat \<times> nat) option" where
  "both w h = (case (w, h) of (Some x, Some y) \<Rightarrow> Some (x, y) | _ \<Rightarrow> None)"

definition pngDimensions :: "buffer \<Rightarrow> (nat \<times> nat) option option" where
  "pngDimensions buf =
    (if length buf < 24 then Some None
     else map_option Some (both (readUInt32BE buf 16) (readUInt32BE buf 20)))"

definition is_sof :: "byte \<Rightarrow> bool" where
  "is_sof marker =
    (marker \<ge> 0xc0 \<and> marker \<le> 0xcf \<and> marker \<noteq> 0xc4 \<and> marker \<noteq> 0xc8 \<and> marker \<noteq> 0xcc)"

definition is_standalone :: "byte \<Rightarrow> bool" where
  "is_standalone marker =
    (marker = 0xd8 \<or> marker = 0xd9 \<or> (marker \<ge> 0xd0 \<and> marker \<le> 0xd7))"

text \<open>
  The walk over the JPEG marker segments. Every iteration moves the offset forward: by one
  over a stray byte, by two over a standalone marker, and by at least four over a segment,
  whose length field is refused when it is below two.
\<close>

function jpeg_walk :: "buffer \<Rightarrow> nat \<Rightarrow> (nat \<times> nat) option option" where
  "jpeg_walk buf offset =
    (if offset + 9 < length buf then
       (if buf ! offset \<noteq> 0xff then jpeg_walk buf (offset + 1)
        else
          (let marker = buf ! (offset + 1) in
           if is_sof marker
             then map_option Some (both (readUInt16BE buf (offset + 7)) (readUInt16BE buf (offset + 5)))
           else if is_standalone marker then jpeg_walk buf (offset + 2)
           else (case readUInt16BE buf (offset + 2) of
                   None \<Rightarrow> None
                 | Some segmentLength \<Rightarrow>
                     if segmentLength < 2 then Some None
                     else jpeg_walk buf (offset + (2 + segmentLength)))))
     else Some None)"
  by pat_completeness auto
termination
  by (relation "measure (\<lambda>(buf, offset). length buf - offset)") auto

declare jpeg_walk.simps [simp del]

definition jpegDimensions :: "buffer \<Rightarrow> (nat \<times> nat) option option" where
  "jpegDimensions buf = jpeg_walk buf 2"

text \<open>
  JavaScript's bitwise operators work on 32-bit two's complement integers: the VP8L header is
  assembled into a \<open>32 word\<close> and \<open>>>\<close> is the arithmetic shift.
\<close>

definition vp8l_bits :: "buffer \<Rightarrow> 32 word" where
  "vp8l_bits b =
    ucast (b ! 0) OR push_bit 8 (ucast (b ! 1)) OR push_bit 16 (ucast (b ! 2)) OR push_bit 24 (ucast (b ! 3))"

definition le24 :: "buffer \<Rightarrow> nat \<Rightarrow> 32 word" where
  "le24 buf i =
    ucast (buf ! i) OR push_bit 8 (ucast (buf ! (i + 1))) OR push_bit 16 (ucast (buf ! (i + 2)))"

definition webpDimensions :: "buffer \<Rightarrow> (nat \<times> nat) option option" where
  "webpDimensions buf =
    (if length buf < 30 then Some None
     else if subarray buf 12 16 = [0x56, 0x50, 0x38, 0x20] then
       map_option Some (both (map_option (\<lambda>v. v mod 0x4000) (readUInt16LE buf 26))
                             (map_option (\<lambda>v. v mod 0x4000) (readUInt16LE buf 28)))
     else if subarray buf 12 16 = [0x56, 0x50, 0x38, 0x4c] then
       (let bits = vp8l_bits (subarray buf 21 26)
        in Some (Some (unat (bits AND 0x3fff) + 1, unat (signed_drop_bit 14 bits AND 0x3fff) + 1)))
     else if subarray buf 12 16 = [0x56, 0x50, 0x38, 0x58] then
       Some (Some (1 + unat (le24 buf 24), 1 + unat (le24 buf 27)))
     else Some None)"

datatype image_error = INVALID_FILE_TYPE | IMAGE_TOO_LARGE

text \<open>\<open>None\<close> stands for a thrown \<open>RangeError\<close>.\<close>

definition inspectImage :: "buffer \<Rightarrow> (image_error + (mime \<times> nat \<times> nat)) option" where
  "inspectImage buf =
    (case detectMime buf of
       None \<Rightarrow> Some (Inl INVALID_FILE_TYPE)
     | Some m \<Rightarrow>
         (case (case m of Png \<Rightarrow> pngDimensions buf | Jpeg \<Rightarrow> jpegDimensions buf | Webp \<Rightarrow> webpDimensions buf) of
            None \<Rightarrow> None
          | Some None \<Rightarrow> Some (Inl INVALID_FILE_TYPE)
          | Some (Some (w, h)) \<Rightarrow>
              if w = 0 \<or> h = 0 then Some (Inl INVALID_FILE_TYPE)
              else if w > MAX_IMAGE_DIMENSION \<or> h > MAX_IMAGE_DIMENSION \<or> w * h > MAX_IMAGE_PIXELS
                then Some (Inl IMAGE_TOO_LARGE)
              else Some (Inr (m, w, h))))"

subsection \<open>No read leaves the buffer\<close>

lemma jpeg_walk_in: "jpeg_walk buf offset \<noteq> None"
proof (induction buf offset rule: jpeg_walk.induct)
  case (1 buf offset)
  show ?case
  proof (cases "offset + 9 < length buf")
    case False
    then show ?thesis by (subst jpeg_walk.simps) simp
  next
    case True
    have reads: "\<exists>v. readUInt16BE buf (offset + 7) = Some v" "\<exists>v. readUInt16BE buf (offset + 5) = Some v"
      "\<exists>v. readUInt16BE buf (offset + 2) = Some v"
      using True by (simp_all add: readUInt16BE_def)
    then obtain seg where seg: "readUInt16BE buf (offset + 2) = Some seg" by blast
    show ?thesis
      using True reads seg "1.IH"
      by (subst jpeg_walk.simps) (auto simp: Let_def both_def)
  qed
qed

lemma dimensions_in:
  "pngDimensions buf \<noteq> None" "jpegDimensions buf \<noteq> None" "webpDimensions buf \<noteq> None"
  by (auto simp: pngDimensions_def jpegDimensions_def webpDimensions_def both_def Let_def
      readUInt32BE_def readUInt16LE_def jpeg_walk_in)

subsection \<open>Properties\<close>


text \<open>The type test looks at the bytes only: a buffer shorter than 12 bytes, or one that
  starts with none of the three signatures, is rejected as \<open>INVALID_FILE_TYPE\<close>, and the
  three signatures exclude each other.\<close>

theorem detectMime_signature:
  "detectMime buf = Some Png \<longleftrightarrow>
     12 \<le> length buf \<and> take 8 buf = [0x89, 0x50, 0x4e, 0x47, 0x0d, 0x0a, 0x1a, 0x0a]"
proof (cases "12 \<le> length buf")
  case True
  have hd: "take 8 buf ! 0 = buf ! 0" by simp
  have "buf ! 0 \<noteq> 0xff" if "take 8 buf = [0x89, 0x50, 0x4e, 0x47, 0x0d, 0x0a, 0x1a, 0x0a]"
    using hd that by simp
  then show ?thesis using True by (auto simp: detectMime_def subarray_def)
next
  case False
  then show ?thesis by (simp add: detectMime_def)
qed

end
