(* ===== verification/Storage.thy ===== *)
theory Storage
  imports Image
begin

section \<open>Object storage\<close>

text \<open>
  Models src/storage/storage.provider.ts (the interface) and src/storage/local.provider.ts
  (the file-system provider). The interface is the locale \<open>object_store\<close>; the local provider,
  over a model of a directory tree, is shown to satisfy it. The S3 provider calls a
  third-party client and is not modelled: it is another instance of the interface.
\<close>

subsection \<open>The provider interface\<close>

datatype storage_error = SE_NOT_FOUND | SE_TIMEOUT | SE_ACCESS_DENIED | SE_INVALID_KEY | SE_IO

fun storage_error_str :: "storage_error \<Rightarrow> string" where
  "storage_error_str SE_NOT_FOUND = ''NOT_FOUND''"
| "storage_error_str SE_TIMEOUT = ''TIMEOUT''"
| "storage_error_str SE_ACCESS_DENIED = ''ACCESS_DENIED''"
| "storage_error_str SE_INVALID_KEY = ''INVALID_KEY''"
| "storage_error_str SE_IO = ''IO''"

record object_stat =
  os_size :: nat
  os_content_type :: "string option"
  os_checksum :: "string option"

record 's provider =
  sp_put :: "string \<Rightarrow> buffer \<Rightarrow> 's \<Rightarrow> (storage_error + object_stat) \<times> 's"
  sp_getStream :: "string \<Rightarrow> 's \<Rightarrow> storage_error + buffer"
  sp_stat :: "string \<Rightarrow> 's \<Rightarrow> storage_error + object_stat option"
  sp_delete :: "string \<Rightarrow> 's \<Rightarrow> (storage_error + unit) \<times> 's"

definition sp_exists :: "'s provider \<Rightarrow> string \<Rightarrow> 's \<Rightarrow> storage_error + bool" where
  "sp_exists p k s = (case sp_stat p k s of Inl e \<Rightarrow> Inl e | Inr st \<Rightarrow> Inr (st \<noteq> None))"

text \<open>A write (with its bytes) or a delete, whatever its outcome.\<close>

definition store_op :: "'s provider \<Rightarrow> string \<times> buffer option \<Rightarrow> 's \<Rightarrow> 's" where
  "store_op prov op s =
    (case snd op of Some data \<Rightarrow> snd (sp_put prov (fst op) data s) | None \<Rightarrow> snd (sp_delete prov (fst op) s))"

text \<open>
  What the services rely on. \<open>same k k'\<close> says that two keys name the same object, \<open>ok\<close> that
  the store is in a consistent state. A successful write is visible to \<open>stat\<close> and
  \<open>getStream\<close> with its size and bytes, and neither a write nor a delete, successful or not,
  touches an object stored under another key.
\<close>

locale object_store =
  fixes prov :: "'s provider" and same :: "string \<Rightarrow> string \<Rightarrow> bool" and ok :: "'s \<Rightarrow> bool"
  assumes put_stat: "sp_put prov k data s = (Inr st, s') \<Longrightarrow> sp_stat prov k s' = Inr (Some st)"
    and put_size: "sp_put prov k data s = (Inr st, s') \<Longrightarrow> os_size st = length data"
    and put_get: "sp_put prov k data s = (Inr st, s') \<Longrightarrow> sp_getStream prov k s' = Inr data"
    and put_other: "ok s \<Longrightarrow> sp_stat prov k' s = Inr (Some st') \<Longrightarrow> \<not> same k k' \<Longrightarrow>
      sp_stat prov k' (snd (sp_put prov k data s)) = Inr (Some st')"
    and delete_missing: "ok s \<Longrightarrow> sp_delete prov k s = (Inr (), s') \<Longrightarrow> sp_stat prov k s' = Inr None"
    and delete_other: "ok s \<Longrightarrow> sp_stat prov k' s = Inr (Some st') \<Longrightarrow> \<not> same k k' \<Longrightarrow>
      sp_stat prov k' (snd (sp_delete prov k s)) = Inr (Some st')"
    and put_ok: "ok s \<Longrightarrow> ok (snd (sp_put prov k data s))"
    and delete_ok: "ok s \<Longrightarrow> ok (snd (sp_delete prov k s))"
begin

lemma put_exists: "sp_put prov k data s = (Inr st, s') \<Longrightarrow> sp_exists prov k s' = Inr True"
  by (simp add: sp_exists_def put_stat)

lemma delete_not_exists: "ok s \<Longrightarrow> sp_delete prov k s = (Inr (), s') \<Longrightarrow> sp_exists prov k s' = Inr False"
  by (simp add: sp_exists_def delete_missing)

text \<open>An object that was written survives any sequence of writes and deletes of other objects.\<close>

lemma store_op_keeps:
  assumes "ok s" "sp_stat prov k s = Inr (Some st)" "\<not> same (fst op) k"
  shows "ok (store_op prov op s) \<and> sp_stat prov k (store_op prov op s) = Inr (Some st)"
  using assms put_other delete_other put_ok delete_ok
  by (auto simp: store_op_def split: option.split)

lemma object_survives:
  assumes "ok s" "sp_stat prov k s = Inr (Some st)" "\<forall>op\<in>set ops. \<not> same (fst op) k"
  shows "sp_stat prov k (fold (store_op prov) ops s) = Inr (Some st)"
  using assms
proof (induction ops arbitrary: s)
  case Nil
  then show ?case by simp
next
  case (Cons op ops)
  then have "ok (store_op prov op s) \<and> sp_stat prov k (store_op prov op s) = Inr (Some st)"
    by (intro store_op_keeps) simp_all
  with Cons show ?case by simp
qed

lemma put_then_survives:
  assumes "ok s" "sp_put prov k data s = (Inr st, s')" "\<forall>op\<in>set ops. \<not> same (fst op) k"
  shows "sp_stat prov k (fold (store_op prov) ops s') = Inr (Some st) \<and> os_size st = length data"
proof -
  have "ok s'" using put_ok [OF assms(1), of k data] assms(2) by simp
  then show ?thesis using object_survives put_stat [OF assms(2)] put_size [OF assms(2)] assms(3) by simp
qed

end

subsection \<open>Paths\<close>

text \<open>
  An absolute path is the list of its components; \<open>split_path\<close> cuts a string at the
  separators and \<open>norm_onto\<close> is what \<open>path.resolve\<close> does with the components of a relative
  path: empty and \<open>.\<close> components are dropped, \<open>..\<close> goes up and stays at the top.
\<close>

definition sep :: char where
  "sep = CHR ''/''"

fun split_path :: "string \<Rightarrow> string list" where
  "split_path [] = [[]]"
| "split_path (c # cs) =
    (if c = sep then [] # split_path cs
     else (c # hd (split_path cs)) # tl (split_path cs))"

fun norm_onto :: "string list \<Rightarrow> string list \<Rightarrow> string list" where
  "norm_onto base [] = base"
| "norm_onto base (p # ps) =
    (if p = [] \<or> p = ''.'' then norm_onto base ps
     else if p = ''..'' then norm_onto (butlast base) ps
     else norm_onto (base @ [p]) ps)"

definition path_str :: "string list \<Rightarrow> string" where
  "path_str ps = (if ps = [] then [sep] else concat (map (\<lambda>p. sep # p) ps))"

definition isAbsolute :: "string \<Rightarrow> bool" where
  "isAbsolute s = (s \<noteq> [] \<and> hd s = sep)"

text \<open>\<open>resolveSafe\<close>, with the containment test on the path strings as the code has it.\<close>

definition resolveSafe :: "string list \<Rightarrow> string \<Rightarrow> storage_error + string list" where
  "resolveSafe base key =
    (if key = [] \<or> isAbsolute key then Inl SE_INVALID_KEY
     else let full = norm_onto base (split_path key) in
       if path_str full \<noteq> path_str base \<and> \<not> prefix (path_str base @ [sep]) (path_str full)
       then Inl SE_INVALID_KEY
       else Inr full)"

subsection \<open>The local provider\<close>

text \<open>
  A directory tree maps absolute paths to files and directories. Writing creates the missing
  directories; it fails when a component of the path is a file or the target is a directory.
  Faults of the disk itself and symbolic links are not modelled.
\<close>

datatype node = File buffer | Dir

type_synonym fs = "string list \<Rightarrow> node option"

definition proper_prefixes :: "string list \<Rightarrow> string list list" where
  "proper_prefixes p = map (\<lambda>n. take n p) [0..<length p]"

text \<open>The path goes through a file: \<open>ENOTDIR\<close>.\<close>

definition through_file :: "fs \<Rightarrow> string list \<Rightarrow> bool" where
  "through_file t p = list_ex (\<lambda>q. case t q of Some (File _) \<Rightarrow> True | _ \<Rightarrow> False) (proper_prefixes p)"

definition mkdirs :: "string list \<Rightarrow> fs \<Rightarrow> fs" where
  "mkdirs p t = (\<lambda>q. if q \<in> set (proper_prefixes p) \<and> t q = None then Some Dir else t q)"

definition local_stat :: "string list \<Rightarrow> string \<Rightarrow> fs \<Rightarrow> storage_error + object_stat option" where
  "local_stat base key t =
    (case resolveSafe base key of
       Inl e \<Rightarrow> Inl e
     | Inr full \<Rightarrow>
         if through_file t full then Inl SE_IO
         else (case t full of
             Some (File data) \<Rightarrow> Inr (Some \<lparr>os_size = length data, os_content_type = None, os_checksum = None\<rparr>)
           | _ \<Rightarrow> Inr None))"

definition local_put :: "string list \<Rightarrow> string \<Rightarrow> buffer \<Rightarrow> fs \<Rightarrow> (storage_error + object_stat) \<times> fs" where
  "local_put base key data t =
    (case resolveSafe base key of
       Inl e \<Rightarrow> (Inl e, t)
     | Inr full \<Rightarrow>
         if through_file t full then (Inl SE_IO, t)
         else let t1 = mkdirs full t in
           if t1 full = Some Dir then (Inl SE_IO, t1)
           else let t2 = t1(full \<mapsto> File data) in
             (case local_stat base key t2 of
                Inl e \<Rightarrow> (Inl e, t2)
              | Inr None \<Rightarrow> (Inl SE_IO, t2)
              | Inr (Some st) \<Rightarrow> (Inr st, t2)))"

definition local_getStream :: "string list \<Rightarrow> string \<Rightarrow> fs \<Rightarrow> storage_error + buffer" where
  "local_getStream base key t =
    (case resolveSafe base key of
       Inl e \<Rightarrow> Inl e
     | Inr full \<Rightarrow>
         (case local_stat base key t of
            Inl e \<Rightarrow> Inl e
          | Inr None \<Rightarrow> Inl SE_NOT_FOUND
          | Inr (Some _) \<Rightarrow> (case t full of Some (File data) \<Rightarrow> Inr data | _ \<Rightarrow> Inl SE_IO)))"

definition local_delete :: "string list \<Rightarrow> string \<Rightarrow> fs \<Rightarrow> (storage_error + unit) \<times> fs" where
  "local_delete base key t =
    (case resolveSafe base key of
       Inl e \<Rightarrow> (Inl e, t)
     | Inr full \<Rightarrow>
         if through_file t full then (Inl SE_IO, t)
         else (case t full of
             None \<Rightarrow> (Inr (), t)
           | Some Dir \<Rightarrow> (Inl SE_IO, t)
           | Some (File _) \<Rightarrow> (Inr (), t(full := None))))"

definition local_provider :: "string list \<Rightarrow> fs provider" where
  "local_provider base =
    \<lparr>sp_put = local_put base, sp_getStream = local_getStream base,
     sp_stat = local_stat base, sp_delete = local_delete base\<rparr>"

text \<open>Two keys name the same object when they resolve to the same path.\<close>

definition same_path :: "string list \<Rightarrow> string \<Rightarrow> string \<Rightarrow> bool" where
  "same_path base k k' \<longleftrightarrow> (\<exists>p. resolveSafe base k = Inr p \<and> resolveSafe base k' = Inr p)"

lemma through_file_same:
  assumes "\<And>q d. q \<in> set (proper_prefixes p) \<Longrightarrow> t' q = Some (File d) \<Longrightarrow> \<exists>d'. t q = Some (File d')"
    and "\<not> through_file t p"
  shows "\<not> through_file t' p"
proof
  assume "through_file t' p"
  then obtain q where q: "q \<in> set (proper_prefixes p)"
      and "case t' q of Some (File _) \<Rightarrow> True | _ \<Rightarrow> False"
    unfolding through_file_def list_ex_iff by blast
  then obtain d where "t' q = Some (File d)"
    by (auto split: option.splits node.splits)
  from assms(1) [OF q this] obtain d' where "t q = Some (File d')" ..
  with q have "through_file t p"
    unfolding through_file_def list_ex_iff by force
  with assms(2) show False ..
qed

lemma not_own_proper_prefix: "p \<notin> set (proper_prefixes p)"
proof
  assume "p \<in> set (proper_prefixes p)"
  then obtain n where "n < length p" "p = take n p" by (auto simp: proper_prefixes_def)
  then show False by (metis length_take min_less_iff_conj nat_less_le)
qed

lemma mkdirs_file: "mkdirs p t q = Some (File d) \<longleftrightarrow> t q = Some (File d)"
  by (auto simp: mkdirs_def)

lemma through_file_put:
  assumes "\<not> through_file t p"
  shows "\<not> through_file ((mkdirs p t)(p \<mapsto> File d)) p"
  by (rule through_file_same [OF _ assms]) (auto simp: mkdirs_file not_own_proper_prefix split: if_splits)

text \<open>A successful put leaves exactly the directories and the file.\<close>

lemma local_put_Inr:
  assumes "local_put base k data t = (Inr st, t')"
  obtains p where "resolveSafe base k = Inr p" "\<not> through_file t p"
    "t' = (mkdirs p t)(p \<mapsto> File data)" "os_size st = length data"
    "local_stat base k t' = Inr (Some st)"
  using assms that
  by (auto simp: local_put_def Let_def through_file_put local_stat_def
      split: sum.splits if_splits option.splits)

text \<open>A consistent tree: whatever exists lies in existing directories.\<close>

definition tree_ok :: "fs \<Rightarrow> bool" where
  "tree_ok t \<longleftrightarrow> (\<forall>p. t p \<noteq> None \<longrightarrow> (\<forall>q\<in>set (proper_prefixes p). t q = Some Dir))"

lemma proper_prefix_trans:
  "q \<in> set (proper_prefixes p) \<Longrightarrow> r \<in> set (proper_prefixes q) \<Longrightarrow> r \<in> set (proper_prefixes p)"
  by (fastforce simp: proper_prefixes_def min_def)

lemma not_through_file: "\<not> through_file t p \<Longrightarrow> q \<in> set (proper_prefixes p) \<Longrightarrow> t q \<noteq> Some (File d)"
  by (auto simp: through_file_def list_ex_iff split: option.splits node.splits)

lemma tree_ok_through: "tree_ok t \<Longrightarrow> t p \<noteq> None \<Longrightarrow> \<not> through_file t p"
  by (auto simp: through_file_def list_ex_iff tree_ok_def split: option.splits node.splits)

lemma tree_ok_mkdirs:
  assumes "tree_ok t" "\<not> through_file t p"
  shows "tree_ok (mkdirs p t)"
proof -
  have "mkdirs p t r = Some Dir" if x: "mkdirs p t q \<noteq> None" and r: "r \<in> set (proper_prefixes q)" for q r
  proof (cases "t q = None")
    case True
    with x have "q \<in> set (proper_prefixes p)" by (auto simp: mkdirs_def split: if_splits)
    with r have rp: "r \<in> set (proper_prefixes p)" by (rule proper_prefix_trans [rotated])
    then show ?thesis
      using not_through_file [OF assms(2) rp]
      by (cases "t r") (auto simp: mkdirs_def intro: node.exhaust)
  next
    case False
    with r assms(1) show ?thesis by (simp add: tree_ok_def mkdirs_def)
  qed
  then show ?thesis by (simp add: tree_ok_def)
qed

lemma mkdirs_prefixes: "\<not> through_file t p \<Longrightarrow> q \<in> set (proper_prefixes p) \<Longrightarrow> mkdirs p t q = Some Dir"
  using not_through_file [of t p q] by (cases "t q") (auto simp: mkdirs_def intro: node.exhaust)

lemma tree_ok_write:
  assumes "tree_ok t" "\<not> through_file t p" "mkdirs p t p \<noteq> Some Dir"
  shows "tree_ok ((mkdirs p t)(p \<mapsto> File data))"
proof -
  let ?t = "(mkdirs p t)(p \<mapsto> File data)"
  note ok = tree_ok_mkdirs [OF assms(1,2)]
  have "?t r = Some Dir" if x: "?t q \<noteq> None" and r: "r \<in> set (proper_prefixes q)" for q r
  proof (cases "q = p")
    case True
    with r mkdirs_prefixes [OF assms(2)] not_own_proper_prefix [of p] show ?thesis by auto
  next
    case False
    with x have "mkdirs p t q \<noteq> None" by simp
    with ok r have "mkdirs p t r = Some Dir" by (simp add: tree_ok_def)
    with assms(3) show ?thesis by auto
  qed
  then show ?thesis by (simp add: tree_ok_def)
qed

lemma tree_ok_remove:
  assumes "tree_ok t" "t p = Some (File d)"
  shows "tree_ok (t(p := None))"
  using assms by (auto simp: tree_ok_def)

lemma local_put_tree:
  "tree_ok t \<Longrightarrow> tree_ok (snd (local_put base k data t))"
  by (auto simp: local_put_def Let_def tree_ok_mkdirs tree_ok_write split: sum.splits option.splits)

lemma local_delete_tree: "tree_ok t \<Longrightarrow> tree_ok (snd (local_delete base k t))"
  by (auto simp: local_delete_def tree_ok_remove split: sum.splits option.splits node.splits)

text \<open>Under a consistent tree \<open>stat\<close> sees exactly the files.\<close>

lemma local_stat_file:
  assumes "tree_ok t"
  shows "local_stat base k t = Inr (Some st) \<longleftrightarrow>
    (\<exists>p d. resolveSafe base k = Inr p \<and> t p = Some (File d) \<and>
       st = \<lparr>os_size = length d, os_content_type = None, os_checksum = None\<rparr>)"
  using tree_ok_through [OF assms]
  by (auto simp: local_stat_def split: sum.splits option.splits node.splits if_splits)

lemma local_put_other_file:
  "t q = Some (File d) \<Longrightarrow> resolveSafe base k \<noteq> Inr q \<Longrightarrow> snd (local_put base k data t) q = Some (File d)"
  by (auto simp: local_put_def Let_def mkdirs_file split: sum.splits if_splits option.splits)

lemma local_delete_other_file:
  "t q = Some (File d) \<Longrightarrow> resolveSafe base k \<noteq> Inr q \<Longrightarrow> snd (local_delete base k t) q = Some (File d)"
  by (auto simp: local_delete_def split: sum.splits if_splits option.splits node.splits)

lemma local_put_other:
  assumes "tree_ok t" "local_stat base k' t = Inr (Some st)" "\<not> same_path base k k'"
  shows "local_stat base k' (snd (local_put base k data t)) = Inr (Some st)"
proof -
  obtain p d where p: "resolveSafe base k' = Inr p" "t p = Some (File d)"
      "st = \<lparr>os_size = length d, os_content_type = None, os_checksum = None\<rparr>"
    using assms(2) unfolding local_stat_file [OF assms(1)] by blast
  with assms(3) have "resolveSafe base k \<noteq> Inr p" by (auto simp: same_path_def)
  with p have "snd (local_put base k data t) p = Some (File d)" by (simp add: local_put_other_file)
  with p show ?thesis unfolding local_stat_file [OF local_put_tree [OF assms(1)]] by blast
qed

lemma local_delete_other:
  assumes "tree_ok t" "local_stat base k' t = Inr (Some st)" "\<not> same_path base k k'"
  shows "local_stat base k' (snd (local_delete base k t)) = Inr (Some st)"
proof -
  obtain p d where p: "resolveSafe base k' = Inr p" "t p = Some (File d)"
      "st = \<lparr>os_size = length d, os_content_type = None, os_checksum = None\<rparr>"
    using assms(2) unfolding local_stat_file [OF assms(1)] by blast
  with assms(3) have "resolveSafe base k \<noteq> Inr p" by (auto simp: same_path_def)
  with p have "snd (local_delete base k t) p = Some (File d)" by (simp add: local_delete_other_file)
  with p show ?thesis unfolding local_stat_file [OF local_delete_tree [OF assms(1)]] by blast
qed

lemma local_delete_missing:
  assumes "tree_ok t" "local_delete base k t = (Inr (), t')"
  shows "local_stat base k t' = Inr None"
proof -
  obtain p where p: "resolveSafe base k = Inr p" "\<not> through_file t p"
      and t': "t' = t(p := None)"
    using assms(2)
    by (auto simp: local_delete_def fun_upd_idem split: sum.splits if_splits option.splits node.splits)
  have "\<not> through_file t' p"
    by (rule through_file_same [OF _ p(2)]) (auto simp: t' split: if_splits)
  then show ?thesis by (simp add: local_stat_def p t')
qed

interpretation local_store: object_store "local_provider base" "same_path base" tree_ok
  for base :: "string list"
proof
  fix k k' data st st' and s s' :: fs
  show "sp_stat (local_provider base) k s' = Inr (Some st)"
    if "sp_put (local_provider base) k data s = (Inr st, s')"
    using that by (auto simp: local_provider_def elim: local_put_Inr)
  show "os_size st = length data" if "sp_put (local_provider base) k data s = (Inr st, s')"
    using that by (auto simp: local_provider_def elim: local_put_Inr)
  show "sp_getStream (local_provider base) k s' = Inr data"
    if "sp_put (local_provider base) k data s = (Inr st, s')"
    using that by (auto simp: local_provider_def local_getStream_def elim!: local_put_Inr)
  show "sp_stat (local_provider base) k' (snd (sp_put (local_provider base) k data s)) = Inr (Some st')"
    if "tree_ok s" "sp_stat (local_provider base) k' s = Inr (Some st')" "\<not> same_path base k k'"
    using that by (simp add: local_provider_def local_put_other)
  show "sp_stat (local_provider base) k s' = Inr None"
    if "tree_ok s" "sp_delete (local_provider base) k s = (Inr (), s')"
    using that by (simp add: local_provider_def local_delete_missing)
  show "sp_stat (local_provider base) k' (snd (sp_delete (local_provider base) k s)) = Inr (Some st')"
    if "tree_ok s" "sp_stat (local_provider base) k' s = Inr (Some st')" "\<not> same_path base k k'"
    using that by (simp add: local_provider_def local_delete_other)
  show "tree_ok (snd (sp_put (local_provider base) k data s))" if "tree_ok s"
    using that by (simp add: local_provider_def local_put_tree)
  show "tree_ok (snd (sp_delete (local_provider base) k s))" if "tree_ok s"
    using that by (simp add: local_provider_def local_delete_tree)
qed

subsection \<open>Properties\<close>

definition plain_path :: "string list \<Rightarrow> bool" where
  "plain_path ps \<longleftrightarrow> (\<forall>p\<in>set ps. p \<noteq> [] \<and> sep \<notin> set p)"

abbreviation joined :: "string list \<Rightarrow> string" where
  "joined ps \<equiv> concat (map (\<lambda>p. sep # p) ps)"

lemma split_path_not_Nil [simp]: "split_path s \<noteq> []"
  by (cases s) simp_all

lemma split_path_plain: "p \<in> set (split_path s) \<Longrightarrow> sep \<notin> set p"
proof (induction s arbitrary: p)
  case Nil
  then show ?case by simp
next
  case (Cons c cs)
  then show ?case by (cases "split_path cs") (auto split: if_splits)
qed

lemma norm_onto_plain: "plain_path base \<Longrightarrow> (\<And>p. p \<in> set ps \<Longrightarrow> sep \<notin> set p) \<Longrightarrow> plain_path (norm_onto base ps)"
proof (induction base ps rule: norm_onto.induct)
  case (1 base)
  then show ?case by simp
next
  case (2 base p ps)
  have "plain_path (butlast base)" using "2.prems"(1) by (auto simp: plain_path_def dest: in_set_butlastD)
  moreover have "plain_path (base @ [p])" if "p \<noteq> []" using "2.prems" that by (simp add: plain_path_def)
  ultimately show ?case using 2 by simp
qed

lemma joined_head: "joined ps = [] \<or> hd (joined ps) = sep"
  by (cases ps) simp_all

text \<open>Cutting at the first separator gives the first component back.\<close>

lemma first_component:
  assumes "b @ xs = c @ ys" "sep \<notin> set b" "sep \<notin> set c" "xs = [] \<or> hd xs = sep" "ys = [] \<or> hd ys = sep"
  shows "b = c \<and> xs = ys"
  by (rule span_inj [where P = "\<lambda>x. x \<noteq> sep"]) (use assms in auto)

lemma joined_inj: "joined ps = joined qs \<Longrightarrow> plain_path ps \<Longrightarrow> plain_path qs \<Longrightarrow> ps = qs"
proof (induction ps arbitrary: qs)
  case Nil
  then show ?case by (cases qs) simp_all
next
  case (Cons p ps)
  then obtain q qs' where qs: "qs = q # qs'" by (cases qs) auto
  have "p = q \<and> joined ps = joined qs'"
    using Cons.prems qs joined_head [of ps] joined_head [of qs']
    by (intro first_component) (auto simp: plain_path_def)
  with Cons qs show ?case by (auto simp: plain_path_def)
qed

lemma joined_prefix:
  "joined ps @ sep # zs = joined qs \<Longrightarrow> plain_path ps \<Longrightarrow> plain_path qs \<Longrightarrow> prefix ps qs"
proof (induction ps arbitrary: qs)
  case Nil
  then show ?case by simp
next
  case (Cons p ps)
  then obtain q qs' where qs: "qs = q # qs'" by (cases qs) auto
  have "hd (joined ps @ sep # zs) = sep" using joined_head [of ps] by (auto simp: hd_append)
  then have "p = q \<and> joined ps @ sep # zs = joined qs'"
    using Cons.prems qs joined_head [of qs']
    by (intro first_component) (auto simp: plain_path_def)
  with Cons qs show ?case by (auto simp: plain_path_def)
qed

text \<open>C10: Path traversal is impossible in the local provider: whatever the key (with \<open>..\<close>
  components, empty or repeated separators, or the name of a sibling directory that merely
  begins with the root's name), a key that \<open>resolveSafe\<close> accepts resolves to the storage root
  or to a path below it, component by component.\<close>

theorem resolveSafe_contained:
  assumes "plain_path base" and "resolveSafe base key = Inr full"
  shows "prefix base full"
proof -
  have full: "full = norm_onto base (split_path key)"
      and ok: "path_str full = path_str base \<or> prefix (path_str base @ [sep]) (path_str full)"
    using assms(2) by (auto simp: resolveSafe_def Let_def split: if_splits)
  have plain: "plain_path full"
    unfolding full by (rule norm_onto_plain [OF assms(1) split_path_plain])
  show ?thesis
  proof (cases "base = [] \<or> full = []")
    case True
    have "full \<noteq> [] \<or> base = []" using ok
    proof
      assume eq: "path_str full = path_str base"
      show ?thesis
      proof (cases base)
        case (Cons b bs)
        then have "length (path_str base) > 1" using assms(1) by (simp add: path_str_def plain_path_def)
        with eq have "full \<noteq> []" by (auto simp: path_str_def)
        then show ?thesis ..
      qed simp
    next
      assume "prefix (path_str base @ [sep]) (path_str full)"
      then have "length (path_str base) + 1 \<le> length (path_str full)" by (auto dest: prefix_length_le)
      then show ?thesis by (auto simp: path_str_def split: if_splits)
    qed
    with True show ?thesis by auto
  next
    case False
    from ok show ?thesis
    proof
      assume "path_str full = path_str base"
      with False plain assms(1) have "full = base" by (simp add: path_str_def joined_inj)
      then show ?thesis by simp
    next
      assume "prefix (path_str base @ [sep]) (path_str full)"
      then obtain zs where "joined base @ sep # zs = joined full"
        using False by (auto simp: path_str_def prefix_def)
      then show ?thesis using assms(1) plain by (rule joined_prefix)
    qed
  qed
qed

theorem resolveSafe_contained_witness:
  "prefix [''srv'', ''data''] [''srv'', ''data'', ''photos'', ''1.png'']
   \<and> resolveSafe [''srv'', ''data''] ''../data-old/x'' = Inl SE_INVALID_KEY"
proof -
  have "resolveSafe [''srv'', ''data''] ''a/../photos//1.png'' = Inr [''srv'', ''data'', ''photos'', ''1.png'']"
    by code_simp
  moreover have "plain_path [''srv'', ''data'']" by (simp add: plain_path_def sep_def)
  ultimately have "prefix [''srv'', ''data''] [''srv'', ''data'', ''photos'', ''1.png'']"
    by (intro resolveSafe_contained)
  moreover have "resolveSafe [''srv'', ''data''] ''../data-old/x'' = Inl SE_INVALID_KEY"
    by code_simp
  ultimately show ?thesis by blast
qed

text \<open>C11: An object that the local provider has stored stays there with its size, whatever is
  written or deleted afterwards under keys that name other paths.\<close>

theorem stored_object_survives:
  assumes "tree_ok t" and "local_put base k data t = (Inr st, t')"
    and "\<forall>op\<in>set ops. \<not> same_path base (fst op) k"
  shows "local_stat base k (fold (store_op (local_provider base)) ops t') = Inr (Some st)
         \<and> os_size st = length data"
  using local_store.put_then_survives [of t base k data st t' ops] assms
  by (simp add: local_provider_def)

theorem stored_object_survives_witness:
  "local_stat [''srv''] ''a'' (fold (store_op (local_provider [''srv''])) [(''b'', Some [1]), (''b'', None)]
     (snd (local_put [''srv''] ''a'' [7, 8] (\<lambda>p. None))))
   = Inr (Some \<lparr>os_size = 2, os_content_type = None, os_checksum = None\<rparr>)"
proof -
  have r: "resolveSafe [''srv''] ''a'' = Inr [''srv'', ''a'']" "resolveSafe [''srv''] ''b'' = Inr [''srv'', ''b'']"
    by code_simp+
  have "local_put [''srv''] ''a'' [7, 8] (\<lambda>p. None) =
     (Inr \<lparr>os_size = 2, os_content_type = None, os_checksum = None\<rparr>, snd (local_put [''srv''] ''a'' [7, 8] (\<lambda>p. None)))"
    by (simp add: local_put_def local_stat_def r through_file_def mkdirs_def proper_prefixes_def upt_rec)
  moreover have "tree_ok (\<lambda>p. None)" by (simp add: tree_ok_def)
  moreover have "\<forall>op\<in>set [(''b'', Some [1]), (''b'', None)]. \<not> same_path [''srv''] (fst op) ''a''"
    by (simp add: same_path_def r)
  ultimately show ?thesis by (intro stored_object_survives [THEN conjunct1])
qed

end
