(* ===== verification/Photos.thy ===== *)
theory Photos
  imports Checklist Storage
begin

section \<open>Photo evidence\<close>

text \<open>
  Models src/modules/photos/photos.service.ts: the two-transaction upload of a step photo
  with the storage write between the transactions, its failure path, and the reads. The
  three parts are separate operations, so that other requests can run between them
  (theory \<open>Workflow\<close>); \<open>uploadStepPhoto\<close> composes them for a request that is not interleaved.
  The SHA-256 of a buffer and the random UUID of a storage key are parameters.
\<close>

definition MAX_PHOTO_BYTES :: nat where
  "MAX_PHOTO_BYTES = 10 * 1024 * 1024"

definition MAX_PHOTOS_PER_ATTEMPT :: nat where
  "MAX_PHOTOS_PER_ATTEMPT = 10"

fun mime_str :: "mime \<Rightarrow> string" where
  "mime_str Jpeg = ''image/jpeg''"
| "mime_str Png = ''image/png''"
| "mime_str Webp = ''image/webp''"

fun EXT_BY_MIME :: "mime \<Rightarrow> string" where
  "EXT_BY_MIME Jpeg = ''jpg''"
| "EXT_BY_MIME Png = ''png''"
| "EXT_BY_MIME Webp = ''webp''"

definition internalError :: api_error where
  "internalError = ApiError 500 ''INTERNAL_ERROR'' []"

text \<open>The rejections of an inspected image; a \<open>RangeError\<close> would surface as a 500.\<close>

definition image_result :: "(image_error + (mime \<times> nat \<times> nat)) option \<Rightarrow> api_error + mime" where
  "image_result r =
    (case r of
       None \<Rightarrow> Inl internalError
     | Some (Inl IMAGE_TOO_LARGE) \<Rightarrow> Inl (ApiError 422 ''IMAGE_TOO_LARGE'' [])
     | Some (Inl INVALID_FILE_TYPE) \<Rightarrow> Inl (ApiError 422 ''INVALID_FILE_TYPE'' [])
     | Some (Inr (m, _, _)) \<Rightarrow> Inr m)"

definition assertImage :: "buffer \<Rightarrow> api_error + mime" where
  "assertImage buf =
    throw_if (length buf > MAX_PHOTO_BYTES) (ApiError 422 ''FILE_TOO_LARGE'' [])
      (image_result (inspectImage buf))"

definition photo_key :: "nat \<Rightarrow> nat \<Rightarrow> string \<Rightarrow> mime \<Rightarrow> string" where
  "photo_key jobId stepId uuid m =
    ''photos/'' @ nat_str jobId @ ''/'' @ nat_str stepId @ ''/'' @ uuid @ ''.'' @ EXT_BY_MIME m"

text \<open>The read before the first transaction: scope and workable state.\<close>

definition photo_precheck :: "auth_user \<Rightarrow> nat \<Rightarrow> db \<Rightarrow> api_error + unit" where
  "photo_precheck a jobId d =
    andThen (loadScopedJob a jobId d) (\<lambda>job.
      throw_if (\<not> isWorkable job) (conflict ''JOB_NOT_IN_PROGRESS'') (Inr ()))"

text \<open>TX1. Returns the photo's id and the attempt it was registered for.\<close>

definition registerPhoto ::
  "req \<Rightarrow> auth_user \<Rightarrow> nat \<Rightarrow> nat \<Rightarrow> string \<Rightarrow> string \<Rightarrow> mime \<Rightarrow> nat \<Rightarrow> string \<Rightarrow> (db, nat \<times> nat) tx" where
  "registerPhoto q a jobId stepId key name m sizeBytes hash d =
    (case by_id j_id jobId (jobs d) of
       None \<Rightarrow> Inl (conflict ''JOB_NOT_IN_PROGRESS'')
     | Some job \<Rightarrow>
         throw_if (\<not> isWorkable job) (conflict ''JOB_NOT_IN_PROGRESS'')
         (need (job_checklist jobId d) notFound (\<lambda>cl.
          need (t_first (\<lambda>s. js_id s = stepId \<and> js_checklist s = cl_id cl) (jsteps d)) notFound (\<lambda>s.
          throw_if (js_status s \<noteq> S_PENDING) (conflict ''STEP_NOT_PENDING'')
         (throw_if (t_count (\<lambda>p. ph_job_step p = stepId \<and> ph_attempt p = js_attempt s
                       \<and> ph_status p \<in> {E_PENDING, E_READY}) (photos d) \<ge> MAX_PHOTOS_PER_ATTEMPT)
            (conflict ''PHOTO_LIMIT'')
         (let newId = next_id (photos d);
              d1 = d\<lparr>photos := t_insert (\<lambda>i. \<lparr>ph_id = i, ph_job = jobId, ph_job_step = stepId,
                     ph_attempt = js_attempt s, ph_status = E_PENDING, ph_key = key,
                     ph_original_name = take 255 name, ph_mime = mime_str m, ph_size = sizeBytes,
                     ph_hash = hash, ph_created_by = au_id a, ph_created_at = rq_now q, ph_ready_at = None,
                     ph_failed_at = None, ph_failure = None\<rparr>) (photos d)\<rparr>
          in Inr ((newId, js_attempt s),
               logAudit q (au_id a) ''PHOTO_UPLOAD_STARTED'' ''job_photo'' (nat_str newId) None
                 (Some (JObj [(''jobId'', jnat jobId), (''jobStepId'', jnat stepId),
                    (''attempt'', jnat (js_attempt s)), (''mime'', JStr (mime_str m)),
                    (''sizeBytes'', jnat sizeBytes)])) d1)))))))"

definition upd_photo :: "nat \<Rightarrow> (photo_row \<Rightarrow> photo_row) \<Rightarrow> db \<Rightarrow> db" where
  "upd_photo i f d = d\<lparr>photos := update_id ph_id i f (photos d)\<rparr>"

lemma upd_photo_frame [simp]:
  "users (upd_photo i f d) = users d" "branches (upd_photo i f d) = branches d"
  "customers (upd_photo i f d) = customers d" "vehicles (upd_photo i f d) = vehicles d"
  "jobs (upd_photo i f d) = jobs d" "assignments (upd_photo i f d) = assignments d"
  "templates (upd_photo i f d) = templates d" "versions (upd_photo i f d) = versions d"
  "csteps (upd_photo i f d) = csteps d" "mdefs (upd_photo i f d) = mdefs d"
  "checklists (upd_photo i f d) = checklists d" "jsteps (upd_photo i f d) = jsteps d"
  "smeas (upd_photo i f d) = smeas d" "approvals (upd_photo i f d) = approvals d"
  "signatures (upd_photo i f d) = signatures d" "risks (upd_photo i f d) = risks d"
  "matrices (upd_photo i f d) = matrices d" "snapshots (upd_photo i f d) = snapshots d"
  "gps_events (upd_photo i f d) = gps_events d" "audits (upd_photo i f d) = audits d"
  by (simp_all add: upd_photo_def)

text \<open>The workflow did not move on: same workable job, same step still pending, same attempt.\<close>

definition photo_still_valid :: "nat \<Rightarrow> nat \<Rightarrow> nat \<Rightarrow> db \<Rightarrow> bool" where
  "photo_still_valid jobId stepId attempt d =
    (case (by_id j_id jobId (jobs d), by_id js_id stepId (jsteps d)) of
       (Some job, Some s) \<Rightarrow> isWorkable job \<and> js_status s = S_PENDING \<and> js_attempt s = attempt
     | _ \<Rightarrow> False)"

text \<open>TX2. \<open>True\<close> when the photo became READY.\<close>

definition finalizePhoto ::
  "req \<Rightarrow> auth_user \<Rightarrow> nat \<Rightarrow> nat \<Rightarrow> nat \<Rightarrow> nat \<Rightarrow> nat \<Rightarrow> string \<Rightarrow> (db, bool) tx" where
  "finalizePhoto q a jobId stepId photoId attempt sizeBytes hash d =
    (case by_id ph_id photoId (photos d) of
       None \<Rightarrow> Inr (False, d)
     | Some row \<Rightarrow>
         if ph_status row \<noteq> E_PENDING then Inr (False, d)
         else if \<not> photo_still_valid jobId stepId attempt d then
           Inr (False, logAudit q (au_id a) ''PHOTO_UPLOAD_FAILED'' ''job_photo'' (nat_str photoId) None
             (Some (JObj [(''jobId'', jnat jobId), (''jobStepId'', jnat stepId), (''reason'', JStr ''SUPERSEDED'')]))
             (upd_photo photoId (\<lambda>r. r\<lparr>ph_status := E_FAILED, ph_failed_at := Some (rq_now q),
                ph_failure := Some ''SUPERSEDED''\<rparr>) d))
         else
           Inr (True, logAudit q (au_id a) ''PHOTO_UPLOAD_READY'' ''job_photo'' (nat_str photoId) None
             (Some (JObj [(''jobId'', jnat jobId), (''jobStepId'', jnat stepId),
                (''attempt'', jnat attempt), (''sizeBytes'', jnat sizeBytes), (''hash'', JStr hash)]))
             (upd_photo photoId (\<lambda>r. r\<lparr>ph_status := E_READY, ph_ready_at := Some (rq_now q)\<rparr>) d)))"

definition markPhotoFailed :: "req \<Rightarrow> auth_user \<Rightarrow> nat \<Rightarrow> string \<Rightarrow> (db, unit) tx" where
  "markPhotoFailed q a photoId reason d =
    (case by_id ph_id photoId (photos d) of
       None \<Rightarrow> Inr ((), d)
     | Some row \<Rightarrow>
         if ph_status row \<noteq> E_PENDING then Inr ((), d)
         else Inr ((), logAudit q (au_id a) ''PHOTO_UPLOAD_FAILED'' ''job_photo'' (nat_str photoId) None
             (Some (JObj [(''reason'', JStr (take 60 reason))]))
             (upd_photo photoId (\<lambda>r. r\<lparr>ph_status := E_FAILED, ph_failed_at := Some (rq_now q),
                ph_failure := Some (take 60 reason)\<rparr>) d)))"

text \<open>The storage write: the stored size must be the size that was sent.\<close>

definition put_verified ::
  "'s provider \<Rightarrow> string \<Rightarrow> buffer \<Rightarrow> 's \<Rightarrow> (storage_error + unit) \<times> 's" where
  "put_verified prov key data s =
    (case sp_put prov key data s of
       (Inl e, s') \<Rightarrow> (Inl e, s')
     | (Inr st, s') \<Rightarrow> if os_size st \<noteq> length data then (Inl SE_IO, s') else (Inr (), s'))"

definition uploadStepPhoto ::
  "'s provider \<Rightarrow> (buffer \<Rightarrow> string) \<Rightarrow> string \<Rightarrow> req \<Rightarrow> auth_user \<Rightarrow> nat \<Rightarrow> nat \<Rightarrow> buffer \<Rightarrow> string \<Rightarrow>
   db \<times> 's \<Rightarrow> (api_error + photo_row) \<times> db \<times> 's" where
  "uploadStepPhoto prov sha256 uuid q a jobId stepId buf name ds =
    (let (d, s) = ds in
     case andThen (photo_precheck a jobId d) (\<lambda>_. assertImage buf) of
       Inl e \<Rightarrow> (Inl e, d, s)
     | Inr m \<Rightarrow>
         (let hash = sha256 buf; key = photo_key jobId stepId uuid m; sizeBytes = length buf in
          case transaction (registerPhoto q a jobId stepId key name m sizeBytes hash) d of
            (Inl e, d1) \<Rightarrow> (Inl e, d1, s)
          | (Inr (photoId, attempt), d1) \<Rightarrow>
              (case put_verified prov key buf s of
                 (Inl err, s1) \<Rightarrow>
                   (Inl (ApiError 502 ''STORAGE_UNAVAILABLE'' []),
                    snd (transaction (markPhotoFailed q a photoId (''STORAGE_'' @ storage_error_str err)) d1), s1)
               | (Inr _, s1) \<Rightarrow>
                   (case transaction (finalizePhoto q a jobId stepId photoId attempt sizeBytes hash) d1 of
                      (Inl e, d2) \<Rightarrow> (Inl e, d2, s1)
                    | (Inr ok, d2) \<Rightarrow>
                        if \<not> ok then (Inl (conflict ''STEP_STATE_CHANGED''), d2, snd (sp_delete prov key s1))
                        else (case by_id ph_id photoId (photos d2) of
                                None \<Rightarrow> (Inl internalError, d2, s1)
                              | Some row \<Rightarrow> (Inr row, d2, s1))))))"

definition listStepPhotos :: "auth_user \<Rightarrow> nat \<Rightarrow> nat \<Rightarrow> db \<Rightarrow> api_error + (photo_row \<times> string) list" where
  "listStepPhotos a jobId stepId d =
    andThen (loadScopedJob a jobId d) (\<lambda>_.
      Inr (List.map_filter (\<lambda>p. map_option (\<lambda>u. (p, full_name u)) (by_id u_id (ph_created_by p) (users d)))
        (t_where (\<lambda>p. ph_job p = jobId \<and> ph_job_step p = stepId \<and> ph_status p = E_READY) (photos d))))"

definition getPhotoStream ::
  "'s provider \<Rightarrow> auth_user \<Rightarrow> nat \<Rightarrow> nat \<Rightarrow> nat \<Rightarrow> db \<Rightarrow> 's \<Rightarrow> api_error + (buffer \<times> string \<times> nat)" where
  "getPhotoStream prov a jobId stepId photoId d s =
    andThen (loadScopedJob a jobId d) (\<lambda>_.
    need (t_first (\<lambda>p. ph_id p = photoId \<and> ph_job p = jobId \<and> ph_job_step p = stepId \<and> ph_status p = E_READY)
            (photos d)) notFound (\<lambda>photo.
      (case sp_getStream prov (ph_key photo) s of
         Inl SE_NOT_FOUND \<Rightarrow> Inl notFound
       | Inl _ \<Rightarrow> Inl internalError
       | Inr bytes \<Rightarrow> Inr (bytes, ph_mime photo, ph_size photo))))"

end
