(* ===== verification/Completion.thy ===== *)
theory Completion
  imports Summary Photos
begin

section \<open>Completion: the gate, the customer signature, close, reopen, quality confirmation\<close>

text \<open>
  Models src/modules/jobs/completion.service.ts. The gate \<open>validateJobCompletion\<close> recomputes
  every completion condition from the database. Handlers with storage or reads outside their
  transaction are split at the transaction boundaries: \<open>saveSignature\<close> into registration,
  write and finalization, \<open>closeJob\<close> and \<open>confirmQuality\<close> into the read-only check and the
  locked transaction.
\<close>

definition MAX_SIGNATURE_BYTES :: nat where
  "MAX_SIGNATURE_BYTES = 5 * 1024 * 1024"

subsection \<open>The gate\<close>

datatype completion_reason =
    CHECKLIST_NOT_ASSIGNED | CHECKLIST_INCOMPLETE | STOP_APPROVAL_PENDING | STOP_STEP_REJECTED
  | REQUIRED_PHOTOS_MISSING | INVALID_MEASUREMENT | CRITICAL_RISK_UNRESOLVED
  | CUSTOMER_SIGNATURE_REQUIRED

fun reason_code :: "completion_reason \<Rightarrow> string" where
  "reason_code CHECKLIST_NOT_ASSIGNED = ''CHECKLIST_NOT_ASSIGNED''"
| "reason_code CHECKLIST_INCOMPLETE = ''CHECKLIST_INCOMPLETE''"
| "reason_code STOP_APPROVAL_PENDING = ''STOP_APPROVAL_PENDING''"
| "reason_code STOP_STEP_REJECTED = ''STOP_REJECTED''"
| "reason_code REQUIRED_PHOTOS_MISSING = ''REQUIRED_PHOTOS_MISSING''"
| "reason_code INVALID_MEASUREMENT = ''INVALID_MEASUREMENT''"
| "reason_code CRITICAL_RISK_UNRESOLVED = ''CRITICAL_RISK_UNRESOLVED''"
| "reason_code CUSTOMER_SIGNATURE_REQUIRED = ''CUSTOMER_SIGNATURE_REQUIRED''"

record conditions =
  cd_checklist :: bool
  cd_stops :: bool
  cd_photos :: bool
  cd_measurements :: bool
  cd_risks :: bool
  cd_signature :: bool

record readiness =
  canComplete :: bool
  reasons :: "completion_reason list"
  conditions_of :: conditions

definition photo_reasons :: "db \<Rightarrow> (jstep_row \<times> cstep_row) list \<Rightarrow> completion_reason list" where
  "photo_reasons d steps =
    concat (map (\<lambda>(s, c).
      if cs_required_photos c > 0
         \<and> ready_photos (js_id s) (relevantAttempt d (js_id s)) d < cs_required_photos c
      then [REQUIRED_PHOTOS_MISSING] else []) steps)"

text \<open>\<open>valueByKey\<close>: the last row stored for a step, measurement and attempt.\<close>

definition stored_value :: "db \<Rightarrow> nat \<Rightarrow> nat \<Rightarrow> nat \<Rightarrow> rat option" where
  "stored_value d stepId mid attempt =
    map_option sm_value
      (t_last (\<lambda>v. sm_job_step v = stepId \<and> sm_measurement v = mid \<and> sm_attempt v = attempt) (smeas d))"

definition measurement_reason :: "db \<Rightarrow> jstep_row \<Rightarrow> mdef_row \<Rightarrow> completion_reason list" where
  "measurement_reason d s def =
    (case stored_value d (js_id s) (md_id def) (relevantAttempt d (js_id s)) of
       None \<Rightarrow> [INVALID_MEASUREMENT]
     | Some v \<Rightarrow> if within_range def v then [] else [INVALID_MEASUREMENT])"

definition measurement_reasons :: "db \<Rightarrow> (jstep_row \<times> cstep_row) list \<Rightarrow> completion_reason list" where
  "measurement_reasons d steps =
    concat (map (\<lambda>(s, c). concat (map (measurement_reason d s)
      (t_where (\<lambda>m. md_step m = js_step s \<and> md_required m) (mdefs d)))) steps)"

definition job_cycle :: "nat \<Rightarrow> db \<Rightarrow> nat" where
  "job_cycle jobId d = (case by_id j_id jobId (jobs d) of None \<Rightarrow> 1 | Some j \<Rightarrow> j_cycle j)"

definition flag :: "bool \<Rightarrow> 'a \<Rightarrow> 'a list" where
  "flag b x = (if b then [x] else [])"

definition validateJobCompletion :: "nat \<Rightarrow> db \<Rightarrow> readiness" where
  "validateJobCompletion jobId d =
    (case job_checklist jobId d of
       None \<Rightarrow> \<lparr>canComplete = False, reasons = [CHECKLIST_NOT_ASSIGNED],
         conditions_of = \<lparr>cd_checklist = False, cd_stops = False, cd_photos = False,
           cd_measurements = False, cd_risks = False, cd_signature = False\<rparr>\<rparr>
     | Some cl \<Rightarrow>
         (let steps = ordered_steps (cl_id cl) d;
              has = (\<lambda>st. \<exists>(s, c)\<in>set steps. js_status s = st);
              photo = photo_reasons d steps;
              meas = measurement_reasons d steps;
              cycle = job_cycle jobId d;
              risk = countOpenBlockingRisks d jobId cycle > 0;
              unsigned = (t_first (\<lambda>s. sg_job s = jobId \<and> sg_cycle s = cycle \<and> sg_status s = E_READY
                            \<and> sg_superseded_at s = None) (signatures d) = None);
              rs = flag (has S_PENDING) CHECKLIST_INCOMPLETE
                   @ flag (has S_WAITING_APPROVAL) STOP_APPROVAL_PENDING
                   @ flag (has S_REJECTED) STOP_STEP_REJECTED
                   @ photo @ meas @ flag risk CRITICAL_RISK_UNRESOLVED
                   @ flag unsigned CUSTOMER_SIGNATURE_REQUIRED
          in \<lparr>canComplete = (rs = []), reasons = rs,
               conditions_of = \<lparr>cd_checklist = (\<not> has S_PENDING),
                 cd_stops = (\<not> has S_WAITING_APPROVAL \<and> \<not> has S_REJECTED), cd_photos = (photo = []),
                 cd_measurements = (meas = []), cd_risks = (\<not> risk), cd_signature = (\<not> unsigned)\<rparr>\<rparr>))"

definition conditions_json :: "conditions \<Rightarrow> json" where
  "conditions_json c =
    JObj [(''checklist'', JBool (cd_checklist c)), (''stops'', JBool (cd_stops c)), (''photos'', JBool (cd_photos c)),
      (''measurements'', JBool (cd_measurements c)), (''risks'', JBool (cd_risks c)), (''signature'', JBool (cd_signature c))]"

definition completion_blocked :: "readiness \<Rightarrow> api_error" where
  "completion_blocked r = ApiError 422 ''COMPLETION_BLOCKED'' (map reason_code (reasons r))"

text \<open>The objects the gate relies on, as keys with their expected sizes.\<close>

definition evidence_targets :: "nat \<Rightarrow> db \<Rightarrow> (string \<times> nat) list" where
  "evidence_targets jobId d =
    (case job_checklist jobId d of None \<Rightarrow> []
     | Some cl \<Rightarrow> concat (map (\<lambda>(s, c).
         if cs_required_photos c > 0
         then map (\<lambda>p. (ph_key p, ph_size p)) (evidence_of d (js_id s) (relevantAttempt d (js_id s)))
         else []) (joined_steps (cl_id cl) d)))
    @ (case active_signature jobId (job_cycle jobId d) d of None \<Rightarrow> [] | Some s \<Rightarrow> [(sg_key s, sg_size s)])"

definition object_verified :: "'s provider \<Rightarrow> 's \<Rightarrow> string \<times> nat \<Rightarrow> bool" where
  "object_verified prov st target =
    (case sp_stat prov (fst target) st of Inr (Some o') \<Rightarrow> os_size o' = snd target | _ \<Rightarrow> False)"

definition evidenceUnverifiable :: api_error where
  "evidenceUnverifiable = ApiError 502 ''EVIDENCE_UNVERIFIABLE'' []"

definition assertReadyEvidenceObjects :: "'s provider \<Rightarrow> nat \<Rightarrow> db \<Rightarrow> 's \<Rightarrow> (api_error + 'a) \<Rightarrow> api_error + 'a" where
  "assertReadyEvidenceObjects prov jobId d st k =
    throw_if (\<not> list_all (object_verified prov st) (evidence_targets jobId d)) evidenceUnverifiable k"

subsection \<open>Customer signature\<close>

definition getSignature :: "auth_user \<Rightarrow> nat \<Rightarrow> db \<Rightarrow> api_error + signature_row option" where
  "getSignature a jobId d =
    andThen (loadScopedJob a jobId d) (\<lambda>job. Inr (active_signature jobId (j_cycle job) d))"

definition getSignatureStream ::
  "'s provider \<Rightarrow> auth_user \<Rightarrow> nat \<Rightarrow> db \<Rightarrow> 's \<Rightarrow> api_error + (buffer \<times> string \<times> nat)" where
  "getSignatureStream prov a jobId d st =
    andThen (loadScopedJob a jobId d) (\<lambda>job.
    need (active_signature jobId (j_cycle job) d) notFound (\<lambda>row.
      (case sp_getStream prov (sg_key row) st of
         Inl SE_NOT_FOUND \<Rightarrow> Inl notFound
       | Inl _ \<Rightarrow> Inl internalError
       | Inr bytes \<Rightarrow> Inr (bytes, sg_mime row, sg_size row))))"

definition upd_signature :: "nat \<Rightarrow> (signature_row \<Rightarrow> signature_row) \<Rightarrow> db \<Rightarrow> db" where
  "upd_signature i f d = d\<lparr>signatures := update_id sg_id i f (signatures d)\<rparr>"

lemma upd_signature_frame [simp]:
  "users (upd_signature i f d) = users d" "branches (upd_signature i f d) = branches d"
  "customers (upd_signature i f d) = customers d" "vehicles (upd_signature i f d) = vehicles d"
  "jobs (upd_signature i f d) = jobs d" "assignments (upd_signature i f d) = assignments d"
  "templates (upd_signature i f d) = templates d" "versions (upd_signature i f d) = versions d"
  "csteps (upd_signature i f d) = csteps d" "mdefs (upd_signature i f d) = mdefs d"
  "checklists (upd_signature i f d) = checklists d" "jsteps (upd_signature i f d) = jsteps d"
  "smeas (upd_signature i f d) = smeas d" "approvals (upd_signature i f d) = approvals d"
  "photos (upd_signature i f d) = photos d" "risks (upd_signature i f d) = risks d"
  "matrices (upd_signature i f d) = matrices d" "snapshots (upd_signature i f d) = snapshots d"
  "gps_events (upd_signature i f d) = gps_events d" "audits (upd_signature i f d) = audits d"
  by (simp_all add: upd_signature_def)

definition truthy :: "string option \<Rightarrow> bool" where
  "truthy s = (s \<noteq> None \<and> s \<noteq> Some [])"

definition inFlightOrReady :: "nat \<Rightarrow> nat \<Rightarrow> db \<Rightarrow> signature_row option" where
  "inFlightOrReady jobId cycle d =
    t_last (\<lambda>s. sg_job s = jobId \<and> sg_cycle s = cycle \<and> sg_status s \<in> {E_PENDING, E_READY}
      \<and> sg_superseded_at s = None) (signatures d)"

text \<open>TX1. Returns the signature's id and the cycle it is bound to.\<close>

definition registerSignature ::
  "(string \<Rightarrow> string) \<Rightarrow> req \<Rightarrow> auth_user \<Rightarrow> nat \<Rightarrow> string \<Rightarrow> mime \<Rightarrow> nat \<Rightarrow> string \<Rightarrow> string option \<Rightarrow>
   (db, nat \<times> nat) tx" where
  "registerSignature sha256 q a jobId key m sizeBytes hash summaryDigest d =
    andThen (loadScopedJob a jobId d) (\<lambda>job.
    throw_if (\<not> isWorkable job) (conflict ''JOB_NOT_IN_PROGRESS'')
    (throw_if (case job_checklist jobId d of None \<Rightarrow> True | Some cl \<Rightarrow> cl_completed_at cl = None)
       (conflict ''CHECKLIST_INCOMPLETE'')
    (let bound = currentSummaryDigest sha256 jobId d;
         existing = inFlightOrReady jobId (j_cycle job) d in
     throw_if (truthy summaryDigest \<and> truthy bound \<and> summaryDigest \<noteq> bound) (conflict ''SUMMARY_STALE'')
    (throw_if (case existing of None \<Rightarrow> False
               | Some e \<Rightarrow> sg_status e = E_PENDING \<or> sg_summary_digest e = bound) (conflict ''SIGNATURE_EXISTS'')
    (let d1 = (case existing of None \<Rightarrow> d
         | Some e \<Rightarrow> logAudit q (au_id a) ''SIGNATURE_INVALIDATED'' ''job'' (nat_str jobId)
             (Some (JObj [(''signatureId'', jnat (sg_id e))]))
             (Some (JObj [(''reason'', JStr ''SUMMARY_CHANGED''), (''cycle'', jnat (j_cycle job))]))
             (upd_signature (sg_id e) (\<lambda>s. s\<lparr>sg_superseded_at := Some (rq_now q)\<rparr>) d));
         newId = next_id (signatures d1);
         d2 = d1\<lparr>signatures := t_insert (\<lambda>i. \<lparr>sg_id = i, sg_job = jobId, sg_customer = j_customer job,
                sg_cycle = j_cycle job, sg_status = E_PENDING, sg_key = key, sg_mime = mime_str m,
                sg_size = sizeBytes, sg_hash = hash, sg_summary_digest = bound,
                sg_created_at = rq_now q, sg_ready_at = None,
                sg_failed_at = None, sg_failure = None, sg_superseded_at = None\<rparr>) (signatures d1)\<rparr>
     in Inr ((newId, j_cycle job),
          logAudit q (au_id a) ''SIGNATURE_UPLOAD_STARTED'' ''job'' (nat_str jobId) None
            (Some (JObj [(''signatureId'', jnat newId), (''customerId'', jnat (j_customer job)),
               (''cycle'', jnat (j_cycle job))])) d2))))))"

text \<open>TX2. \<open>True\<close> when the signature became READY.\<close>

definition finalizeSignature :: "req \<Rightarrow> auth_user \<Rightarrow> nat \<Rightarrow> nat \<Rightarrow> nat \<Rightarrow> string \<Rightarrow> (db, bool) tx" where
  "finalizeSignature q a jobId sigId cycle hash d =
    (case by_id sg_id sigId (signatures d) of
       None \<Rightarrow> Inr (False, d)
     | Some row \<Rightarrow>
         if sg_status row \<noteq> E_PENDING then Inr (False, d)
         else if \<not> (case by_id j_id jobId (jobs d) of None \<Rightarrow> False
                    | Some job \<Rightarrow> isWorkable job \<and> j_cycle job = cycle) then
           Inr (False, logAudit q (au_id a) ''SIGNATURE_UPLOAD_FAILED'' ''job'' (nat_str jobId) None
             (Some (JObj [(''signatureId'', jnat sigId), (''reason'', JStr ''SUPERSEDED'')]))
             (upd_signature sigId (\<lambda>s. s\<lparr>sg_status := E_FAILED, sg_failed_at := Some (rq_now q),
                sg_failure := Some ''SUPERSEDED''\<rparr>) d))
         else
           Inr (True, logAudit q (au_id a) ''CUSTOMER_SIGNED'' ''job'' (nat_str jobId) None
             (Some (JObj [(''signatureId'', jnat sigId), (''customerId'', jnat (sg_customer row)),
                (''cycle'', jnat cycle), (''hash'', JStr hash)]))
             (upd_signature sigId (\<lambda>s. s\<lparr>sg_status := E_READY, sg_ready_at := Some (rq_now q)\<rparr>) d)))"

definition markSignatureFailed :: "req \<Rightarrow> auth_user \<Rightarrow> nat \<Rightarrow> nat \<Rightarrow> string \<Rightarrow> (db, unit) tx" where
  "markSignatureFailed q a jobId sigId reason d =
    (case by_id sg_id sigId (signatures d) of
       None \<Rightarrow> Inr ((), d)
     | Some row \<Rightarrow>
         if sg_status row \<noteq> E_PENDING then Inr ((), d)
         else Inr ((), logAudit q (au_id a) ''SIGNATURE_UPLOAD_FAILED'' ''job'' (nat_str jobId) None
             (Some (JObj [(''signatureId'', jnat sigId), (''reason'', JStr (take 60 reason))]))
             (upd_signature sigId (\<lambda>s. s\<lparr>sg_status := E_FAILED, sg_failed_at := Some (rq_now q),
                sg_failure := Some (take 60 reason)\<rparr>) d)))"

definition signature_key :: "nat \<Rightarrow> string \<Rightarrow> mime \<Rightarrow> string" where
  "signature_key jobId uuid m = ''signatures/'' @ nat_str jobId @ ''/'' @ uuid @ ''.'' @ EXT_BY_MIME m"

definition saveSignature ::
  "'s provider \<Rightarrow> (buffer \<Rightarrow> string) \<Rightarrow> (string \<Rightarrow> string) \<Rightarrow> string \<Rightarrow> req \<Rightarrow> auth_user \<Rightarrow> nat \<Rightarrow> buffer \<Rightarrow>
   string option \<Rightarrow> db \<times> 's \<Rightarrow> (api_error + signature_row option) \<times> db \<times> 's" where
  "saveSignature prov shaBytes sha256 uuid q a jobId buf summaryDigest ds =
    (let (d, st) = ds in
     case andThen (image_result (inspectImage buf)) (\<lambda>m.
            throw_if (length buf > MAX_SIGNATURE_BYTES) (ApiError 422 ''FILE_TOO_LARGE'' []) (Inr m)) of
       Inl e \<Rightarrow> (Inl e, d, st)
     | Inr m \<Rightarrow>
         (let key = signature_key jobId uuid m; hash = shaBytes buf in
          case transaction (registerSignature sha256 q a jobId key m (length buf) hash summaryDigest) d of
            (Inl e, d1) \<Rightarrow> (Inl e, d1, st)
          | (Inr (sigId, cycle), d1) \<Rightarrow>
              (case put_verified prov key buf st of
                 (Inl err, st1) \<Rightarrow>
                   (Inl (ApiError 502 ''STORAGE_UNAVAILABLE'' []),
                    snd (transaction (markSignatureFailed q a jobId sigId (''STORAGE_'' @ storage_error_str err)) d1), st1)
               | (Inr _, st1) \<Rightarrow>
                   (case transaction (finalizeSignature q a jobId sigId cycle hash) d1 of
                      (Inl e, d2) \<Rightarrow> (Inl e, d2, st1)
                    | (Inr ok, d2) \<Rightarrow>
                        if \<not> ok then (Inl (conflict ''JOB_STATE_CHANGED''), d2, snd (sp_delete prov key st1))
                        else (getSignature a jobId d2, d2, st1)))))"

subsection \<open>Freshness and the snapshot\<close>

definition assertSignatureFresh :: "(string \<Rightarrow> string) \<Rightarrow> nat \<Rightarrow> nat \<Rightarrow> db \<Rightarrow> (api_error + 'a) \<Rightarrow> api_error + 'a" where
  "assertSignatureFresh sha256 jobId cycle d k =
    (case active_signature jobId cycle d of
       None \<Rightarrow> k
     | Some s \<Rightarrow>
         throw_if (truthy (sg_summary_digest s) \<and> truthy (currentSummaryDigest sha256 jobId d)
                   \<and> sg_summary_digest s \<noteq> currentSummaryDigest sha256 jobId d)
           (ApiError 409 ''SIGNATURE_STALE'' []) k)"

definition finalizeSnapshot :: "(string \<Rightarrow> string) \<Rightarrow> req \<Rightarrow> nat \<Rightarrow> nat \<Rightarrow> nat \<Rightarrow> db \<Rightarrow> api_error + db" where
  "finalizeSnapshot sha256 q jobId cycle actorId d =
    (if t_first (\<lambda>s. sn_job s = jobId \<and> sn_cycle s = cycle) (snapshots d) \<noteq> None then Inr d
     else andThen (buildCompletionSnapshot sha256 jobId cycle actorId d) (\<lambda>b.
       Inr (logAudit q actorId ''COMPLETION_SNAPSHOT_FINALIZED'' ''job'' (nat_str jobId) None
         (Some (JObj [(''cycle'', jnat cycle), (''digest'', JStr (sb_digest b)),
            (''schemaVersion'', JStr SNAPSHOT_SCHEMA_VERSION)]))
         (d\<lparr>snapshots := t_insert (\<lambda>i. \<lparr>sn_id = i, sn_job = jobId, sn_cycle = cycle,
              sn_content = sb_content b, sn_digest = sb_digest b, sn_summary_digest = sb_summary_digest b,
              sn_signature_hash = sb_signature_hash b, sn_finalized_by = actorId,
              sn_provenance = ''FINALIZED'', sn_created_at = rq_now q\<rparr>) (snapshots d)\<rparr>))))"

subsection \<open>Close\<close>

text \<open>The check before the lock; \<open>allowed\<close> and \<open>code\<close> are the status test and its error.\<close>

definition completion_precheck ::
  "'s provider \<Rightarrow> job_status list \<Rightarrow> string \<Rightarrow> auth_user \<Rightarrow> nat \<Rightarrow> db \<Rightarrow> 's \<Rightarrow> api_error + unit" where
  "completion_precheck prov allowed code a jobId d st =
    andThen (loadScopedJob a jobId d) (\<lambda>job.
    throw_if (j_status job \<notin> set allowed) (conflict code)
    (let r = validateJobCompletion jobId d in
     throw_if (\<not> canComplete r) (completion_blocked r)
    (assertReadyEvidenceObjects prov jobId d st (Inr ()))))"

definition complete_job :: "req \<Rightarrow> auth_user \<Rightarrow> nat \<Rightarrow> db \<Rightarrow> db" where
  "complete_job q a jobId d =
    upd_job jobId (\<lambda>j. j\<lparr>j_status := J_COMPLETED, j_closed_by := Some (au_id a),
      j_closed_at := Some (rq_now q), j_updated_at := rq_now q\<rparr>) d"

definition review_writes :: "req \<Rightarrow> auth_user \<Rightarrow> nat \<Rightarrow> readiness \<Rightarrow> db \<Rightarrow> db" where
  "review_writes q a jobId r d =
    logAudit q (au_id a) ''QUALITY_REVIEW_REQUESTED'' ''job'' (nat_str jobId)
      (Some (status_obj J_REOPENED))
      (Some (JObj [(''status'', JStr ''QUALITY_REVIEW''), (''conditions'', conditions_json (conditions_of r))]))
      (upd_job jobId (\<lambda>j. j\<lparr>j_status := J_QUALITY_REVIEW, j_updated_at := rq_now q\<rparr>) d)"

definition close_writes :: "req \<Rightarrow> auth_user \<Rightarrow> nat \<Rightarrow> job_status \<Rightarrow> (string \<times> json) list \<Rightarrow> readiness \<Rightarrow> db \<Rightarrow> db" where
  "close_writes q a jobId from extra r d =
    logAudit q (au_id a) ''JOB_CLOSED'' ''job'' (nat_str jobId) (Some (status_obj from))
      (Some (JObj ([(''status'', JStr ''COMPLETED''), (''conditions'', conditions_json (conditions_of r))] @ extra)))
      (complete_job q a jobId d)"

definition closeJob_tx :: "(string \<Rightarrow> string) \<Rightarrow> req \<Rightarrow> auth_user \<Rightarrow> nat \<Rightarrow> (db, unit) tx" where
  "closeJob_tx sha256 q a jobId d =
    andThen (loadScopedJob a jobId d) (\<lambda>job.
    throw_if (j_status job \<noteq> J_IN_PROGRESS \<and> j_status job \<noteq> J_REOPENED) (conflict ''JOB_NOT_CLOSABLE'')
    (let r = validateJobCompletion jobId d in
     throw_if (\<not> canComplete r) (completion_blocked r)
    (assertRiskPolicyApproved d
    (assertSignatureFresh sha256 jobId (j_cycle job) d
    (if j_status job = J_REOPENED then
       Inr ((), review_writes q a jobId r d)
     else
       andThen (finalizeSnapshot sha256 q jobId (j_cycle job) (au_id a) (close_writes q a jobId J_IN_PROGRESS [] r d))
         (\<lambda>d'. Inr ((), d')))))))"

definition closeJob ::
  "'s provider \<Rightarrow> (string \<Rightarrow> string) \<Rightarrow> req \<Rightarrow> auth_user \<Rightarrow> nat \<Rightarrow> 's \<Rightarrow> db \<Rightarrow> (api_error + unit) \<times> db" where
  "closeJob prov sha256 q a jobId st d =
    (case completion_precheck prov [J_IN_PROGRESS, J_REOPENED] ''JOB_NOT_CLOSABLE'' a jobId d st of
       Inl e \<Rightarrow> (Inl e, d)
     | Inr _ \<Rightarrow> transaction (closeJob_tx sha256 q a jobId) d)"

subsection \<open>Reopen and quality confirmation\<close>

definition ready_of_cycle :: "nat \<Rightarrow> nat \<Rightarrow> signature_row \<Rightarrow> bool" where
  "ready_of_cycle jobId cycle s = (sg_job s = jobId \<and> sg_cycle s = cycle \<and> sg_status s = E_READY)"

definition reopen_writes :: "req \<Rightarrow> auth_user \<Rightarrow> nat \<Rightarrow> string \<Rightarrow> job_row \<Rightarrow> db \<Rightarrow> db" where
  "reopen_writes q a jobId reason job d =
    (let newCycle = j_cycle job + 1;
         d1 = upd_job jobId (\<lambda>j. j\<lparr>j_status := J_REOPENED, j_cycle := newCycle,
                j_reopen_reason := Some reason, j_reopened_by := Some (au_id a),
                j_reopened_at := Some (rq_now q), j_updated_at := rq_now q\<rparr>) d;
         superseded = t_count (ready_of_cycle jobId (j_cycle job)) (signatures d1);
         d2 = d1\<lparr>signatures := t_update (ready_of_cycle jobId (j_cycle job))
                (\<lambda>s. s\<lparr>sg_superseded_at := Some (rq_now q)\<rparr>) (signatures d1)\<rparr>;
         d3 = logAudit q (au_id a) ''JOB_REOPENED'' ''job'' (nat_str jobId)
                (Some (JObj [(''status'', JStr ''COMPLETED''), (''cycle'', jnat (j_cycle job))]))
                (Some (JObj [(''status'', JStr ''REOPENED''), (''cycle'', jnat newCycle), (''reason'', JStr reason)])) d2
     in if superseded > 0 then
          logAudit q (au_id a) ''SIGNATURE_SUPERSEDED'' ''job'' (nat_str jobId)
            (Some (JObj [(''cycle'', jnat (j_cycle job))]))
            (Some (JObj [(''reason'', JStr ''JOB_REOPENED''), (''newCycle'', jnat newCycle)])) d3
        else d3)"

definition reopenJob :: "req \<Rightarrow> auth_user \<Rightarrow> nat \<Rightarrow> string \<Rightarrow> (db, unit) tx" where
  "reopenJob q a jobId reason d =
    andThen (loadScopedJob a jobId d) (\<lambda>job.
    throw_if (j_status job \<noteq> J_COMPLETED) (conflict ''JOB_NOT_COMPLETED'')
    (Inr ((), reopen_writes q a jobId reason job d)))"

definition confirmQuality_tx :: "(string \<Rightarrow> string) \<Rightarrow> req \<Rightarrow> auth_user \<Rightarrow> nat \<Rightarrow> (db, unit) tx" where
  "confirmQuality_tx sha256 q a jobId d =
    andThen (loadScopedJob a jobId d) (\<lambda>job.
    throw_if (j_status job \<noteq> J_QUALITY_REVIEW) (conflict ''JOB_NOT_IN_QUALITY_REVIEW'')
    (let r = validateJobCompletion jobId d in
     throw_if (\<not> canComplete r) (completion_blocked r)
    (assertRiskPolicyApproved d
    (assertSignatureFresh sha256 jobId (j_cycle job) d
    (andThen (finalizeSnapshot sha256 q jobId (j_cycle job) (au_id a)
       (close_writes q a jobId J_QUALITY_REVIEW [(''qualityConfirmed'', JBool True)] r d))
       (\<lambda>d'. Inr ((), d')))))))"

definition confirmQuality ::
  "'s provider \<Rightarrow> (string \<Rightarrow> string) \<Rightarrow> req \<Rightarrow> auth_user \<Rightarrow> nat \<Rightarrow> 's \<Rightarrow> db \<Rightarrow> (api_error + unit) \<times> db" where
  "confirmQuality prov sha256 q a jobId st d =
    (case completion_precheck prov [J_QUALITY_REVIEW] ''JOB_NOT_IN_QUALITY_REVIEW'' a jobId d st of
       Inl e \<Rightarrow> (Inl e, d)
     | Inr _ \<Rightarrow> transaction (confirmQuality_tx sha256 q a jobId) d)"

end
