(* ===== verification/Effects.thy ===== *)
theory Effects
  imports Stop Completion
begin

section \<open>What each handler changes\<close>

text \<open>
  For every transaction of the workflow: when it commits, and which tables the commit changes.
  The frame lemmas are simplification rules, so an invariant over other tables is kept by
  rewriting; the tables that are changed have an equation each.
\<close>

subsection \<open>Frames of the write functions\<close>

lemma reassign_writes_frame [simp]:
  "users (reassign_writes q a i t r job d) = users d"
  "branches (reassign_writes q a i t r job d) = branches d"
  "customers (reassign_writes q a i t r job d) = customers d"
  "vehicles (reassign_writes q a i t r job d) = vehicles d"
  "templates (reassign_writes q a i t r job d) = templates d"
  "versions (reassign_writes q a i t r job d) = versions d"
  "csteps (reassign_writes q a i t r job d) = csteps d"
  "mdefs (reassign_writes q a i t r job d) = mdefs d"
  "checklists (reassign_writes q a i t r job d) = checklists d"
  "jsteps (reassign_writes q a i t r job d) = jsteps d"
  "smeas (reassign_writes q a i t r job d) = smeas d"
  "approvals (reassign_writes q a i t r job d) = approvals d"
  "photos (reassign_writes q a i t r job d) = photos d"
  "signatures (reassign_writes q a i t r job d) = signatures d"
  "risks (reassign_writes q a i t r job d) = risks d"
  "matrices (reassign_writes q a i t r job d) = matrices d"
  "snapshots (reassign_writes q a i t r job d) = snapshots d"
  "gps_events (reassign_writes q a i t r job d) = gps_events d"
  by (simp_all add: reassign_writes_def Let_def)

lemma unassign_writes_frame [simp]:
  "users (unassign_writes q a i r job d) = users d"
  "branches (unassign_writes q a i r job d) = branches d"
  "customers (unassign_writes q a i r job d) = customers d"
  "vehicles (unassign_writes q a i r job d) = vehicles d"
  "templates (unassign_writes q a i r job d) = templates d"
  "versions (unassign_writes q a i r job d) = versions d"
  "csteps (unassign_writes q a i r job d) = csteps d"
  "mdefs (unassign_writes q a i r job d) = mdefs d"
  "checklists (unassign_writes q a i r job d) = checklists d"
  "jsteps (unassign_writes q a i r job d) = jsteps d"
  "smeas (unassign_writes q a i r job d) = smeas d"
  "approvals (unassign_writes q a i r job d) = approvals d"
  "photos (unassign_writes q a i r job d) = photos d"
  "signatures (unassign_writes q a i r job d) = signatures d"
  "risks (unassign_writes q a i r job d) = risks d"
  "matrices (unassign_writes q a i r job d) = matrices d"
  "snapshots (unassign_writes q a i r job d) = snapshots d"
  "gps_events (unassign_writes q a i r job d) = gps_events d"
  by (simp_all add: unassign_writes_def Let_def)

lemma create_writes_frame [simp]:
  "users (create_writes q a c v b d) = users d" "branches (create_writes q a c v b d) = branches d"
  "customers (create_writes q a c v b d) = customers d"
  "vehicles (create_writes q a c v b d) = vehicles d"
  "templates (create_writes q a c v b d) = templates d"
  "versions (create_writes q a c v b d) = versions d"
  "csteps (create_writes q a c v b d) = csteps d" "mdefs (create_writes q a c v b d) = mdefs d"
  "checklists (create_writes q a c v b d) = checklists d"
  "jsteps (create_writes q a c v b d) = jsteps d" "smeas (create_writes q a c v b d) = smeas d"
  "approvals (create_writes q a c v b d) = approvals d"
  "photos (create_writes q a c v b d) = photos d"
  "signatures (create_writes q a c v b d) = signatures d"
  "risks (create_writes q a c v b d) = risks d" "matrices (create_writes q a c v b d) = matrices d"
  "snapshots (create_writes q a c v b d) = snapshots d"
  "gps_events (create_writes q a c v b d) = gps_events d"
  by (simp_all add: create_writes_def assignAtCreation_def Let_def)

lemma start_writes_frame [simp]:
  "users (start_writes q a i d) = users d" "branches (start_writes q a i d) = branches d"
  "customers (start_writes q a i d) = customers d" "vehicles (start_writes q a i d) = vehicles d"
  "assignments (start_writes q a i d) = assignments d"
  "templates (start_writes q a i d) = templates d" "versions (start_writes q a i d) = versions d"
  "csteps (start_writes q a i d) = csteps d" "mdefs (start_writes q a i d) = mdefs d"
  "checklists (start_writes q a i d) = checklists d" "jsteps (start_writes q a i d) = jsteps d"
  "smeas (start_writes q a i d) = smeas d" "approvals (start_writes q a i d) = approvals d"
  "photos (start_writes q a i d) = photos d" "signatures (start_writes q a i d) = signatures d"
  "risks (start_writes q a i d) = risks d" "matrices (start_writes q a i d) = matrices d"
  "snapshots (start_writes q a i d) = snapshots d"
  "gps_events (start_writes q a i d) = gps_events d"
  by (simp_all add: start_writes_def Let_def)

lemma installation_writes_frame [simp]:
  "users (installation_writes q a i inp job d) = users d"
  "branches (installation_writes q a i inp job d) = branches d"
  "customers (installation_writes q a i inp job d) = customers d"
  "vehicles (installation_writes q a i inp job d) = vehicles d"
  "assignments (installation_writes q a i inp job d) = assignments d"
  "templates (installation_writes q a i inp job d) = templates d"
  "versions (installation_writes q a i inp job d) = versions d"
  "csteps (installation_writes q a i inp job d) = csteps d"
  "mdefs (installation_writes q a i inp job d) = mdefs d"
  "checklists (installation_writes q a i inp job d) = checklists d"
  "jsteps (installation_writes q a i inp job d) = jsteps d"
  "smeas (installation_writes q a i inp job d) = smeas d"
  "approvals (installation_writes q a i inp job d) = approvals d"
  "photos (installation_writes q a i inp job d) = photos d"
  "signatures (installation_writes q a i inp job d) = signatures d"
  "risks (installation_writes q a i inp job d) = risks d"
  "matrices (installation_writes q a i inp job d) = matrices d"
  "snapshots (installation_writes q a i inp job d) = snapshots d"
  "gps_events (installation_writes q a i inp job d) = gps_events d"
  by (simp_all add: installation_writes_def Let_def)

lemma cancel_writes_frame [simp]:
  "users (cancel_writes q a i r job d) = users d"
  "branches (cancel_writes q a i r job d) = branches d"
  "customers (cancel_writes q a i r job d) = customers d"
  "vehicles (cancel_writes q a i r job d) = vehicles d"
  "assignments (cancel_writes q a i r job d) = assignments d"
  "templates (cancel_writes q a i r job d) = templates d"
  "versions (cancel_writes q a i r job d) = versions d"
  "csteps (cancel_writes q a i r job d) = csteps d" "mdefs (cancel_writes q a i r job d) = mdefs d"
  "checklists (cancel_writes q a i r job d) = checklists d"
  "jsteps (cancel_writes q a i r job d) = jsteps d" "smeas (cancel_writes q a i r job d) = smeas d"
  "approvals (cancel_writes q a i r job d) = approvals d"
  "photos (cancel_writes q a i r job d) = photos d"
  "signatures (cancel_writes q a i r job d) = signatures d"
  "risks (cancel_writes q a i r job d) = risks d"
  "matrices (cancel_writes q a i r job d) = matrices d"
  "snapshots (cancel_writes q a i r job d) = snapshots d"
  "gps_events (cancel_writes q a i r job d) = gps_events d"
  by (simp_all add: cancel_writes_def Let_def)

lemma assign_writes_frame [simp]:
  "users (assign_writes q a i t v ss d) = users d"
  "branches (assign_writes q a i t v ss d) = branches d"
  "customers (assign_writes q a i t v ss d) = customers d"
  "vehicles (assign_writes q a i t v ss d) = vehicles d"
  "jobs (assign_writes q a i t v ss d) = jobs d"
  "assignments (assign_writes q a i t v ss d) = assignments d"
  "templates (assign_writes q a i t v ss d) = templates d"
  "versions (assign_writes q a i t v ss d) = versions d"
  "csteps (assign_writes q a i t v ss d) = csteps d"
  "mdefs (assign_writes q a i t v ss d) = mdefs d" "smeas (assign_writes q a i t v ss d) = smeas d"
  "approvals (assign_writes q a i t v ss d) = approvals d"
  "photos (assign_writes q a i t v ss d) = photos d"
  "signatures (assign_writes q a i t v ss d) = signatures d"
  "risks (assign_writes q a i t v ss d) = risks d"
  "matrices (assign_writes q a i t v ss d) = matrices d"
  "snapshots (assign_writes q a i t v ss d) = snapshots d"
  "gps_events (assign_writes q a i t v ss d) = gps_events d"
  by (simp_all add: assign_writes_def Let_def)

lemma submit_stop_frame [simp]:
  "users (submit_stop q a job s c note st d) = users d"
  "branches (submit_stop q a job s c note st d) = branches d"
  "customers (submit_stop q a job s c note st d) = customers d"
  "vehicles (submit_stop q a job s c note st d) = vehicles d"
  "assignments (submit_stop q a job s c note st d) = assignments d"
  "templates (submit_stop q a job s c note st d) = templates d"
  "versions (submit_stop q a job s c note st d) = versions d"
  "csteps (submit_stop q a job s c note st d) = csteps d"
  "mdefs (submit_stop q a job s c note st d) = mdefs d"
  "checklists (submit_stop q a job s c note st d) = checklists d"
  "smeas (submit_stop q a job s c note st d) = smeas d"
  "photos (submit_stop q a job s c note st d) = photos d"
  "signatures (submit_stop q a job s c note st d) = signatures d"
  "risks (submit_stop q a job s c note st d) = risks d"
  "matrices (submit_stop q a job s c note st d) = matrices d"
  "snapshots (submit_stop q a job s c note st d) = snapshots d"
  "gps_events (submit_stop q a job s c note st d) = gps_events d"
  by (simp_all add: submit_stop_def Let_def)

lemma finish_step_frame [simp]:
  "users (finish_step q a job cl s c note st d) = users d"
  "branches (finish_step q a job cl s c note st d) = branches d"
  "customers (finish_step q a job cl s c note st d) = customers d"
  "vehicles (finish_step q a job cl s c note st d) = vehicles d"
  "jobs (finish_step q a job cl s c note st d) = jobs d"
  "assignments (finish_step q a job cl s c note st d) = assignments d"
  "templates (finish_step q a job cl s c note st d) = templates d"
  "versions (finish_step q a job cl s c note st d) = versions d"
  "csteps (finish_step q a job cl s c note st d) = csteps d"
  "mdefs (finish_step q a job cl s c note st d) = mdefs d"
  "smeas (finish_step q a job cl s c note st d) = smeas d"
  "approvals (finish_step q a job cl s c note st d) = approvals d"
  "photos (finish_step q a job cl s c note st d) = photos d"
  "signatures (finish_step q a job cl s c note st d) = signatures d"
  "risks (finish_step q a job cl s c note st d) = risks d"
  "matrices (finish_step q a job cl s c note st d) = matrices d"
  "snapshots (finish_step q a job cl s c note st d) = snapshots d"
  "gps_events (finish_step q a job cl s c note st d) = gps_events d"
  by (simp_all add: finish_step_def Let_def)

lemma redo_writes_frame [simp]:
  "users (redo_writes q a i cl s c d) = users d"
  "branches (redo_writes q a i cl s c d) = branches d"
  "customers (redo_writes q a i cl s c d) = customers d"
  "vehicles (redo_writes q a i cl s c d) = vehicles d" "jobs (redo_writes q a i cl s c d) = jobs d"
  "assignments (redo_writes q a i cl s c d) = assignments d"
  "templates (redo_writes q a i cl s c d) = templates d"
  "versions (redo_writes q a i cl s c d) = versions d"
  "csteps (redo_writes q a i cl s c d) = csteps d" "mdefs (redo_writes q a i cl s c d) = mdefs d"
  "smeas (redo_writes q a i cl s c d) = smeas d"
  "approvals (redo_writes q a i cl s c d) = approvals d"
  "photos (redo_writes q a i cl s c d) = photos d"
  "signatures (redo_writes q a i cl s c d) = signatures d"
  "risks (redo_writes q a i cl s c d) = risks d"
  "matrices (redo_writes q a i cl s c d) = matrices d"
  "snapshots (redo_writes q a i cl s c d) = snapshots d"
  "gps_events (redo_writes q a i cl s c d) = gps_events d"
  by (simp_all add: redo_writes_def Let_def)

lemma approve_writes_frame [simp]:
  "users (approve_writes q a i job ap s c d) = users d"
  "branches (approve_writes q a i job ap s c d) = branches d"
  "customers (approve_writes q a i job ap s c d) = customers d"
  "vehicles (approve_writes q a i job ap s c d) = vehicles d"
  "assignments (approve_writes q a i job ap s c d) = assignments d"
  "templates (approve_writes q a i job ap s c d) = templates d"
  "versions (approve_writes q a i job ap s c d) = versions d"
  "csteps (approve_writes q a i job ap s c d) = csteps d"
  "mdefs (approve_writes q a i job ap s c d) = mdefs d"
  "smeas (approve_writes q a i job ap s c d) = smeas d"
  "photos (approve_writes q a i job ap s c d) = photos d"
  "signatures (approve_writes q a i job ap s c d) = signatures d"
  "matrices (approve_writes q a i job ap s c d) = matrices d"
  "snapshots (approve_writes q a i job ap s c d) = snapshots d"
  "gps_events (approve_writes q a i job ap s c d) = gps_events d"
  by (simp_all add: approve_writes_def Let_def)

lemma reject_marks_frame [simp]:
  "users (reject_marks q a i r ap s d) = users d"
  "branches (reject_marks q a i r ap s d) = branches d"
  "customers (reject_marks q a i r ap s d) = customers d"
  "vehicles (reject_marks q a i r ap s d) = vehicles d"
  "assignments (reject_marks q a i r ap s d) = assignments d"
  "templates (reject_marks q a i r ap s d) = templates d"
  "versions (reject_marks q a i r ap s d) = versions d"
  "csteps (reject_marks q a i r ap s d) = csteps d" "mdefs (reject_marks q a i r ap s d) = mdefs d"
  "checklists (reject_marks q a i r ap s d) = checklists d"
  "smeas (reject_marks q a i r ap s d) = smeas d" "photos (reject_marks q a i r ap s d) = photos d"
  "signatures (reject_marks q a i r ap s d) = signatures d"
  "risks (reject_marks q a i r ap s d) = risks d"
  "matrices (reject_marks q a i r ap s d) = matrices d"
  "snapshots (reject_marks q a i r ap s d) = snapshots d"
  "gps_events (reject_marks q a i r ap s d) = gps_events d"
  by (simp_all add: reject_marks_def Let_def)

lemma rework_writes_frame [simp]:
  "users (rework_writes q a i job s c d) = users d"
  "branches (rework_writes q a i job s c d) = branches d"
  "customers (rework_writes q a i job s c d) = customers d"
  "vehicles (rework_writes q a i job s c d) = vehicles d"
  "assignments (rework_writes q a i job s c d) = assignments d"
  "templates (rework_writes q a i job s c d) = templates d"
  "versions (rework_writes q a i job s c d) = versions d"
  "csteps (rework_writes q a i job s c d) = csteps d"
  "mdefs (rework_writes q a i job s c d) = mdefs d"
  "checklists (rework_writes q a i job s c d) = checklists d"
  "smeas (rework_writes q a i job s c d) = smeas d"
  "approvals (rework_writes q a i job s c d) = approvals d"
  "photos (rework_writes q a i job s c d) = photos d"
  "signatures (rework_writes q a i job s c d) = signatures d"
  "risks (rework_writes q a i job s c d) = risks d"
  "matrices (rework_writes q a i job s c d) = matrices d"
  "snapshots (rework_writes q a i job s c d) = snapshots d"
  "gps_events (rework_writes q a i job s c d) = gps_events d"
  by (simp_all add: rework_writes_def Let_def)

lemma review_writes_frame [simp]:
  "users (review_writes q a i r d) = users d" "branches (review_writes q a i r d) = branches d"
  "customers (review_writes q a i r d) = customers d"
  "vehicles (review_writes q a i r d) = vehicles d"
  "assignments (review_writes q a i r d) = assignments d"
  "templates (review_writes q a i r d) = templates d"
  "versions (review_writes q a i r d) = versions d" "csteps (review_writes q a i r d) = csteps d"
  "mdefs (review_writes q a i r d) = mdefs d" "checklists (review_writes q a i r d) = checklists d"
  "jsteps (review_writes q a i r d) = jsteps d" "smeas (review_writes q a i r d) = smeas d"
  "approvals (review_writes q a i r d) = approvals d" "photos (review_writes q a i r d) = photos d"
  "signatures (review_writes q a i r d) = signatures d" "risks (review_writes q a i r d) = risks d"
  "matrices (review_writes q a i r d) = matrices d"
  "snapshots (review_writes q a i r d) = snapshots d"
  "gps_events (review_writes q a i r d) = gps_events d"
  by (simp_all add: review_writes_def Let_def)

lemma close_writes_frame [simp]:
  "users (close_writes q a i from ex r d) = users d"
  "branches (close_writes q a i from ex r d) = branches d"
  "customers (close_writes q a i from ex r d) = customers d"
  "vehicles (close_writes q a i from ex r d) = vehicles d"
  "assignments (close_writes q a i from ex r d) = assignments d"
  "templates (close_writes q a i from ex r d) = templates d"
  "versions (close_writes q a i from ex r d) = versions d"
  "csteps (close_writes q a i from ex r d) = csteps d"
  "mdefs (close_writes q a i from ex r d) = mdefs d"
  "checklists (close_writes q a i from ex r d) = checklists d"
  "jsteps (close_writes q a i from ex r d) = jsteps d"
  "smeas (close_writes q a i from ex r d) = smeas d"
  "approvals (close_writes q a i from ex r d) = approvals d"
  "photos (close_writes q a i from ex r d) = photos d"
  "signatures (close_writes q a i from ex r d) = signatures d"
  "risks (close_writes q a i from ex r d) = risks d"
  "matrices (close_writes q a i from ex r d) = matrices d"
  "snapshots (close_writes q a i from ex r d) = snapshots d"
  "gps_events (close_writes q a i from ex r d) = gps_events d"
  by (simp_all add: close_writes_def complete_job_def Let_def)

lemma reopen_writes_frame [simp]:
  "users (reopen_writes q a i r job d) = users d"
  "branches (reopen_writes q a i r job d) = branches d"
  "customers (reopen_writes q a i r job d) = customers d"
  "vehicles (reopen_writes q a i r job d) = vehicles d"
  "assignments (reopen_writes q a i r job d) = assignments d"
  "templates (reopen_writes q a i r job d) = templates d"
  "versions (reopen_writes q a i r job d) = versions d"
  "csteps (reopen_writes q a i r job d) = csteps d" "mdefs (reopen_writes q a i r job d) = mdefs d"
  "checklists (reopen_writes q a i r job d) = checklists d"
  "jsteps (reopen_writes q a i r job d) = jsteps d" "smeas (reopen_writes q a i r job d) = smeas d"
  "approvals (reopen_writes q a i r job d) = approvals d"
  "photos (reopen_writes q a i r job d) = photos d" "risks (reopen_writes q a i r job d) = risks d"
  "matrices (reopen_writes q a i r job d) = matrices d"
  "snapshots (reopen_writes q a i r job d) = snapshots d"
  "gps_events (reopen_writes q a i r job d) = gps_events d"
  by (simp_all add: reopen_writes_def Let_def)

subsection \<open>The changed tables\<close>

lemma jobs_writes:
  "jobs (start_writes q a i d) = update_id j_id i (\<lambda>j. j\<lparr>j_status := J_IN_PROGRESS,
     j_started_at := Some (rq_now q), j_updated_at := rq_now q\<rparr>) (jobs d)"
  "jobs (installation_writes q a i inp job d) = update_id j_id i
     (\<lambda>j. j\<lparr>j_gas_type := merged (in_gasType inp) (j_gas_type j), j_kit := merged (in_kit inp) (j_kit j),
       j_ecu := merged (in_ecu inp) (j_ecu j), j_cylinder := merged (in_cylinder inp) (j_cylinder j),
       j_note := merged (in_note inp) (j_note j), j_updated_at := rq_now q\<rparr>) (jobs d)"
  "jobs (cancel_writes q a i r job d) = update_id j_id i (\<lambda>j. j\<lparr>j_status := J_CANCELLED, j_cancel_reason := Some r,
     j_cancelled_by := Some (au_id a), j_cancelled_at := Some (rq_now q), j_updated_at := rq_now q\<rparr>) (jobs d)"
  "jobs (reassign_writes q a i t ro job d) = update_id j_id i (\<lambda>j. j\<lparr>j_assignee := Some t,
     j_assignment_status := A_ASSIGNED, j_updated_at := rq_now q\<rparr>) (jobs d)"
  "jobs (unassign_writes q a i ro job d) = update_id j_id i (\<lambda>j. j\<lparr>j_assignee := None,
     j_assignment_status := A_UNASSIGNED, j_updated_at := rq_now q\<rparr>) (jobs d)"
  "jobs (submit_stop q a job s c note st d) = update_id j_id (j_id job)
     (\<lambda>j. j\<lparr>j_status := J_WAITING_STOP_APPROVAL, j_updated_at := rq_now q\<rparr>) (jobs d)"
  "jobs (approve_writes q a i job ap s c d) = update_id j_id i
     (\<lambda>j. j\<lparr>j_status := workingStatus job, j_updated_at := rq_now q\<rparr>) (jobs d)"
  "jobs (reject_marks q a i r ap s d) = update_id j_id i
     (\<lambda>j. j\<lparr>j_status := J_REJECTED, j_updated_at := rq_now q\<rparr>) (jobs d)"
  "jobs (rework_writes q a i job s c d) = update_id j_id i
     (\<lambda>j. j\<lparr>j_status := workingStatus job, j_updated_at := rq_now q\<rparr>) (jobs d)"
  "jobs (review_writes q a i rd d) = update_id j_id i
     (\<lambda>j. j\<lparr>j_status := J_QUALITY_REVIEW, j_updated_at := rq_now q\<rparr>) (jobs d)"
  "jobs (close_writes q a i from ex rd d) = update_id j_id i (\<lambda>j. j\<lparr>j_status := J_COMPLETED,
     j_closed_by := Some (au_id a), j_closed_at := Some (rq_now q), j_updated_at := rq_now q\<rparr>) (jobs d)"
  "jobs (reopen_writes q a i r job d) = update_id j_id i (\<lambda>j. j\<lparr>j_status := J_REOPENED, j_cycle := j_cycle job + 1,
     j_reopen_reason := Some r, j_reopened_by := Some (au_id a), j_reopened_at := Some (rq_now q),
     j_updated_at := rq_now q\<rparr>) (jobs d)"
  by (simp_all add: start_writes_def installation_writes_def cancel_writes_def reassign_writes_def
      unassign_writes_def submit_stop_def approve_writes_def reject_marks_def rework_writes_def
      review_writes_def close_writes_def complete_job_def reopen_writes_def jobs_upd_job Let_def)

lemma jsteps_writes:
  "jsteps (submit_stop q a job s c note st d) = update_id js_id (js_id s) (\<lambda>r. r\<lparr>js_status := S_WAITING_APPROVAL,
     js_note := note, js_completed_by := Some (au_id a), js_completed_at := Some (rq_now q)\<rparr>) (jsteps d)"
  "jsteps (finish_step q a job cl s c note st d) = update_id js_id (js_id s) (\<lambda>r. r\<lparr>js_status := S_COMPLETED,
     js_note := note, js_completed_by := Some (au_id a), js_completed_at := Some (rq_now q)\<rparr>) (jsteps d)"
  "jsteps (redo_writes q a i cl s c d) = update_id js_id (js_id s)
     (\<lambda>r. r\<lparr>js_status := S_PENDING, js_attempt := js_attempt s + 1\<rparr>) (jsteps d)"
  "jsteps (approve_writes q a i jb ap s c d) = update_id js_id (js_id s) (\<lambda>r. r\<lparr>js_status := S_APPROVED\<rparr>) (jsteps d)"
  "jsteps (reject_marks q a i ro ap s d) = update_id js_id (js_id s) (\<lambda>r. r\<lparr>js_status := S_REJECTED\<rparr>) (jsteps d)"
  "jsteps (rework_writes q a i jb s c d) = update_id js_id (js_id s)
     (\<lambda>r. r\<lparr>js_status := S_PENDING, js_attempt := js_attempt s + 1\<rparr>) (jsteps d)"
  by (simp_all add: submit_stop_def finish_step_def redo_writes_def approve_writes_def reject_marks_def
      rework_writes_def upd_step_def Let_def)

lemma approvals_writes:
  "approvals (submit_stop q a job s c note st d) = t_insert (\<lambda>i. \<lparr>sa_id = i, sa_job = j_id job,
     sa_job_step = js_id s, sa_status = AP_PENDING, sa_submitted_by = au_id a, sa_submitted_at = rq_now q,
     sa_decided_by = None, sa_decided_at = None, sa_reject_reason = None, sa_attempt = js_attempt s\<rparr>) (approvals d)"
  "approvals (approve_writes q a i jb ap s c d) = update_id sa_id (sa_id ap) (\<lambda>r. r\<lparr>sa_status := AP_APPROVED,
     sa_decided_by := Some (au_id a), sa_decided_at := Some (rq_now q)\<rparr>) (approvals d)"
  "approvals (reject_marks q a i ro ap s d) = update_id sa_id (sa_id ap) (\<lambda>r. r\<lparr>sa_status := AP_REJECTED,
     sa_decided_by := Some (au_id a), sa_decided_at := Some (rq_now q), sa_reject_reason := Some ro\<rparr>) (approvals d)"
  by (simp_all add: submit_stop_def approve_writes_def reject_marks_def upd_approval_def Let_def)

text \<open>When a step is completed, its checklist is complete if no step is left.\<close>

lemma checklists_upd_checklist: "checklists (upd_checklist i f d) = update_id cl_id i f (checklists d)"
  by (simp add: upd_checklist_def)

lemma steps_remaining_frame [simp]:
  "steps_remaining c (logAudit q u ac et ei old new d) = steps_remaining c d"
  "steps_remaining c (upd_checklist i f d) = steps_remaining c d"
  by (simp_all add: steps_remaining_def)

lemma checklists_writes:
  "checklists (finish_step q a job cl s c note st d) =
     (if steps_remaining (cl_id cl) (finish_step q a job cl s c note st d) then checklists d
      else update_id cl_id (cl_id cl) (\<lambda>r. r\<lparr>cl_completed_at := Some (rq_now q)\<rparr>) (checklists d))"
  "checklists (approve_writes q a i jb ap s c d) =
     (if steps_remaining (js_checklist s) (approve_writes q a i jb ap s c d) then checklists d
      else update_id cl_id (js_checklist s) (\<lambda>r. r\<lparr>cl_completed_at := Some (rq_now q)\<rparr>) (checklists d))"
  "checklists (redo_writes q a i cl s c d) = update_id cl_id (cl_id cl) (\<lambda>r. r\<lparr>cl_completed_at := None\<rparr>) (checklists d)"
  by (simp_all add: finish_step_def approve_writes_def redo_writes_def checklists_upd_checklist Let_def)

lemma jsteps_insert_jsteps:
  "jsteps (fold (insert_jstep c) ss d) = fold (\<lambda>s. t_insert (new_jstep c (cs_id s))) ss (jsteps d)"
  by (induction ss arbitrary: d) (simp_all add: insert_jstep_def)

lemma jsteps_assign:
  "jsteps (assign_writes q a i t v ss d) =
     fold (\<lambda>s. t_insert (new_jstep (next_id (checklists d)) (cs_id s))) ss (jsteps d)"
  by (simp add: assign_writes_def Let_def jsteps_insert_jsteps)

lemma checklists_assign:
  "checklists (assign_writes q a i t v ss d) = t_insert (\<lambda>k. \<lparr>cl_id = k, cl_job = i, cl_version = tv_id v,
     cl_assigned_by = au_id a, cl_assigned_at = rq_now q, cl_completed_at = None\<rparr>) (checklists d)"
  by (simp add: assign_writes_def Let_def)

subsection \<open>Commits\<close>

lemma startJob_Inr:
  "startJob q a i d = Inr (x, d') \<Longrightarrow> \<exists>job. by_id j_id i (jobs d) = Some job \<and> in_scope a (j_branch job) \<and>
     j_status job = J_DRAFT \<and> riskPolicyActive d \<and> d' = start_writes q a i d"
  by (auto simp: startJob_def flow_iffs lockJobForTransition_Inr assertRiskPolicyApproved_def)

lemma updateInstallation_Inr:
  "updateInstallation q a i inp d = Inr (x, d') \<Longrightarrow> \<exists>job. by_id j_id i (jobs d) = Some job \<and>
     in_scope a (j_branch job) \<and> j_status job \<in> {J_DRAFT, J_IN_PROGRESS} \<and>
     (d' = d \<or> d' = installation_writes q a i inp job d)"
  by (auto simp: updateInstallation_def flow_iffs lockJobForTransition_Inr split: if_splits)

lemma cancelJob_Inr:
  "cancelJob q a i r d = Inr (x, d') \<Longrightarrow> \<exists>job. by_id j_id i (jobs d) = Some job \<and> in_scope a (j_branch job) \<and>
     j_status job \<in> {J_DRAFT, J_IN_PROGRESS} \<and> d' = cancel_writes q a i r job d"
  by (auto simp: cancelJob_def flow_iffs lockJobForTransition_Inr)

lemma createJob_Inr:
  "createJob q a c v d = Inr (x, d') \<Longrightarrow> \<exists>b ve. au_branch a = Some b \<and> x = next_id (jobs d) \<and>
     t_first (\<lambda>r. ve_id r = v \<and> \<not> ve_deleted r) (vehicles d) = Some ve \<and> ve_customer ve = c \<and>
     d' = create_writes q a c v b d"
  by (auto simp: createJob_def flow_iffs split: option.splits)

lemma reassign_Inr:
  "reassign q a i t r d = Inr (x, d') \<Longrightarrow> \<exists>job target. by_id j_id i (jobs d) = Some job \<and> in_scope a (j_branch job) \<and>
     j_status job \<notin> set TERMINAL \<and> live_user t d = Some target \<and> u_status target = U_ACTIVE \<and>
     u_role target \<in> set ASSIGNABLE_ROLES \<and> u_branch target = Some (j_branch job) \<and>
     d' = reassign_writes q a i t r job d"
  by (auto simp: reassign_def flow_iffs loadScopedJob_Inr)

lemma unassign_Inr:
  "unassign q a i r d = Inr (x, d') \<Longrightarrow> \<exists>job. by_id j_id i (jobs d) = Some job \<and> in_scope a (j_branch job) \<and>
     j_status job \<notin> set TERMINAL \<and> d' = unassign_writes q a i r job d"
  by (auto simp: unassign_def flow_iffs loadScopedJob_Inr)

lemma assignChecklist_Inr:
  "assignChecklist q a i t d = Inr (x, d') \<Longrightarrow> \<exists>job v ss. by_id j_id i (jobs d) = Some job \<and> in_scope a (j_branch job) \<and>
     (j_status job = J_DRAFT \<or> j_status job = J_IN_PROGRESS) \<and> job_checklist i d = None \<and>
     t_first (\<lambda>v. tv_template v = t \<and> tv_status v = V_PUBLISHED) (versions d) = Some v \<and>
     ss = sort_key cs_order (t_where (\<lambda>c. cs_version c = tv_id v) (csteps d)) \<and> ss \<noteq> [] \<and>
     d' = assign_writes q a i t v ss d"
  by (auto simp: assignChecklist_def flow_iffs loadScopedJob_Inr Let_def)

lemma joined_step_Some:
  "joined_step cl i d = Some (s, c) \<longleftrightarrow> t_first (\<lambda>s. js_id s = i \<and> js_checklist s = cl) (jsteps d) = Some s \<and>
     by_id cs_id (js_step s) (csteps d) = Some c"
  by (auto simp: joined_step_def with_def_def bind_eq_Some_conv)

lemma joined_step_row:
  assumes "joined_step cl i d = Some (s, c)"
  shows "s \<in> set (rows (jsteps d))" "js_id s = i" "js_checklist s = cl" "c \<in> set (rows (csteps d))" "cs_id c = js_step s"
  using assms by (auto simp: joined_step_Some dest!: t_first_Some by_id_Some)

lemma completable_Inr:
  "completable a i sid ms d = Inr (job, cl, s, c, stored) \<longleftrightarrow>
     by_id j_id i (jobs d) = Some job \<and> in_scope a (j_branch job) \<and> isWorkable job \<and> canExecuteJob a job \<and>
     job_checklist i d = Some cl \<and> joined_step (cl_id cl) sid d = Some (s, c) \<and> js_status s = S_PENDING \<and>
     (cs_required_photos c > 0 \<longrightarrow> cs_required_photos c \<le> ready_photos (js_id s) (js_attempt s) d) \<and>
     \<not> incomplete_before (cl_id cl) (cs_order c) d \<and>
     (\<forall>m\<in>set ms. fst m \<in> md_id ` {m \<in> set (rows (mdefs d)). md_step m = js_step s}) \<and>
     validation_errors ms (t_where (\<lambda>m. md_step m = js_step s) (mdefs d)) = [] \<and>
     stored = to_store ms (t_where (\<lambda>m. md_step m = js_step s) (mdefs d))"
proof -
  have "completable a i sid ms d = Inr (job, cl, s, c, stored) \<longleftrightarrow>
    (by_id j_id i (jobs d) = Some job \<and> in_scope a (j_branch job)) \<and> isWorkable job \<and> canExecuteJob a job \<and>
     job_checklist i d = Some cl \<and> joined_step (cl_id cl) sid d = Some (s, c) \<and> js_status s = S_PENDING \<and>
     \<not> (cs_required_photos c > 0 \<and> ready_photos (js_id s) (js_attempt s) d < cs_required_photos c) \<and>
     \<not> incomplete_before (cl_id cl) (cs_order c) d \<and>
     \<not> (\<exists>m\<in>set ms. fst m \<notin> set (map md_id (t_where (\<lambda>m. md_step m = js_step s) (mdefs d)))) \<and>
     validation_errors ms (t_where (\<lambda>m. md_step m = js_step s) (mdefs d)) = [] \<and>
     to_store ms (t_where (\<lambda>m. md_step m = js_step s) (mdefs d)) = stored"
    unfolding completable_def andThen_Inr_iff need_Inr_iff throw_if_Inr_iff Let_def split_paired_Ex
      prod.case loadScopedJob_Inr Inr_inject prod.inject
    by (rule iffI; (elim exE conjE)?) blast+
  then show ?thesis by (auto simp: not_less)
qed

lemma completeStep_Inr:
  assumes "completeStep q a i sid note ms d = Inr (x, d')"
  shows "\<exists>job cl s c stored d1.
     completable a i sid ms d = Inr (job, cl, s, c, stored) \<and>
     d1 = fold (insert_smeas (js_id s) (js_attempt s)) stored d \<and>
     (if cs_is_stop c then d' = submit_stop q a job s c note stored d1
      else d' = finish_step q a job cl s c note stored d1)"
proof -
  from assms obtain job cl s c stored where "completable a i sid ms d = Inr (job, cl, s, c, stored)"
    "(let d1 = fold (insert_smeas (js_id s) (js_attempt s)) stored d
      in if cs_is_stop c then Inr ((), submit_stop q a job s c note stored d1)
         else Inr ((), finish_step q a job cl s c note stored d1)) = (Inr (x, d') :: api_error + unit \<times> db)"
    unfolding completeStep_def andThen_Inr_iff by auto
  then show ?thesis
    by (intro exI [of _ job] exI [of _ cl] exI [of _ s] exI [of _ c] exI [of _ stored])
      (auto simp: Let_def split: if_splits)
qed

lemma redoStep_Inr:
  "redoStep q a i sid d = Inr (x, d') \<Longrightarrow> \<exists>job cl s c. by_id j_id i (jobs d) = Some job \<and> in_scope a (j_branch job) \<and>
     j_status job = J_REOPENED \<and> job_checklist i d = Some cl \<and> joined_step (cl_id cl) sid d = Some (s, c) \<and>
     step_done s \<and> d' = redo_writes q a i cl s c d"
  unfolding redoStep_def flow_iffs loadScopedJob_Inr throw_if_Inr_iff by (auto split: prod.splits)

lemma lockPendingStop_Inr:
  "lockPendingStop a i d = Inr (job, ap, s, c) \<Longrightarrow> by_id j_id i (jobs d) = Some job \<and> in_scope a (j_branch job) \<and>
     j_status job = J_WAITING_STOP_APPROVAL \<and>
     t_first (\<lambda>r. sa_job r = i \<and> sa_status r = AP_PENDING) (approvals d) = Some ap \<and>
     by_id js_id (sa_job_step ap) (jsteps d) = Some s \<and> by_id cs_id (js_step s) (csteps d) = Some c \<and>
     js_status s = S_WAITING_APPROVAL"
  unfolding lockPendingStop_def flow_iffs loadScopedJob_Inr throw_if_Inr_iff
  by (auto simp: with_def_def bind_eq_Some_conv split: prod.splits)

lemma approveStop_Inr:
  "approveStop q a i d = Inr (x, d') \<Longrightarrow> \<exists>job ap s c. lockPendingStop a i d = Inr (job, ap, s, c) \<and>
     d' = approve_writes q a i job ap s c d"
  unfolding approveStop_def flow_iffs by (auto split: prod.splits)

text \<open>Changes of one table only, besides the log.\<close>

definition only_risks :: "db \<Rightarrow> db \<Rightarrow> bool" where
  "only_risks d d' \<longleftrightarrow> (\<exists>r l. d' = d\<lparr>risks := r, audits := l\<rparr>)"

definition only_matrices :: "db \<Rightarrow> db \<Rightarrow> bool" where
  "only_matrices d d' \<longleftrightarrow> (\<exists>r l. d' = d\<lparr>matrices := r, audits := l\<rparr>)"

definition only_photos :: "db \<Rightarrow> db \<Rightarrow> bool" where
  "only_photos d d' \<longleftrightarrow> (\<exists>r l. d' = d\<lparr>photos := r, audits := l\<rparr>)"

definition only_signatures :: "db \<Rightarrow> db \<Rightarrow> bool" where
  "only_signatures d d' \<longleftrightarrow> (\<exists>r l. d' = d\<lparr>signatures := r, audits := l\<rparr>)"

lemma only_risksI: "d' = d\<lparr>risks := risks d', audits := audits d'\<rparr> \<Longrightarrow> only_risks d d'"
  unfolding only_risks_def by blast

lemma only_matricesI: "d' = d\<lparr>matrices := matrices d', audits := audits d'\<rparr> \<Longrightarrow> only_matrices d d'"
  unfolding only_matrices_def by blast

lemma only_photosI: "d' = d\<lparr>photos := photos d', audits := audits d'\<rparr> \<Longrightarrow> only_photos d d'"
  unfolding only_photos_def by blast

lemma only_signaturesI: "d' = d\<lparr>signatures := signatures d', audits := audits d'\<rparr> \<Longrightarrow> only_signatures d d'"
  unfolding only_signatures_def by blast

lemma createRisk_only: "createRisk q a i inp d = Inr (x, d') \<Longrightarrow> only_risks d d'"
  by (rule only_risksI) (auto simp: createRisk_def insertRisk_def flow_iffs Let_def logAudit_def)

lemma resolveRisk_only: "resolveRisk q a i note mit d = Inr (x, d') \<Longrightarrow> only_risks d d'"
  by (rule only_risksI) (auto simp: resolveRisk_def flow_iffs logAudit_def split: prod.splits)

lemma reviseRisk_only: "reviseRisk q a i inp d = Inr (x, d') \<Longrightarrow> only_risks d d'"
  by (rule only_risksI) (auto simp: reviseRisk_def insertRisk_def flow_iffs logAudit_def split: prod.splits)

lemma overrideRisk_only: "overrideRisk q a i r d = Inr (x, d') \<Longrightarrow> only_risks d d'"
  by (rule only_risksI) (auto simp: overrideRisk_def flow_iffs logAudit_def split: prod.splits)

lemma linkStopRejectionRisk_only:
  "linkStopRejectionRisk q i cy s att u nm r d = Inr d' \<Longrightarrow> only_risks d d'"
  by (rule only_risksI) (auto simp: linkStopRejectionRisk_def insertRisk_def flow_iffs logAudit_def split: if_splits)

lemma createMatrixVersion_only: "createMatrixVersion q a v def d = Inr (x, d') \<Longrightarrow> only_matrices d d'"
  by (rule only_matricesI) (auto simp: createMatrixVersion_def flow_iffs Let_def logAudit_def)

lemma retire_writes_only: "only_matrices d (retire_writes q a v m d)"
  by (rule only_matricesI) (simp add: retire_writes_def logAudit_def)

lemma retireMatrix_only:
  assumes "retireMatrix q a v d = Inr (x, d')"
  shows "only_matrices d d'"
proof -
  from assms obtain m where "t_first (\<lambda>m. mx_version m = v) (matrices d) = Some m"
    "(if mx_status m = M_RETIRED then Inr ((), d) else Inr ((), retire_writes q a v m d)) = (Inr (x, d') :: api_error + unit \<times> db)"
    unfolding retireMatrix_def need_Inr_iff throw_if_Inr_iff by (elim exE conjE) (rule that)
  then have "d' = d \<or> d' = retire_writes q a v m d" by (simp split: if_splits)
  then show ?thesis using retire_writes_only by (auto intro: only_matricesI)
qed

lemma retire_others_only: "only_matrices d (fold (retire_other q a t) ms d)"
proof (induction ms arbitrary: d)
  case (Cons m ms)
  have "only_matrices d (retire_other q a t m d)"
    by (rule only_matricesI) (simp add: retire_other_def logAudit_def)
  then obtain r l where "retire_other q a t m d = d\<lparr>matrices := r, audits := l\<rparr>" unfolding only_matrices_def by blast
  moreover obtain r' l' where "fold (retire_other q a t) ms (retire_other q a t m d) =
      (retire_other q a t m d)\<lparr>matrices := r', audits := l'\<rparr>"
    using Cons.IH unfolding only_matrices_def by blast
  ultimately show ?case unfolding only_matrices_def by (intro exI [of _ r'] exI [of _ l']) simp
qed (auto intro: only_matricesI)

lemma activateMatrix_only:
  assumes "activateMatrix q a v r d = Inr (x, d')"
  shows "only_matrices d d'"
proof -
  from assms obtain tg ms f l where "d' = (fold (retire_other q a tg) ms d)\<lparr>matrices := update_id mx_id (mx_id tg) f
      (matrices (fold (retire_other q a tg) ms d)), audits := l\<rparr>"
    unfolding activateMatrix_def flow_iffs throw_if_Inr_iff logAudit_def Let_def by auto
  moreover obtain r1 l1 where "fold (retire_other q a tg) ms d = d\<lparr>matrices := r1, audits := l1\<rparr>"
    using retire_others_only unfolding only_matrices_def by blast
  ultimately show ?thesis by (intro only_matricesI) simp
qed

lemma registerPhoto_only: "registerPhoto q a i s key nm m sz h d = Inr (x, d') \<Longrightarrow> only_photos d d'"
  by (rule only_photosI) (auto simp: registerPhoto_def flow_iffs Let_def logAudit_def split: option.splits)

lemma finalizePhoto_only: "finalizePhoto q a i s p att sz h d = Inr (x, d') \<Longrightarrow> only_photos d d'"
  by (rule only_photosI) (auto simp: finalizePhoto_def logAudit_def upd_photo_def split: option.splits if_splits)

lemma markPhotoFailed_only: "markPhotoFailed q a p r d = Inr (x, d') \<Longrightarrow> only_photos d d'"
  by (rule only_photosI) (auto simp: markPhotoFailed_def logAudit_def upd_photo_def split: option.splits if_splits)

lemma registerSignature_only: "registerSignature sha256 q a i key m sz h sd d = Inr (x, d') \<Longrightarrow> only_signatures d d'"
  by (rule only_signaturesI)
    (auto simp: registerSignature_def flow_iffs Let_def logAudit_def upd_signature_def split: option.splits)

lemma finalizeSignature_only: "finalizeSignature q a i s cy h d = Inr (x, d') \<Longrightarrow> only_signatures d d'"
  by (rule only_signaturesI) (auto simp: finalizeSignature_def logAudit_def upd_signature_def split: option.splits if_splits)

lemma markSignatureFailed_only: "markSignatureFailed q a i s r d = Inr (x, d') \<Longrightarrow> only_signatures d d'"
  by (rule only_signaturesI) (auto simp: markSignatureFailed_def logAudit_def upd_signature_def split: option.splits if_splits)

lemma rejectStop_Inr:
  assumes "rejectStop q a i r d = Inr (x, d')"
  shows "\<exists>job ap s c d1 rk l. lockPendingStop a i d = Inr (job, ap, s, c) \<and>
     d1 = reject_marks q a i r ap s d \<and> d' = d1\<lparr>risks := rk, audits := l\<rparr>"
proof -
  from assms obtain job ap s c d4 where lock: "lockPendingStop a i d = Inr (job, ap, s, c)"
    and link: "linkStopRejectionRisk q i (j_cycle job) (js_id s) (js_attempt s) (au_id a) (cs_name c) r
      (reject_marks q a i r ap s d) = Inr d4"
    and log: "d' = d4\<lparr>audits := audits d'\<rparr>"
    unfolding rejectStop_def by (auto simp: flow_iffs reject_log_def logAudit_def)
  obtain rk l where "d4 = (reject_marks q a i r ap s d)\<lparr>risks := rk, audits := l\<rparr>"
    using linkStopRejectionRisk_only [OF link] unfolding only_risks_def by blast
  moreover obtain l' where "d' = d4\<lparr>audits := l'\<rparr>" using log by blast
  ultimately have "d' = (reject_marks q a i r ap s d)\<lparr>risks := rk, audits := l'\<rparr>" by simp
  with lock show ?thesis by blast
qed

lemma rejected_step_Some:
  assumes "rejected_step cl d = Some (s, c)"
  shows "s \<in> set (rows (jsteps d))" "js_checklist s = cl" "js_status s = S_REJECTED" "with_def d s = Some (s, c)"
  using find_Some_iff [OF assms [unfolded rejected_step_def]]
  by (auto simp: joined_steps_def map_filter_def with_def_def split: option.splits)

lemma reworkStop_Inr:
  "reworkStop q a i d = Inr (x, d') \<Longrightarrow> \<exists>job cl s c. by_id j_id i (jobs d) = Some job \<and> in_scope a (j_branch job) \<and>
     j_status job = J_REJECTED \<and> job_checklist i d = Some cl \<and> rejected_step (cl_id cl) d = Some (s, c) \<and>
     d' = rework_writes q a i job s c d"
  unfolding reworkStop_def flow_iffs loadScopedJob_Inr throw_if_Inr_iff by (auto split: prod.splits)

lemma reopenJob_Inr:
  "reopenJob q a i r d = Inr (x, d') \<Longrightarrow> \<exists>job. by_id j_id i (jobs d) = Some job \<and> in_scope a (j_branch job) \<and>
     j_status job = J_COMPLETED \<and> d' = reopen_writes q a i r job d"
  by (auto simp: reopenJob_def flow_iffs loadScopedJob_Inr)

lemma assertSignatureFresh_Inr:
  "assertSignatureFresh sha256 i cy d k = Inr v \<Longrightarrow> k = Inr v"
  by (auto simp: assertSignatureFresh_def split: option.splits)

text \<open>A finalized snapshot: nothing when the cycle has one, else one new row.\<close>

lemma finalizeSnapshot_Inr:
  "finalizeSnapshot sha256 q i cy u d = Inr d' \<Longrightarrow>
     (t_first (\<lambda>s. sn_job s = i \<and> sn_cycle s = cy) (snapshots d) \<noteq> None \<and> d' = d) \<or>
     (t_first (\<lambda>s. sn_job s = i \<and> sn_cycle s = cy) (snapshots d) = None \<and>
      (\<exists>b l. buildCompletionSnapshot sha256 i cy u d = Inr b \<and>
        d' = d\<lparr>snapshots := t_insert (\<lambda>k. \<lparr>sn_id = k, sn_job = i, sn_cycle = cy, sn_content = sb_content b,
          sn_digest = sb_digest b, sn_summary_digest = sb_summary_digest b,
          sn_signature_hash = sb_signature_hash b, sn_finalized_by = u, sn_provenance = ''FINALIZED'',
          sn_created_at = rq_now q\<rparr>) (snapshots d), audits := l\<rparr>))"
  unfolding finalizeSnapshot_def by (auto simp: flow_iffs logAudit_def split: if_splits)

lemma closeJob_tx_Inr:
  "closeJob_tx sha256 q a i d = Inr (x, d') \<Longrightarrow> \<exists>job. by_id j_id i (jobs d) = Some job \<and> in_scope a (j_branch job) \<and>
     canComplete (validateJobCompletion i d) \<and> riskPolicyActive d \<and>
     assertSignatureFresh sha256 i (j_cycle job) d (Inr ()) = Inr () \<and>
     (j_status job = J_REOPENED \<and> d' = review_writes q a i (validateJobCompletion i d) d \<or>
      j_status job = J_IN_PROGRESS \<and> finalizeSnapshot sha256 q i (j_cycle job) (au_id a)
        (close_writes q a i J_IN_PROGRESS [] (validateJobCompletion i d) d) = Inr d')"
  unfolding closeJob_tx_def flow_iffs loadScopedJob_Inr Let_def throw_if_Inr_iff assertRiskPolicyApproved_def
    assertSignatureFresh_def
  by (auto simp: flow_iffs split: if_splits option.splits)

lemma confirmQuality_tx_Inr:
  "confirmQuality_tx sha256 q a i d = Inr (x, d') \<Longrightarrow> \<exists>job. by_id j_id i (jobs d) = Some job \<and> in_scope a (j_branch job) \<and>
     canComplete (validateJobCompletion i d) \<and> riskPolicyActive d \<and>
     assertSignatureFresh sha256 i (j_cycle job) d (Inr ()) = Inr () \<and> j_status job = J_QUALITY_REVIEW \<and>
     finalizeSnapshot sha256 q i (j_cycle job) (au_id a)
       (close_writes q a i J_QUALITY_REVIEW [(''qualityConfirmed'', JBool True)] (validateJobCompletion i d) d) = Inr d'"
  unfolding confirmQuality_tx_def flow_iffs loadScopedJob_Inr Let_def throw_if_Inr_iff assertRiskPolicyApproved_def
    assertSignatureFresh_def
  by (auto simp: flow_iffs split: if_splits option.splits)

end
