(* ===== verification/Templates.thy ===== *)
theory Templates
  imports Schema "HOL-Library.List_Lexorder" "HOL-Library.Char_ord"
begin

section \<open>Checklist templates\<close>

text \<open>
  Models src/modules/checklist/templates.service.ts and the input schemas of
  templates.validators.ts: templates with numbered versions (DRAFT, PUBLISHED, ARCHIVED),
  ordered steps with measurement definitions, and every mutation with its lock-time checks.

  Two functions of the database server are parameters: \<open>lower\<close> for its \<open>LOWER\<close>, and \<open>weight\<close>
  for the collation by which \<open>orderBy('name')\<close> sorts.
\<close>

subsection \<open>Input schemas\<close>

record mdef_input =
  mi_name :: string
  mi_unit :: string
  mi_min :: "rat option"
  mi_max :: "rat option"
  mi_expected :: "rat option"
  mi_required :: bool

record step_input =
  si_name :: string
  si_description :: "string option"
  si_requirements :: "string option"
  si_is_stop :: bool
  si_risk_weight :: nat
  si_required_photos :: nat
  si_measurements :: "mdef_input list"

definition decimalSchema :: "rat \<Rightarrow> bool" where
  "decimalSchema v = (-999999999 \<le> v \<and> v \<le> 999999999)"

definition opt_all :: "('a \<Rightarrow> bool) \<Rightarrow> 'a option \<Rightarrow> bool" where
  "opt_all P v = (case v of None \<Rightarrow> True | Some x \<Rightarrow> P x)"

definition length_between :: "nat \<Rightarrow> nat \<Rightarrow> string \<Rightarrow> bool" where
  "length_between lo hi s = (lo \<le> length s \<and> length s \<le> hi)"

text \<open>The schemas after \<open>trim\<close>; \<open>trimmed\<close> says that the parsed text is a trimmed one.\<close>

definition trimmed :: "string \<Rightarrow> bool" where
  "trimmed s = (trim s = s)"

definition measurementDefSchema :: "mdef_input \<Rightarrow> bool" where
  "measurementDefSchema m =
    (trimmed (mi_name m) \<and> length_between 2 150 (mi_name m) \<and>
     trimmed (mi_unit m) \<and> length_between 1 30 (mi_unit m) \<and>
     opt_all decimalSchema (mi_min m) \<and> opt_all decimalSchema (mi_max m) \<and>
     opt_all decimalSchema (mi_expected m) \<and>
     (case (mi_min m, mi_max m) of (Some lo, Some hi) \<Rightarrow> lo \<le> hi | _ \<Rightarrow> True))"

definition createTemplateSchema :: "string \<Rightarrow> string option \<Rightarrow> bool" where
  "createTemplateSchema name descr =
    (trimmed name \<and> length_between 3 150 name \<and> opt_all (\<lambda>s. trimmed s \<and> length s \<le> 500) descr)"

definition stepSchema :: "step_input \<Rightarrow> bool" where
  "stepSchema s =
    (trimmed (si_name s) \<and> length_between 3 200 (si_name s) \<and>
     opt_all (\<lambda>t. trimmed t \<and> length t \<le> 1000) (si_description s) \<and>
     opt_all (\<lambda>t. trimmed t \<and> length t \<le> 1000) (si_requirements s) \<and>
     si_risk_weight s \<le> 100 \<and> si_required_photos s \<le> 20 \<and>
     length (si_measurements s) \<le> 20 \<and> list_all measurementDefSchema (si_measurements s))"

datatype direction = Up | Down

fun direction_str :: "direction \<Rightarrow> string" where
  "direction_str Up = ''up''"
| "direction_str Down = ''down''"

subsection \<open>Views\<close>

text \<open>A step with its measurement definitions, and a version with its steps in order.\<close>

record version_detail =
  vd_row :: version_row
  vd_step_count :: nat
  vd_steps :: "(cstep_row \<times> mdef_row list) list"

record template_detail =
  td_row :: template_row
  td_versions :: "version_detail list"
  td_deletable :: bool

definition deletability :: "version_status list \<Rightarrow> bool" where
  "deletability statuses = list_all (\<lambda>s. s = V_DRAFT) statuses"

definition steps_of_version :: "nat \<Rightarrow> db \<Rightarrow> cstep_row list" where
  "steps_of_version versionId d = sort_key cs_order (t_where (\<lambda>c. cs_version c = versionId) (csteps d))"

definition mdefs_of_step :: "nat \<Rightarrow> db \<Rightarrow> mdef_row list" where
  "mdefs_of_step stepId d = t_where (\<lambda>m. md_step m = stepId) (mdefs d)"

definition loadStepsWithMeasurements :: "nat \<Rightarrow> db \<Rightarrow> (cstep_row \<times> mdef_row list) list" where
  "loadStepsWithMeasurements versionId d =
    map (\<lambda>c. (c, mdefs_of_step (cs_id c) d)) (steps_of_version versionId d)"

definition versions_of_template :: "nat \<Rightarrow> db \<Rightarrow> version_row list" where
  "versions_of_template templateId d =
    sort_key tv_version (t_where (\<lambda>v. tv_template v = templateId) (versions d))"

definition listTemplates :: "(string \<Rightarrow> string) \<Rightarrow> db \<Rightarrow> template_detail list" where
  "listTemplates weight d =
    map (\<lambda>t. let vs = versions_of_template (tp_id t) d in
        \<lparr>td_row = t,
         td_versions = map (\<lambda>v. \<lparr>vd_row = v, vd_step_count = t_count (\<lambda>c. cs_version c = tv_id v) (csteps d),
           vd_steps = []\<rparr>) vs,
         td_deletable = deletability (map tv_status vs)\<rparr>)
      (sort_key (\<lambda>t. weight (tp_name t)) (rows (templates d)))"

definition getTemplate :: "nat \<Rightarrow> db \<Rightarrow> api_error + template_detail" where
  "getTemplate templateId d =
    need (by_id tp_id templateId (templates d)) notFound (\<lambda>t.
      let vs = versions_of_template templateId d in
      Inr \<lparr>td_row = t,
         td_versions = map (\<lambda>v. let steps = loadStepsWithMeasurements (tv_id v) d in
           \<lparr>vd_row = v, vd_step_count = length steps, vd_steps = steps\<rparr>) vs,
         td_deletable = deletability (map tv_status vs)\<rparr>)"

definition listAssignableTemplates :: "(string \<Rightarrow> string) \<Rightarrow> db \<Rightarrow> (nat \<times> string \<times> nat) list" where
  "listAssignableTemplates weight d =
    concat (map (\<lambda>t. map (\<lambda>v. (tp_id t, tp_name t, tv_version v))
        (t_where (\<lambda>v. tv_template v = tp_id t \<and> tv_status v = V_PUBLISHED) (versions d)))
      (sort_key (\<lambda>t. weight (tp_name t)) (rows (templates d))))"

subsection \<open>Mutations\<close>

text \<open>
  The name is looked up before the transaction; the unique key of the table is the same test
  under the lock, so one test at the time of the insert stands for both.
\<close>

definition new_version :: "nat \<Rightarrow> nat \<Rightarrow> nat \<Rightarrow> nat \<Rightarrow> version_row" where
  "new_version templateId number creator i =
    \<lparr>tv_id = i, tv_template = templateId, tv_version = number, tv_status = V_DRAFT,
     tv_published_at = None, tv_created_by = creator\<rparr>"

definition createTemplate ::
  "(string \<Rightarrow> string) \<Rightarrow> req \<Rightarrow> auth_user \<Rightarrow> string \<Rightarrow> string option \<Rightarrow> (db, nat) tx" where
  "createTemplate lower q a name descr d =
    throw_if (t_first (\<lambda>t. lower (tp_name t) = lower name) (templates d) \<noteq> None)
      (conflict ''TEMPLATE_NAME_TAKEN'')
    (let newId = next_id (templates d);
         d1 = d\<lparr>templates := t_insert (\<lambda>i. \<lparr>tp_id = i, tp_name = name, tp_description = descr,
                tp_created_by = au_id a\<rparr>) (templates d)\<rparr>;
         d2 = d1\<lparr>versions := t_insert (new_version newId 1 (au_id a)) (versions d1)\<rparr>
     in Inr (newId, logAudit q (au_id a) ''TEMPLATE_CREATED'' ''checklist_template'' (nat_str newId) None
          (Some (JObj [(''name'', JStr name)])) d2))"

definition copy_mdef :: "nat \<Rightarrow> mdef_row \<Rightarrow> db \<Rightarrow> db" where
  "copy_mdef stepId m d = d\<lparr>mdefs := t_insert (\<lambda>i. m\<lparr>md_id := i, md_step := stepId\<rparr>) (mdefs d)\<rparr>"

definition copy_step :: "nat \<Rightarrow> cstep_row \<Rightarrow> db \<Rightarrow> db" where
  "copy_step versionId c d =
    (let newStepId = next_id (csteps d);
         d1 = d\<lparr>csteps := t_insert (\<lambda>i. c\<lparr>cs_id := i, cs_version := versionId\<rparr>) (csteps d)\<rparr>
     in fold (copy_mdef newStepId) (mdefs_of_step (cs_id c) d1) d1)"

text \<open>\<open>orderBy('version', 'desc').first()\<close>.\<close>

definition latest_version :: "nat \<Rightarrow> db \<Rightarrow> version_row option" where
  "latest_version templateId d =
    (case rev (versions_of_template templateId d) of [] \<Rightarrow> None | v # _ \<Rightarrow> Some v)"

definition createVersion :: "req \<Rightarrow> auth_user \<Rightarrow> nat \<Rightarrow> (db, unit) tx" where
  "createVersion q a templateId d =
    need (by_id tp_id templateId (templates d)) notFound (\<lambda>_.
    throw_if (t_first (\<lambda>v. tv_template v = templateId \<and> tv_status v = V_DRAFT) (versions d) \<noteq> None)
      (conflict ''DRAFT_EXISTS'')
    (let latest = latest_version templateId d;
         nextVersion = (case latest of None \<Rightarrow> 0 | Some v \<Rightarrow> tv_version v) + 1;
         versionId = next_id (versions d);
         d1 = d\<lparr>versions := t_insert (new_version templateId nextVersion (au_id a)) (versions d)\<rparr>;
         d2 = (case latest of None \<Rightarrow> d1
               | Some v \<Rightarrow> fold (copy_step versionId) (steps_of_version (tv_id v) d1) d1)
     in Inr ((), logAudit q (au_id a) ''TEMPLATE_VERSION_CREATED'' ''checklist_template_version'' (nat_str versionId)
          None (Some (JObj [(''templateId'', jnat templateId), (''version'', jnat nextVersion),
            (''copiedFrom'', jopt (\<lambda>v. jnat (tv_version v)) latest)])) d2)))"

definition lockDraftVersion :: "nat \<Rightarrow> nat \<Rightarrow> db \<Rightarrow> api_error + version_row" where
  "lockDraftVersion templateId versionId d =
    need (t_first (\<lambda>v. tv_id v = versionId \<and> tv_template v = templateId) (versions d)) notFound (\<lambda>v.
    throw_if (tv_status v \<noteq> V_DRAFT) (conflict ''VERSION_NOT_DRAFT'') (Inr v))"

text \<open>The three bounds of a definition are \<open>DECIMAL(12,3)\<close> columns.\<close>

definition insert_mdef :: "nat \<Rightarrow> mdef_input \<Rightarrow> db \<Rightarrow> db" where
  "insert_mdef stepId m d =
    d\<lparr>mdefs := t_insert (\<lambda>i. \<lparr>md_id = i, md_step = stepId, md_name = mi_name m, md_unit = mi_unit m,
       md_min = map_option decimal3 (mi_min m), md_max = map_option decimal3 (mi_max m),
       md_expected = map_option decimal3 (mi_expected m), md_required = mi_required m\<rparr>) (mdefs d)\<rparr>"

definition insertMeasurements :: "nat \<Rightarrow> mdef_input list \<Rightarrow> db \<Rightarrow> db" where
  "insertMeasurements stepId defs d = fold (insert_mdef stepId) defs d"

definition max_order :: "nat \<Rightarrow> db \<Rightarrow> nat" where
  "max_order versionId d = foldr (\<lambda>c m. max (cs_order c) m) (t_where (\<lambda>c. cs_version c = versionId) (csteps d)) 0"

definition step_changed :: "req \<Rightarrow> auth_user \<Rightarrow> nat \<Rightarrow> (string \<times> json) list \<Rightarrow> db \<Rightarrow> db" where
  "step_changed q a versionId members d =
    logAudit q (au_id a) ''TEMPLATE_STEP_CHANGED'' ''checklist_template_version'' (nat_str versionId) None
      (Some (JObj members)) d"

definition addStep :: "req \<Rightarrow> auth_user \<Rightarrow> nat \<Rightarrow> nat \<Rightarrow> step_input \<Rightarrow> (db, unit) tx" where
  "addStep q a templateId versionId inp d =
    andThen (lockDraftVersion templateId versionId d) (\<lambda>_.
      let stepId = next_id (csteps d);
          d1 = d\<lparr>csteps := t_insert (\<lambda>i. \<lparr>cs_id = i, cs_version = versionId,
                 cs_order = max_order versionId d + 1, cs_name = si_name inp,
                 cs_description = si_description inp, cs_requirements = si_requirements inp,
                 cs_is_stop = si_is_stop inp, cs_risk_weight = si_risk_weight inp,
                 cs_required_photos = si_required_photos inp\<rparr>) (csteps d)\<rparr>;
          d2 = insertMeasurements stepId (si_measurements inp) d1
      in Inr ((), step_changed q a versionId
           [(''op'', JStr ''add''), (''stepId'', jnat stepId), (''name'', JStr (si_name inp))] d2))"

definition step_in_version :: "nat \<Rightarrow> nat \<Rightarrow> db \<Rightarrow> cstep_row option" where
  "step_in_version stepId versionId d =
    t_first (\<lambda>c. cs_id c = stepId \<and> cs_version c = versionId) (csteps d)"

text \<open>\<open>step_measurements\<close> refers to the definitions with RESTRICT, \<open>job_steps\<close> to the steps.\<close>

definition mdefs_referenced :: "nat \<Rightarrow> db \<Rightarrow> bool" where
  "mdefs_referenced stepId d =
    (\<exists>m\<in>set (mdefs_of_step stepId d). \<exists>v\<in>set (rows (smeas d)). sm_measurement v = md_id m)"

definition step_referenced :: "nat \<Rightarrow> db \<Rightarrow> bool" where
  "step_referenced stepId d = (\<exists>s\<in>set (rows (jsteps d)). js_step s = stepId)"

definition updateStep :: "req \<Rightarrow> auth_user \<Rightarrow> nat \<Rightarrow> nat \<Rightarrow> nat \<Rightarrow> step_input \<Rightarrow> (db, unit) tx" where
  "updateStep q a templateId versionId stepId inp d =
    andThen (lockDraftVersion templateId versionId d) (\<lambda>_.
    need (step_in_version stepId versionId d) notFound (\<lambda>_.
    throw_if (mdefs_referenced stepId d) (dbError ''ER_ROW_IS_REFERENCED_2'')
    (let d1 = d\<lparr>csteps := update_id cs_id stepId (\<lambda>c. c\<lparr>cs_name := si_name inp,
                cs_description := si_description inp, cs_requirements := si_requirements inp,
                cs_is_stop := si_is_stop inp, cs_risk_weight := si_risk_weight inp,
                cs_required_photos := si_required_photos inp\<rparr>) (csteps d)\<rparr>;
         d2 = d1\<lparr>mdefs := t_delete (\<lambda>m. md_step m = stepId) (mdefs d1)\<rparr>;
         d3 = insertMeasurements stepId (si_measurements inp) d2
     in Inr ((), step_changed q a versionId
          [(''op'', JStr ''update''), (''stepId'', jnat stepId), (''name'', JStr (si_name inp))] d3))))"

text \<open>The loop that writes the orders 1 to N where they differ.\<close>

fun renormalize :: "nat \<Rightarrow> cstep_row list \<Rightarrow> db \<Rightarrow> db" where
  "renormalize i [] d = d"
| "renormalize i (c # cs) d =
    renormalize (i + 1) cs
      (if cs_order c \<noteq> i + 1
       then d\<lparr>csteps := update_id cs_id (cs_id c) (\<lambda>r. r\<lparr>cs_order := i + 1\<rparr>) (csteps d)\<rparr> else d)"

definition deleteStep :: "req \<Rightarrow> auth_user \<Rightarrow> nat \<Rightarrow> nat \<Rightarrow> nat \<Rightarrow> (db, unit) tx" where
  "deleteStep q a templateId versionId stepId d =
    andThen (lockDraftVersion templateId versionId d) (\<lambda>_.
    need (step_in_version stepId versionId d) notFound (\<lambda>step.
    throw_if (step_referenced stepId d \<or> mdefs_referenced stepId d) (dbError ''ER_ROW_IS_REFERENCED_2'')
    (let d1 = d\<lparr>csteps := t_delete (\<lambda>c. cs_id c = stepId) (csteps d),
                mdefs := t_delete (\<lambda>m. md_step m = stepId) (mdefs d)\<rparr>;
         d2 = renormalize 0 (steps_of_version versionId d1) d1
     in Inr ((), step_changed q a versionId
          [(''op'', JStr ''delete''), (''stepId'', jnat stepId), (''name'', JStr (cs_name step))] d2))))"

text \<open>
  The neighbour's order; \<open>step.sort_order - 1\<close> of an order 0 is -1, which no row has (the
  column is unsigned).
\<close>

definition neighbor_of :: "direction \<Rightarrow> cstep_row \<Rightarrow> nat \<Rightarrow> db \<Rightarrow> cstep_row option" where
  "neighbor_of dir step versionId d =
    t_first (\<lambda>c. cs_version c = versionId \<and>
      int (cs_order c) = (case dir of Up \<Rightarrow> int (cs_order step) - 1 | Down \<Rightarrow> int (cs_order step) + 1)) (csteps d)"

definition set_order :: "nat \<Rightarrow> nat \<Rightarrow> db \<Rightarrow> db" where
  "set_order stepId n d = d\<lparr>csteps := update_id cs_id stepId (\<lambda>c. c\<lparr>cs_order := n\<rparr>) (csteps d)\<rparr>"

definition moveStep :: "req \<Rightarrow> auth_user \<Rightarrow> nat \<Rightarrow> nat \<Rightarrow> nat \<Rightarrow> direction \<Rightarrow> (db, unit) tx" where
  "moveStep q a templateId versionId stepId dir d =
    andThen (lockDraftVersion templateId versionId d) (\<lambda>_.
    need (step_in_version stepId versionId d) notFound (\<lambda>step.
    case neighbor_of dir step versionId d of
      None \<Rightarrow> Inr ((), d)
    | Some nb \<Rightarrow>
        Inr ((), step_changed q a versionId
          [(''op'', JStr ''move''), (''stepId'', jnat stepId), (''direction'', JStr (direction_str dir))]
          (set_order (cs_id nb) (cs_order step) (set_order (cs_id step) (cs_order nb) d)))))"

definition set_version_status :: "nat \<Rightarrow> version_status \<Rightarrow> db \<Rightarrow> db" where
  "set_version_status versionId st d =
    d\<lparr>versions := update_id tv_id versionId (\<lambda>v. v\<lparr>tv_status := st\<rparr>) (versions d)\<rparr>"

definition publishVersion :: "req \<Rightarrow> auth_user \<Rightarrow> nat \<Rightarrow> nat \<Rightarrow> (db, unit) tx" where
  "publishVersion q a templateId versionId d =
    need (by_id tp_id templateId (templates d)) notFound (\<lambda>_.
    need (t_first (\<lambda>v. tv_id v = versionId \<and> tv_template v = templateId) (versions d)) notFound (\<lambda>version.
    throw_if (tv_status version \<noteq> V_DRAFT) (conflict ''VERSION_NOT_DRAFT'')
    (throw_if (t_count (\<lambda>c. cs_version c = versionId) (csteps d) = 0) (conflict ''EMPTY_VERSION'')
    (let d1 = (case t_first (\<lambda>v. tv_template v = templateId \<and> tv_status v = V_PUBLISHED) (versions d) of
           None \<Rightarrow> d
         | Some prev \<Rightarrow>
             logAudit q (au_id a) ''TEMPLATE_VERSION_ARCHIVED'' ''checklist_template_version'' (nat_str (tv_id prev))
               (Some (JObj [(''status'', JStr ''PUBLISHED'')]))
               (Some (JObj [(''status'', JStr ''ARCHIVED''), (''supersededBy'', jnat versionId)]))
               (set_version_status (tv_id prev) V_ARCHIVED d));
         d2 = d1\<lparr>versions := update_id tv_id versionId
                (\<lambda>v. v\<lparr>tv_status := V_PUBLISHED, tv_published_at := Some (rq_now q)\<rparr>) (versions d1)\<rparr>
     in Inr ((), logAudit q (au_id a) ''TEMPLATE_VERSION_PUBLISHED'' ''checklist_template_version'' (nat_str versionId)
          (Some (JObj [(''status'', JStr ''DRAFT'')]))
          (Some (JObj [(''status'', JStr ''PUBLISHED''), (''version'', jnat (tv_version version))])) d2)))))"

definition archiveVersion :: "req \<Rightarrow> auth_user \<Rightarrow> nat \<Rightarrow> nat \<Rightarrow> (db, unit) tx" where
  "archiveVersion q a templateId versionId d =
    need (by_id tp_id templateId (templates d)) notFound (\<lambda>_.
    need (t_first (\<lambda>v. tv_id v = versionId \<and> tv_template v = templateId) (versions d)) notFound (\<lambda>version.
    throw_if (tv_status version \<noteq> V_PUBLISHED) (conflict ''VERSION_NOT_PUBLISHED'')
    (Inr ((), logAudit q (au_id a) ''TEMPLATE_VERSION_ARCHIVED'' ''checklist_template_version'' (nat_str versionId)
          (Some (JObj [(''status'', JStr ''PUBLISHED'')])) (Some (JObj [(''status'', JStr ''ARCHIVED'')]))
          (set_version_status versionId V_ARCHIVED d)))))"

text \<open>
  The step ids are read once; the version, checklist and step references are checked before
  the deletes, whose measurement definitions cascade.
\<close>

definition deleteTemplate :: "req \<Rightarrow> auth_user \<Rightarrow> nat \<Rightarrow> (db, nat \<times> string) tx" where
  "deleteTemplate q a templateId d =
    need (by_id tp_id templateId (templates d)) notFound (\<lambda>template.
     let vs = t_where (\<lambda>v. tv_template v = templateId) (versions d);
         versionIds = map tv_id vs;
         stepIds = map cs_id (t_where (\<lambda>c. cs_version c \<in> set versionIds) (csteps d)) in
     throw_if (\<exists>v\<in>set vs. tv_status v \<noteq> V_DRAFT) (conflict ''TEMPLATE_HAS_HISTORY'')
    (throw_if (t_count (\<lambda>c. cl_version c \<in> set versionIds) (checklists d) > 0) (conflict ''TEMPLATE_IN_USE'')
    (throw_if (t_count (\<lambda>s. js_step s \<in> set stepIds) (jsteps d) > 0) (conflict ''TEMPLATE_IN_USE'')
    (throw_if (\<exists>i\<in>set stepIds. mdefs_referenced i d) (dbError ''ER_ROW_IS_REFERENCED_2'')
    (let d1 = d\<lparr>csteps := t_delete (\<lambda>c. cs_id c \<in> set stepIds) (csteps d),
                mdefs := t_delete (\<lambda>m. md_step m \<in> set stepIds) (mdefs d),
                versions := t_delete (\<lambda>v. tv_id v \<in> set versionIds) (versions d),
                templates := t_delete (\<lambda>t. tp_id t = templateId) (templates d)\<rparr>
     in Inr ((templateId, tp_name template),
          logAudit q (au_id a) ''TEMPLATE_DELETED'' ''checklist_template'' (nat_str templateId)
            (Some (JObj [(''name'', JStr (tp_name template)), (''versionsDeleted'', jnat (length vs))]))
            None d1))))))"

text \<open>Every mutation but the last answers with the template as it is after the commit.\<close>

definition run_and_get_template ::
  "(db, 'a) tx \<Rightarrow> ('a \<Rightarrow> nat) \<Rightarrow> db \<Rightarrow> (api_error + template_detail) \<times> db" where
  "run_and_get_template body templateOf d =
    (case transaction body d of
       (Inl e, d') \<Rightarrow> (Inl e, d')
     | (Inr x, d') \<Rightarrow> (getTemplate (templateOf x) d', d'))"

end
