(* ===== verification/TemplateLifecycle.thy ===== *)
theory TemplateLifecycle
  imports Templates
begin

section \<open>The life of a checklist template\<close>

text \<open>
  Facts about the mutations of theory \<open>Templates\<close>: the invariant of the four template tables,
  kept by every mutation, and the immutability of published and archived versions over any
  sequence of mutations.
\<close>

subsection \<open>The invariant of the template tables\<close>

text \<open>
  Keys are primary keys; the versions of a template have different numbers, at most one of
  them is a DRAFT and at most one is PUBLISHED; steps and definitions refer to existing rows;
  the orders of the steps of every version are exactly 1 to N, and only a DRAFT may be empty.
\<close>

definition orders :: "nat \<Rightarrow> db \<Rightarrow> nat list" where
  "orders v d = map cs_order (t_where (\<lambda>c. cs_version c = v) (csteps d))"

definition contiguous :: "nat list \<Rightarrow> bool" where
  "contiguous ns \<longleftrightarrow> set ns = {1..length ns}"

definition template_keys :: "db \<Rightarrow> bool" where
  "template_keys d \<longleftrightarrow> keyed tp_id (templates d) \<and> keyed tv_id (versions d) \<and> keyed cs_id (csteps d) \<and>
     keyed md_id (mdefs d)"

definition one_of_status :: "version_status \<Rightarrow> db \<Rightarrow> bool" where
  "one_of_status st d \<longleftrightarrow> (\<forall>v\<in>set (rows (versions d)). \<forall>w\<in>set (rows (versions d)).
     tv_template v = tv_template w \<and> tv_status v = st \<and> tv_status w = st \<longrightarrow> v = w)"

definition version_numbers :: "db \<Rightarrow> bool" where
  "version_numbers d \<longleftrightarrow> (\<forall>v\<in>set (rows (versions d)). \<forall>w\<in>set (rows (versions d)).
     tv_template v = tv_template w \<and> tv_version v = tv_version w \<longrightarrow> v = w)"

definition template_refs :: "db \<Rightarrow> bool" where
  "template_refs d \<longleftrightarrow>
     (\<forall>v\<in>set (rows (versions d)). tv_template v < next_id (templates d)) \<and>
     (\<forall>c\<in>set (rows (csteps d)). \<exists>v\<in>set (rows (versions d)). tv_id v = cs_version c) \<and>
     (\<forall>m\<in>set (rows (mdefs d)). \<exists>c\<in>set (rows (csteps d)). cs_id c = md_step m)"

definition orders_ok :: "db \<Rightarrow> bool" where
  "orders_ok d \<longleftrightarrow> (\<forall>v. contiguous (orders v d)) \<and>
     (\<forall>v\<in>set (rows (versions d)). tv_status v \<noteq> V_DRAFT \<longrightarrow> orders (tv_id v) d \<noteq> [])"

definition templates_ok :: "db \<Rightarrow> bool" where
  "templates_ok d \<longleftrightarrow> template_keys d \<and> one_of_status V_DRAFT d \<and> one_of_status V_PUBLISHED d \<and>
     version_numbers d \<and> template_refs d \<and> orders_ok d"

lemma templates_ok_cong:
  assumes "templates d = templates e" "versions d = versions e" "csteps d = csteps e" "mdefs d = mdefs e"
  shows "templates_ok d = templates_ok e"
  by (simp add: templates_ok_def template_keys_def one_of_status_def version_numbers_def template_refs_def
      orders_ok_def orders_def assms)

subsubsection \<open>Contiguous orders\<close>

lemma contiguous_Nil [simp]: "contiguous []"
  by (simp add: contiguous_def)

lemma contiguous_perm: "set ms = set ns \<Longrightarrow> length ms = length ns \<Longrightarrow> contiguous ns \<Longrightarrow> contiguous ms"
  by (simp add: contiguous_def)

lemma contiguous_snoc: "contiguous ns \<Longrightarrow> contiguous (ns @ [length ns + 1])"
  by (auto simp: contiguous_def)

lemma contiguous_distinct: "contiguous ns \<Longrightarrow> distinct ns"
  by (simp add: contiguous_def card_distinct)

lemma contiguous_upt: "contiguous [Suc 0..<Suc n]"
  by (auto simp: contiguous_def)

lemma foldr_max_ge: "(x :: nat) \<in> set xs \<Longrightarrow> x \<le> foldr max xs 0"
  by (induction xs) auto

lemma foldr_max_le: "(\<And>x. x \<in> set xs \<Longrightarrow> x \<le> n) \<Longrightarrow> foldr max xs 0 \<le> (n :: nat)"
  by (induction xs) auto

lemma max_order_contiguous:
  assumes "contiguous (orders v d)"
  shows "max_order v d = length (orders v d)"
proof -
  have eq: "max_order v d = foldr max (orders v d) 0"
    by (simp add: max_order_def orders_def foldr_map comp_def)
  have "foldr max (orders v d) 0 \<le> length (orders v d)"
    using assms by (intro foldr_max_le) (simp add: contiguous_def)
  moreover have "length (orders v d) \<le> foldr max (orders v d) 0"
  proof (cases "orders v d")
    case (Cons x xs)
    then have "length (orders v d) \<in> set (orders v d)"
      using assms by (simp add: contiguous_def)
    then show ?thesis by (rule foldr_max_ge)
  qed simp
  ultimately show ?thesis using eq by simp
qed

subsubsection \<open>What the compound writes leave alone\<close>

lemma insert_mdef_frame [simp]:
  "users (insert_mdef s m d) = users d" "branches (insert_mdef s m d) = branches d"
  "customers (insert_mdef s m d) = customers d" "vehicles (insert_mdef s m d) = vehicles d"
  "jobs (insert_mdef s m d) = jobs d" "assignments (insert_mdef s m d) = assignments d"
  "templates (insert_mdef s m d) = templates d" "versions (insert_mdef s m d) = versions d"
  "csteps (insert_mdef s m d) = csteps d" "checklists (insert_mdef s m d) = checklists d"
  "jsteps (insert_mdef s m d) = jsteps d" "smeas (insert_mdef s m d) = smeas d"
  "approvals (insert_mdef s m d) = approvals d" "photos (insert_mdef s m d) = photos d"
  "signatures (insert_mdef s m d) = signatures d" "risks (insert_mdef s m d) = risks d"
  "matrices (insert_mdef s m d) = matrices d" "snapshots (insert_mdef s m d) = snapshots d"
  "gps_events (insert_mdef s m d) = gps_events d" "audits (insert_mdef s m d) = audits d"
  by (simp_all add: insert_mdef_def)

lemma insertMeasurements_frame [simp]:
  "users (insertMeasurements s ms d) = users d" "branches (insertMeasurements s ms d) = branches d"
  "customers (insertMeasurements s ms d) = customers d"
  "vehicles (insertMeasurements s ms d) = vehicles d" "jobs (insertMeasurements s ms d) = jobs d"
  "assignments (insertMeasurements s ms d) = assignments d"
  "templates (insertMeasurements s ms d) = templates d"
  "versions (insertMeasurements s ms d) = versions d"
  "csteps (insertMeasurements s ms d) = csteps d"
  "checklists (insertMeasurements s ms d) = checklists d"
  "jsteps (insertMeasurements s ms d) = jsteps d" "smeas (insertMeasurements s ms d) = smeas d"
  "approvals (insertMeasurements s ms d) = approvals d"
  "photos (insertMeasurements s ms d) = photos d"
  "signatures (insertMeasurements s ms d) = signatures d"
  "risks (insertMeasurements s ms d) = risks d" "matrices (insertMeasurements s ms d) = matrices d"
  "snapshots (insertMeasurements s ms d) = snapshots d"
  "gps_events (insertMeasurements s ms d) = gps_events d"
  "audits (insertMeasurements s ms d) = audits d"
  unfolding insertMeasurements_def by (induction ms arbitrary: d) simp_all

lemma copy_mdef_frame [simp]:
  "users (copy_mdef s m d) = users d" "branches (copy_mdef s m d) = branches d"
  "customers (copy_mdef s m d) = customers d" "vehicles (copy_mdef s m d) = vehicles d"
  "jobs (copy_mdef s m d) = jobs d" "assignments (copy_mdef s m d) = assignments d"
  "templates (copy_mdef s m d) = templates d" "versions (copy_mdef s m d) = versions d"
  "csteps (copy_mdef s m d) = csteps d" "checklists (copy_mdef s m d) = checklists d"
  "jsteps (copy_mdef s m d) = jsteps d" "smeas (copy_mdef s m d) = smeas d"
  "approvals (copy_mdef s m d) = approvals d" "photos (copy_mdef s m d) = photos d"
  "signatures (copy_mdef s m d) = signatures d" "risks (copy_mdef s m d) = risks d"
  "matrices (copy_mdef s m d) = matrices d" "snapshots (copy_mdef s m d) = snapshots d"
  "gps_events (copy_mdef s m d) = gps_events d" "audits (copy_mdef s m d) = audits d"
  by (simp_all add: copy_mdef_def)

lemma copy_mdefs_frame [simp]:
  "users (fold (copy_mdef s) ms d) = users d" "branches (fold (copy_mdef s) ms d) = branches d"
  "customers (fold (copy_mdef s) ms d) = customers d"
  "vehicles (fold (copy_mdef s) ms d) = vehicles d" "jobs (fold (copy_mdef s) ms d) = jobs d"
  "assignments (fold (copy_mdef s) ms d) = assignments d"
  "templates (fold (copy_mdef s) ms d) = templates d"
  "versions (fold (copy_mdef s) ms d) = versions d" "csteps (fold (copy_mdef s) ms d) = csteps d"
  "checklists (fold (copy_mdef s) ms d) = checklists d"
  "jsteps (fold (copy_mdef s) ms d) = jsteps d" "smeas (fold (copy_mdef s) ms d) = smeas d"
  "approvals (fold (copy_mdef s) ms d) = approvals d" "photos (fold (copy_mdef s) ms d) = photos d"
  "signatures (fold (copy_mdef s) ms d) = signatures d" "risks (fold (copy_mdef s) ms d) = risks d"
  "matrices (fold (copy_mdef s) ms d) = matrices d"
  "snapshots (fold (copy_mdef s) ms d) = snapshots d"
  "gps_events (fold (copy_mdef s) ms d) = gps_events d"
  "audits (fold (copy_mdef s) ms d) = audits d"
  by (induction ms arbitrary: d) simp_all

lemma copy_step_frame [simp]:
  "users (copy_step v c d) = users d" "branches (copy_step v c d) = branches d"
  "customers (copy_step v c d) = customers d" "vehicles (copy_step v c d) = vehicles d"
  "jobs (copy_step v c d) = jobs d" "assignments (copy_step v c d) = assignments d"
  "templates (copy_step v c d) = templates d" "versions (copy_step v c d) = versions d"
  "checklists (copy_step v c d) = checklists d" "jsteps (copy_step v c d) = jsteps d"
  "smeas (copy_step v c d) = smeas d" "approvals (copy_step v c d) = approvals d"
  "photos (copy_step v c d) = photos d" "signatures (copy_step v c d) = signatures d"
  "risks (copy_step v c d) = risks d" "matrices (copy_step v c d) = matrices d"
  "snapshots (copy_step v c d) = snapshots d" "gps_events (copy_step v c d) = gps_events d"
  "audits (copy_step v c d) = audits d"
  by (simp_all add: copy_step_def Let_def)

lemma copy_steps_frame [simp]:
  "users (fold (copy_step v) cs d) = users d" "branches (fold (copy_step v) cs d) = branches d"
  "customers (fold (copy_step v) cs d) = customers d"
  "vehicles (fold (copy_step v) cs d) = vehicles d" "jobs (fold (copy_step v) cs d) = jobs d"
  "assignments (fold (copy_step v) cs d) = assignments d"
  "templates (fold (copy_step v) cs d) = templates d"
  "versions (fold (copy_step v) cs d) = versions d"
  "checklists (fold (copy_step v) cs d) = checklists d"
  "jsteps (fold (copy_step v) cs d) = jsteps d" "smeas (fold (copy_step v) cs d) = smeas d"
  "approvals (fold (copy_step v) cs d) = approvals d" "photos (fold (copy_step v) cs d) = photos d"
  "signatures (fold (copy_step v) cs d) = signatures d" "risks (fold (copy_step v) cs d) = risks d"
  "matrices (fold (copy_step v) cs d) = matrices d"
  "snapshots (fold (copy_step v) cs d) = snapshots d"
  "gps_events (fold (copy_step v) cs d) = gps_events d"
  "audits (fold (copy_step v) cs d) = audits d"
  by (induction cs arbitrary: d) simp_all

lemma renormalize_frame [simp]:
  "users (renormalize i cs d) = users d" "branches (renormalize i cs d) = branches d"
  "customers (renormalize i cs d) = customers d" "vehicles (renormalize i cs d) = vehicles d"
  "jobs (renormalize i cs d) = jobs d" "assignments (renormalize i cs d) = assignments d"
  "templates (renormalize i cs d) = templates d" "versions (renormalize i cs d) = versions d"
  "mdefs (renormalize i cs d) = mdefs d" "checklists (renormalize i cs d) = checklists d"
  "jsteps (renormalize i cs d) = jsteps d" "smeas (renormalize i cs d) = smeas d"
  "approvals (renormalize i cs d) = approvals d" "photos (renormalize i cs d) = photos d"
  "signatures (renormalize i cs d) = signatures d" "risks (renormalize i cs d) = risks d"
  "matrices (renormalize i cs d) = matrices d" "snapshots (renormalize i cs d) = snapshots d"
  "gps_events (renormalize i cs d) = gps_events d" "audits (renormalize i cs d) = audits d"
  by (induction i cs d rule: renormalize.induct) simp_all

lemma set_order_frame [simp]:
  "users (set_order i n d) = users d" "branches (set_order i n d) = branches d"
  "customers (set_order i n d) = customers d" "vehicles (set_order i n d) = vehicles d"
  "jobs (set_order i n d) = jobs d" "assignments (set_order i n d) = assignments d"
  "templates (set_order i n d) = templates d" "versions (set_order i n d) = versions d"
  "mdefs (set_order i n d) = mdefs d" "checklists (set_order i n d) = checklists d"
  "jsteps (set_order i n d) = jsteps d" "smeas (set_order i n d) = smeas d"
  "approvals (set_order i n d) = approvals d" "photos (set_order i n d) = photos d"
  "signatures (set_order i n d) = signatures d" "risks (set_order i n d) = risks d"
  "matrices (set_order i n d) = matrices d" "snapshots (set_order i n d) = snapshots d"
  "gps_events (set_order i n d) = gps_events d" "audits (set_order i n d) = audits d"
  by (simp_all add: set_order_def)

lemma set_version_status_frame [simp]:
  "users (set_version_status i st d) = users d" "branches (set_version_status i st d) = branches d"
  "customers (set_version_status i st d) = customers d"
  "vehicles (set_version_status i st d) = vehicles d" "jobs (set_version_status i st d) = jobs d"
  "assignments (set_version_status i st d) = assignments d"
  "templates (set_version_status i st d) = templates d"
  "csteps (set_version_status i st d) = csteps d" "mdefs (set_version_status i st d) = mdefs d"
  "checklists (set_version_status i st d) = checklists d"
  "jsteps (set_version_status i st d) = jsteps d" "smeas (set_version_status i st d) = smeas d"
  "approvals (set_version_status i st d) = approvals d"
  "photos (set_version_status i st d) = photos d"
  "signatures (set_version_status i st d) = signatures d"
  "risks (set_version_status i st d) = risks d" "matrices (set_version_status i st d) = matrices d"
  "snapshots (set_version_status i st d) = snapshots d"
  "gps_events (set_version_status i st d) = gps_events d"
  "audits (set_version_status i st d) = audits d"
  by (simp_all add: set_version_status_def)

lemma step_changed_frame [simp]:
  "users (step_changed q a v ms d) = users d" "branches (step_changed q a v ms d) = branches d"
  "customers (step_changed q a v ms d) = customers d"
  "vehicles (step_changed q a v ms d) = vehicles d" "jobs (step_changed q a v ms d) = jobs d"
  "assignments (step_changed q a v ms d) = assignments d"
  "templates (step_changed q a v ms d) = templates d"
  "versions (step_changed q a v ms d) = versions d" "csteps (step_changed q a v ms d) = csteps d"
  "mdefs (step_changed q a v ms d) = mdefs d" "checklists (step_changed q a v ms d) = checklists d"
  "jsteps (step_changed q a v ms d) = jsteps d" "smeas (step_changed q a v ms d) = smeas d"
  "approvals (step_changed q a v ms d) = approvals d" "photos (step_changed q a v ms d) = photos d"
  "signatures (step_changed q a v ms d) = signatures d" "risks (step_changed q a v ms d) = risks d"
  "matrices (step_changed q a v ms d) = matrices d"
  "snapshots (step_changed q a v ms d) = snapshots d"
  "gps_events (step_changed q a v ms d) = gps_events d"
  by (simp_all add: step_changed_def)


subsubsection \<open>Measurement definitions\<close>

lemma mdefs_insert_mdef: "mdefs (insert_mdef s m d) = t_insert (\<lambda>i. \<lparr>md_id = i, md_step = s,
    md_name = mi_name m, md_unit = mi_unit m, md_min = map_option decimal3 (mi_min m),
    md_max = map_option decimal3 (mi_max m), md_expected = map_option decimal3 (mi_expected m),
    md_required = mi_required m\<rparr>) (mdefs d)"
  by (simp add: insert_mdef_def)

lemma insertMeasurements_Cons: "insertMeasurements s (m # ms) d = insertMeasurements s ms (insert_mdef s m d)"
  by (simp add: insertMeasurements_def)

lemma insertMeasurements_mdefs:
  assumes "keyed md_id (mdefs d)"
  shows "keyed md_id (mdefs (insertMeasurements s ms d)) \<and>
    (\<forall>k. k \<noteq> s \<longrightarrow> mdefs_of_step k (insertMeasurements s ms d) = mdefs_of_step k d) \<and>
    (\<forall>m\<in>set (rows (mdefs (insertMeasurements s ms d))). m \<in> set (rows (mdefs d)) \<or> md_step m = s)"
  using assms
proof (induction ms arbitrary: d)
  case Nil
  then show ?case by (simp add: insertMeasurements_def)
next
  case (Cons m ms)
  have "keyed md_id (mdefs (insert_mdef s m d))"
    using Cons.prems by (simp add: mdefs_insert_mdef keyed_insert)
  from Cons.IH [OF this] show ?case
    by (auto simp: insertMeasurements_Cons mdefs_insert_mdef mdefs_of_step_def t_where_insert set_rows_insert)
qed

lemma copy_mdefs_mdefs:
  assumes "keyed md_id (mdefs d)"
  shows "keyed md_id (mdefs (fold (copy_mdef s) ms d)) \<and>
    (\<forall>k. k \<noteq> s \<longrightarrow> mdefs_of_step k (fold (copy_mdef s) ms d) = mdefs_of_step k d) \<and>
    (\<forall>m\<in>set (rows (mdefs (fold (copy_mdef s) ms d))). m \<in> set (rows (mdefs d)) \<or> md_step m = s)"
  using assms
proof (induction ms arbitrary: d)
  case Nil
  then show ?case by simp
next
  case (Cons m ms)
  have "keyed md_id (mdefs (copy_mdef s m d))"
    using Cons.prems by (simp add: copy_mdef_def keyed_insert)
  from Cons.IH [OF this] show ?case
    by (auto simp: copy_mdef_def mdefs_of_step_def t_where_insert set_rows_insert)
qed

subsubsection \<open>Copied steps\<close>

lemma copy_step_effect:
  assumes "keyed md_id (mdefs d)" "keyed cs_id (csteps d)" "d' = copy_step v c d"
  shows "keyed md_id (mdefs d')" "csteps d' = t_insert (\<lambda>i. c\<lparr>cs_id := i, cs_version := v\<rparr>) (csteps d)"
    "k \<noteq> next_id (csteps d) \<Longrightarrow> mdefs_of_step k d' = mdefs_of_step k d"
    "m \<in> set (rows (mdefs d')) \<Longrightarrow> m \<in> set (rows (mdefs d)) \<or> md_step m = next_id (csteps d)"
proof -
  let ?d1 = "d\<lparr>csteps := t_insert (\<lambda>i. c\<lparr>cs_id := i, cs_version := v\<rparr>) (csteps d)\<rparr>"
  have d': "d' = fold (copy_mdef (next_id (csteps d))) (mdefs_of_step (cs_id c) ?d1) ?d1"
    using assms(3) by (simp add: copy_step_def Let_def)
  show "csteps d' = t_insert (\<lambda>i. c\<lparr>cs_id := i, cs_version := v\<rparr>) (csteps d)"
    by (simp add: d')
  have "keyed md_id (mdefs ?d1)" using assms(1) by simp
  note eff = copy_mdefs_mdefs [OF this, of "next_id (csteps d)" "mdefs_of_step (cs_id c) ?d1"]
  show "keyed md_id (mdefs d')" using eff by (simp add: d')
  show "k \<noteq> next_id (csteps d) \<Longrightarrow> mdefs_of_step k d' = mdefs_of_step k d"
    using eff by (simp add: d' mdefs_of_step_def)
  show "m \<in> set (rows (mdefs d')) \<Longrightarrow> m \<in> set (rows (mdefs d)) \<or> md_step m = next_id (csteps d)"
    using eff by (auto simp: d')
qed

lemma copy_steps_effect:
  assumes "keyed md_id (mdefs d)" "keyed cs_id (csteps d)" "d' = fold (copy_step v) cs d"
  shows "keyed md_id (mdefs d') \<and> keyed cs_id (csteps d') \<and> next_id (csteps d) \<le> next_id (csteps d') \<and>
    (\<forall>w. t_where (\<lambda>c. cs_version c = w) (csteps d') = t_where (\<lambda>c. cs_version c = w) (csteps d) \<or> w = v) \<and>
    orders v d' = orders v d @ map cs_order cs \<and>
    set (rows (csteps d)) \<subseteq> set (rows (csteps d')) \<and>
    (\<forall>c\<in>set (rows (csteps d')). c \<in> set (rows (csteps d)) \<or> cs_version c = v) \<and>
    (\<forall>k < next_id (csteps d). mdefs_of_step k d' = mdefs_of_step k d) \<and>
    (\<forall>m\<in>set (rows (mdefs d')). m \<in> set (rows (mdefs d)) \<or> (\<exists>c\<in>set (rows (csteps d')). cs_id c = md_step m))"
  using assms
proof (induction cs arbitrary: d)
  case Nil
  then show ?case by simp
next
  case (Cons c cs)
  let ?d1 = "copy_step v c d"
  note eff = copy_step_effect [OF Cons.prems(1,2) refl, where v = v and c = c]
  have key: "keyed cs_id (csteps ?d1)"
    using Cons.prems(2) by (simp add: eff(2) keyed_insert)
  have d': "d' = fold (copy_step v) cs ?d1" using Cons.prems(3) by simp
  note IH = Cons.IH [OF eff(1) key d']
  have n: "next_id (csteps ?d1) = Suc (next_id (csteps d))" by (simp add: eff(2))
  have w: "t_where (\<lambda>c. cs_version c = w) (csteps ?d1) = t_where (\<lambda>c. cs_version c = w) (csteps d) \<or> w = v" for w
    by (simp add: eff(2) t_where_insert)
  have o: "orders v ?d1 = orders v d @ [cs_order c]"
    by (simp add: orders_def eff(2) t_where_insert)
  have sub: "set (rows (csteps ?d1)) = insert (c\<lparr>cs_id := next_id (csteps d), cs_version := v\<rparr>) (set (rows (csteps d)))"
    by (simp add: eff(2) set_rows_insert)
  have m: "m \<in> set (rows (mdefs ?d1)) \<Longrightarrow> m \<in> set (rows (mdefs d)) \<or> (\<exists>c\<in>set (rows (csteps ?d1)). cs_id c = md_step m)" for m
    using eff(4) by (fastforce simp: sub)
  show ?case
  proof (intro conjI)
    show "\<forall>m\<in>set (rows (mdefs d')). m \<in> set (rows (mdefs d)) \<or> (\<exists>c\<in>set (rows (csteps d')). cs_id c = md_step m)"
      using IH m by (meson subsetD)
    show "\<forall>k<next_id (csteps d). mdefs_of_step k d' = mdefs_of_step k d"
      using IH eff(3) n by simp
    show "\<forall>w. t_where (\<lambda>c. cs_version c = w) (csteps d') = t_where (\<lambda>c. cs_version c = w) (csteps d) \<or> w = v"
      using IH w by metis
    show "\<forall>c\<in>set (rows (csteps d')). c \<in> set (rows (csteps d)) \<or> cs_version c = v"
      using IH by (auto simp: sub)
  qed (use IH n o sub in auto)
qed

subsubsection \<open>Renormalized orders\<close>

definition reorder :: "(nat \<times> nat) list \<Rightarrow> cstep_row \<Rightarrow> cstep_row" where
  "reorder ps r = (case map_of ps (cs_id r) of None \<Rightarrow> r | Some n \<Rightarrow> r\<lparr>cs_order := n\<rparr>)"

lemma reorder_fields [simp]: "cs_id (reorder ps r) = cs_id r" "cs_version (reorder ps r) = cs_version r"
  by (simp_all add: reorder_def split: option.splits)

lemma renormalize_csteps:
  assumes "keyed cs_id (csteps d)" "distinct (map cs_id cs)" "set cs \<subseteq> set (rows (csteps d))"
  shows "csteps (renormalize i cs d) =
    (csteps d)\<lparr>rows := map (reorder (zip (map cs_id cs) [Suc i..<Suc i + length cs])) (rows (csteps d))\<rparr>"
  using assms
proof (induction cs arbitrary: i d)
  case Nil
  then show ?case by (simp add: reorder_def)
next
  case (Cons c cs)
  let ?put = "\<lambda>r. if cs_id r = cs_id c then r\<lparr>cs_order := i + 1\<rparr> else r"
  let ?d1 = "if cs_order c \<noteq> i + 1
       then d\<lparr>csteps := update_id cs_id (cs_id c) (\<lambda>r. r\<lparr>cs_order := i + 1\<rparr>) (csteps d)\<rparr> else d"
  have c: "c \<in> set (rows (csteps d))" using Cons.prems(3) by simp
  have self: "r\<lparr>cs_order := i + 1\<rparr> = r" if "cs_order c = i + 1" "r \<in> set (rows (csteps d))" "cs_id r = cs_id c" for r
    using keyed_inj [OF Cons.prems(1) that(2) c that(3)] that(1) by (cases c) simp
  have rows1: "csteps ?d1 = (csteps d)\<lparr>rows := map ?put (rows (csteps d))\<rparr>"
  proof (cases "cs_order c = i + 1")
    case True
    have "map ?put (rows (csteps d)) = rows (csteps d)"
      by (rule map_idI) (use self [OF True] in auto)
    then show ?thesis using True by simp
  next
    case False
    then show ?thesis by (simp add: update_id_def t_update_def)
  qed
  have key1: "keyed cs_id (csteps ?d1)"
    unfolding rows1 using Cons.prems(1) by (auto simp: keyed_def comp_def if_distrib cong: if_cong)
  have sub1: "set cs \<subseteq> set (rows (csteps ?d1))"
  proof
    fix x assume x: "x \<in> set cs"
    have "cs_id x \<noteq> cs_id c" using imageI [OF x, of cs_id] Cons.prems(2) by auto
    moreover have "x \<in> set (rows (csteps d))" using x Cons.prems(3) by auto
    ultimately show "x \<in> set (rows (csteps ?d1))" unfolding rows1 by force
  qed
  have out: "map_of (zip (map cs_id cs) ns) (cs_id c) = None" for ns :: "nat list"
  proof -
    have "cs_id c \<notin> fst ` set (zip (map cs_id cs) ns)"
      using Cons.prems(2) by (auto dest!: set_zip_leftD)
    then show ?thesis by (simp add: map_of_eq_None_iff)
  qed
  have step: "reorder (zip (map cs_id cs) [Suc (Suc i)..<Suc (Suc i) + length cs]) (?put r)
      = reorder (zip (map cs_id (c # cs)) [Suc i..<Suc i + length (c # cs)]) r" for r
    by (simp add: out reorder_def upt_rec [of "Suc i" "Suc (Suc (i + length cs))"] del: upt_Suc)
  have "csteps (renormalize i (c # cs) d) = csteps (renormalize (Suc i) cs ?d1)" by simp
  also have "\<dots> = (csteps ?d1)\<lparr>rows := map (reorder (zip (map cs_id cs)
      [Suc (Suc i)..<Suc (Suc i) + length cs])) (rows (csteps ?d1))\<rparr>"
    by (rule Cons.IH [OF key1 _ sub1]) (use Cons.prems(2) in simp)
  finally show ?case unfolding rows1 using step by simp
qed

lemma renormalized_orders:
  assumes key: "keyed cs_id (csteps d)" and cs: "cs = steps_of_version v d"
  shows "orders v (renormalize 0 cs d) = map (\<lambda>r. the (map_of (zip (map cs_id cs) [1..<Suc (length cs)]) (cs_id r)))
           (t_where (\<lambda>c. cs_version c = v) (csteps d))"
    "contiguous (orders v (renormalize 0 cs d))"
    "w \<noteq> v \<Longrightarrow> t_where (\<lambda>c. cs_version c = w) (csteps (renormalize 0 cs d)) = t_where (\<lambda>c. cs_version c = w) (csteps d)"
proof -
  let ?vs = "t_where (\<lambda>c. cs_version c = v) (csteps d)" and ?ps = "zip (map cs_id cs) [1..<Suc (length cs)]"
  have mem: "set cs = set ?vs" and len: "length cs = length ?vs" by (simp_all add: cs steps_of_version_def)
  have "distinct (map cs_id ?vs)"
    using key by (simp add: keyed_def t_where_def distinct_map_filter)
  then have dist: "distinct (map cs_id cs)"
    unfolding cs steps_of_version_def by (simp add: distinct_map)
  have sub: "set cs \<subseteq> set (rows (csteps d))" unfolding mem by (auto simp: t_where_def)
  have rows': "rows (csteps (renormalize 0 cs d)) = map (reorder ?ps) (rows (csteps d))"
    by (simp add: renormalize_csteps [OF key dist sub])
  have dom: "map_of ?ps (cs_id r) \<noteq> None" if "r \<in> set ?vs" for r
  proof -
    have "cs_id r \<in> fst ` set ?ps" using that mem by (metis (no_types, lifting) length_map length_upt diff_Suc_1 image_eqI list.set_map map_fst_zip)
    then show ?thesis by (simp add: map_of_eq_None_iff)
  qed
  have where': "t_where (\<lambda>c. cs_version c = w) (csteps (renormalize 0 cs d)) = map (reorder ?ps) (t_where (\<lambda>c. cs_version c = w) (csteps d))" for w
    by (simp add: t_where_def rows' filter_map comp_def)
  show ord: "orders v (renormalize 0 cs d) = map (\<lambda>r. the (map_of ?ps (cs_id r))) ?vs"
    unfolding orders_def where' map_map comp_def
  proof (rule map_cong [OF refl])
    fix r assume "r \<in> set ?vs"
    then obtain n where "map_of ?ps (cs_id r) = Some n" using dom by blast
    then show "cs_order (reorder ?ps r) = the (map_of ?ps (cs_id r))" by (simp add: reorder_def)
  qed
  have "set (orders v (renormalize 0 cs d)) = (\<lambda>k. the (map_of ?ps k)) ` set (map cs_id cs)"
    unfolding ord set_map mem image_image ..
  also have "\<dots> = set (map (\<lambda>k. the (map_of ?ps k)) (map cs_id cs))" by (simp only: set_map)
  also have "map (\<lambda>k. the (map_of ?ps k)) (map cs_id cs) = [1..<Suc (length cs)]"
  proof (rule nth_equalityI)
    fix i assume "i < length (map (\<lambda>k. the (map_of ?ps k)) (map cs_id cs))"
    then have i: "i < length cs" by simp
    then have "map_of ?ps (map cs_id cs ! i) = Some ([1..<Suc (length cs)] ! i)"
      using dist by (intro map_of_zip_nth) simp_all
    with i show "map (\<lambda>k. the (map_of ?ps k)) (map cs_id cs) ! i = [1..<Suc (length cs)] ! i"
      by (simp del: upt_Suc)
  qed (simp del: upt_Suc)
  finally show "contiguous (orders v (renormalize 0 cs d))"
    by (auto simp: contiguous_def ord len)
  show "t_where (\<lambda>c. cs_version c = w) (csteps (renormalize 0 cs d)) = t_where (\<lambda>c. cs_version c = w) (csteps d)" if "w \<noteq> v"
    unfolding where'
  proof (rule map_idI)
    fix r assume r: "r \<in> set (t_where (\<lambda>c. cs_version c = w) (csteps d))"
    have "cs_id r \<notin> set (map cs_id cs)"
    proof
      assume "cs_id r \<in> set (map cs_id cs)"
      then obtain x where x: "x \<in> set cs" "cs_id x = cs_id r" by auto
      then have "x = r" using keyed_inj [OF key] r sub by (auto simp: t_where_def)
      with x r that show False by (auto simp: mem)
    qed
    then have "cs_id r \<notin> fst ` set ?ps" by (auto dest!: set_zip_leftD)
    then show "reorder ?ps r = r" by (simp add: reorder_def map_of_eq_None_iff [symmetric])
  qed
qed

subsubsection \<open>Edits of a DRAFT version\<close>

text \<open>
  An edit changes the steps of one version and the definitions of those steps; what the
  version editor may do to the tables.
\<close>

definition draft_edit :: "nat \<Rightarrow> db \<Rightarrow> db \<Rightarrow> bool" where
  "draft_edit v d d' \<longleftrightarrow>
     versions d' = versions d \<and> templates d' = templates d \<and>
     keyed cs_id (csteps d') \<and> keyed md_id (mdefs d') \<and>
     (\<forall>w. w \<noteq> v \<longrightarrow> t_where (\<lambda>c. cs_version c = w) (csteps d') = t_where (\<lambda>c. cs_version c = w) (csteps d)) \<and>
     (\<forall>c\<in>set (rows (csteps d)). cs_version c \<noteq> v \<longrightarrow> mdefs_of_step (cs_id c) d' = mdefs_of_step (cs_id c) d) \<and>
     (\<forall>m\<in>set (rows (mdefs d')). \<exists>c\<in>set (rows (csteps d')). cs_id c = md_step m) \<and>
     contiguous (orders v d')"

definition is_draft :: "nat \<Rightarrow> db \<Rightarrow> bool" where
  "is_draft v d \<longleftrightarrow> (\<exists>r\<in>set (rows (versions d)). tv_id r = v \<and> tv_status r = V_DRAFT)"

text \<open>What a published or archived version keeps: everything but its status, which may become ARCHIVED.\<close>

definition published_frozen :: "db \<Rightarrow> db \<Rightarrow> bool" where
  "published_frozen d d' \<longleftrightarrow> (\<forall>v\<in>set (rows (versions d)). tv_status v \<noteq> V_DRAFT \<longrightarrow>
     (\<exists>v'\<in>set (rows (versions d')). v' = v\<lparr>tv_status := tv_status v'\<rparr> \<and>
        (tv_status v' = tv_status v \<or> tv_status v' = V_ARCHIVED)) \<and>
     loadStepsWithMeasurements (tv_id v) d' = loadStepsWithMeasurements (tv_id v) d)"

lemma published_frozen_refl: "published_frozen d d"
  unfolding published_frozen_def by (intro ballI impI conjI bexI refl) auto

lemma published_frozen_trans:
  assumes "published_frozen d e" "published_frozen e f"
  shows "published_frozen d f"
  unfolding published_frozen_def
proof (intro ballI impI conjI)
  fix v assume v: "v \<in> set (rows (versions d))" "tv_status v \<noteq> V_DRAFT"
  obtain w where w: "w \<in> set (rows (versions e))" "w = v\<lparr>tv_status := tv_status w\<rparr>"
      "tv_status w = tv_status v \<or> tv_status w = V_ARCHIVED"
      "loadStepsWithMeasurements (tv_id v) e = loadStepsWithMeasurements (tv_id v) d"
    using assms(1) v unfolding published_frozen_def by blast
  then have nd: "tv_status w \<noteq> V_DRAFT" using v(2) by auto
  obtain u where u: "u \<in> set (rows (versions f))" "u = w\<lparr>tv_status := tv_status u\<rparr>"
      "tv_status u = tv_status w \<or> tv_status u = V_ARCHIVED"
      "loadStepsWithMeasurements (tv_id w) f = loadStepsWithMeasurements (tv_id w) e"
    using assms(2) w(1) nd unfolding published_frozen_def by blast
  have id: "tv_id w = tv_id v" by (subst w(2)) simp
  have "u = v\<lparr>tv_status := tv_status u\<rparr>"
    by (subst u(2), subst w(2)) simp
  then show "\<exists>v'\<in>set (rows (versions f)). v' = v\<lparr>tv_status := tv_status v'\<rparr> \<and>
        (tv_status v' = tv_status v \<or> tv_status v' = V_ARCHIVED)"
    using u(1,3) w(3) by (intro bexI [of _ u]) auto
  show "loadStepsWithMeasurements (tv_id v) f = loadStepsWithMeasurements (tv_id v) d"
    using u(4) w(4) id by simp
qed

lemma load_same:
  assumes "t_where (\<lambda>c. cs_version c = w) (csteps d') = t_where (\<lambda>c. cs_version c = w) (csteps d)"
    and "\<And>c. c \<in> set (rows (csteps d)) \<Longrightarrow> cs_version c = w \<Longrightarrow> mdefs_of_step (cs_id c) d' = mdefs_of_step (cs_id c) d"
  shows "loadStepsWithMeasurements w d' = loadStepsWithMeasurements w d"
  using assms by (simp add: loadStepsWithMeasurements_def steps_of_version_def)

lemma draft_not_frozen:
  assumes "template_keys d" "is_draft v d" "r \<in> set (rows (versions d))" "tv_status r \<noteq> V_DRAFT"
  shows "tv_id r \<noteq> v"
  using assms keyed_inj [of tv_id "versions d" r] by (auto simp: is_draft_def template_keys_def)

lemma orders_other:
  "t_where (\<lambda>c. cs_version c = w) (csteps d') = t_where (\<lambda>c. cs_version c = w) (csteps d) \<Longrightarrow> orders w d' = orders w d"
  by (simp add: orders_def)

lemma draft_edit_frozen:
  assumes "templates_ok d" "is_draft v d" "draft_edit v d d'"
  shows "published_frozen d d'"
  unfolding published_frozen_def
proof (intro ballI impI conjI)
  fix r assume r: "r \<in> set (rows (versions d))" "tv_status r \<noteq> V_DRAFT"
  then have "tv_id r \<noteq> v" using draft_not_frozen assms(1,2) by (auto simp: templates_ok_def)
  then show "loadStepsWithMeasurements (tv_id r) d' = loadStepsWithMeasurements (tv_id r) d"
    using assms(3) by (intro load_same) (auto simp: draft_edit_def)
  show "\<exists>v'\<in>set (rows (versions d')). v' = r\<lparr>tv_status := tv_status v'\<rparr> \<and>
        (tv_status v' = tv_status r \<or> tv_status v' = V_ARCHIVED)"
    using assms(3) r(1) by (intro bexI [of _ r]) (auto simp: draft_edit_def)
qed

lemma draft_edit_ok:
  assumes ok: "templates_ok d" and draft: "is_draft v d" and edit: "draft_edit v d d'"
  shows "templates_ok d'"
proof -
  have vs: "versions d' = versions d" and ts: "templates d' = templates d" using edit by (auto simp: draft_edit_def)
  have same: "t_where (\<lambda>c. cs_version c = w) (csteps d') = t_where (\<lambda>c. cs_version c = w) (csteps d)" if "w \<noteq> v" for w
    using edit that by (simp add: draft_edit_def)
  have "\<exists>r\<in>set (rows (versions d')). tv_id r = cs_version c" if c: "c \<in> set (rows (csteps d'))" for c
  proof (cases "cs_version c = v")
    case True
    then show ?thesis using draft by (auto simp: vs is_draft_def)
  next
    case False
    have "c \<in> set (t_where (\<lambda>x. cs_version x = cs_version c) (csteps d'))" using c by simp
    then have "c \<in> set (rows (csteps d))" unfolding same [OF False] by simp
    then show ?thesis using ok by (auto simp: vs templates_ok_def template_refs_def)
  qed
  then have refs: "template_refs d'"
    using ok edit by (auto simp: template_refs_def draft_edit_def templates_ok_def vs ts)
  have "contiguous (orders w d')" for w
    using ok edit orders_other [OF same]
    by (cases "w = v") (auto simp: draft_edit_def templates_ok_def orders_ok_def)
  moreover have "orders (tv_id r) d' \<noteq> []" if "r \<in> set (rows (versions d))" "tv_status r \<noteq> V_DRAFT" for r
    using draft_not_frozen [OF _ draft that] ok that orders_other [OF same]
    by (auto simp: templates_ok_def orders_ok_def)
  ultimately have "orders_ok d'" by (simp add: orders_ok_def vs)
  with refs show ?thesis
    using ok edit by (simp add: templates_ok_def template_keys_def one_of_status_def version_numbers_def draft_edit_def)
qed

lemma lockDraftVersion_draft: "lockDraftVersion t v d = Inr r \<Longrightarrow> is_draft v d"
  by (auto simp: lockDraftVersion_def need_Inr_iff is_draft_def dest: t_first_Some)

lemma templates_okD:
  assumes "templates_ok d"
  shows "keyed cs_id (csteps d)" "keyed md_id (mdefs d)" "keyed tv_id (versions d)" "keyed tp_id (templates d)"
    "contiguous (orders v d)" "m \<in> set (rows (mdefs d)) \<Longrightarrow> \<exists>c\<in>set (rows (csteps d)). cs_id c = md_step m"
  using assms by (auto simp: templates_ok_def template_keys_def orders_ok_def template_refs_def)

lemma addStep_edit:
  assumes ok: "templates_ok d" and run: "addStep q a t v inp d = Inr (x, d')"
  shows "is_draft v d \<and> draft_edit v d d'"
proof -
  let ?new = "\<lambda>i. \<lparr>cs_id = i, cs_version = v, cs_order = max_order v d + 1, cs_name = si_name inp,
                 cs_description = si_description inp, cs_requirements = si_requirements inp,
                 cs_is_stop = si_is_stop inp, cs_risk_weight = si_risk_weight inp,
                 cs_required_photos = si_required_photos inp\<rparr>"
  let ?d1 = "d\<lparr>csteps := t_insert ?new (csteps d)\<rparr>"
  obtain r ms where lock: "lockDraftVersion t v d = Inr r"
      and d': "d' = step_changed q a v ms (insertMeasurements (next_id (csteps d)) (si_measurements inp) ?d1)"
    using run by (auto simp: addStep_def andThen_Inr_iff Let_def)
  have "keyed md_id (mdefs ?d1)" using templates_okD(2) [OF ok] by simp
  note eff = insertMeasurements_mdefs [OF this, of "next_id (csteps d)" "si_measurements inp"]
  have cs: "csteps d' = t_insert ?new (csteps d)" by (simp add: d')
  have fresh: "cs_id c \<noteq> next_id (csteps d)" if "c \<in> set (rows (csteps d))" for c
    using keyed_fresh [OF templates_okD(1) [OF ok] that] .
  have "orders v d' = orders v d @ [length (orders v d) + 1]"
    using max_order_contiguous [OF templates_okD(5) [OF ok]] by (simp add: orders_def cs t_where_insert)
  then have "contiguous (orders v d')" using contiguous_snoc templates_okD(5) [OF ok] by metis
  moreover have "\<exists>c\<in>set (rows (csteps d')). cs_id c = md_step m" if "m \<in> set (rows (mdefs d'))" for m
  proof -
    have "m \<in> set (rows (mdefs d)) \<or> md_step m = next_id (csteps d)" using eff that by (auto simp: d')
    then show ?thesis using templates_okD(6) [OF ok] by (auto simp: cs set_rows_insert)
  qed
  moreover have "mdefs_of_step (cs_id c) d' = mdefs_of_step (cs_id c) d" if "c \<in> set (rows (csteps d))" for c
    using eff fresh [OF that] by (simp add: d' mdefs_of_step_def)
  ultimately have "draft_edit v d d'"
    using eff keyed_insert [OF templates_okD(1) [OF ok], of ?new]
    by (auto simp: draft_edit_def d' t_where_insert)
  with lockDraftVersion_draft [OF lock] show ?thesis by simp
qed

lemma updateStep_edit:
  assumes ok: "templates_ok d" and run: "updateStep q a t v s inp d = Inr (x, d')"
  shows "is_draft v d \<and> draft_edit v d d'"
proof -
  let ?put = "\<lambda>c. c\<lparr>cs_name := si_name inp, cs_description := si_description inp,
                cs_requirements := si_requirements inp, cs_is_stop := si_is_stop inp,
                cs_risk_weight := si_risk_weight inp, cs_required_photos := si_required_photos inp\<rparr>"
  let ?d2 = "d\<lparr>csteps := update_id cs_id s ?put (csteps d), mdefs := t_delete (\<lambda>m. md_step m = s) (mdefs d)\<rparr>"
  obtain r old ms where lock: "lockDraftVersion t v d = Inr r" and old: "step_in_version s v d = Some old"
      and d': "d' = step_changed q a v ms (insertMeasurements s (si_measurements inp) ?d2)"
    using run by (auto simp: updateStep_def flow_iffs Let_def)
  have old': "old \<in> set (rows (csteps d))" "cs_id old = s" "cs_version old = v"
    using t_first_Some [OF old [unfolded step_in_version_def]] by auto
  have other: "cs_id c \<noteq> s" if "c \<in> set (rows (csteps d))" "cs_version c \<noteq> v" for c
    using keyed_inj [OF templates_okD(1) [OF ok] that(1) old'(1)] old' that(2) by auto
  have "keyed md_id (mdefs ?d2)" using keyed_delete templates_okD(2) [OF ok] by auto
  note eff = insertMeasurements_mdefs [OF this, of s "si_measurements inp"]
  have cs: "csteps d' = update_id cs_id s ?put (csteps d)" by (simp add: d')
  have key: "keyed cs_id (csteps d')"
    unfolding cs update_id_def by (rule keyed_update [OF templates_okD(1) [OF ok]]) simp
  have "t_where (\<lambda>c. cs_version c = w) (csteps d') = map (\<lambda>c. if cs_id c = s then ?put c else c)
      (t_where (\<lambda>c. cs_version c = w) (csteps d))" for w
    unfolding cs update_id_def by (rule t_where_update_same) simp
  then have "orders v d' = orders v d" by (simp add: orders_def)
  then have "contiguous (orders v d')" using templates_okD(5) [OF ok] by simp
  moreover have "t_where (\<lambda>c. cs_version c = w) (csteps d') = t_where (\<lambda>c. cs_version c = w) (csteps d)" if "w \<noteq> v" for w
    unfolding cs update_id_def by (rule t_where_update_other) (use other that in auto)
  moreover have "mdefs_of_step (cs_id c) d' = mdefs_of_step (cs_id c) d"
    if "c \<in> set (rows (csteps d))" "cs_version c \<noteq> v" for c
  proof -
    have "mdefs_of_step (cs_id c) d' = mdefs_of_step (cs_id c) ?d2" using eff other [OF that] by (simp add: d' mdefs_of_step_def)
    also have "\<dots> = mdefs_of_step (cs_id c) d"
      unfolding mdefs_of_step_def using other [OF that] by (auto intro: t_where_delete_other)
    finally show ?thesis .
  qed
  moreover have "\<exists>c\<in>set (rows (csteps d')). cs_id c = md_step m" if "m \<in> set (rows (mdefs d'))" for m
  proof -
    have "m \<in> set (rows (mdefs d)) \<or> md_step m = s" using eff that by (auto simp: d' set_rows_delete)
    then obtain c where "c \<in> set (rows (csteps d))" "cs_id c = md_step m"
      using templates_okD(6) [OF ok] old' by auto
    then show ?thesis
      unfolding cs update_id_def set_rows_update by (intro bexI [OF _ imageI [of c]]) simp_all
  qed
  ultimately have "draft_edit v d d'"
    using eff key by (auto simp: draft_edit_def d')
  with lockDraftVersion_draft [OF lock] show ?thesis by simp
qed

lemma distinct_steps:
  assumes "keyed cs_id (csteps d)"
  shows "distinct (map cs_id (steps_of_version v d))"
proof -
  have "distinct (map cs_id (t_where (\<lambda>c. cs_version c = v) (csteps d)))"
    using assms by (simp add: keyed_def t_where_def distinct_map_filter)
  then show ?thesis unfolding steps_of_version_def by (simp add: distinct_map)
qed

lemma deleteStep_edit:
  assumes ok: "templates_ok d" and run: "deleteStep q a t v s d = Inr (x, d')"
  shows "is_draft v d \<and> draft_edit v d d'"
proof -
  let ?d1 = "d\<lparr>csteps := t_delete (\<lambda>c. cs_id c = s) (csteps d), mdefs := t_delete (\<lambda>m. md_step m = s) (mdefs d)\<rparr>"
  let ?cs = "steps_of_version v ?d1"
  obtain r old ms where lock: "lockDraftVersion t v d = Inr r" and old: "step_in_version s v d = Some old"
      and d': "d' = step_changed q a v ms (renormalize 0 ?cs ?d1)"
    using run by (auto simp: deleteStep_def flow_iffs Let_def)
  have old': "old \<in> set (rows (csteps d))" "cs_id old = s" "cs_version old = v"
    using t_first_Some [OF old [unfolded step_in_version_def]] by auto
  have other: "cs_id c \<noteq> s" if "c \<in> set (rows (csteps d))" "cs_version c \<noteq> v" for c
    using keyed_inj [OF templates_okD(1) [OF ok] that(1) old'(1)] old' that(2) by auto
  have key1: "keyed cs_id (csteps ?d1)" using keyed_delete [OF templates_okD(1) [OF ok]] by simp
  note ren = renormalized_orders [OF key1 refl]
  have ids: "cs_id ` set (rows (csteps d')) = cs_id ` set (rows (csteps ?d1))"
    and key: "keyed cs_id (csteps d')"
  proof -
    have "distinct (map cs_id ?cs)" by (rule distinct_steps [OF key1])
    moreover have "set ?cs \<subseteq> set (rows (csteps ?d1))" by (auto simp: steps_of_version_def)
    ultimately have rows': "csteps d' = (csteps ?d1)\<lparr>rows := map (reorder (zip (map cs_id ?cs)
        [Suc 0..<Suc 0 + length ?cs])) (rows (csteps ?d1))\<rparr>"
      using renormalize_csteps [OF key1] by (simp add: d' del: upt_Suc)
    show "cs_id ` set (rows (csteps d')) = cs_id ` set (rows (csteps ?d1))"
      unfolding rows' by (simp add: image_image del: upt_Suc)
    show "keyed cs_id (csteps d')"
      unfolding rows' using key1 by (simp add: keyed_def comp_def del: upt_Suc)
  qed
  have "contiguous (orders v d')" using ren(2) [of v] by (simp add: d' orders_def)
  moreover have "t_where (\<lambda>c. cs_version c = w) (csteps d') = t_where (\<lambda>c. cs_version c = w) (csteps d)" if "w \<noteq> v" for w
  proof -
    have "t_where (\<lambda>c. cs_version c = w) (csteps d') = t_where (\<lambda>c. cs_version c = w) (csteps ?d1)"
      using ren(3) [OF that] by (simp add: d')
    also have "\<dots> = t_where (\<lambda>c. cs_version c = w) (csteps d)"
      using other that by (auto intro: t_where_delete_other)
    finally show ?thesis .
  qed
  moreover have "mdefs_of_step (cs_id c) d' = mdefs_of_step (cs_id c) d"
    if "c \<in> set (rows (csteps d))" "cs_version c \<noteq> v" for c
    using other [OF that] by (auto simp: d' mdefs_of_step_def intro: t_where_delete_other)
  moreover have "\<exists>c\<in>set (rows (csteps d')). cs_id c = md_step m" if "m \<in> set (rows (mdefs d'))" for m
  proof -
    have m: "m \<in> set (rows (mdefs d))" "md_step m \<noteq> s" using that by (auto simp: d' set_rows_delete)
    then have "md_step m \<in> cs_id ` set (rows (csteps ?d1))"
      using templates_okD(6) [OF ok m(1)] m(2) by (auto simp: set_rows_delete intro!: rev_image_eqI)
    then show ?thesis unfolding ids [symmetric] by auto
  qed
  ultimately have "draft_edit v d d'"
    using key keyed_delete [OF templates_okD(2) [OF ok]] by (auto simp: draft_edit_def d')
  with lockDraftVersion_draft [OF lock] show ?thesis by simp
qed

text \<open>Exchanging the orders of two steps permutes the orders of the version.\<close>

lemma swap_orders:
  assumes "distinct (map f xs)" "a \<in> set xs" "b \<in> set xs" "f a \<noteq> f b"
    and g: "\<And>x. x \<in> set xs \<Longrightarrow> g x = (if f x = f b then h a else if f x = f a then h b else h x)"
  shows "g ` set xs = h ` set xs"
proof -
  have inj: "x = y" if "x \<in> set xs" "y \<in> set xs" "f x = f y" for x y
    using assms(1) that by (auto simp: distinct_map inj_on_def)
  have ga: "g a = h b" "g b = h a" using assms by auto
  have "g x \<in> h ` set xs" if "x \<in> set xs" for x
    using g [OF that] assms(2,3) that by auto
  moreover have "h x \<in> g ` set xs" if x: "x \<in> set xs" for x
  proof -
    consider "x = a" | "x = b" | "f x \<noteq> f a" "f x \<noteq> f b" using inj x assms(2,3) by blast
    then show ?thesis
    proof cases
      case 1 then show ?thesis using ga assms(3) by (metis image_eqI)
    next
      case 2 then show ?thesis using ga assms(2) by (metis image_eqI)
    next
      case 3 then show ?thesis using g [OF x] x by (metis image_eqI)
    qed
  qed
  ultimately show ?thesis by blast
qed

lemma mapped_steps:
  assumes "csteps d' = (csteps d)\<lparr>rows := map g (rows (csteps d))\<rparr>"
    and "\<And>c. cs_id (g c) = cs_id c" "\<And>c. cs_version (g c) = cs_version c"
  shows "t_where (\<lambda>c. cs_version c = w) (csteps d') = map g (t_where (\<lambda>c. cs_version c = w) (csteps d))"
    "keyed cs_id (csteps d') = keyed cs_id (csteps d)"
  using assms by (simp_all add: t_where_def filter_map comp_def keyed_def)

lemma moveStep_edit:
  assumes ok: "templates_ok d" and run: "moveStep q a t v s dir d = Inr (x, d')"
  shows "is_draft v d \<and> draft_edit v d d'"
proof -
  obtain r st where lock: "lockDraftVersion t v d = Inr r" and st: "step_in_version s v d = Some st"
      and rest: "(case neighbor_of dir st v d of None \<Rightarrow> Inr ((), d)
        | Some nb \<Rightarrow> Inr ((), step_changed q a v
          [(''op'', JStr ''move''), (''stepId'', jnat s), (''direction'', JStr (direction_str dir))]
          (set_order (cs_id nb) (cs_order st) (set_order (cs_id st) (cs_order nb) d)))) = (Inr (x, d') :: api_error + unit \<times> db)"
    using run unfolding moveStep_def andThen_Inr_iff need_Inr_iff by (elim exE conjE) (rule that)
  have st': "st \<in> set (rows (csteps d))" "cs_version st = v"
    using t_first_Some [OF st [unfolded step_in_version_def]] by auto
  show ?thesis
  proof (cases "neighbor_of dir st v d")
    case None
    then have "d' = d" using rest by simp
    then have "draft_edit v d d'" using templates_okD [OF ok] by (auto simp: draft_edit_def)
    with lockDraftVersion_draft [OF lock] show ?thesis by simp
  next
    case (Some nb)
    then have d': "d' = step_changed q a v
          [(''op'', JStr ''move''), (''stepId'', jnat s), (''direction'', JStr (direction_str dir))]
          (set_order (cs_id nb) (cs_order st) (set_order (cs_id st) (cs_order nb) d))"
      using rest by simp
    have nb: "nb \<in> set (rows (csteps d))" "cs_version nb = v" "cs_order nb \<noteq> cs_order st"
      using t_first_Some [OF Some [unfolded neighbor_of_def]] by (cases dir; auto)+
    then have ne: "cs_id nb \<noteq> cs_id st" using keyed_inj [OF templates_okD(1) [OF ok] nb(1) st'(1)] by auto
    let ?put = "\<lambda>c. if cs_id c = cs_id nb then c\<lparr>cs_order := cs_order st\<rparr>
      else if cs_id c = cs_id st then c\<lparr>cs_order := cs_order nb\<rparr> else c"
    have put: "cs_id (?put c) = cs_id c" "cs_version (?put c) = cs_version c" for c by simp_all
    have comp: "(if cs_id r = cs_id nb then r\<lparr>cs_order := cs_order st\<rparr> else r) = ?put c"
      if "r = (if cs_id c = cs_id st then c\<lparr>cs_order := cs_order nb\<rparr> else c)" for r c
      using ne that by (cases "cs_id c = cs_id st") auto
    have rows': "csteps d' = (csteps d)\<lparr>rows := map ?put (rows (csteps d))\<rparr>"
      unfolding d' set_order_def update_id_def t_update_def by (simp add: comp [OF refl])
    note mapped = mapped_steps [OF rows' put]
    have key: "keyed cs_id (csteps d')" using mapped(2) templates_okD(1) [OF ok] by simp
    note where' = mapped(1)
    let ?vs = "t_where (\<lambda>c. cs_version c = v) (csteps d)"
    have ord: "orders v d' = map (cs_order \<circ> ?put) ?vs"
      unfolding orders_def where' by (simp only: map_map)
    have "(cs_order \<circ> ?put) ` set ?vs = cs_order ` set ?vs"
    proof (rule swap_orders [of cs_id _ st nb])
      show "distinct (map cs_id ?vs)"
        using templates_okD(1) [OF ok] by (simp add: keyed_def t_where_def distinct_map_filter)
    qed (use st' nb ne in auto)
    then have "set (orders v d') = set (orders v d)" unfolding ord by (simp add: orders_def)
    moreover have "length (orders v d') = length (orders v d)" unfolding ord by (simp add: orders_def)
    ultimately have "contiguous (orders v d')" using contiguous_perm templates_okD(5) [OF ok] by metis
    moreover have "t_where (\<lambda>c. cs_version c = w) (csteps d') = t_where (\<lambda>c. cs_version c = w) (csteps d)" if "w \<noteq> v" for w
      unfolding where'
    proof (rule map_idI)
      fix c assume c: "c \<in> set (t_where (\<lambda>c. cs_version c = w) (csteps d))"
      have "cs_id c \<noteq> cs_id nb" "cs_id c \<noteq> cs_id st"
        using keyed_inj [OF templates_okD(1) [OF ok], of c] c nb st' that by auto
      then show "?put c = c" by simp
    qed
    moreover have "\<exists>c\<in>set (rows (csteps d')). cs_id c = md_step m" if "m \<in> set (rows (mdefs d'))" for m
    proof -
      have "m \<in> set (rows (mdefs d))" using that by (simp add: d')
      then obtain c where "c \<in> set (rows (csteps d))" "cs_id c = md_step m"
        using templates_okD(6) [OF ok] by blast
      then show ?thesis by (intro bexI [of _ "?put c"]) (auto simp: rows')
    qed
    ultimately have "draft_edit v d d'"
      using key templates_okD(2) [OF ok] by (auto simp: draft_edit_def d' mdefs_of_step_def)
    with lockDraftVersion_draft [OF lock] show ?thesis by simp
  qed
qed

subsubsection \<open>Creation, publication, archiving, deletion\<close>

lemma frozen_if:
  assumes "versions d' = versions d \<or> set (rows (versions d)) \<subseteq> set (rows (versions d'))"
    and "\<And>v. v \<in> set (rows (versions d)) \<Longrightarrow> loadStepsWithMeasurements (tv_id v) d' = loadStepsWithMeasurements (tv_id v) d"
  shows "published_frozen d d'"
  unfolding published_frozen_def
proof (intro ballI impI conjI)
  fix v assume v: "v \<in> set (rows (versions d))"
  show "\<exists>v'\<in>set (rows (versions d')). v' = v\<lparr>tv_status := tv_status v'\<rparr> \<and>
        (tv_status v' = tv_status v \<or> tv_status v' = V_ARCHIVED)"
    using assms(1) v by (intro bexI [of _ v]) auto
qed (rule assms(2))

lemma new_version_fields [simp]:
  "tv_template (new_version t n c i) = t" "tv_status (new_version t n c i) = V_DRAFT"
  "tv_version (new_version t n c i) = n" "tv_id (new_version t n c i) = i"
  by (simp_all add: new_version_def)

lemma createTemplate_effect:
  assumes ok: "templates_ok d" and run: "createTemplate lower q a name descr d = Inr (x, d')"
  shows "templates_ok d' \<and> published_frozen d d'"
proof -
  let ?mk = "\<lambda>i. \<lparr>tp_id = i, tp_name = name, tp_description = descr, tp_created_by = au_id a\<rparr>"
  have d': "templates d' = t_insert ?mk (templates d)"
    "versions d' = t_insert (new_version (next_id (templates d)) 1 (au_id a)) (versions d)"
    "csteps d' = csteps d" "mdefs d' = mdefs d"
    using run by (auto simp: createTemplate_def Let_def)
  have fresh: "tv_template v \<noteq> next_id (templates d)" if "v \<in> set (rows (versions d))" for v
    using ok that by (auto simp: templates_ok_def template_refs_def)
  have ord: "orders w d' = orders w d" for w by (simp add: orders_def d')
  have keys: "template_keys d'"
    using ok by (simp add: templates_ok_def template_keys_def d' keyed_insert)
  have one: "one_of_status st d \<Longrightarrow> one_of_status st d'" for st
    using fresh fresh [symmetric] by (auto simp: one_of_status_def d' set_rows_insert)
  have num: "version_numbers d'"
    using ok fresh fresh [symmetric] by (auto simp: templates_ok_def version_numbers_def d' set_rows_insert)
  have refs: "template_refs d'"
    using ok by (auto simp: templates_ok_def template_refs_def d' set_rows_insert less_Suc_eq)
  have "orders_ok d'"
    using ok by (auto simp: templates_ok_def orders_ok_def ord d' set_rows_insert)
  moreover have "loadStepsWithMeasurements w d' = loadStepsWithMeasurements w d" for w
    by (rule load_same) (simp_all add: d' mdefs_of_step_def)
  ultimately show ?thesis
    using ok keys one num refs
    by (auto simp: templates_ok_def d' set_rows_insert intro!: frozen_if)
qed

lemma latest_version_max:
  assumes "latest_version t d = Some v"
  shows "v \<in> set (rows (versions d))" "tv_template v = t"
    "u \<in> set (rows (versions d)) \<Longrightarrow> tv_template u = t \<Longrightarrow> tv_version u \<le> tv_version v"
proof -
  let ?vs = "versions_of_template t d"
  obtain us where "rev ?vs = v # us" using assms by (auto simp: latest_version_def split: list.splits)
  then have vs: "?vs = rev us @ [v]" by (metis rev.simps(2) rev_rev_ident)
  have mem: "set ?vs = {u \<in> set (rows (versions d)). tv_template u = t}" by (simp add: versions_of_template_def)
  then show "v \<in> set (rows (versions d))" "tv_template v = t" using vs by auto
  have "sorted (map tv_version ?vs)" by (simp add: versions_of_template_def)
  then show "tv_version u \<le> tv_version v" if "u \<in> set (rows (versions d))" "tv_template u = t" for u
    using that mem unfolding vs by (auto simp: sorted_append)
qed

lemma latest_version_None: "latest_version t d = None \<Longrightarrow> u \<in> set (rows (versions d)) \<Longrightarrow> tv_template u \<noteq> t"
proof
  assume "latest_version t d = None" "u \<in> set (rows (versions d))" "tv_template u = t"
  moreover have "set (versions_of_template t d) = {u \<in> set (rows (versions d)). tv_template u = t}"
    by (simp add: versions_of_template_def)
  ultimately show False by (auto simp: latest_version_def split: list.splits)
qed

lemma createVersion_effect:
  assumes ok: "templates_ok d" and run: "createVersion q a t d = Inr (x, d')"
  shows "templates_ok d' \<and> published_frozen d d'"
proof -
  let ?latest = "latest_version t d" and ?w = "next_id (versions d)"
  let ?n = "(case ?latest of None \<Rightarrow> 0 | Some v \<Rightarrow> tv_version v) + 1"
  let ?d1 = "d\<lparr>versions := t_insert (new_version t ?n (au_id a)) (versions d)\<rparr>"
  let ?cs = "case ?latest of None \<Rightarrow> [] | Some v \<Rightarrow> steps_of_version (tv_id v) ?d1"
  let ?d2 = "fold (copy_step ?w) ?cs ?d1"
  obtain tp where tp: "by_id tp_id t (templates d) = Some tp"
    and nodraft: "t_first (\<lambda>v. tv_template v = t \<and> tv_status v = V_DRAFT) (versions d) = None"
    and d': "versions d' = versions ?d2" "templates d' = templates d" "csteps d' = csteps ?d2" "mdefs d' = mdefs ?d2"
    using run by (auto simp: createVersion_def flow_iffs Let_def split: option.splits)
  note keys = templates_okD [OF ok]
  have k1: "keyed md_id (mdefs ?d1)" "keyed cs_id (csteps ?d1)" using keys by simp_all
  note eff = copy_steps_effect [OF k1 refl, of ?w ?cs]
  have vs: "versions d' = t_insert (new_version t ?n (au_id a)) (versions d)" by (simp add: d')
  have fresh: "tv_id v \<noteq> ?w" if "v \<in> set (rows (versions d))" for v
    using keyed_fresh [OF keys(3) that] .
  have nostep: "cs_version c \<noteq> ?w" if "c \<in> set (rows (csteps d))" for c
    using ok that fresh by (auto simp: templates_ok_def template_refs_def)
  have where': "t_where (\<lambda>c. cs_version c = w) (csteps d') = t_where (\<lambda>c. cs_version c = w) (csteps d)" if "w \<noteq> ?w" for w
    using eff that unfolding d'(3) by auto
  have mdef': "mdefs_of_step (cs_id c) d' = mdefs_of_step (cs_id c) d" if "c \<in> set (rows (csteps d))" for c
  proof -
    have "cs_id c < next_id (csteps ?d1)" using keys(1) that by (auto simp: keyed_def)
    then have "mdefs_of_step (cs_id c) ?d2 = mdefs_of_step (cs_id c) ?d1" using eff by blast
    then show ?thesis by (simp add: mdefs_of_step_def d')
  qed
  have ord: "orders w d' = orders w d" if "w \<noteq> ?w" for w using orders_other [OF where' [OF that]] .
  have "t_where (\<lambda>c. cs_version c = ?w) (csteps d) = []"
    using nostep by (simp add: t_where_def filter_empty_conv)
  then have "orders ?w ?d1 = []" by (simp add: orders_def)
  then have ordw: "orders ?w d' = map cs_order ?cs" using eff by (simp add: orders_def d'(3))
  have contig: "contiguous (orders ?w d')"
  proof (cases ?latest)
    case None
    then show ?thesis by (simp add: ordw)
  next
    case (Some v)
    have "set (map cs_order (steps_of_version (tv_id v) ?d1)) = set (orders (tv_id v) d)"
      "length (map cs_order (steps_of_version (tv_id v) ?d1)) = length (orders (tv_id v) d)"
      by (simp_all add: steps_of_version_def orders_def)
    then show ?thesis unfolding ordw using Some contiguous_perm keys(5) by auto
  qed
  have key': "keyed md_id (mdefs d')" "keyed cs_id (csteps d')" using eff unfolding d'(3,4) by blast+
  then have "template_keys d'"
    using keys by (simp add: template_keys_def d'(2) vs keyed_insert)
  moreover have "one_of_status V_DRAFT d'"
    using ok nodraft by (auto simp: templates_ok_def one_of_status_def vs set_rows_insert t_first_None)
  moreover have "one_of_status V_PUBLISHED d'"
    using ok by (auto simp: templates_ok_def one_of_status_def vs set_rows_insert)
  moreover have ne: "tv_version v \<noteq> ?n" if "v \<in> set (rows (versions d))" "tv_template v = t" for v
    using latest_version_max(3) [of t d _ v] latest_version_None [of t d v] that
    by (cases ?latest) fastforce+
  then have "version_numbers d'"
    using ok ne ne [symmetric] unfolding templates_ok_def version_numbers_def vs set_rows_insert
    by (metis insert_iff new_version_fields(1,3))
  moreover have "template_refs d'"
    unfolding template_refs_def
  proof (intro conjI ballI)
    show "tv_template v < next_id (templates d')" if "v \<in> set (rows (versions d'))" for v
      using ok that tp keys(4) by (auto simp: templates_ok_def template_refs_def vs set_rows_insert d'(2) keyed_def dest!: by_id_Some)
    show "\<exists>v\<in>set (rows (versions d')). tv_id v = cs_version c" if "c \<in> set (rows (csteps d'))" for c
    proof -
      have "c \<in> set (rows (csteps d)) \<or> cs_version c = ?w" using eff that by (auto simp: d'(3))
      then show ?thesis using ok by (auto simp: templates_ok_def template_refs_def vs set_rows_insert)
    qed
    show "\<exists>c\<in>set (rows (csteps d')). cs_id c = md_step m" if "m \<in> set (rows (mdefs d'))" for m
    proof -
      have "m \<in> set (rows (mdefs d)) \<or> (\<exists>c\<in>set (rows (csteps d')). cs_id c = md_step m)"
        using eff that by (auto simp: d')
      moreover have "set (rows (csteps d)) \<subseteq> set (rows (csteps d'))" using eff by (simp add: d'(3))
      ultimately show ?thesis using keys(6) by blast
    qed
  qed
  moreover have "orders_ok d'"
    unfolding orders_ok_def
  proof (intro conjI allI ballI impI)
    show "contiguous (orders w d')" for w using contig ord keys(5) by (cases "w = ?w") auto
    show "orders (tv_id v) d' \<noteq> []" if "v \<in> set (rows (versions d'))" "tv_status v \<noteq> V_DRAFT" for v
      using that ok ord fresh by (auto simp: vs set_rows_insert templates_ok_def orders_ok_def)
  qed
  ultimately have "templates_ok d'" by (simp add: templates_ok_def)
  moreover have "published_frozen d d'"
  proof (rule frozen_if)
    show "loadStepsWithMeasurements (tv_id v) d' = loadStepsWithMeasurements (tv_id v) d" if "v \<in> set (rows (versions d))" for v
      using where' [OF fresh [OF that]] mdef' by (intro load_same) auto
  qed (simp add: vs set_rows_insert subset_insertI)
  ultimately show ?thesis by simp
qed

text \<open>A change of version rows only, by a function that keeps all but the status and its time.\<close>

lemma version_change_ok:
  assumes ok: "templates_ok d" and rest: "templates d' = templates d" "csteps d' = csteps d" "mdefs d' = mdefs d"
    and vs: "versions d' = (versions d)\<lparr>rows := map g (rows (versions d))\<rparr>"
    and g: "\<And>v. tv_id (g v) = tv_id v \<and> tv_template (g v) = tv_template v \<and> tv_version (g v) = tv_version v"
    and draft: "\<And>v. v \<in> set (rows (versions d)) \<Longrightarrow> tv_status (g v) = V_DRAFT \<Longrightarrow> tv_status v = V_DRAFT"
    and pub: "\<And>v w. v \<in> set (rows (versions d)) \<Longrightarrow> w \<in> set (rows (versions d)) \<Longrightarrow> tv_template v = tv_template w \<Longrightarrow>
       tv_status (g v) = V_PUBLISHED \<Longrightarrow> tv_status (g w) = V_PUBLISHED \<Longrightarrow> v = w"
    and filled: "\<And>v. v \<in> set (rows (versions d)) \<Longrightarrow> tv_status (g v) \<noteq> V_DRAFT \<Longrightarrow> orders (tv_id v) d \<noteq> []"
    and kept: "\<And>v. v \<in> set (rows (versions d)) \<Longrightarrow> tv_status v \<noteq> V_DRAFT \<Longrightarrow>
       g v = v\<lparr>tv_status := tv_status (g v)\<rparr> \<and> (tv_status (g v) = tv_status v \<or> tv_status (g v) = V_ARCHIVED)"
  shows "templates_ok d' \<and> published_frozen d d'"
proof
  have ord: "orders w d' = orders w d" for w by (simp add: orders_def rest)
  have gs: "tv_id (g v) = tv_id v" "tv_template (g v) = tv_template v" "tv_version (g v) = tv_version v" for v
    using g by simp_all
  have keys: "template_keys d'"
    using ok by (simp add: templates_ok_def template_keys_def rest vs keyed_def comp_def gs)
  have "one_of_status V_DRAFT d'"
    using ok draft unfolding templates_ok_def one_of_status_def vs by (auto simp: gs)
  moreover have "one_of_status V_PUBLISHED d'"
    using pub unfolding one_of_status_def vs by (auto simp: gs)
  moreover have "version_numbers d'"
    using ok unfolding templates_ok_def version_numbers_def vs by (auto simp: gs)
  moreover have "template_refs d'"
    using ok unfolding templates_ok_def template_refs_def by (auto simp: vs gs rest)
  moreover have "orders_ok d'"
    using ok filled unfolding templates_ok_def orders_ok_def by (auto simp: vs gs ord)
  ultimately show "templates_ok d'" using keys by (simp add: templates_ok_def)
  show "published_frozen d d'"
    unfolding published_frozen_def
  proof (intro ballI impI conjI)
    fix v assume v: "v \<in> set (rows (versions d))" "tv_status v \<noteq> V_DRAFT"
    show "\<exists>v'\<in>set (rows (versions d')). v' = v\<lparr>tv_status := tv_status v'\<rparr> \<and>
        (tv_status v' = tv_status v \<or> tv_status v' = V_ARCHIVED)"
      using kept [OF v] v(1) by (intro bexI [of _ "g v"]) (auto simp: vs)
    show "loadStepsWithMeasurements (tv_id v) d' = loadStepsWithMeasurements (tv_id v) d"
      by (rule load_same) (simp_all add: rest mdefs_of_step_def)
  qed
qed

lemma update_id_map: "update_id key i f t = t\<lparr>rows := map (\<lambda>r. if key r = i then f r else r) (rows t)\<rparr>"
  by (simp add: update_id_def t_update_def)

lemma archiveVersion_effect:
  assumes ok: "templates_ok d" and run: "archiveVersion q a t i d = Inr (x, d')"
  shows "templates_ok d' \<and> published_frozen d d'"
proof -
  obtain v where "t_first (\<lambda>v. tv_id v = i \<and> tv_template v = t) (versions d) = Some v"
    and st: "tv_status v = V_PUBLISHED"
    and d': "versions d' = update_id tv_id i (\<lambda>v. v\<lparr>tv_status := V_ARCHIVED\<rparr>) (versions d)"
      "templates d' = templates d" "csteps d' = csteps d" "mdefs d' = mdefs d"
    using run by (auto simp: archiveVersion_def flow_iffs set_version_status_def)
  then have v: "v \<in> set (rows (versions d))" "tv_id v = i" by (auto dest: t_first_Some)
  have self: "w = v" if "w \<in> set (rows (versions d))" "tv_id w = i" for w
    using keyed_inj [OF templates_okD(3) [OF ok] that(1) v(1)] that v by simp
  have one: "w = u" if "w \<in> set (rows (versions d))" "u \<in> set (rows (versions d))" "tv_template w = tv_template u"
    "tv_status w = V_PUBLISHED" "tv_status u = V_PUBLISHED" for w u
    using ok that unfolding templates_ok_def one_of_status_def by blast
  have filled: "orders (tv_id w) d \<noteq> []" if "w \<in> set (rows (versions d))" "tv_status w \<noteq> V_DRAFT" for w
    using ok that unfolding templates_ok_def orders_ok_def by blast
  show ?thesis
  proof (rule version_change_ok [OF ok d'(2,3,4) d'(1) [unfolded update_id_map]], goal_cases)
    case (3 w u) then show ?case using one [of w u] by (auto split: if_splits)
  next
    case (4 w)
    then have "tv_status w \<noteq> V_DRAFT" using self [of w] st by (auto split: if_splits)
    then show ?case using filled 4(1) by blast
  qed (auto split: if_splits)
qed

lemma publishVersion_effect:
  assumes ok: "templates_ok d" and run: "publishVersion q a t i d = Inr (x, d')"
  shows "templates_ok d' \<and> published_frozen d d'"
proof -
  let ?prev = "t_first (\<lambda>v. tv_template v = t \<and> tv_status v = V_PUBLISHED) (versions d)"
  let ?now = "Some (rq_now q)"
  let ?g = "\<lambda>v. if tv_id v = i then v\<lparr>tv_status := V_PUBLISHED, tv_published_at := ?now\<rparr>
    else if tv_template v = t \<and> tv_status v = V_PUBLISHED then v\<lparr>tv_status := V_ARCHIVED\<rparr> else v"
  obtain v where first: "t_first (\<lambda>v. tv_id v = i \<and> tv_template v = t) (versions d) = Some v"
    and st: "tv_status v = V_DRAFT" and n: "t_count (\<lambda>c. cs_version c = i) (csteps d) \<noteq> 0"
    and vs: "versions d' = update_id tv_id i (\<lambda>v. v\<lparr>tv_status := V_PUBLISHED, tv_published_at := ?now\<rparr>)
        (case ?prev of None \<Rightarrow> versions d
         | Some p \<Rightarrow> update_id tv_id (tv_id p) (\<lambda>v. v\<lparr>tv_status := V_ARCHIVED\<rparr>) (versions d))"
    and rest: "templates d' = templates d" "csteps d' = csteps d" "mdefs d' = mdefs d"
    using run by (auto simp: publishVersion_def flow_iffs Let_def set_version_status_def split: option.splits)
  from first have v: "v \<in> set (rows (versions d))" "tv_id v = i" "tv_template v = t" by (auto dest: t_first_Some)
  have self: "w = v" if "w \<in> set (rows (versions d))" "tv_id w = i" for w
    using keyed_inj [OF templates_okD(3) [OF ok] that(1) v(1)] that v by simp
  have one: "w = u" if "w \<in> set (rows (versions d))" "u \<in> set (rows (versions d))" "tv_template w = tv_template u"
    "tv_status w = V_PUBLISHED" "tv_status u = V_PUBLISHED" for w u
    using ok that unfolding templates_ok_def one_of_status_def by blast
  have filled: "orders (tv_id w) d \<noteq> []" if "w \<in> set (rows (versions d))" "tv_status w \<noteq> V_DRAFT" for w
    using ok that unfolding templates_ok_def orders_ok_def by blast
  have filled_i: "orders i d \<noteq> []" using n by (simp add: orders_def t_count_length)
  have "versions d' = (versions d)\<lparr>rows := map ?g (rows (versions d))\<rparr>"
  proof (cases ?prev)
    case None
    then have "\<not> (tv_template w = t \<and> tv_status w = V_PUBLISHED)" if "w \<in> set (rows (versions d))" for w
      using that by (simp add: t_first_None)
    then have "map (\<lambda>v. if tv_id v = i then v\<lparr>tv_status := V_PUBLISHED, tv_published_at := ?now\<rparr> else v)
        (rows (versions d)) = map ?g (rows (versions d))" by (intro map_cong) auto
    then show ?thesis using None by (simp add: vs update_id_map)
  next
    case (Some p)
    then have p: "p \<in> set (rows (versions d))" "tv_template p = t" "tv_status p = V_PUBLISHED"
      by (auto dest: t_first_Some)
    have ne: "tv_id p \<noteq> i" using self p st by auto
    have "(tv_id w = tv_id p) = (tv_template w = t \<and> tv_status w = V_PUBLISHED)" if w: "w \<in> set (rows (versions d))" for w
      using keyed_inj [OF templates_okD(3) [OF ok] w p(1)] one [OF w p(1)] p by auto
    then have "map ((\<lambda>v. if tv_id v = i then v\<lparr>tv_status := V_PUBLISHED, tv_published_at := ?now\<rparr> else v) \<circ>
        (\<lambda>v. if tv_id v = tv_id p then v\<lparr>tv_status := V_ARCHIVED\<rparr> else v)) (rows (versions d)) = map ?g (rows (versions d))"
      using ne by (intro map_cong) auto
    then show ?thesis using Some by (simp add: vs update_id_map)
  qed
  then show ?thesis
  proof (rule version_change_ok [OF ok rest], goal_cases)
    case (3 w u)
    have "tv_id y = i \<or> tv_template y \<noteq> t \<and> tv_status y = V_PUBLISHED" if "tv_status (?g y) = V_PUBLISHED" for y
      using that by (auto split: if_splits)
    from this [OF 3(4)] this [OF 3(5)] show ?case
      using self [OF 3(1)] self [OF 3(2)] v(3) one [OF 3(1,2,3)] 3(3) by auto
  next
    case (4 w) then show ?case using filled filled_i by (auto split: if_splits)
  next
    case (5 w) then show ?case using self [of w] st by (auto split: if_splits)
  qed (auto split: if_splits)
qed

lemma deleteTemplate_effect:
  assumes ok: "templates_ok d" and run: "deleteTemplate q a t d = Inr (x, d')"
  shows "templates_ok d' \<and> published_frozen d d'"
proof -
  let ?V = "{v \<in> set (rows (versions d)). tv_template v = t}"
  let ?S = "{c \<in> set (rows (csteps d)). cs_version c \<in> tv_id ` ?V}"
  obtain tp where draft: "\<forall>v\<in>?V. tv_status v = V_DRAFT"
    and d': "csteps d' = t_delete (\<lambda>c. cs_id c \<in> cs_id ` ?S) (csteps d)"
      "mdefs d' = t_delete (\<lambda>m. md_step m \<in> cs_id ` ?S) (mdefs d)"
      "versions d' = t_delete (\<lambda>v. tv_id v \<in> tv_id ` ?V) (versions d)"
      "templates d' = t_delete (\<lambda>r. tp_id r = t) (templates d)"
    using run by (auto simp: deleteTemplate_def flow_iffs Let_def image_iff)
  note keys = templates_okD [OF ok]
  have vin: "tv_id v \<in> tv_id ` ?V \<longleftrightarrow> tv_template v = t" if "v \<in> set (rows (versions d))" for v
    using keyed_inj [OF keys(3) that] that by auto
  have cin: "cs_id c \<in> cs_id ` ?S \<longleftrightarrow> cs_version c \<in> tv_id ` ?V" if "c \<in> set (rows (csteps d))" for c
    using keyed_inj [OF keys(1) that] that by auto
  have rvs: "set (rows (versions d')) = {v \<in> set (rows (versions d)). tv_template v \<noteq> t}"
    using vin by (auto simp: d' set_rows_delete)
  have rcs: "set (rows (csteps d')) = {c \<in> set (rows (csteps d)). cs_version c \<notin> tv_id ` ?V}"
    using cin by (auto simp: d' set_rows_delete)
  have keep: "t_where (\<lambda>c. cs_version c = w) (csteps d') = t_where (\<lambda>c. cs_version c = w) (csteps d)" if "w \<notin> tv_id ` ?V" for w
    unfolding d' by (rule t_where_delete_other) (use cin that in auto)
  have gone: "orders w d' = []" if "w \<in> tv_id ` ?V" for w
    using rcs that by (auto simp: orders_def t_where_def filter_empty_conv)
  have out: "tv_id v \<notin> tv_id ` ?V" if "v \<in> set (rows (versions d))" "tv_template v \<noteq> t" for v
    using vin that by auto
  have "template_keys d'" using keys by (simp add: template_keys_def d' keyed_delete)
  moreover have "one_of_status st d \<Longrightarrow> one_of_status st d'" for st
    by (auto simp: one_of_status_def rvs)
  moreover have "version_numbers d'" using ok by (auto simp: templates_ok_def version_numbers_def rvs)
  moreover have "template_refs d'"
    unfolding template_refs_def
  proof (intro conjI ballI)
    show "tv_template v < next_id (templates d')" if "v \<in> set (rows (versions d'))" for v
      using ok that by (auto simp: templates_ok_def template_refs_def rvs d'(4))
    show "\<exists>v\<in>set (rows (versions d')). tv_id v = cs_version c" if "c \<in> set (rows (csteps d'))" for c
    proof -
      have c: "c \<in> set (rows (csteps d))" "cs_version c \<notin> tv_id ` ?V" using that unfolding rcs by blast+
      obtain v where v: "v \<in> set (rows (versions d))" "tv_id v = cs_version c"
        using ok c(1) unfolding templates_ok_def template_refs_def by metis
      then have "v \<in> set (rows (versions d'))" using c(2) vin [OF v(1)] by (simp add: rvs)
      with v(2) show ?thesis by blast
    qed
    show "\<exists>c\<in>set (rows (csteps d')). cs_id c = md_step m" if m: "m \<in> set (rows (mdefs d'))" for m
    proof -
      have "m \<in> set (rows (mdefs d))" "md_step m \<notin> cs_id ` ?S" using m by (auto simp: d' set_rows_delete)
      then obtain c where c: "c \<in> set (rows (csteps d))" "cs_id c = md_step m" using keys(6) by blast
      have "cs_version c \<notin> tv_id ` ?V"
        using \<open>md_step m \<notin> cs_id ` ?S\<close> unfolding c(2) [symmetric] cin [OF c(1)] .
      then have "c \<in> set (rows (csteps d'))" using c(1) unfolding rcs by simp
      with c(2) show ?thesis by blast
    qed
  qed
  moreover have "orders_ok d'"
    unfolding orders_ok_def
  proof (intro conjI allI ballI impI)
    show "contiguous (orders w d')" for w
      using gone orders_other [OF keep] keys(5) by (cases "w \<in> tv_id ` ?V") auto
    show "orders (tv_id v) d' \<noteq> []" if "v \<in> set (rows (versions d'))" "tv_status v \<noteq> V_DRAFT" for v
      using that out orders_other [OF keep] ok by (auto simp: rvs templates_ok_def orders_ok_def)
  qed
  ultimately have ok': "templates_ok d'" using ok by (simp add: templates_ok_def)
  have "published_frozen d d'"
    unfolding published_frozen_def
  proof (intro ballI impI conjI)
    fix v assume v: "v \<in> set (rows (versions d))" "tv_status v \<noteq> V_DRAFT"
    then have nt: "tv_template v \<noteq> t" using draft by auto
    then show "\<exists>v'\<in>set (rows (versions d')). v' = v\<lparr>tv_status := tv_status v'\<rparr> \<and>
        (tv_status v' = tv_status v \<or> tv_status v' = V_ARCHIVED)"
      using v(1) by (intro bexI [of _ v]) (auto simp: rvs)
    have o: "tv_id v \<notin> tv_id ` ?V" using out v(1) nt by simp
    show "loadStepsWithMeasurements (tv_id v) d' = loadStepsWithMeasurements (tv_id v) d"
    proof (rule load_same [OF keep [OF o]])
      fix c assume c: "c \<in> set (rows (csteps d))" "cs_version c = tv_id v"
      then have "cs_id c \<notin> cs_id ` ?S" using cin o by auto
      then show "mdefs_of_step (cs_id c) d' = mdefs_of_step (cs_id c) d"
        unfolding mdefs_of_step_def d' by (intro t_where_delete_other) auto
    qed
  qed
  with ok' show ?thesis by simp
qed

subsection \<open>Runs\<close>

text \<open>
  One request of the template editor that commits. Every route of
  src/modules/checklist/templates.routes.ts that changes something demands \<open>templates.manage\<close>.
\<close>

inductive template_step :: "(string \<Rightarrow> string) \<Rightarrow> db \<Rightarrow> db \<Rightarrow> bool" for lower where
  ts_create: "can (au_role a) Templates_manage \<Longrightarrow> createTemplateSchema name descr \<Longrightarrow>
    createTemplate lower q a name descr d = Inr (x, d') \<Longrightarrow> template_step lower d d'"
| ts_version: "can (au_role a) Templates_manage \<Longrightarrow>
    createVersion q a t d = Inr (y, d') \<Longrightarrow> template_step lower d d'"
| ts_add: "can (au_role a) Templates_manage \<Longrightarrow> stepSchema inp \<Longrightarrow>
    addStep q a t v inp d = Inr (y, d') \<Longrightarrow> template_step lower d d'"
| ts_update: "can (au_role a) Templates_manage \<Longrightarrow> stepSchema inp \<Longrightarrow>
    updateStep q a t v s inp d = Inr (y, d') \<Longrightarrow> template_step lower d d'"
| ts_delete: "can (au_role a) Templates_manage \<Longrightarrow>
    deleteStep q a t v s d = Inr (y, d') \<Longrightarrow> template_step lower d d'"
| ts_move: "can (au_role a) Templates_manage \<Longrightarrow>
    moveStep q a t v s dir d = Inr (y, d') \<Longrightarrow> template_step lower d d'"
| ts_publish: "can (au_role a) Templates_manage \<Longrightarrow>
    publishVersion q a t v d = Inr (y, d') \<Longrightarrow> template_step lower d d'"
| ts_archive: "can (au_role a) Templates_manage \<Longrightarrow>
    archiveVersion q a t v d = Inr (y, d') \<Longrightarrow> template_step lower d d'"
| ts_remove: "can (au_role a) Templates_manage \<Longrightarrow>
    deleteTemplate q a t d = Inr (z, d') \<Longrightarrow> template_step lower d d'"

inductive_cases template_stepE: "template_step lower d d'"

definition no_templates :: "db \<Rightarrow> bool" where
  "no_templates d \<longleftrightarrow> templates d = empty_tbl \<and> versions d = empty_tbl \<and> csteps d = empty_tbl \<and> mdefs d = empty_tbl"

lemma template_step_ok:
  assumes "templates_ok d" "template_step lower d d'"
  shows "templates_ok d' \<and> published_frozen d d'"
  using assms(2)
proof (cases rule: template_step.cases)
  case ts_create then show ?thesis by (metis assms(1) createTemplate_effect)
next
  case ts_version then show ?thesis by (metis assms(1) createVersion_effect)
next
  case ts_add then show ?thesis by (metis assms(1) addStep_edit draft_edit_ok draft_edit_frozen)
next
  case ts_update then show ?thesis by (metis assms(1) updateStep_edit draft_edit_ok draft_edit_frozen)
next
  case ts_delete then show ?thesis by (metis assms(1) deleteStep_edit draft_edit_ok draft_edit_frozen)
next
  case ts_move then show ?thesis by (metis assms(1) moveStep_edit draft_edit_ok draft_edit_frozen)
next
  case ts_publish then show ?thesis by (metis assms(1) publishVersion_effect)
next
  case ts_archive then show ?thesis by (metis assms(1) archiveVersion_effect)
next
  case ts_remove then show ?thesis by (metis assms(1) deleteTemplate_effect)
qed

lemma no_templates_ok: "no_templates d \<Longrightarrow> templates_ok d"
  by (simp add: no_templates_def templates_ok_def template_keys_def keyed_def one_of_status_def
      version_numbers_def template_refs_def orders_ok_def orders_def empty_tbl_def t_where_def)

interpretation template_life: progress_order no_templates "template_step lower" templates_ok published_frozen
  for lower :: "string \<Rightarrow> string"
  by unfold_locales
    (auto intro: no_templates_ok published_frozen_refl published_frozen_trans dest: template_step_ok)

text \<open>C19: Published versions are immutable. Over any sequence of requests of the template
  editor, starting from empty tables, a version that has left DRAFT keeps its row (its status
  may only become ARCHIVED) and exactly its steps, their order and their measurement
  definitions.\<close>

theorem published_version_immutable:
  assumes start: "no_templates d0" and past: "(template_step lower)\<^sup>*\<^sup>* d0 d"
    and run: "(template_step lower)\<^sup>*\<^sup>* d d'"
    and v: "v \<in> set (rows (versions d))" "tv_status v \<noteq> V_DRAFT"
  shows "loadStepsWithMeasurements (tv_id v) d' = loadStepsWithMeasurements (tv_id v) d \<and>
    (\<exists>v'\<in>set (rows (versions d')). v' = v\<lparr>tv_status := tv_status v'\<rparr> \<and>
       (tv_status v' = tv_status v \<or> tv_status v' = V_ARCHIVED))"
proof -
  have "templates_ok d" by (rule template_life.inv_reachable [OF start past])
  then have "published_frozen d d'" using template_life.steps_le [OF run] by blast
  then show ?thesis using v unfolding published_frozen_def by blast
qed

text \<open>A run to apply the theorem at: a template is created, gets a step, is published.\<close>

definition template_admin :: auth_user where
  "template_admin = \<lparr>au_id = 1, au_role = ADMIN, au_branch = None, au_status = U_ACTIVE, au_must_change = False\<rparr>"

definition at_time :: "nat \<Rightarrow> req" where
  "at_time t = \<lparr>rq_now = t, rq_ip = None, rq_agent = None\<rparr>"

definition tank_step :: step_input where
  "tank_step = \<lparr>si_name = ''Tank'', si_description = None, si_requirements = None, si_is_stop = True,
     si_risk_weight = 5, si_required_photos = 2, si_measurements = [\<lparr>mi_name = ''Pressure'', mi_unit = ''bar'',
     mi_min = Some 1, mi_max = Some (5/2), mi_expected = None, mi_required = True\<rparr>]\<rparr>"

definition template_created :: db where
  "template_created = committed (createTemplate id (at_time 1) template_admin ''GBO 4'' None) empty_db"

definition template_filled :: db where
  "template_filled = committed (addStep (at_time 2) template_admin 1 1 tank_step) template_created"

definition template_published :: db where
  "template_published = committed (publishVersion (at_time 3) template_admin 1 1) template_filled"

definition template_redrafted :: db where
  "template_redrafted = committed (createVersion (at_time 4) template_admin 1) template_published"

lemma tank_step_valid: "stepSchema tank_step" "createTemplateSchema ''GBO 4'' None"
  "can (au_role template_admin) Templates_manage"
  by code_simp+

lemma template_runs:
  "(template_step id)\<^sup>*\<^sup>* empty_db template_published"
  "(template_step id)\<^sup>*\<^sup>* template_published template_redrafted"
proof -
  have run: "\<exists>x. createTemplate id (at_time 1) template_admin ''GBO 4'' None empty_db = Inr (x, template_created)"
    "\<exists>x. addStep (at_time 2) template_admin 1 1 tank_step template_created = Inr (x, template_filled)"
    "\<exists>x. publishVersion (at_time 3) template_admin 1 1 template_filled = Inr (x, template_published)"
    "\<exists>x. createVersion (at_time 4) template_admin 1 template_published = Inr (x, template_redrafted)"
    unfolding template_created_def template_filled_def template_published_def template_redrafted_def
    by (rule committed_Inr, code_simp)+
  have "template_step id empty_db template_created" using run(1) tank_step_valid by (blast intro: ts_create)
  moreover have "template_step id template_created template_filled" using run(2) tank_step_valid by (blast intro: ts_add)
  moreover have "template_step id template_filled template_published" using run(3) tank_step_valid by (blast intro: ts_publish)
  ultimately show "(template_step id)\<^sup>*\<^sup>* empty_db template_published" by simp
  show "(template_step id)\<^sup>*\<^sup>* template_published template_redrafted"
    using run(4) tank_step_valid by (blast intro: ts_version)
qed

theorem published_version_immutable_witness:
  "loadStepsWithMeasurements 1 template_redrafted = loadStepsWithMeasurements 1 template_published \<and>
   length (loadStepsWithMeasurements 1 template_published) = 1 \<and>
   length (rows (versions template_redrafted)) = 2"
proof -
  have "no_templates empty_db" by (simp add: no_templates_def empty_db_def)
  note imm = published_version_immutable [OF this template_runs]
  have v: "\<exists>v\<in>set (rows (versions template_published)). tv_id v = 1 \<and> tv_status v \<noteq> V_DRAFT" by code_simp
  then have "loadStepsWithMeasurements 1 template_redrafted = loadStepsWithMeasurements 1 template_published"
    using imm by metis
  moreover have "length (loadStepsWithMeasurements 1 template_published) = 1"
    "length (rows (versions template_redrafted)) = 2" by code_simp+
  ultimately show ?thesis by blast
qed

text \<open>C20: In every state the template editor can reach, the steps of each version are numbered
  1 to N without gap or repetition, a template has at most one DRAFT and at most one PUBLISHED
  version, and no version outside DRAFT is empty.\<close>

theorem template_versions_well_formed:
  assumes "no_templates d0" "(template_step lower)\<^sup>*\<^sup>* d0 d"
  shows "(\<forall>v. set (map cs_order (steps_of_version v d)) = {1..length (steps_of_version v d)}) \<and>
    (\<forall>x\<in>set (rows (versions d)). \<forall>y\<in>set (rows (versions d)).
       tv_template x = tv_template y \<and> tv_status x = tv_status y \<and> tv_status x \<noteq> V_ARCHIVED \<longrightarrow> x = y) \<and>
    (\<forall>x\<in>set (rows (versions d)). tv_status x \<noteq> V_DRAFT \<longrightarrow> steps_of_version (tv_id x) d \<noteq> [])"
proof -
  have ok: "templates_ok d" using template_life.inv_reachable assms by blast
  have o: "set (orders v d) = set (map cs_order (steps_of_version v d))"
    "length (orders v d) = length (steps_of_version v d)" for v
    by (simp_all add: orders_def steps_of_version_def)
  have "set (map cs_order (steps_of_version v d)) = {1..length (steps_of_version v d)}" for v
    using templates_okD(5) [OF ok, of v] unfolding contiguous_def o .
  moreover have "x = y" if "x \<in> set (rows (versions d))" "y \<in> set (rows (versions d))"
      "tv_template x = tv_template y" "tv_status x = tv_status y" "tv_status x \<noteq> V_ARCHIVED" for x y
    using ok that unfolding templates_ok_def one_of_status_def by (cases "tv_status x") auto
  moreover have "steps_of_version (tv_id x) d \<noteq> []" if "x \<in> set (rows (versions d))" "tv_status x \<noteq> V_DRAFT" for x
    using ok that o(2) [of "tv_id x"] unfolding templates_ok_def orders_ok_def by (metis length_0_conv)
  ultimately show ?thesis by blast
qed

theorem template_versions_well_formed_witness:
  "set (map cs_order (steps_of_version 1 template_published)) = {1..length (steps_of_version 1 template_published)} \<and>
   steps_of_version 1 template_published \<noteq> []"
proof -
  have "no_templates empty_db" by (simp add: no_templates_def empty_db_def)
  note wf = template_versions_well_formed [OF this template_runs(1)]
  have "\<exists>x\<in>set (rows (versions template_published)). tv_id x = 1 \<and> tv_status x \<noteq> V_DRAFT" by code_simp
  then show ?thesis using wf by metis
qed

end
