(* ===== verification/Workflow.thy ===== *)
theory Workflow
  imports Effects TemplateLifecycle
begin

section \<open>The workflow as a transition system\<close>

text \<open>
  One step is one committed transaction of one request, by a user whose role has the permission
  the route demands (the \<open>requirePermission\<close> of the *.routes.ts files). Requests that span several
  transactions (photo and signature uploads, close with its check before the lock) are split at
  the transaction boundaries, so steps of other requests may come between; their arguments are
  arbitrary, which covers every continuation. Everything outside the workflow (users, branches,
  customers, vehicles, positions, and audit records of other services) changes arbitrarily.

  \<open>sha256\<close> and \<open>lower\<close> are the hash and the database's \<open>LOWER\<close>. A reopening reads a clock that is
  not before the closing it undoes (\<open>clock_ok\<close>): the database clock does not run backwards.
\<close>

definition clock_ok :: "req \<Rightarrow> db \<Rightarrow> bool" where
  "clock_ok q d \<longleftrightarrow> (\<forall>j\<in>set (rows (jobs d)). \<forall>c. j_closed_at j = Some c \<longrightarrow> c \<le> rq_now q)"

definition outside :: "db \<Rightarrow> db \<Rightarrow> bool" where
  "outside d d' \<longleftrightarrow> (\<exists>us bs cs vs gs as. d' = d\<lparr>users := us, branches := bs, customers := cs, vehicles := vs,
     gps_events := gs, audits := audits d @ as\<rparr>)"

inductive step :: "(string \<Rightarrow> string) \<Rightarrow> (string \<Rightarrow> string) \<Rightarrow> db \<Rightarrow> db \<Rightarrow> bool" for sha256 lower where
  st_outside: "outside d d' \<Longrightarrow> step sha256 lower d d'"
| st_template: "template_step lower d d' \<Longrightarrow> step sha256 lower d d'"
| st_create: "can (au_role a) Jobs_create \<Longrightarrow> createJob q a c v d = Inr (n, d') \<Longrightarrow> step sha256 lower d d'"
| st_start: "can (au_role a) Jobs_create \<Longrightarrow> startJob q a i d = Inr (u, d') \<Longrightarrow> step sha256 lower d d'"
| st_installation: "can (au_role a) Jobs_create \<Longrightarrow> updateInstallation q a i inp d = Inr (u, d') \<Longrightarrow> step sha256 lower d d'"
| st_cancel: "can (au_role a) Jobs_create \<Longrightarrow> cancelJob q a i r d = Inr (u, d') \<Longrightarrow> step sha256 lower d d'"
| st_reassign: "can (au_role a) Jobs_assign \<Longrightarrow> reassign q a i t ro d = Inr (u, d') \<Longrightarrow> step sha256 lower d d'"
| st_unassign: "can (au_role a) Jobs_assign \<Longrightarrow> unassign q a i ro d = Inr (u, d') \<Longrightarrow> step sha256 lower d d'"
| st_assign: "can (au_role a) Checklist_execute \<Longrightarrow> assignChecklist q a i t d = Inr (u, d') \<Longrightarrow> step sha256 lower d d'"
| st_complete_step: "can (au_role a) Checklist_execute \<Longrightarrow> completeStep q a i s note ms d = Inr (u, d') \<Longrightarrow> step sha256 lower d d'"
| st_redo: "can (au_role a) Checklist_execute \<Longrightarrow> redoStep q a i s d = Inr (u, d') \<Longrightarrow> step sha256 lower d d'"
| st_approve: "can (au_role a) Stops_approve \<Longrightarrow> approveStop q a i d = Inr (u, d') \<Longrightarrow> step sha256 lower d d'"
| st_reject: "can (au_role a) Stops_approve \<Longrightarrow> rejectStop q a i r d = Inr (u, d') \<Longrightarrow> step sha256 lower d d'"
| st_rework: "can (au_role a) Checklist_execute \<Longrightarrow> reworkStop q a i d = Inr (u, d') \<Longrightarrow> step sha256 lower d d'"
| st_risk_create: "can (au_role a) Risks_create \<Longrightarrow> createRisk q a i ri d = Inr (n, d') \<Longrightarrow> step sha256 lower d d'"
| st_risk_resolve: "can (au_role a) Risks_resolve \<Longrightarrow> resolveRisk q a k note mi d = Inr (u, d') \<Longrightarrow> step sha256 lower d d'"
| st_risk_revise: "can (au_role a) Risks_resolve \<Longrightarrow> reviseRisk q a k rv d = Inr (n, d') \<Longrightarrow> step sha256 lower d d'"
| st_risk_override: "can (au_role a) Risks_override \<Longrightarrow> overrideRisk q a k r d = Inr (u, d') \<Longrightarrow> step sha256 lower d d'"
| st_matrix_create: "can (au_role a) Risk_matrix_approve \<Longrightarrow> createMatrixVersion q a vn def d = Inr (w, d') \<Longrightarrow> step sha256 lower d d'"
| st_matrix_activate: "can (au_role a) Risk_matrix_approve \<Longrightarrow> activateMatrix q a vn r d = Inr (u, d') \<Longrightarrow> step sha256 lower d d'"
| st_matrix_retire: "can (au_role a) Risk_matrix_approve \<Longrightarrow> retireMatrix q a vn d = Inr (u, d') \<Longrightarrow> step sha256 lower d d'"
| st_photo_register: "can (au_role a) Checklist_execute \<Longrightarrow> registerPhoto q a i s key nm m sz h d = Inr (pr, d') \<Longrightarrow> step sha256 lower d d'"
| st_photo_finalize: "can (au_role a) Checklist_execute \<Longrightarrow> finalizePhoto q a i s p att sz h d = Inr (b, d') \<Longrightarrow> step sha256 lower d d'"
| st_photo_failed: "can (au_role a) Checklist_execute \<Longrightarrow> markPhotoFailed q a p r d = Inr (u, d') \<Longrightarrow> step sha256 lower d d'"
| st_sig_register: "can (au_role a) Checklist_execute \<Longrightarrow> registerSignature sha256 q a i key m sz h dig d = Inr (pr, d') \<Longrightarrow> step sha256 lower d d'"
| st_sig_finalize: "can (au_role a) Checklist_execute \<Longrightarrow> finalizeSignature q a i s cy h d = Inr (b, d') \<Longrightarrow> step sha256 lower d d'"
| st_sig_failed: "can (au_role a) Checklist_execute \<Longrightarrow> markSignatureFailed q a i s r d = Inr (u, d') \<Longrightarrow> step sha256 lower d d'"
| st_close: "can (au_role a) Jobs_close \<Longrightarrow> closeJob_tx sha256 q a i d = Inr (u, d') \<Longrightarrow> step sha256 lower d d'"
| st_reopen: "can (au_role a) Jobs_reopen \<Longrightarrow> clock_ok q d \<Longrightarrow> reopenJob q a i r d = Inr (u, d') \<Longrightarrow> step sha256 lower d d'"
| st_confirm: "can (au_role a) Jobs_reopen \<Longrightarrow> confirmQuality_tx sha256 q a i d = Inr (u, d') \<Longrightarrow> step sha256 lower d d'"

inductive_cases stepE: "step sha256 lower d d'"

text \<open>The server starts with empty workflow tables; the seeded risk policies are well formed.\<close>

definition fresh_db :: "db \<Rightarrow> bool" where
  "fresh_db d \<longleftrightarrow> no_templates d \<and> jobs d = empty_tbl \<and> assignments d = empty_tbl \<and> checklists d = empty_tbl \<and>
     jsteps d = empty_tbl \<and> smeas d = empty_tbl \<and> approvals d = empty_tbl \<and> photos d = empty_tbl \<and>
     signatures d = empty_tbl \<and> risks d = empty_tbl \<and> snapshots d = empty_tbl \<and> matrices_ok d"

text \<open>
  The commit facts of theory \<open>Effects\<close> in one bundle: applied to the premise of a step they say
  which writes happened.
\<close>

lemmas commits = createJob_Inr startJob_Inr updateInstallation_Inr cancelJob_Inr reassign_Inr unassign_Inr
  assignChecklist_Inr completeStep_Inr redoStep_Inr approveStop_Inr rejectStop_Inr reworkStop_Inr
  closeJob_tx_Inr reopenJob_Inr confirmQuality_tx_Inr

lemmas only_changes = createRisk_only resolveRisk_only reviseRisk_only overrideRisk_only
  createMatrixVersion_only activateMatrix_only retireMatrix_only registerPhoto_only finalizePhoto_only
  markPhotoFailed_only registerSignature_only finalizeSignature_only markSignatureFailed_only

lemmas only_defs = only_risks_def only_matrices_def only_photos_def only_signatures_def outside_def

text \<open>The template editor leaves the workflow tables alone.\<close>

lemma template_step_frame:
  assumes "template_step lower d d'"
  shows "jobs d' = jobs d" "assignments d' = assignments d" "checklists d' = checklists d" "jsteps d' = jsteps d"
    "smeas d' = smeas d" "approvals d' = approvals d" "photos d' = photos d" "signatures d' = signatures d"
    "risks d' = risks d" "matrices d' = matrices d" "snapshots d' = snapshots d"
  using assms
  by (cases; auto simp: createTemplate_def createVersion_def addStep_def updateStep_def deleteStep_def moveStep_def
      publishVersion_def archiveVersion_def deleteTemplate_def flow_iffs Let_def split: option.splits)+

end
