(* ===== verification/StopFlow.thy ===== *)
theory StopFlow
  imports Workflow
begin

section \<open>The STOP protocol\<close>

text \<open>
  The job status, the pending approval and the status of the checklist steps are three records
  of the same fact. The invariant \<open>workflow_ok\<close> says how they agree in every reachable state; its
  consequences are that a waiting STOP can always be approved and a rejected one reworked.
\<close>

subsection \<open>The invariant\<close>

definition owns :: "nat \<Rightarrow> db \<Rightarrow> nat \<Rightarrow> bool" where
  "owns i d k \<longleftrightarrow> (\<exists>c\<in>set (rows (checklists d)). cl_id c = k \<and> cl_job c = i)"

definition job_steps :: "nat \<Rightarrow> db \<Rightarrow> jstep_row list" where
  "job_steps i d = t_where (\<lambda>s. owns i d (js_checklist s)) (jsteps d)"

definition pending :: "nat \<Rightarrow> db \<Rightarrow> approval_row list" where
  "pending i d = t_where (\<lambda>r. sa_job r = i \<and> sa_status r = AP_PENDING) (approvals d)"

definition in_status :: "step_status \<Rightarrow> jstep_row list \<Rightarrow> jstep_row list" where
  "in_status st ss = filter (\<lambda>s. js_status s = st) ss"

definition neutral :: "job_status \<Rightarrow> bool" where
  "neutral st \<longleftrightarrow> st \<noteq> J_WAITING_STOP_APPROVAL \<and> st \<noteq> J_REJECTED"

text \<open>
  Exactly one pending approval, of the one waiting step and its attempt, while the job waits;
  exactly one rejected step while it is rejected; none of the three otherwise.
\<close>

definition stop_state :: "job_status \<Rightarrow> approval_row list \<Rightarrow> jstep_row list \<Rightarrow> bool" where
  "stop_state st ps ss \<longleftrightarrow>
     (if st = J_WAITING_STOP_APPROVAL then
        (\<exists>p s. ps = [p] \<and> in_status S_WAITING_APPROVAL ss = [s] \<and> sa_job_step p = js_id s \<and>
           sa_attempt p = js_attempt s) \<and> in_status S_REJECTED ss = []
      else ps = [] \<and> in_status S_WAITING_APPROVAL ss = [] \<and>
        (if st = J_REJECTED then \<exists>s. in_status S_REJECTED ss = [s] else in_status S_REJECTED ss = []))"

definition keys_ok :: "db \<Rightarrow> bool" where
  "keys_ok d \<longleftrightarrow> keyed j_id (jobs d) \<and> keyed cl_id (checklists d) \<and> keyed js_id (jsteps d) \<and> keyed sa_id (approvals d)"

definition refs_ok :: "db \<Rightarrow> bool" where
  "refs_ok d \<longleftrightarrow>
     (\<forall>c\<in>set (rows (checklists d)). \<exists>j\<in>set (rows (jobs d)). j_id j = cl_job c) \<and>
     (\<forall>c\<in>set (rows (checklists d)). \<forall>c'\<in>set (rows (checklists d)). cl_job c = cl_job c' \<longrightarrow> c = c') \<and>
     (\<forall>c\<in>set (rows (checklists d)). \<exists>v\<in>set (rows (versions d)). tv_id v = cl_version c \<and> tv_status v \<noteq> V_DRAFT) \<and>
     (\<forall>s\<in>set (rows (jsteps d)). \<exists>c\<in>set (rows (checklists d)). cl_id c = js_checklist s \<and>
        (\<exists>t\<in>set (rows (csteps d)). cs_id t = js_step s \<and> cs_version t = cl_version c)) \<and>
     (\<forall>r\<in>set (rows (approvals d)). \<exists>j\<in>set (rows (jobs d)). j_id j = sa_job r)"

text \<open>A checklist is marked complete exactly when it has steps and all of them are done.\<close>

definition complete_ok :: "db \<Rightarrow> bool" where
  "complete_ok d \<longleftrightarrow> (\<forall>c\<in>set (rows (checklists d)).
     t_where (\<lambda>s. js_checklist s = cl_id c) (jsteps d) \<noteq> [] \<and>
     (cl_completed_at c \<noteq> None \<longleftrightarrow> (\<forall>s\<in>set (rows (jsteps d)). js_checklist s = cl_id c \<longrightarrow> step_done s)))"

definition stops_ok :: "db \<Rightarrow> bool" where
  "stops_ok d \<longleftrightarrow> (\<forall>j\<in>set (rows (jobs d)). stop_state (j_status j) (pending (j_id j) d) (job_steps (j_id j) d))"

definition workflow_ok :: "db \<Rightarrow> bool" where
  "workflow_ok d \<longleftrightarrow> templates_ok d \<and> keys_ok d \<and> refs_ok d \<and> complete_ok d \<and> stops_ok d"

lemma workflow_ok_cong:
  assumes "templates d' = templates d" "versions d' = versions d" "csteps d' = csteps d" "mdefs d' = mdefs d"
    "jobs d' = jobs d" "checklists d' = checklists d" "jsteps d' = jsteps d" "approvals d' = approvals d"
  shows "workflow_ok d' = workflow_ok d"
  using templates_ok_cong [OF assms(1-4)]
  by (simp add: workflow_ok_def keys_ok_def refs_ok_def complete_ok_def stops_ok_def job_steps_def pending_def
      owns_def assms)

lemma workflow_ok_only:
  "only_risks d d' \<Longrightarrow> workflow_ok d' = workflow_ok d"
  "only_matrices d d' \<Longrightarrow> workflow_ok d' = workflow_ok d"
  "only_photos d d' \<Longrightarrow> workflow_ok d' = workflow_ok d"
  "only_signatures d d' \<Longrightarrow> workflow_ok d' = workflow_ok d"
  "outside d d' \<Longrightarrow> workflow_ok d' = workflow_ok d"
  by (rule workflow_ok_cong; auto simp: only_defs)+

lemma workflow_okD:
  assumes "workflow_ok d"
  shows "templates_ok d" "keyed j_id (jobs d)" "keyed cl_id (checklists d)" "keyed js_id (jsteps d)"
    "keyed sa_id (approvals d)"
    "c \<in> set (rows (checklists d)) \<Longrightarrow> c' \<in> set (rows (checklists d)) \<Longrightarrow> cl_job c = cl_job c' \<Longrightarrow> c = c'"
    "s \<in> set (rows (jsteps d)) \<Longrightarrow> \<exists>c\<in>set (rows (checklists d)). cl_id c = js_checklist s \<and>
        (\<exists>t\<in>set (rows (csteps d)). cs_id t = js_step s \<and> cs_version t = cl_version c)"
    "j \<in> set (rows (jobs d)) \<Longrightarrow> stop_state (j_status j) (pending (j_id j) d) (job_steps (j_id j) d)"
  using assms by (auto simp: workflow_ok_def keys_ok_def refs_ok_def stops_ok_def)

lemma by_id_job: "by_id j_id i (jobs d) = Some job \<Longrightarrow> job \<in> set (rows (jobs d)) \<and> j_id job = i"
  by (rule by_id_Some)

text \<open>The one checklist of a job.\<close>

lemma job_checklist_row: "job_checklist i d = Some cl \<Longrightarrow> cl \<in> set (rows (checklists d)) \<and> cl_job cl = i"
  by (auto simp: job_checklist_def dest: t_first_Some)

lemma owns_checklist:
  assumes "workflow_ok d" "job_checklist i d = Some cl"
  shows "owns i d k \<longleftrightarrow> k = cl_id cl"
  using workflow_okD(6) [OF assms(1)] job_checklist_row [OF assms(2)] by (auto simp: owns_def)

lemma owns_unique: "workflow_ok d \<Longrightarrow> owns i d k \<Longrightarrow> owns j d k \<Longrightarrow> i = j"
  using workflow_okD(3) keyed_inj unfolding owns_def by metis

lemma job_steps_checklist:
  assumes "workflow_ok d" "job_checklist i d = Some cl"
  shows "job_steps i d = t_where (\<lambda>s. js_checklist s = cl_id cl) (jsteps d)"
  by (simp add: job_steps_def owns_checklist [OF assms])

lemma job_steps_none: "job_checklist i d = None \<Longrightarrow> job_steps i d = []"
  by (auto simp: job_checklist_def t_first_None job_steps_def owns_def t_where_def filter_empty_conv)

lemma distinct_job_steps:
  assumes "workflow_ok d"
  shows "distinct (map js_id (job_steps i d))"
  using workflow_okD(4) [OF assms] by (simp add: job_steps_def keyed_def t_where_def distinct_map_filter)

subsection \<open>Lists of steps under an update of one of them\<close>

definition put_step :: "nat \<Rightarrow> (jstep_row \<Rightarrow> jstep_row) \<Rightarrow> jstep_row list \<Rightarrow> jstep_row list" where
  "put_step k g ss = map (\<lambda>s. if js_id s = k then g s else s) ss"

lemma in_status_put_none:
  assumes "in_status st ss = []" "\<And>s. s \<in> set ss \<Longrightarrow> js_id s = k \<Longrightarrow> js_status (g s) \<noteq> st"
  shows "in_status st (put_step k g ss) = []"
  using assms by (auto simp: in_status_def put_step_def filter_empty_conv)

lemma in_status_put_new:
  assumes "in_status st ss = []" "distinct (map js_id ss)" "s \<in> set ss" "js_status (g s) = st"
  shows "in_status st (put_step (js_id s) g ss) = [g s]"
  using assms
proof (induction ss)
  case (Cons t ss)
  show ?case
  proof (cases "t = s")
    case True
    have "js_id u \<noteq> js_id s" if u: "u \<in> set ss" for u
      using imageI [OF u, of js_id] Cons.prems(2) True by auto
    then have "in_status st (put_step (js_id s) g ss) = in_status st ss"
      by (simp add: put_step_def map_idI)
    then show ?thesis using True Cons.prems by (simp add: in_status_def put_step_def split: if_splits)
  next
    case False
    then have "s \<in> set ss" "js_id t \<noteq> js_id s" using Cons.prems by (auto simp: rev_image_eqI)
    then show ?thesis using Cons by (simp add: in_status_def put_step_def split: if_splits)
  qed
qed simp

lemma in_status_put_gone:
  assumes "in_status st ss = [s]" "distinct (map js_id ss)" "js_status (g s) \<noteq> st"
  shows "in_status st (put_step (js_id s) g ss) = []"
proof -
  have mem: "s \<in> set ss" "js_status s = st" and uniq: "\<And>u. u \<in> set ss \<Longrightarrow> js_status u = st \<Longrightarrow> u = s"
  proof -
    have "set (in_status st ss) = {u \<in> set ss. js_status u = st}" by (simp add: in_status_def)
    then have eq: "{u \<in> set ss. js_status u = st} = {s}" using assms(1) by simp
    then show "s \<in> set ss" "js_status s = st" by blast+
    show "u = s" if "u \<in> set ss" "js_status u = st" for u using eq that by blast
  qed
  have "js_status (if js_id u = js_id s then g u else u) \<noteq> st" if u: "u \<in> set ss" for u
  proof (cases "js_id u = js_id s")
    case True
    then have "u = s" using assms(2) mem(1) u by (auto simp: distinct_map inj_on_def)
    then show ?thesis using assms(3) by simp
  next
    case False
    then show ?thesis using uniq u by auto
  qed
  then show ?thesis unfolding in_status_def put_step_def filter_empty_conv set_map by blast
qed

end
