(* ===== verification/StopInvariant.thy ===== *)
theory StopInvariant
  imports StopFlow
begin

section \<open>The STOP protocol is an invariant\<close>

text \<open>
  Every operation keeps \<open>workflow_ok\<close>: one lemma per kind of change (of a job, of a step with its
  checklist and approvals, a new job, a new checklist, the template editor), one per handler, and
  the interpretation \<open>flow\<close> for whole runs.
\<close>

subsection \<open>Changes of one job\<close>

lemma update_id_id [simp]: "update_id key i (\<lambda>r. r) t = t"
  by (simp add: update_id_def t_update_def)

lemma set_rows_update_id: "set (rows (update_id key i f t)) = (\<lambda>r. if key r = i then f r else r) ` set (rows t)"
  by (simp add: update_id_def set_rows_update)

lemma keyed_update_id: "keyed key t \<Longrightarrow> (\<And>r. key (f r) = key r) \<Longrightarrow> keyed key (update_id key i f t)"
  unfolding update_id_def by (rule keyed_update) auto

lemma ex_update_id:
  assumes "\<And>r. P (f r) = P r"
  shows "(\<exists>r\<in>set (rows (update_id key i f t)). P r) = (\<exists>r\<in>set (rows t). P r)"
proof -
  have "P (if key r = i then f r else r) = P r" for r by (simp add: assms)
  then show ?thesis unfolding set_rows_update_id by (simp only: bex_simps)
qed

text \<open>An update of a job that keeps its status, or moves between statuses without a STOP.\<close>

lemma job_change_ok:
  assumes ok: "workflow_ok d"
    and same: "templates d' = templates d" "versions d' = versions d" "csteps d' = csteps d" "mdefs d' = mdefs d"
      "checklists d' = checklists d" "jsteps d' = jsteps d" "approvals d' = approvals d"
    and jobs: "jobs d' = update_id j_id i f (jobs d)" and f: "\<And>j :: job_row. j_id (f j) = j_id j"
    and st: "\<And>j. j \<in> set (rows (jobs d)) \<Longrightarrow> j_id j = i \<Longrightarrow>
       j_status (f j) = j_status j \<or> neutral (j_status j) \<and> neutral (j_status (f j))"
  shows "workflow_ok d'"
proof -
  have steps: "job_steps k d' = job_steps k d" "pending k d' = pending k d" for k
    by (simp_all add: job_steps_def pending_def owns_def same)
  have "stop_state (j_status j) (pending (j_id j) d') (job_steps (j_id j) d')" if j: "j \<in> set (rows (jobs d'))" for j
  proof -
    obtain j0 where j0: "j0 \<in> set (rows (jobs d))" "j = (if j_id j0 = i then f j0 else j0)"
      using j unfolding jobs set_rows_update_id by auto
    have id: "j_id j = j_id j0" using j0(2) f by auto
    have old: "stop_state (j_status j0) (pending (j_id j0) d) (job_steps (j_id j0) d)"
      using workflow_okD(8) [OF ok j0(1)] .
    show ?thesis
    proof (cases "j_id j0 = i")
      case True
      then show ?thesis using old st [OF j0(1) True] j0(2) unfolding id steps by (auto simp: stop_state_def neutral_def)
    next
      case False
      then show ?thesis using old j0(2) unfolding id steps by simp
    qed
  qed
  then have "stops_ok d'" by (simp add: stops_ok_def)
  moreover have "keys_ok d'" using ok by (simp add: workflow_ok_def keys_ok_def same jobs keyed_update_id f)
  moreover have "refs_ok d'"
  proof -
    have ex: "(\<exists>j\<in>set (rows (jobs d')). j_id j = k) = (\<exists>j\<in>set (rows (jobs d)). j_id j = k)" for k
      unfolding jobs by (rule ex_update_id) (simp_all add: f)
    show ?thesis using ok by (simp add: workflow_ok_def refs_ok_def same ex)
  qed
  moreover have "templates_ok d' = templates_ok d" by (rule templates_ok_cong) (simp_all add: same)
  moreover have "complete_ok d'" using ok by (simp add: workflow_ok_def complete_ok_def same)
  ultimately show ?thesis using ok by (simp add: workflow_ok_def)
qed

text \<open>A change of one step of a job, with its checklist, its approvals and the job itself.\<close>

lemma step_change_ok:
  assumes ok: "workflow_ok d"
    and same: "templates d' = templates d" "versions d' = versions d" "csteps d' = csteps d" "mdefs d' = mdefs d"
    and job: "by_id j_id i (jobs d) = Some job" and cl: "job_checklist i d = Some cl"
    and s: "s \<in> set (rows (jsteps d))" "js_checklist s = cl_id cl"
    and jobs: "jobs d' = update_id j_id i f (jobs d)" and f: "\<And>j :: job_row. j_id (f j) = j_id j"
    and steps: "jsteps d' = update_id js_id (js_id s) g (jsteps d)"
    and g: "\<And>r. js_id (g r) = js_id r \<and> js_checklist (g r) = js_checklist r \<and> js_step (g r) = js_step r"
    and cls: "checklists d' = update_id cl_id (cl_id cl) h (checklists d)"
    and h: "\<And>c. cl_id (h c) = cl_id c \<and> cl_job (h c) = cl_job c \<and> cl_version (h c) = cl_version c"
    and done': "cl_completed_at (h cl) \<noteq> None \<longleftrightarrow>
       (\<forall>r\<in>set (rows (jsteps d')). js_checklist r = cl_id cl \<longrightarrow> step_done r)"
    and ap: "keyed sa_id (approvals d')" "\<And>r. r \<in> set (rows (approvals d')) \<Longrightarrow> \<exists>j\<in>set (rows (jobs d)). j_id j = sa_job r"
      "\<And>k. k \<noteq> i \<Longrightarrow> pending k d' = pending k d"
    and state: "stop_state (j_status (f job)) (pending i d') (put_step (js_id s) g (job_steps i d))"
  shows "workflow_ok d'"
proof -
  have gs: "js_id (g r) = js_id r" "js_checklist (g r) = js_checklist r" "js_step (g r) = js_step r" for r using g by auto
  have hs: "cl_id (h c) = cl_id c" "cl_job (h c) = cl_job c" "cl_version (h c) = cl_version c" for c using h by auto
  note clr = job_checklist_row [OF cl] and keys = workflow_okD(2-5) [OF ok]
  let ?G = "\<lambda>r. if js_id r = js_id s then g r else r" and ?H = "\<lambda>c. if cl_id c = cl_id cl then h c else c"
  have Gs: "js_id (?G r) = js_id r" "js_checklist (?G r) = js_checklist r" "js_step (?G r) = js_step r" for r by (simp_all add: gs)
  have Hs: "cl_id (?H c) = cl_id c" "cl_job (?H c) = cl_job c" "cl_version (?H c) = cl_version c" for c by (simp_all add: hs)
  have rs: "rows (jsteps d') = map ?G (rows (jsteps d))" and rc: "rows (checklists d') = map ?H (rows (checklists d))"
    by (simp_all add: steps cls update_id_def t_update_def)
  have owns': "owns k d' c = owns k d c" for k c
    unfolding owns_def cls by (rule ex_update_id) (simp_all add: hs)
  have where': "t_where P (jsteps d') = map ?G (t_where P (jsteps d))" if "\<And>r. P (?G r) = P r" for P
    using that by (simp add: t_where_def rs filter_map comp_def)
  have mine: "js_checklist r = cl_id cl" if "r \<in> set (rows (jsteps d))" "js_id r = js_id s" for r
    using keyed_inj [OF keys(3) that(1) s(1) that(2)] s(2) by simp
  have js_i: "job_steps i d' = put_step (js_id s) g (job_steps i d)"
    unfolding job_steps_def put_step_def owns' by (rule where') (simp add: gs)
  have js_k: "job_steps k d' = job_steps k d" if "k \<noteq> i" for k
  proof -
    have no: "\<not> owns k d (cl_id cl)" using owns_unique [OF ok] that owns_checklist [OF ok cl] by blast
    have "job_steps k d' = map ?G (job_steps k d)"
      unfolding job_steps_def owns' by (rule where') (simp add: gs)
    also have "\<dots> = job_steps k d"
      by (rule map_idI) (use mine no in \<open>auto simp: job_steps_def\<close>)
    finally show ?thesis .
  qed
  have ex: "(\<exists>j\<in>set (rows (jobs d')). j_id j = k) = (\<exists>j\<in>set (rows (jobs d)). j_id j = k)" for k
    unfolding jobs by (rule ex_update_id) (simp_all add: f)
  have "stop_state (j_status j) (pending (j_id j) d') (job_steps (j_id j) d')" if j: "j \<in> set (rows (jobs d'))" for j
  proof -
    obtain j0 where j0: "j0 \<in> set (rows (jobs d))" "j = (if j_id j0 = i then f j0 else j0)"
      using j unfolding jobs set_rows_update_id by auto
    show ?thesis
    proof (cases "j_id j0 = i")
      case True
      then have "j0 = job" using keyed_inj [OF keys(1) j0(1)] by_id_job [OF job] by metis
      then show ?thesis using state True j0(2) f js_i by simp
    next
      case False
      then show ?thesis using workflow_okD(8) [OF ok j0(1)] j0(2) js_k ap(3) by simp
    qed
  qed
  then have "stops_ok d'" by (simp add: stops_ok_def)
  moreover have "keys_ok d'"
    using keys ap(1) by (simp add: keys_ok_def jobs steps cls keyed_update_id f gs hs)
  moreover have "refs_ok d'"
    unfolding refs_ok_def ex
  proof (intro conjI ballI impI)
    show "\<exists>j\<in>set (rows (jobs d)). j_id j = cl_job c" if m: "c \<in> set (rows (checklists d'))" for c
    proof -
      obtain c0 where c0: "c0 \<in> set (rows (checklists d))" "c = ?H c0" using m unfolding rc set_map by blast
      then have "cl_job c = cl_job c0" by (simp only: Hs)
      then show ?thesis using c0(1) ok unfolding workflow_ok_def refs_ok_def by simp
    qed
    show "c = c'" if m: "c \<in> set (rows (checklists d'))" "c' \<in> set (rows (checklists d'))" "cl_job c = cl_job c'" for c c'
    proof -
      obtain c0 c1 where c: "c0 \<in> set (rows (checklists d))" "c = ?H c0" "c1 \<in> set (rows (checklists d))" "c' = ?H c1"
        using m(1,2) unfolding rc set_map by blast
      then have "cl_job c0 = cl_job c1" using m(3) by (simp only: Hs)
      then show ?thesis using workflow_okD(6) [OF ok c(1,3)] c(2,4) by simp
    qed
    show "\<exists>v\<in>set (rows (versions d')). tv_id v = cl_version c \<and> tv_status v \<noteq> V_DRAFT" if m: "c \<in> set (rows (checklists d'))" for c
    proof -
      obtain c0 where c0: "c0 \<in> set (rows (checklists d))" "c = ?H c0" using m unfolding rc set_map by blast
      then have "cl_version c = cl_version c0" by (simp only: Hs)
      then show ?thesis using c0(1) ok unfolding workflow_ok_def refs_ok_def same by simp
    qed
    show "\<exists>c\<in>set (rows (checklists d')). cl_id c = js_checklist r \<and>
        (\<exists>t\<in>set (rows (csteps d')). cs_id t = js_step r \<and> cs_version t = cl_version c)" if m: "r \<in> set (rows (jsteps d'))" for r
    proof -
      obtain r0 where r0: "r0 \<in> set (rows (jsteps d))" "r = ?G r0" using m unfolding rs set_map by blast
      then obtain c where c: "c \<in> set (rows (checklists d))" "cl_id c = js_checklist r0"
        "\<exists>t\<in>set (rows (csteps d)). cs_id t = js_step r0 \<and> cs_version t = cl_version c"
        using workflow_okD(7) [OF ok] by blast
      show ?thesis
      proof (rule bexI [of _ "?H c"])
        show "?H c \<in> set (rows (checklists d'))" unfolding rc set_map using c(1) by (rule imageI)
        show "cl_id (?H c) = js_checklist r \<and> (\<exists>t\<in>set (rows (csteps d')). cs_id t = js_step r \<and> cs_version t = cl_version (?H c))"
          unfolding Hs r0(2) Gs same using c(2,3) by blast
      qed
    qed
    show "\<exists>j\<in>set (rows (jobs d)). j_id j = sa_job r" if m: "r \<in> set (rows (approvals d'))" for r by (rule ap(2) [OF m])
  qed
  moreover have "complete_ok d'"
    unfolding complete_ok_def
  proof (intro ballI conjI)
    fix c assume "c \<in> set (rows (checklists d'))"
    then obtain c0 where c0: "c0 \<in> set (rows (checklists d))" "c = ?H c0" unfolding rc set_map by blast
    have old: "t_where (\<lambda>s. js_checklist s = cl_id c0) (jsteps d) \<noteq> []"
      "cl_completed_at c0 \<noteq> None \<longleftrightarrow> (\<forall>s\<in>set (rows (jsteps d)). js_checklist s = cl_id c0 \<longrightarrow> step_done s)"
      using ok c0(1) unfolding workflow_ok_def complete_ok_def by blast+
    have id: "cl_id c = cl_id c0" unfolding c0(2) by (rule Hs)
    have "t_where (\<lambda>s. js_checklist s = cl_id c) (jsteps d') = map ?G (t_where (\<lambda>s. js_checklist s = cl_id c) (jsteps d))"
      by (rule where') (simp add: gs)
    then show "t_where (\<lambda>s. js_checklist s = cl_id c) (jsteps d') \<noteq> []" using old(1) id by simp
    show "cl_completed_at c \<noteq> None \<longleftrightarrow> (\<forall>s\<in>set (rows (jsteps d')). js_checklist s = cl_id c \<longrightarrow> step_done s)"
    proof (cases "cl_id c0 = cl_id cl")
      case True
      then have "c0 = cl" using keyed_inj [OF keys(2) c0(1)] clr by blast
      then show ?thesis using done' c0(2) id by simp
    next
      case False
      have "(\<forall>s\<in>set (rows (jsteps d')). js_checklist s = cl_id c \<longrightarrow> step_done s)
          = (\<forall>s\<in>set (rows (jsteps d)). js_checklist s = cl_id c \<longrightarrow> step_done s)"
        unfolding rs set_map using mine False id by (auto simp: gs)
      then show ?thesis using old(2) c0(2) False id by simp
    qed
  qed
  moreover have "templates_ok d' = templates_ok d" by (rule templates_ok_cong) (simp_all add: same)
  ultimately show ?thesis using ok by (simp add: workflow_ok_def)
qed


subsection \<open>The STOP protocol, operation by operation\<close>

lemma steps_remaining_iff:
  "steps_remaining k d \<longleftrightarrow> \<not> (\<forall>r\<in>set (rows (jsteps d)). js_checklist r = k \<longrightarrow> step_done r)"
  by (auto simp: steps_remaining_def t_first_None)

lemma checklist_incomplete:
  assumes ok: "workflow_ok d" and cl: "cl \<in> set (rows (checklists d))"
    and s: "s \<in> set (rows (jsteps d))" "js_checklist s = cl_id cl" "\<not> step_done s"
  shows "cl_completed_at cl = None"
proof -
  have "cl_completed_at cl \<noteq> None \<longleftrightarrow> (\<forall>s\<in>set (rows (jsteps d)). js_checklist s = cl_id cl \<longrightarrow> step_done s)"
    using ok cl unfolding workflow_ok_def complete_ok_def by blast
  then show ?thesis using s by blast
qed

lemma step_undone_ok:
  assumes ok: "workflow_ok d"
    and same: "templates d' = templates d" "versions d' = versions d" "csteps d' = csteps d" "mdefs d' = mdefs d"
    and job: "by_id j_id i (jobs d) = Some job" and cl: "job_checklist i d = Some cl"
    and s: "s \<in> set (rows (jsteps d))" "js_checklist s = cl_id cl"
    and jobs: "jobs d' = update_id j_id i f (jobs d)" and f: "\<And>j :: job_row. j_id (f j) = j_id j"
    and steps: "jsteps d' = update_id js_id (js_id s) g (jsteps d)"
    and g: "\<And>r. js_id (g r) = js_id r \<and> js_checklist (g r) = js_checklist r \<and> js_step (g r) = js_step r"
    and cls: "checklists d' = update_id cl_id (cl_id cl) h (checklists d)"
    and h: "\<And>c. cl_id (h c) = cl_id c \<and> cl_job (h c) = cl_job c \<and> cl_version (h c) = cl_version c"
    and undone: "\<not> step_done (g s)" "cl_completed_at (h cl) = None"
    and ap: "keyed sa_id (approvals d')" "\<And>r. r \<in> set (rows (approvals d')) \<Longrightarrow> \<exists>j\<in>set (rows (jobs d)). j_id j = sa_job r"
      "\<And>k. k \<noteq> i \<Longrightarrow> pending k d' = pending k d"
    and state: "stop_state (j_status (f job)) (pending i d') (put_step (js_id s) g (job_steps i d))"
  shows "workflow_ok d'"
proof (rule step_change_ok [OF ok same job cl s jobs f steps g cls h _ ap state])
  have "(\<lambda>r. if js_id r = js_id s then g r else r) s \<in> set (rows (jsteps d'))"
    unfolding steps set_rows_update_id by (rule imageI [OF s(1)])
  then have "g s \<in> set (rows (jsteps d'))" by simp
  moreover have "js_checklist (g s) = cl_id cl" using g s(2) by simp
  ultimately show "cl_completed_at (h cl) \<noteq> None \<longleftrightarrow>
       (\<forall>r\<in>set (rows (jsteps d')). js_checklist r = cl_id cl \<longrightarrow> step_done r)" using undone by blast
qed

lemma step_finished_ok:
  assumes ok: "workflow_ok d"
    and same: "templates d' = templates d" "versions d' = versions d" "csteps d' = csteps d" "mdefs d' = mdefs d"
    and job: "by_id j_id i (jobs d) = Some job" and cl: "job_checklist i d = Some cl"
    and s: "s \<in> set (rows (jsteps d))" "js_checklist s = cl_id cl"
    and jobs: "jobs d' = update_id j_id i f (jobs d)" and f: "\<And>j :: job_row. j_id (f j) = j_id j"
    and steps: "jsteps d' = update_id js_id (js_id s) g (jsteps d)"
    and g: "\<And>r. js_id (g r) = js_id r \<and> js_checklist (g r) = js_checklist r \<and> js_step (g r) = js_step r"
    and undone: "\<not> step_done s"
    and cls: "checklists d' = (if steps_remaining (cl_id cl) d' then checklists d
        else update_id cl_id (cl_id cl) (\<lambda>r. r\<lparr>cl_completed_at := Some t\<rparr>) (checklists d))"
    and ap: "keyed sa_id (approvals d')" "\<And>r. r \<in> set (rows (approvals d')) \<Longrightarrow> \<exists>j\<in>set (rows (jobs d)). j_id j = sa_job r"
      "\<And>k. k \<noteq> i \<Longrightarrow> pending k d' = pending k d"
    and state: "stop_state (j_status (f job)) (pending i d') (put_step (js_id s) g (job_steps i d))"
  shows "workflow_ok d'"
proof -
  let ?h = "\<lambda>r. if steps_remaining (cl_id cl) d' then r else r\<lparr>cl_completed_at := Some t\<rparr>"
  have cls': "checklists d' = update_id cl_id (cl_id cl) ?h (checklists d)" by (simp add: cls)
  have none: "cl_completed_at cl = None" by (rule checklist_incomplete [OF ok _ s undone]) (use job_checklist_row [OF cl] in blast)
  show ?thesis
    by (rule step_change_ok [OF ok same job cl s jobs f steps g cls' _ _ ap state])
      (auto simp: steps_remaining_iff none)
qed

text \<open>The pending approvals after a submission and after a decision.\<close>

lemma pending_submit:
  assumes "approvals d' = t_insert mk (approvals d)" "\<And>n. sa_job (mk n) = i \<and> sa_status (mk n) = AP_PENDING"
  shows "pending i d' = pending i d @ [mk (next_id (approvals d))]" "k \<noteq> i \<Longrightarrow> pending k d' = pending k d"
  using assms(2) by (simp_all add: pending_def assms(1) t_where_insert)

lemma pending_decide:
  assumes ok: "workflow_ok d" and p: "pending i d = [p]"
    and ap: "approvals d' = update_id sa_id (sa_id p) f (approvals d)"
    and f: "\<And>r. sa_status (f r) \<noteq> AP_PENDING \<and> sa_job (f r) = sa_job r"
  shows "pending i d' = []" "k \<noteq> i \<Longrightarrow> pending k d' = pending k d"
proof -
  have set_p: "set (pending i d) = {r \<in> set (rows (approvals d)). sa_job r = i \<and> sa_status r = AP_PENDING}"
    by (simp add: pending_def)
  have row: "p \<in> set (rows (approvals d))" "sa_job p = i" using p set_p by auto
  have only: "r = p" if "r \<in> set (rows (approvals d))" "sa_id r = sa_id p" for r
    using keyed_inj [OF workflow_okD(5) [OF ok] that(1) row(1) that(2)] .
  show "k \<noteq> i \<Longrightarrow> pending k d' = pending k d"
    unfolding pending_def ap update_id_def by (rule t_where_update_other) (use only row f in auto)
  have "r = p" if "r \<in> set (rows (approvals d))" "sa_job r = i" "sa_status r = AP_PENDING" for r
    using that p set_p by auto
  then have "\<not> (sa_job r = i \<and> sa_status r = AP_PENDING)" if "r \<in> set (rows (approvals d'))" for r
    using that f unfolding ap set_rows_update_id by (auto split: if_splits)
  then show "pending i d' = []" by (auto simp: pending_def t_where_def filter_empty_conv)
qed

lemma refs_approvals:
  assumes "workflow_ok d" "r \<in> set (rows (update_id sa_id k f (approvals d)))" "\<And>r. sa_job (f r) = sa_job r"
  shows "\<exists>j\<in>set (rows (jobs d)). j_id j = sa_job r"
proof -
  obtain r0 where "r0 \<in> set (rows (approvals d))" "r = (if sa_id r0 = k then f r0 else r0)"
    using assms(2) unfolding set_rows_update_id by blast
  moreover have "\<exists>j\<in>set (rows (jobs d)). j_id j = sa_job r0" if "r0 \<in> set (rows (approvals d))" for r0
    using assms(1) that unfolding workflow_ok_def refs_ok_def by blast
  ultimately show ?thesis using assms(3) by simp
qed


text \<open>What the locked checks of each operation say about the invariant.\<close>

lemma stop_stateD:
  assumes "workflow_ok d" "by_id j_id i (jobs d) = Some job"
  shows "stop_state (j_status job) (pending i d) (job_steps i d)"
  using workflow_okD(8) [OF assms(1)] by_id_job [OF assms(2)] by blast

lemma in_status_empty: "in_status st ss = [] \<Longrightarrow> s \<in> set ss \<Longrightarrow> js_status s \<noteq> st"
  by (auto simp: in_status_def filter_empty_conv)

lemma step_of_checklist:
  assumes "workflow_ok d" "job_checklist i d = Some cl" "s \<in> set (rows (jsteps d))" "js_checklist s = cl_id cl"
  shows "s \<in> set (job_steps i d)"
  using assms(3,4) by (simp add: job_steps_checklist [OF assms(1,2)])

lemma working_neutral: "neutral (workingStatus job)"
  by (simp add: workingStatus_def neutral_def)

lemma workable_neutral: "isWorkable job \<Longrightarrow> neutral (j_status job)"
  by (auto simp: isWorkable_def neutral_def split: if_splits)

lemma stop_state_neutral:
  "neutral st \<Longrightarrow> stop_state st ps ss \<longleftrightarrow> ps = [] \<and> in_status S_WAITING_APPROVAL ss = [] \<and> in_status S_REJECTED ss = []"
  by (auto simp: stop_state_def neutral_def)

lemma put_neutral:
  assumes "neutral st" "stop_state st ps ss" "neutral st'" "ps' = []"
    "\<And>s. s \<in> set ss \<Longrightarrow> js_id s = k \<Longrightarrow> js_status (g s) \<noteq> S_WAITING_APPROVAL \<and> js_status (g s) \<noteq> S_REJECTED"
  shows "stop_state st' ps' (put_step k g ss)"
  using assms by (simp add: stop_state_neutral in_status_put_none)

lemma finish_step_ok:
  assumes ok: "workflow_ok d" and c: "completable a i sid ms d = Inr (job, cl, s, c, stored)"
    and tables: "templates e = templates d" "versions e = versions d" "csteps e = csteps d" "mdefs e = mdefs d"
      "jobs e = jobs d" "checklists e = checklists d" "jsteps e = jsteps d" "approvals e = approvals d"
  shows "workflow_ok (finish_step q a job cl s c nt st e)"
proof -
  note cs = c [unfolded completable_Inr]
  have s: "s \<in> set (rows (jsteps d))" "js_checklist s = cl_id cl" using cs joined_step_row by blast+
  have job: "by_id j_id i (jobs d) = Some job" "job_checklist i d = Some cl" "isWorkable job" "js_status s = S_PENDING"
    using cs by blast+
  have st: "stop_state (j_status job) (pending i d) (job_steps i d)" by (rule stop_stateD [OF ok job(1)])
  show ?thesis
  proof (rule step_finished_ok [OF ok _ _ _ _ job(1,2) s, where f = "\<lambda>j. j" and
        g = "\<lambda>r. r\<lparr>js_status := S_COMPLETED, js_note := nt, js_completed_by := Some (au_id a), js_completed_at := Some (rq_now q)\<rparr>"
        and t = "rq_now q"])
    show "checklists (finish_step q a job cl s c nt st e) =
        (if steps_remaining (cl_id cl) (finish_step q a job cl s c nt st e) then checklists d
         else update_id cl_id (cl_id cl) (\<lambda>r. r\<lparr>cl_completed_at := Some (rq_now q)\<rparr>) (checklists d))"
      using checklists_writes(1) [of q a job cl s c nt st e] unfolding tables .
    have "pending k (finish_step q a job cl s c nt st e) = pending k d" for k by (simp add: pending_def tables)
    then show "stop_state (j_status ((\<lambda>j. j) job)) (pending i (finish_step q a job cl s c nt st e))
        (put_step (js_id s) (\<lambda>r. r\<lparr>js_status := S_COMPLETED, js_note := nt, js_completed_by := Some (au_id a),
           js_completed_at := Some (rq_now q)\<rparr>) (job_steps i d))"
      using st workable_neutral [OF job(3)] by (auto simp: stop_state_neutral in_status_put_none)
    show "r \<in> set (rows (approvals (finish_step q a job cl s c nt st e))) \<Longrightarrow> \<exists>j\<in>set (rows (jobs d)). j_id j = sa_job r" for r
      using ok unfolding workflow_ok_def refs_ok_def by (simp add: tables)
    show "\<not> step_done s" using job(4) by (simp add: step_done_def STEP_DONE_STATUSES_def)
  qed (use workflow_okD(5) [OF ok] in \<open>simp_all add: tables jsteps_writes pending_def\<close>)
qed

lemma submit_stop_ok:
  assumes ok: "workflow_ok d" and c: "completable a i sid ms d = Inr (job, cl, s, c, stored)"
    and tables: "templates e = templates d" "versions e = versions d" "csteps e = csteps d" "mdefs e = mdefs d"
      "jobs e = jobs d" "checklists e = checklists d" "jsteps e = jsteps d" "approvals e = approvals d"
  shows "workflow_ok (submit_stop q a job s c nt st e)"
proof -
  note cs = c [unfolded completable_Inr]
  have s: "s \<in> set (rows (jsteps d))" "js_checklist s = cl_id cl" using cs joined_step_row by blast+
  have job: "by_id j_id i (jobs d) = Some job" "job_checklist i d = Some cl" "isWorkable job" "js_status s = S_PENDING"
    using cs by blast+
  have i: "j_id job = i" using by_id_job [OF job(1)] by blast
  have st: "stop_state (j_status job) (pending i d) (job_steps i d)" by (rule stop_stateD [OF ok job(1)])
  then have none: "pending i d = []" "in_status S_WAITING_APPROVAL (job_steps i d) = []" "in_status S_REJECTED (job_steps i d) = []"
    using workable_neutral [OF job(3)] by (simp_all add: stop_state_neutral)
  have mem: "s \<in> set (job_steps i d)" by (rule step_of_checklist [OF ok job(2) s])
  let ?d = "submit_stop q a job s c nt st e"
  let ?g = "\<lambda>r. r\<lparr>js_status := S_WAITING_APPROVAL, js_note := nt, js_completed_by := Some (au_id a), js_completed_at := Some (rq_now q)\<rparr>"
  note ap = approvals_writes(1) [of q a job s c nt st e, unfolded tables i]
  have undone: "\<not> step_done s" using job(4) by (simp add: step_done_def STEP_DONE_STATUSES_def)
  show ?thesis
  proof (rule step_undone_ok [OF ok _ _ _ _ job(1,2) s, where g = ?g and h = "\<lambda>c. c" and
        f = "\<lambda>j. j\<lparr>j_status := J_WAITING_STOP_APPROVAL, j_updated_at := rq_now q\<rparr>"])
    show "keyed sa_id (approvals ?d)" unfolding ap by (rule keyed_insert [OF workflow_okD(5) [OF ok]]) simp
    show "r \<in> set (rows (approvals ?d)) \<Longrightarrow> \<exists>j\<in>set (rows (jobs d)). j_id j = sa_job r" for r
      using ok by_id_job [OF job(1)] unfolding workflow_ok_def refs_ok_def ap set_rows_insert by auto
    show "k \<noteq> i \<Longrightarrow> pending k ?d = pending k d" for k by (rule pending_submit(2) [OF ap]) simp_all
    have new: "in_status S_WAITING_APPROVAL (put_step (js_id s) ?g (job_steps i d)) = [?g s]"
      by (rule in_status_put_new [OF none(2) distinct_job_steps [OF ok] mem]) simp
    have old: "in_status S_REJECTED (put_step (js_id s) ?g (job_steps i d)) = []"
      by (rule in_status_put_none [OF none(3)]) simp
    show "stop_state (j_status (job\<lparr>j_status := J_WAITING_STOP_APPROVAL, j_updated_at := rq_now q\<rparr>))
        (pending i ?d) (put_step (js_id s) ?g (job_steps i d))"
      using pending_submit(1) [OF ap, of i] by (simp add: stop_state_def new old none(1))
    show "cl_completed_at cl = None"
      by (rule checklist_incomplete [OF ok _ s undone]) (use job_checklist_row [OF job(2)] in blast)
  qed (simp_all add: tables jobs_writes jsteps_writes i step_done_def STEP_DONE_STATUSES_def)
qed


lemma in_status_one: "in_status st ss = [s] \<Longrightarrow> u \<in> set ss \<Longrightarrow> js_status u = st \<Longrightarrow> u = s"
proof -
  assume one: "in_status st ss = [s]" and u: "u \<in> set ss" "js_status u = st"
  have "u \<in> set (in_status st ss)" using u by (simp add: in_status_def)
  then show "u = s" by (simp add: one)
qed

lemma in_status_mem: "in_status st ss = [s] \<Longrightarrow> s \<in> set ss \<and> js_status s = st"
proof -
  assume one: "in_status st ss = [s]"
  have "s \<in> set (in_status st ss)" by (simp add: one)
  then show "s \<in> set ss \<and> js_status s = st" by (simp add: in_status_def)
qed

lemma job_steps_owned:
  assumes "workflow_ok d" "s \<in> set (job_steps i d)"
  shows "s \<in> set (rows (jsteps d)) \<and> (\<exists>cl. job_checklist i d = Some cl \<and> js_checklist s = cl_id cl)"
proof (cases "job_checklist i d")
  case None
  then show ?thesis using assms(2) by (simp add: job_steps_none)
next
  case (Some cl)
  then show ?thesis using assms(2) by (simp add: job_steps_checklist [OF assms(1) Some])
qed

lemma pending_stop:
  assumes ok: "workflow_ok d" and lock: "lockPendingStop a i d = Inr (job, ap, s, c)"
  shows "pending i d = [ap]" "in_status S_WAITING_APPROVAL (job_steps i d) = [s]"
    "in_status S_REJECTED (job_steps i d) = []" "sa_attempt ap = js_attempt s"
    "s \<in> set (rows (jsteps d))" "\<exists>cl. job_checklist i d = Some cl \<and> js_checklist s = cl_id cl"
proof -
  note l = lockPendingStop_Inr [OF lock]
  have job: "by_id j_id i (jobs d) = Some job" "j_status job = J_WAITING_STOP_APPROVAL" using l by blast+
  obtain p u where p: "pending i d = [p]" "in_status S_WAITING_APPROVAL (job_steps i d) = [u]"
    "sa_job_step p = js_id u" "sa_attempt p = js_attempt u" "in_status S_REJECTED (job_steps i d) = []"
    using stop_stateD [OF ok job(1)] job(2) by (auto simp: stop_state_def)
  have apf: "t_first (\<lambda>r. sa_job r = i \<and> sa_status r = AP_PENDING) (approvals d) = Some ap"
    "by_id js_id (sa_job_step ap) (jsteps d) = Some s" using l by blast+
  have "ap \<in> set (pending i d)" using t_first_Some [OF apf(1)] by (simp add: pending_def)
  then have ap: "ap = p" using p(1) by simp
  have s: "s \<in> set (rows (jsteps d))" "js_id s = sa_job_step ap" using by_id_Some [OF apf(2)] by simp_all
  have u: "u \<in> set (job_steps i d)" using in_status_mem [OF p(2)] by blast
  note owned = job_steps_owned [OF ok u]
  have "js_id u = js_id s" using s(2) p(3) ap by simp
  then have us: "u = s" by (rule keyed_inj [OF workflow_okD(4) [OF ok] conjunct1 [OF owned] s(1)])
  show "pending i d = [ap]" "in_status S_WAITING_APPROVAL (job_steps i d) = [s]" "in_status S_REJECTED (job_steps i d) = []"
    "sa_attempt ap = js_attempt s" "s \<in> set (rows (jsteps d))" "\<exists>cl. job_checklist i d = Some cl \<and> js_checklist s = cl_id cl"
    using p ap us owned by simp_all
qed

lemma approve_writes_ok:
  assumes ok: "workflow_ok d" and lock: "lockPendingStop a i d = Inr (job, ap, s, c)"
  shows "workflow_ok (approve_writes q a i job ap s c d)"
proof -
  note p = pending_stop [OF ok lock] and l = lockPendingStop_Inr [OF lock]
  have job: "by_id j_id i (jobs d) = Some job" "js_status s = S_WAITING_APPROVAL" using l by blast+
  obtain cl where cl: "job_checklist i d = Some cl" "js_checklist s = cl_id cl" using p(6) by blast
  let ?d = "approve_writes q a i job ap s c d" and ?g = "\<lambda>r. r\<lparr>js_status := S_APPROVED\<rparr>"
  note ap = approvals_writes(2) [of q a i job ap s c d]
  show ?thesis
  proof (rule step_finished_ok [OF ok _ _ _ _ job(1) cl(1) p(5) cl(2), where g = ?g and t = "rq_now q" and
        f = "\<lambda>j. j\<lparr>j_status := workingStatus job, j_updated_at := rq_now q\<rparr>"])
    show "checklists ?d = (if steps_remaining (cl_id cl) ?d then checklists d
         else update_id cl_id (cl_id cl) (\<lambda>r. r\<lparr>cl_completed_at := Some (rq_now q)\<rparr>) (checklists d))"
      using checklists_writes(2) [of q a i job ap s c d] unfolding cl(2) .
    show "keyed sa_id (approvals ?d)" unfolding ap by (rule keyed_update_id [OF workflow_okD(5) [OF ok]]) simp
    show "r \<in> set (rows (approvals ?d)) \<Longrightarrow> \<exists>j\<in>set (rows (jobs d)). j_id j = sa_job r" for r
      unfolding ap by (erule refs_approvals [OF ok]) simp
    show "k \<noteq> i \<Longrightarrow> pending k ?d = pending k d" for k by (rule pending_decide(2) [OF ok p(1) ap]) simp_all
    have none: "pending i ?d = []" by (rule pending_decide(1) [OF ok p(1) ap]) simp
    have gone: "in_status S_WAITING_APPROVAL (put_step (js_id s) ?g (job_steps i d)) = []"
      by (rule in_status_put_gone [OF p(2) distinct_job_steps [OF ok]]) simp
    have old: "in_status S_REJECTED (put_step (js_id s) ?g (job_steps i d)) = []"
      by (rule in_status_put_none [OF p(3)]) simp
    show "stop_state (j_status (job\<lparr>j_status := workingStatus job, j_updated_at := rq_now q\<rparr>)) (pending i ?d)
        (put_step (js_id s) ?g (job_steps i d))"
      using working_neutral [of job] by (simp add: stop_state_neutral gone old none)
    show "\<not> step_done s" using job(2) by (simp add: step_done_def STEP_DONE_STATUSES_def)
  qed (simp_all add: jobs_writes jsteps_writes)
qed

lemma reject_marks_ok:
  assumes ok: "workflow_ok d" and lock: "lockPendingStop a i d = Inr (job, ap, s, c)"
  shows "workflow_ok (reject_marks q a i r ap s d)"
proof -
  note p = pending_stop [OF ok lock] and l = lockPendingStop_Inr [OF lock]
  have job: "by_id j_id i (jobs d) = Some job" "js_status s = S_WAITING_APPROVAL" using l by blast+
  obtain cl where cl: "job_checklist i d = Some cl" "js_checklist s = cl_id cl" using p(6) by blast
  let ?d = "reject_marks q a i r ap s d" and ?g = "\<lambda>r. r\<lparr>js_status := S_REJECTED\<rparr>"
  note ap = approvals_writes(3) [of q a i r ap s d]
  have undone: "\<not> step_done s" using job(2) by (simp add: step_done_def STEP_DONE_STATUSES_def)
  have mem: "s \<in> set (job_steps i d)" by (rule step_of_checklist [OF ok cl(1) p(5) cl(2)])
  show ?thesis
  proof (rule step_undone_ok [OF ok _ _ _ _ job(1) cl(1) p(5) cl(2), where g = ?g and h = "\<lambda>c. c" and
        f = "\<lambda>j. j\<lparr>j_status := J_REJECTED, j_updated_at := rq_now q\<rparr>"])
    show "keyed sa_id (approvals ?d)" unfolding ap by (rule keyed_update_id [OF workflow_okD(5) [OF ok]]) simp
    show "u \<in> set (rows (approvals ?d)) \<Longrightarrow> \<exists>j\<in>set (rows (jobs d)). j_id j = sa_job u" for u
      unfolding ap by (erule refs_approvals [OF ok]) simp
    show "k \<noteq> i \<Longrightarrow> pending k ?d = pending k d" for k by (rule pending_decide(2) [OF ok p(1) ap]) simp_all
    have none: "pending i ?d = []" by (rule pending_decide(1) [OF ok p(1) ap]) simp
    have gone: "in_status S_WAITING_APPROVAL (put_step (js_id s) ?g (job_steps i d)) = []"
      by (rule in_status_put_gone [OF p(2) distinct_job_steps [OF ok]]) simp
    have new: "in_status S_REJECTED (put_step (js_id s) ?g (job_steps i d)) = [?g s]"
      by (rule in_status_put_new [OF p(3) distinct_job_steps [OF ok] mem]) simp
    show "stop_state (j_status (job\<lparr>j_status := J_REJECTED, j_updated_at := rq_now q\<rparr>)) (pending i ?d)
        (put_step (js_id s) ?g (job_steps i d))"
      by (simp add: stop_state_def gone new none)
    show "cl_completed_at cl = None"
      by (rule checklist_incomplete [OF ok _ p(5) cl(2) undone]) (use job_checklist_row [OF cl(1)] in blast)
  qed (simp_all add: jobs_writes jsteps_writes step_done_def STEP_DONE_STATUSES_def)
qed

lemma rework_writes_ok:
  assumes ok: "workflow_ok d" and job: "by_id j_id i (jobs d) = Some job" "j_status job = J_REJECTED"
    and cl: "job_checklist i d = Some cl" and rej: "rejected_step (cl_id cl) d = Some (s, c)"
  shows "workflow_ok (rework_writes q a i job s c d)"
proof -
  note r = rejected_step_Some [OF rej]
  let ?d = "rework_writes q a i job s c d" and ?g = "\<lambda>r. r\<lparr>js_status := S_PENDING, js_attempt := js_attempt s + 1\<rparr>"
  have s: "s \<in> set (rows (jsteps d))" "js_checklist s = cl_id cl" "js_status s = S_REJECTED" using r by blast+
  have mem: "s \<in> set (job_steps i d)" by (rule step_of_checklist [OF ok cl s(1,2)])
  obtain u where u: "in_status S_REJECTED (job_steps i d) = [u]" "pending i d = []" "in_status S_WAITING_APPROVAL (job_steps i d) = []"
    using stop_stateD [OF ok job(1)] job(2) by (auto simp: stop_state_def)
  have us: "in_status S_REJECTED (job_steps i d) = [s]" using in_status_one [OF u(1) mem s(3)] u(1) by simp
  have undone: "\<not> step_done s" using s(3) by (simp add: step_done_def STEP_DONE_STATUSES_def)
  have same: "pending k ?d = pending k d" for k by (simp add: pending_def)
  show ?thesis
  proof (rule step_undone_ok [OF ok _ _ _ _ job(1) cl s(1,2), where g = ?g and h = "\<lambda>c. c" and
        f = "\<lambda>j. j\<lparr>j_status := workingStatus job, j_updated_at := rq_now q\<rparr>"])
    have gone: "in_status S_REJECTED (put_step (js_id s) ?g (job_steps i d)) = []"
      by (rule in_status_put_gone [OF us distinct_job_steps [OF ok]]) simp
    have old: "in_status S_WAITING_APPROVAL (put_step (js_id s) ?g (job_steps i d)) = []"
      by (rule in_status_put_none [OF u(3)]) simp
    show "stop_state (j_status (job\<lparr>j_status := workingStatus job, j_updated_at := rq_now q\<rparr>)) (pending i ?d)
        (put_step (js_id s) ?g (job_steps i d))"
      using working_neutral [of job] by (simp add: stop_state_neutral gone [simplified] old [simplified] u(2) same)
    show "cl_completed_at cl = None"
      by (rule checklist_incomplete [OF ok _ s(1,2) undone]) (use job_checklist_row [OF cl] in blast)
    show "v \<in> set (rows (approvals ?d)) \<Longrightarrow> \<exists>j\<in>set (rows (jobs d)). j_id j = sa_job v" for v
      using ok unfolding workflow_ok_def refs_ok_def by simp
  qed (use workflow_okD(5) [OF ok] in \<open>simp_all add: jobs_writes jsteps_writes same step_done_def STEP_DONE_STATUSES_def\<close>)
qed

lemma redo_writes_ok:
  assumes ok: "workflow_ok d" and job: "by_id j_id i (jobs d) = Some job" "j_status job = J_REOPENED"
    and cl: "job_checklist i d = Some cl" and s: "s \<in> set (rows (jsteps d))" "js_checklist s = cl_id cl"
  shows "workflow_ok (redo_writes q a i cl s c d)"
proof -
  let ?d = "redo_writes q a i cl s c d" and ?g = "\<lambda>r. r\<lparr>js_status := S_PENDING, js_attempt := js_attempt s + 1\<rparr>"
  have same: "pending k ?d = pending k d" for k by (simp add: pending_def)
  show ?thesis
  proof (rule step_undone_ok [OF ok _ _ _ _ job(1) cl s, where g = ?g and f = "\<lambda>j. j" and h = "\<lambda>r. r\<lparr>cl_completed_at := None\<rparr>"])
    have "neutral (j_status job)" by (simp add: job(2) neutral_def)
    then show "stop_state (j_status job) (pending i ?d) (put_step (js_id s) ?g (job_steps i d))"
      using stop_stateD [OF ok job(1)] by (auto simp: stop_state_neutral in_status_put_none same)
    show "v \<in> set (rows (approvals ?d)) \<Longrightarrow> \<exists>j\<in>set (rows (jobs d)). j_id j = sa_job v" for v
      using ok unfolding workflow_ok_def refs_ok_def by simp
  qed (use workflow_okD(5) [OF ok] in \<open>simp_all add: jsteps_writes checklists_writes same step_done_def STEP_DONE_STATUSES_def\<close>)
qed


subsection \<open>New jobs, new checklists, template changes\<close>

lemma update_inserted:
  assumes "keyed key t" "\<And>n. key (mk n) = n"
  shows "update_id key (next_id t) f (t_insert mk t) = t_insert (\<lambda>n. f (mk n)) t"
proof -
  have "map (\<lambda>r. if key r = next_id t then f r else r) (rows t) = rows t"
    using keyed_fresh [OF assms(1)] by (intro map_idI) simp
  then show ?thesis by (simp add: update_id_def t_update_def t_insert_def assms(2))
qed

lemma jobs_create:
  assumes "keyed j_id (jobs d)"
  shows "\<exists>f. jobs (create_writes q a c v b d) = t_insert (\<lambda>n. f (new_job (rq_now q) c v b (au_id a) n)) (jobs d) \<and>
    (\<forall>j. j_id (f j) = j_id j \<and> j_status (f j) = j_status j \<and> j_cycle (f j) = j_cycle j \<and>
         j_closed_at (f j) = j_closed_at j \<and> j_branch (f j) = j_branch j)"
proof (cases "au_role a \<in> set ASSIGNABLE_ROLES")
  case True
  have "j_id (new_job (rq_now q) c v b (au_id a) n) = n" for n by (simp add: new_job_def)
  then show ?thesis
    by (intro exI [of _ "\<lambda>j. j\<lparr>j_assignee := Some (au_id a), j_assignment_status := A_ASSIGNED\<rparr>"])
      (simp add: create_writes_def assignAtCreation_def Let_def True jobs_upd_job update_inserted [OF assms])
next
  case False
  then show ?thesis
    by (intro exI [of _ "\<lambda>j. j"]) (simp add: create_writes_def assignAtCreation_def Let_def)
qed

lemma create_writes_ok:
  assumes ok: "workflow_ok d"
  shows "workflow_ok (create_writes q a c v b d)"
proof -
  let ?d = "create_writes q a c v b d" and ?n = "next_id (jobs d)"
  obtain f where jobs: "jobs ?d = t_insert (\<lambda>n. f (new_job (rq_now q) c v b (au_id a) n)) (jobs d)"
    and f: "\<And>j. j_id (f j) = j_id j \<and> j_status (f j) = j_status j"
    using jobs_create [OF workflow_okD(2) [OF ok]] by blast
  have mk: "j_id (f (new_job (rq_now q) c v b (au_id a) n)) = n"
    "neutral (j_status (f (new_job (rq_now q) c v b (au_id a) n)))" for n
    using f by (simp_all add: new_job_def neutral_def)
  have same: "job_steps k ?d = job_steps k d" "pending k ?d = pending k d" for k
    by (simp_all add: job_steps_def pending_def owns_def)
  have fresh: "\<not> (\<exists>j\<in>set (rows (jobs d)). j_id j = ?n)" using keyed_fresh [OF workflow_okD(2) [OF ok]] by blast
  have none: "job_steps ?n d = []" "pending ?n d = []"
    using fresh ok unfolding workflow_ok_def refs_ok_def
    by (auto simp: job_steps_def owns_def pending_def t_where_def filter_empty_conv)
  have "stops_ok ?d"
    unfolding stops_ok_def jobs set_rows_insert
    using workflow_okD(8) [OF ok] by (auto simp: same none mk stop_state_neutral in_status_def)
  moreover have "keys_ok ?d" using ok by (simp add: workflow_ok_def keys_ok_def jobs keyed_insert mk)
  moreover have "refs_ok ?d" using ok unfolding workflow_ok_def refs_ok_def by (auto simp: jobs set_rows_insert)
  moreover have "complete_ok ?d" using ok by (simp add: workflow_ok_def complete_ok_def)
  moreover have "templates_ok ?d = templates_ok d" by (rule templates_ok_cong) simp_all
  ultimately show ?thesis using ok by (simp add: workflow_ok_def)
qed

lemma insert_jsteps_rows:
  "\<exists>new. rows (fold (\<lambda>s. t_insert (new_jstep k (cs_id s))) ss t) = rows t @ new \<and> length new = length ss \<and>
     (\<forall>r\<in>set new. js_checklist r = k \<and> js_status r = S_PENDING \<and> js_attempt r = 1 \<and> js_step r \<in> cs_id ` set ss)"
proof (induction ss arbitrary: t)
  case (Cons s ss)
  let ?t = "t_insert (new_jstep k (cs_id s)) t"
  obtain new where "rows (fold (\<lambda>s. t_insert (new_jstep k (cs_id s))) ss ?t) = rows ?t @ new" "length new = length ss"
    "\<forall>r\<in>set new. js_checklist r = k \<and> js_status r = S_PENDING \<and> js_attempt r = 1 \<and> js_step r \<in> cs_id ` set ss"
    using Cons.IH [of ?t] by blast
  moreover have "rows ?t = rows t @ [new_jstep k (cs_id s) (next_id t)]" by (simp add: t_insert_def)
  moreover have "js_checklist (new_jstep k (cs_id s) n) = k \<and> js_status (new_jstep k (cs_id s) n) = S_PENDING \<and>
      js_attempt (new_jstep k (cs_id s) n) = 1 \<and> js_step (new_jstep k (cs_id s) n) = cs_id s" for n
    by (simp add: new_jstep_def)
  ultimately show ?case
    by (intro exI [of _ "new_jstep k (cs_id s) (next_id t) # new"]) (simp del: One_nat_def)
qed simp

lemma keyed_insert_jsteps: "keyed js_id t \<Longrightarrow> keyed js_id (fold (\<lambda>s. t_insert (new_jstep k (cs_id s))) ss t)"
  by (induction ss arbitrary: t) (simp_all add: keyed_insert new_jstep_def)

lemma assign_writes_ok:
  assumes ok: "workflow_ok d" and job: "by_id j_id i (jobs d) = Some job" "neutral (j_status job)"
    and none: "job_checklist i d = None"
    and v: "v \<in> set (rows (versions d))" "tv_status v \<noteq> V_DRAFT"
    and ss: "\<And>c. c \<in> set ss \<Longrightarrow> c \<in> set (rows (csteps d)) \<and> cs_version c = tv_id v" "ss \<noteq> []"
  shows "workflow_ok (assign_writes q a i t v ss d)"
proof -
  let ?d = "assign_writes q a i t v ss d" and ?k = "next_id (checklists d)"
  obtain new where new: "rows (jsteps ?d) = rows (jsteps d) @ new" "length new = length ss"
    and rs: "\<And>r. r \<in> set new \<Longrightarrow> js_checklist r = ?k \<and> js_status r = S_PENDING \<and> js_step r \<in> cs_id ` set ss"
    unfolding jsteps_assign using insert_jsteps_rows [of ?k ss "jsteps d"] by blast
  define c0 where "c0 = \<lparr>cl_id = ?k, cl_job = i, cl_version = tv_id v, cl_assigned_by = au_id a,
    cl_assigned_at = rq_now q, cl_completed_at = None\<rparr>"
  have cls: "set (rows (checklists ?d)) = insert c0 (set (rows (checklists d)))"
    unfolding checklists_assign set_rows_insert c0_def by simp
  have c0: "cl_id c0 = ?k" "cl_job c0 = i" "cl_version c0 = tv_id v" "cl_completed_at c0 = None" by (simp_all add: c0_def)
  have fresh: "cl_id c \<noteq> ?k" if "c \<in> set (rows (checklists d))" for c
    using keyed_fresh [OF workflow_okD(3) [OF ok] that] .
  have none': "cl_job c \<noteq> i" if "c \<in> set (rows (checklists d))" for c
    using none that by (auto simp: job_checklist_def t_first_None)
  have old_k: "js_checklist r \<noteq> ?k" if "r \<in> set (rows (jsteps d))" for r
    using workflow_okD(7) [OF ok that] fresh by metis
  have owns': "owns k ?d l \<longleftrightarrow> owns k d l \<or> (k = i \<and> l = ?k)" for k l
    unfolding owns_def cls using c0 by auto
  have steps: "job_steps k ?d = (if k = i then new else job_steps k d)" for k
  proof -
    have "filter (\<lambda>s. owns k ?d (js_checklist s)) (rows (jsteps d)) = filter (\<lambda>s. owns k d (js_checklist s)) (rows (jsteps d))"
      using old_k by (intro filter_cong) (auto simp: owns')
    moreover have "filter (\<lambda>s. owns k ?d (js_checklist s)) new = (if k = i then new else [])"
    proof (cases "k = i")
      case True
      then have "\<forall>s\<in>set new. owns k ?d (js_checklist s)" using rs by (simp add: owns')
      with True show ?thesis by simp
    next
      case False
      have "\<not> owns k d ?k" using fresh by (auto simp: owns_def)
      then have "\<forall>s\<in>set new. \<not> owns k ?d (js_checklist s)" using False rs by (simp add: owns')
      with False show ?thesis by simp
    qed
    moreover have "job_steps i d = []" by (rule job_steps_none [OF none])
    ultimately show ?thesis by (auto simp: job_steps_def t_where_def new(1))
  qed
  have pend: "pending k ?d = pending k d" for k by (simp add: pending_def)
  have mine: "j = job" if "j \<in> set (rows (jobs d))" "j_id j = i" for j
    using keyed_inj [OF workflow_okD(2) [OF ok] that(1)] by_id_job [OF job(1)] that(2) by metis
  have "stop_state (j_status j) (pending (j_id j) ?d) (job_steps (j_id j) ?d)" if j: "j \<in> set (rows (jobs d))" for j
  proof (cases "j_id j = i")
    case True
    have "in_status S_WAITING_APPROVAL new = []" "in_status S_REJECTED new = []"
      using rs by (auto simp: in_status_def filter_empty_conv)
    then show ?thesis using stop_stateD [OF ok job(1)] job(2) True mine [OF j True]
      by (simp add: stop_state_neutral steps pend)
  next
    case False
    then show ?thesis using workflow_okD(8) [OF ok j] by (simp add: steps pend)
  qed
  then have "stops_ok ?d" by (simp add: stops_ok_def)
  moreover have "keys_ok ?d"
    using ok by (simp add: workflow_ok_def keys_ok_def jsteps_assign checklists_assign keyed_insert_jsteps keyed_insert)
  moreover have "refs_ok ?d"
  proof -
    have r: "refs_ok d" using ok by (simp add: workflow_ok_def)
    have "\<exists>c\<in>set (rows (checklists ?d)). cl_id c = js_checklist s \<and>
        (\<exists>t\<in>set (rows (csteps d)). cs_id t = js_step s \<and> cs_version t = cl_version c)" if s: "s \<in> set (rows (jsteps ?d))" for s
    proof (cases "s \<in> set new")
      case True
      then obtain c where "c \<in> set ss" "js_step s = cs_id c" "js_checklist s = ?k" using rs by blast
      then show ?thesis using ss(1) unfolding cls by (intro bexI [of _ c0]) (auto simp: c0)
    next
      case False
      then have "s \<in> set (rows (jsteps d))" using s by (simp add: new(1))
      then show ?thesis using workflow_okD(7) [OF ok] unfolding cls by blast
    qed
    moreover have "\<forall>c\<in>set (rows (checklists ?d)). \<exists>j\<in>set (rows (jobs d)). j_id j = cl_job c"
      using r by_id_job [OF job(1)] unfolding refs_ok_def cls by (auto simp: c0)
    moreover have "\<forall>c\<in>set (rows (checklists ?d)). \<forall>c'\<in>set (rows (checklists ?d)). cl_job c = cl_job c' \<longrightarrow> c = c'"
      using r none' unfolding refs_ok_def cls by (auto simp: c0)
    moreover have "\<forall>c\<in>set (rows (checklists ?d)). \<exists>v\<in>set (rows (versions d)). tv_id v = cl_version c \<and> tv_status v \<noteq> V_DRAFT"
      using r v unfolding refs_ok_def cls by (auto simp: c0)
    moreover have "\<forall>u\<in>set (rows (approvals d)). \<exists>j\<in>set (rows (jobs d)). j_id j = sa_job u"
      using r unfolding refs_ok_def by blast
    ultimately show ?thesis unfolding refs_ok_def by simp
  qed
  moreover have "complete_ok ?d"
    unfolding complete_ok_def
  proof (intro ballI)
    fix c assume "c \<in> set (rows (checklists ?d))"
    then consider (new) "c = c0" | (old) "c \<in> set (rows (checklists d))" unfolding cls by blast
    then show "t_where (\<lambda>s. js_checklist s = cl_id c) (jsteps ?d) \<noteq> [] \<and>
      (cl_completed_at c \<noteq> None) = (\<forall>s\<in>set (rows (jsteps ?d)). js_checklist s = cl_id c \<longrightarrow> step_done s)"
    proof cases
      case new0: new
      have "new \<noteq> []" using new(2) ss(2) by auto
      then obtain r where r: "r \<in> set new" by (meson list.set_sel(1))
      then have "r \<in> set (rows (jsteps ?d))" "js_checklist r = cl_id c" "\<not> step_done r"
        using rs [OF r] by (simp_all add: new(1) new0 c0 step_done_def STEP_DONE_STATUSES_def)
      then show ?thesis using new0 by (auto simp: c0(4) t_where_def filter_empty_conv)
    next
      case old
      have "t_where (\<lambda>s. js_checklist s = cl_id c) (jsteps ?d) = t_where (\<lambda>s. js_checklist s = cl_id c) (jsteps d)"
        using fresh [OF old] rs by (auto simp: t_where_def new(1) filter_empty_conv)
      moreover have "(\<forall>s\<in>set (rows (jsteps ?d)). js_checklist s = cl_id c \<longrightarrow> step_done s)
          = (\<forall>s\<in>set (rows (jsteps d)). js_checklist s = cl_id c \<longrightarrow> step_done s)"
        using fresh [OF old] rs by (auto simp: new(1))
      ultimately show ?thesis using ok old unfolding workflow_ok_def complete_ok_def by simp
    qed
  qed
  moreover have "templates_ok ?d = templates_ok d" by (rule templates_ok_cong) simp_all
  ultimately show ?thesis using ok by (simp add: workflow_ok_def)
qed

lemma template_step_workflow_ok:
  assumes ok: "workflow_ok d" and st: "template_step lower d d'"
  shows "workflow_ok d'"
proof -
  note frame = template_step_frame [OF st]
  have t: "templates_ok d'" "published_frozen d d'" using template_step_ok [OF workflow_okD(1) [OF ok] st] by blast+
  have refs: "refs_ok d" using ok by (simp add: workflow_ok_def)
  have kept: "\<exists>v'\<in>set (rows (versions d')). tv_id v' = tv_id v \<and> tv_status v' \<noteq> V_DRAFT"
    "c \<in> set (rows (csteps d)) \<Longrightarrow> cs_version c = tv_id v \<Longrightarrow> c \<in> set (rows (csteps d'))"
    if v: "v \<in> set (rows (versions d))" "tv_status v \<noteq> V_DRAFT" for v c
  proof -
    obtain v' where v': "v' \<in> set (rows (versions d'))" "v' = v\<lparr>tv_status := tv_status v'\<rparr>"
      "tv_status v' = tv_status v \<or> tv_status v' = V_ARCHIVED"
      and steps: "loadStepsWithMeasurements (tv_id v) d' = loadStepsWithMeasurements (tv_id v) d"
      using t(2) v unfolding published_frozen_def by blast
    have "tv_id v' = tv_id v" by (subst v'(2)) simp
    moreover have "tv_status v' \<noteq> V_DRAFT" using v'(3) v(2) by auto
    ultimately show "\<exists>v'\<in>set (rows (versions d')). tv_id v' = tv_id v \<and> tv_status v' \<noteq> V_DRAFT" using v'(1) by blast
    have "steps_of_version (tv_id v) d' = steps_of_version (tv_id v) d"
      using arg_cong [OF steps, of "map fst"] by (simp add: loadStepsWithMeasurements_def comp_def)
    then have "set (steps_of_version (tv_id v) d') = set (steps_of_version (tv_id v) d)" by simp
    then show "c \<in> set (rows (csteps d'))" if "c \<in> set (rows (csteps d))" "cs_version c = tv_id v"
      using that by (auto simp: steps_of_version_def)
  qed
  have "refs_ok d'"
  proof -
    have vs: "\<exists>v\<in>set (rows (versions d')). tv_id v = cl_version c \<and> tv_status v \<noteq> V_DRAFT"
      if c: "c \<in> set (rows (checklists d))" for c
    proof -
      obtain v where "v \<in> set (rows (versions d))" "tv_id v = cl_version c" "tv_status v \<noteq> V_DRAFT"
        using refs c unfolding refs_ok_def by blast
      then show ?thesis using kept(1) by metis
    qed
    have ts: "\<exists>c\<in>set (rows (checklists d)). cl_id c = js_checklist s \<and>
        (\<exists>t\<in>set (rows (csteps d')). cs_id t = js_step s \<and> cs_version t = cl_version c)" if s: "s \<in> set (rows (jsteps d))" for s
    proof -
      obtain c u where c: "c \<in> set (rows (checklists d))" "cl_id c = js_checklist s" "u \<in> set (rows (csteps d))"
        "cs_id u = js_step s" "cs_version u = cl_version c" using workflow_okD(7) [OF ok s] by blast
      obtain v where v: "v \<in> set (rows (versions d))" "tv_id v = cl_version c" "tv_status v \<noteq> V_DRAFT"
        using refs c(1) unfolding refs_ok_def by blast
      have "u \<in> set (rows (csteps d'))" using kept(2) [OF v(1,3) c(3)] c(5) v(2) by simp
      then show ?thesis using c by blast
    qed
    show ?thesis using refs vs ts unfolding refs_ok_def frame by blast
  qed
  moreover have "stops_ok d'" using ok by (simp add: workflow_ok_def stops_ok_def job_steps_def pending_def owns_def frame)
  moreover have "keys_ok d'" using ok by (simp add: workflow_ok_def keys_ok_def frame)
  moreover have "complete_ok d'" using ok by (simp add: workflow_ok_def complete_ok_def frame)
  ultimately show ?thesis using t(1) by (simp add: workflow_ok_def)
qed


subsection \<open>Every step keeps the invariant\<close>

lemma finalizeSnapshot_same:
  assumes "finalizeSnapshot sha256 q i cy u d = Inr d'"
  shows "workflow_ok d' = workflow_ok d"
  using finalizeSnapshot_Inr [OF assms] by (elim disjE conjE exE) (rule workflow_ok_cong; simp)+

lemma job_writes_ok:
  assumes ok: "workflow_ok d" and job: "by_id j_id i (jobs d) = Some job"
  shows "workflow_ok (reassign_writes q a i t ro job d)" "workflow_ok (unassign_writes q a i ro job d)"
    "workflow_ok (installation_writes q a i inp job d)"
    "neutral (j_status job) \<Longrightarrow> workflow_ok (start_writes q a i d)"
    "neutral (j_status job) \<Longrightarrow> workflow_ok (cancel_writes q a i r job d)"
    "neutral (j_status job) \<Longrightarrow> workflow_ok (review_writes q a i rd d)"
    "neutral (j_status job) \<Longrightarrow> workflow_ok (close_writes q a i from ex rd d)"
    "neutral (j_status job) \<Longrightarrow> workflow_ok (reopen_writes q a i r job d)"
proof -
  have this_job: "j = job" if "j \<in> set (rows (jobs d))" "j_id j = i" for j
    using keyed_inj [OF workflow_okD(2) [OF ok] that(1)] by_id_job [OF job] that(2) by metis
  show "workflow_ok (reassign_writes q a i t ro job d)"
    by (rule job_change_ok [OF ok _ _ _ _ _ _ _ jobs_writes(4)]) simp_all
  show "workflow_ok (unassign_writes q a i ro job d)"
    by (rule job_change_ok [OF ok _ _ _ _ _ _ _ jobs_writes(5)]) simp_all
  show "workflow_ok (installation_writes q a i inp job d)"
    by (rule job_change_ok [OF ok _ _ _ _ _ _ _ jobs_writes(2)]) simp_all
  assume "neutral (j_status job)"
  then have n: "neutral (j_status j)" if "j \<in> set (rows (jobs d))" "j_id j = i" for j using this_job [OF that] by simp
  show "workflow_ok (start_writes q a i d)"
    by (rule job_change_ok [OF ok _ _ _ _ _ _ _ jobs_writes(1)]) (simp_all add: n, simp add: neutral_def)
  show "workflow_ok (cancel_writes q a i r job d)"
    by (rule job_change_ok [OF ok _ _ _ _ _ _ _ jobs_writes(3)]) (simp_all add: n, simp add: neutral_def)
  show "workflow_ok (review_writes q a i rd d)"
    by (rule job_change_ok [OF ok _ _ _ _ _ _ _ jobs_writes(10)]) (simp_all add: n, simp add: neutral_def)
  show "workflow_ok (close_writes q a i from ex rd d)"
    by (rule job_change_ok [OF ok _ _ _ _ _ _ _ jobs_writes(11)]) (simp_all add: n, simp add: neutral_def)
  show "workflow_ok (reopen_writes q a i r job d)"
    by (rule job_change_ok [OF ok _ _ _ _ _ _ _ jobs_writes(12)]) (simp_all add: n, simp add: neutral_def)
qed

lemma assignChecklist_ok:
  assumes ok: "workflow_ok d" and run: "assignChecklist q a i t d = Inr (x, d')"
  shows "workflow_ok d'"
proof -
  obtain job v ss where job: "by_id j_id i (jobs d) = Some job" "j_status job = J_DRAFT \<or> j_status job = J_IN_PROGRESS"
    and none: "job_checklist i d = None" and v: "t_first (\<lambda>v. tv_template v = t \<and> tv_status v = V_PUBLISHED) (versions d) = Some v"
    and ss: "ss = sort_key cs_order (t_where (\<lambda>c. cs_version c = tv_id v) (csteps d))" "ss \<noteq> []"
    and d': "d' = assign_writes q a i t v ss d"
    using assignChecklist_Inr [OF run] by blast
  have "neutral (j_status job)" using job(2) by (auto simp: neutral_def)
  moreover have "c \<in> set (rows (csteps d)) \<and> cs_version c = tv_id v" if "c \<in> set ss" for c using that ss(1) by simp
  moreover have "v \<in> set (rows (versions d))" "tv_status v \<noteq> V_DRAFT" using t_first_Some [OF v] by simp_all
  ultimately show ?thesis unfolding d' by (intro assign_writes_ok [OF ok job(1) _ none _ _ _ ss(2)])
qed

lemma completeStep_ok:
  assumes ok: "workflow_ok d" and run: "completeStep q a i s nt ms d = Inr (x, d')"
  shows "workflow_ok d'"
proof -
  obtain job cl u c stored d1 where c: "completable a i s ms d = Inr (job, cl, u, c, stored)"
    and d1: "d1 = fold (insert_smeas (js_id u) (js_attempt u)) stored d"
    and d': "if cs_is_stop c then d' = submit_stop q a job u c nt stored d1 else d' = finish_step q a job cl u c nt stored d1"
    using completeStep_Inr [OF run] by blast
  have "workflow_ok (submit_stop q a job u c nt stored d1)" "workflow_ok (finish_step q a job cl u c nt stored d1)"
    unfolding d1 by (rule submit_stop_ok [OF ok c] finish_step_ok [OF ok c]; simp)+
  then show ?thesis using d' by (simp split: if_splits)
qed

lemma rejectStop_ok:
  assumes ok: "workflow_ok d" and run: "rejectStop q a i r d = Inr (x, d')"
  shows "workflow_ok d'"
proof -
  obtain job ap s c d1 rk l where "lockPendingStop a i d = Inr (job, ap, s, c)" "d1 = reject_marks q a i r ap s d"
    and d': "d' = d1\<lparr>risks := rk, audits := l\<rparr>" using rejectStop_Inr [OF run] by blast
  then have "workflow_ok d1" using reject_marks_ok [OF ok] by simp
  then show ?thesis unfolding d' by (subst workflow_ok_cong) simp_all
qed

lemma redoStep_ok:
  assumes ok: "workflow_ok d" and run: "redoStep q a i s d = Inr (x, d')"
  shows "workflow_ok d'"
proof -
  obtain job cl u c where job: "by_id j_id i (jobs d) = Some job" "j_status job = J_REOPENED" "job_checklist i d = Some cl"
    and j: "joined_step (cl_id cl) s d = Some (u, c)" and d': "d' = redo_writes q a i cl u c d" using redoStep_Inr [OF run] by blast
  show ?thesis unfolding d' by (rule redo_writes_ok [OF ok job joined_step_row(1,3) [OF j]])
qed

lemma closing_ok:
  assumes ok: "workflow_ok d"
  shows "closeJob_tx sha256 q a i d = Inr (x, d') \<Longrightarrow> workflow_ok d'"
    "confirmQuality_tx sha256 q a i d = Inr (x, d') \<Longrightarrow> workflow_ok d'"
proof -
  assume "closeJob_tx sha256 q a i d = Inr (x, d')"
  then obtain job where job: "by_id j_id i (jobs d) = Some job" and
    "j_status job = J_REOPENED \<and> d' = review_writes q a i (validateJobCompletion i d) d \<or>
      j_status job = J_IN_PROGRESS \<and> finalizeSnapshot sha256 q i (j_cycle job) (au_id a)
        (close_writes q a i J_IN_PROGRESS [] (validateJobCompletion i d) d) = Inr d'"
    using closeJob_tx_Inr by blast
  then show "workflow_ok d'"
    using job_writes_ok(6,7) [OF ok job] finalizeSnapshot_same by (elim disjE conjE) (auto simp: neutral_def)
next
  assume "confirmQuality_tx sha256 q a i d = Inr (x, d')"
  then obtain job where job: "by_id j_id i (jobs d) = Some job" and "j_status job = J_QUALITY_REVIEW"
    "finalizeSnapshot sha256 q i (j_cycle job) (au_id a)
       (close_writes q a i J_QUALITY_REVIEW [(''qualityConfirmed'', JBool True)] (validateJobCompletion i d) d) = Inr d'"
    using confirmQuality_tx_Inr by blast
  then show "workflow_ok d'" using job_writes_ok(7) [OF ok job] finalizeSnapshot_same by (auto simp: neutral_def)
qed

lemma job_requests_ok:
  assumes ok: "workflow_ok d"
  shows "startJob q a i d = Inr (x, d') \<Longrightarrow> workflow_ok d'"
    "updateInstallation q a i inp d = Inr (x, d') \<Longrightarrow> workflow_ok d'"
    "cancelJob q a i r d = Inr (x, d') \<Longrightarrow> workflow_ok d'"
    "reassign q a i t ro d = Inr (x, d') \<Longrightarrow> workflow_ok d'"
    "unassign q a i ro d = Inr (x, d') \<Longrightarrow> workflow_ok d'"
    "reopenJob q a i r d = Inr (x, d') \<Longrightarrow> workflow_ok d'"
    "reworkStop q a i d = Inr (x, d') \<Longrightarrow> workflow_ok d'"
    "approveStop q a i d = Inr (x, d') \<Longrightarrow> workflow_ok d'"
    "createJob q a c v d = Inr (n, d') \<Longrightarrow> workflow_ok d'"
  using job_writes_ok [OF ok] rework_writes_ok [OF ok] approve_writes_ok [OF ok] create_writes_ok [OF ok] ok
  by (auto simp: neutral_def dest!: startJob_Inr updateInstallation_Inr cancelJob_Inr reassign_Inr unassign_Inr
      reopenJob_Inr reworkStop_Inr approveStop_Inr createJob_Inr)

lemma step_workflow_ok:
  assumes ok: "workflow_ok d" and st: "step sha256 lower d d'"
  shows "workflow_ok d'"
  using st
proof cases
  case st_template then show ?thesis by (rule template_step_workflow_ok [OF ok])
qed (auto dest: only_changes simp: workflow_ok_only ok
    intro: job_requests_ok [OF ok] assignChecklist_ok [OF ok] completeStep_ok [OF ok] rejectStop_ok [OF ok]
      redoStep_ok [OF ok] closing_ok [OF ok])

lemma fresh_workflow_ok: "fresh_db d \<Longrightarrow> workflow_ok d"
  using no_templates_ok
  by (auto simp: fresh_db_def workflow_ok_def keys_ok_def refs_ok_def complete_ok_def stops_ok_def keyed_empty)
    (simp_all add: empty_tbl_def)

interpretation flow: inductive_invariant fresh_db "step sha256 lower" workflow_ok
  for sha256 lower :: "string \<Rightarrow> string"
  by unfold_locales (auto intro: fresh_workflow_ok dest: step_workflow_ok)

end
