(* ===== verification/SampleRun.thy ===== *)
theory SampleRun
  imports Workflow
begin

section \<open>A run of the workflow\<close>

text \<open>
  One job from the template to completion, its reopening and the redo of a step, and the other
  branch in which its STOP is rejected. The run is evaluated once (\<open>sample_run\<close>); the theories of
  the properties apply their theorems to its states.
\<close>

subsection \<open>Evaluating a sequence of transactions\<close>

definition act :: "('d, 'a) tx \<Rightarrow> 'd \<Rightarrow> 'd option" where
  "act h d = (case h d of Inl _ \<Rightarrow> None | Inr (_, d') \<Rightarrow> Some d')"

definition chk :: "('d \<Rightarrow> bool) \<Rightarrow> 'd \<Rightarrow> 'd option" where
  "chk P d = (if P d then Some d else None)"

fun runs :: "('d \<Rightarrow> 'd option) list \<Rightarrow> 'd \<Rightarrow> bool" where
  "runs [] d = True"
| "runs (f # fs) d = (case f d of None \<Rightarrow> False | Some d' \<Rightarrow> runs fs d')"

lemma runs_act: "runs (act h # fs) d \<longleftrightarrow> (\<exists>x. h d = Inr (x, committed h d)) \<and> runs fs (committed h d)"
  by (cases "h d") (auto simp: act_def committed_def transaction_def split: prod.splits)

lemma runs_chk: "runs (chk P # fs) d \<longleftrightarrow> P d \<and> runs fs d"
  by (simp add: chk_def)

subsection \<open>The people and the seeded tables\<close>

definition person :: "nat \<Rightarrow> role \<Rightarrow> user_row" where
  "person i r = \<lparr>u_id = i, u_first_name = ''Ali'', u_last_name = ''Vali'', u_phone = ''+998901234567'',
     u_region = ''Tashkent'', u_branch = (if r \<in> {USTA, MASTER} then Some 1 else None), u_role = r,
     u_status = U_ACTIVE, u_must_change = False, u_deleted = False\<rparr>"

definition acting :: "nat \<Rightarrow> role \<Rightarrow> auth_user" where
  "acting i r = \<lparr>au_id = i, au_role = r, au_branch = (if r \<in> {USTA, MASTER} then Some 1 else None),
     au_status = U_ACTIVE, au_must_change = False\<rparr>"

definition usta :: auth_user where "usta = acting 1 USTA"
definition master :: auth_user where "master = acting 2 MASTER"
definition sifat :: auth_user where "sifat = acting 3 SIFAT"

definition seeded :: db where
  "seeded = empty_db\<lparr>
     users := t_insert (\<lambda>i. person i SIFAT) (t_insert (\<lambda>i. person i MASTER) (t_insert (\<lambda>i. person i USTA) empty_tbl)),
     branches := t_insert (\<lambda>i. \<lparr>b_id = i, b_name = ''Chilonzor'', b_region = ''Tashkent'', b_address = None,
       b_phone = None, b_active = True\<rparr>) empty_tbl,
     customers := t_insert (\<lambda>i. \<lparr>cu_id = i, cu_name = ''Karim'', cu_phone = ''+998907654321'',
       cu_created_by = 1, cu_created_at = 0, cu_deleted = False\<rparr>) empty_tbl,
     vehicles := t_insert (\<lambda>i. \<lparr>ve_id = i, ve_customer = 1, ve_plate = ''01A123BC'', ve_vin = None, ve_make = ''Chevrolet'',
       ve_model = ''Cobalt'', ve_year = Some 2020, ve_engine = None, ve_mileage = None, ve_created_by = 1,
       ve_created_at = 0, ve_deleted = False\<rparr>) empty_tbl,
     matrices := t_insert (\<lambda>i. \<lparr>mx_id = i, mx_version = ''v1'', mx_definition = V1_DEFINITION, mx_status = M_ACTIVE,
       mx_approved_by = Some 3, mx_approved_at = Some 0, mx_rationale = None, mx_superseded_by = None\<rparr>) empty_tbl\<rparr>"

text \<open>Two steps: a STOP with a photo and a measurement, and an ordinary step with a photo.\<close>

definition seal_step :: step_input where
  "seal_step = \<lparr>si_name = ''Seal'', si_description = None, si_requirements = None, si_is_stop = True,
     si_risk_weight = 5, si_required_photos = 1, si_measurements = [\<lparr>mi_name = ''Pressure'', mi_unit = ''bar'',
     mi_min = Some 1, mi_max = Some (5/2), mi_expected = None, mi_required = True\<rparr>]\<rparr>"

definition test_step :: step_input where
  "test_step = \<lparr>si_name = ''Test'', si_description = None, si_requirements = None, si_is_stop = False,
     si_risk_weight = 1, si_required_photos = 1, si_measurements = []\<rparr>"

text \<open>A hash to evaluate with.\<close>

definition len_hash :: "string \<Rightarrow> string" where "len_hash s = nat_str (length s)"

subsection \<open>The states\<close>

definition photo :: "nat \<Rightarrow> nat \<Rightarrow> (db, nat \<times> nat) tx" where
  "photo t s = registerPhoto (at_time t) usta 1 s ''photos/1/a.png'' ''a.png'' Png 100 ''h''"

definition photo_ready :: "nat \<Rightarrow> nat \<Rightarrow> nat \<Rightarrow> nat \<Rightarrow> (db, bool) tx" where
  "photo_ready t s p attempt = finalizePhoto (at_time t) usta 1 s p attempt 100 ''h''"

definition d_template :: db where "d_template = committed (createTemplate id (at_time 1) template_admin ''GBO 4'' None) seeded"
definition d_seal :: db where "d_seal = committed (addStep (at_time 2) template_admin 1 1 seal_step) d_template"
definition d_test :: db where "d_test = committed (addStep (at_time 3) template_admin 1 1 test_step) d_seal"
definition d_published :: db where "d_published = committed (publishVersion (at_time 4) template_admin 1 1) d_test"
definition d_created :: db where "d_created = committed (createJob (at_time 5) usta 1 1) d_published"
definition d_started :: db where "d_started = committed (startJob (at_time 6) usta 1) d_created"
definition d_assigned :: db where "d_assigned = committed (assignChecklist (at_time 7) usta 1 1) d_started"
definition d_photo :: db where "d_photo = committed (photo 8 1) d_assigned"
definition d_ready :: db where "d_ready = committed (photo_ready 9 1 1 1) d_photo"
definition d_waiting :: db where "d_waiting = committed (completeStep (at_time 10) usta 1 1 None [(1, 3/2)]) d_ready"
definition d_approved :: db where "d_approved = committed (approveStop (at_time 11) master 1) d_waiting"
definition d_photo2 :: db where "d_photo2 = committed (photo 12 2) d_approved"
definition d_ready2 :: db where "d_ready2 = committed (photo_ready 13 2 2 1) d_photo2"
definition d_done :: db where "d_done = committed (completeStep (at_time 14) usta 1 2 None []) d_ready2"
definition d_rejected :: db where "d_rejected = committed (rejectStop (at_time 11) master 1 ''bad seal'') d_waiting"
definition d_rework :: db where "d_rework = committed (reworkStop (at_time 12) usta 1) d_rejected"

lemmas sample_defs = d_template_def d_seal_def d_test_def d_published_def d_created_def d_started_def d_assigned_def
  d_photo_def d_ready_def d_waiting_def d_approved_def d_photo2_def d_ready2_def d_done_def
  d_rejected_def d_rework_def

definition job_in :: "job_status \<Rightarrow> nat \<Rightarrow> db \<Rightarrow> bool" where
  "job_in st i d = (case by_id j_id i (jobs d) of None \<Rightarrow> False | Some j \<Rightarrow> j_status j = st)"

lemma sample_run:
  "runs [act (createTemplate id (at_time 1) template_admin ''GBO 4'' None),
     act (addStep (at_time 2) template_admin 1 1 seal_step),
     act (addStep (at_time 3) template_admin 1 1 test_step),
     act (publishVersion (at_time 4) template_admin 1 1),
     act (createJob (at_time 5) usta 1 1),
     act (startJob (at_time 6) usta 1),
     act (assignChecklist (at_time 7) usta 1 1),
     act (photo 8 1), act (photo_ready 9 1 1 1),
     act (completeStep (at_time 10) usta 1 1 None [(1, 3/2)]), chk (job_in J_WAITING_STOP_APPROVAL 1),
     chk (runs [act (rejectStop (at_time 11) master 1 ''bad seal''), chk (job_in J_REJECTED 1),
       act (reworkStop (at_time 12) usta 1), chk (job_in J_IN_PROGRESS 1)]),
     act (approveStop (at_time 11) master 1), chk (job_in J_IN_PROGRESS 1),
     act (photo 12 2), act (photo_ready 13 2 2 1),
     act (completeStep (at_time 14) usta 1 2 None [])] seeded"
  by code_simp

lemma sample_inputs: "createTemplateSchema ''GBO 4'' None" "stepSchema seal_step" "stepSchema test_step"
  "can (au_role template_admin) Templates_manage" "can (au_role usta) Jobs_create"
  "can (au_role usta) Checklist_execute" "can (au_role master) Stops_approve"
  by code_simp+

lemma sample_commits:
  "\<exists>x. createTemplate id (at_time 1) template_admin ''GBO 4'' None seeded = Inr (x, d_template)"
  "\<exists>x. addStep (at_time 2) template_admin 1 1 seal_step d_template = Inr (x, d_seal)"
  "\<exists>x. addStep (at_time 3) template_admin 1 1 test_step d_seal = Inr (x, d_test)"
  "\<exists>x. publishVersion (at_time 4) template_admin 1 1 d_test = Inr (x, d_published)"
  "\<exists>x. createJob (at_time 5) usta 1 1 d_published = Inr (x, d_created)"
  "\<exists>x. startJob (at_time 6) usta 1 d_created = Inr (x, d_started)"
  "\<exists>x. assignChecklist (at_time 7) usta 1 1 d_started = Inr (x, d_assigned)"
  "\<exists>x. photo 8 1 d_assigned = Inr (x, d_photo)"
  "\<exists>x. photo_ready 9 1 1 1 d_photo = Inr (x, d_ready)"
  "\<exists>x. completeStep (at_time 10) usta 1 1 None [(1, 3/2)] d_ready = Inr (x, d_waiting)"
  "\<exists>x. rejectStop (at_time 11) master 1 ''bad seal'' d_waiting = Inr (x, d_rejected)"
  "\<exists>x. reworkStop (at_time 12) usta 1 d_rejected = Inr (x, d_rework)"
  "\<exists>x. approveStop (at_time 11) master 1 d_waiting = Inr (x, d_approved)"
  "\<exists>x. photo 12 2 d_approved = Inr (x, d_photo2)"
  "\<exists>x. photo_ready 13 2 2 1 d_photo2 = Inr (x, d_ready2)"
  "\<exists>x. completeStep (at_time 14) usta 1 2 None [] d_ready2 = Inr (x, d_done)"
  "job_in J_WAITING_STOP_APPROVAL 1 d_waiting" "job_in J_REJECTED 1 d_rejected" "job_in J_IN_PROGRESS 1 d_rework"
  "job_in J_IN_PROGRESS 1 d_approved"
  using sample_run unfolding runs_act runs_chk sample_defs [symmetric] by - (elim conjE, assumption)+

text \<open>Each transaction of the run is a step of the transition system.\<close>

lemma sample_steps:
  "step sha256 id seeded d_template" "step sha256 id d_template d_seal" "step sha256 id d_seal d_test"
  "step sha256 id d_test d_published"
  using sample_commits(1-4) sample_inputs(1-4) by (blast intro: st_template ts_create ts_add ts_publish)+

lemma sample_job_steps:
  "step sha256 id d_published d_created" "step sha256 id d_created d_started" "step sha256 id d_started d_assigned"
  by (rule exE [OF sample_commits(5)], erule st_create [OF sample_inputs(5)],
      rule exE [OF sample_commits(6)], erule st_start [OF sample_inputs(5)],
      rule exE [OF sample_commits(7)], erule st_assign [OF sample_inputs(6)])

lemma photo_steps:
  "\<exists>x. photo t s d = Inr (x, d') \<Longrightarrow> step sha256 id d d'"
  "\<exists>x. photo_ready t s p n d = Inr (x, d') \<Longrightarrow> step sha256 id d d'"
  unfolding photo_def photo_ready_def
  by (erule exE, erule st_photo_register [OF sample_inputs(6)]) (erule exE, erule st_photo_finalize [OF sample_inputs(6)])

lemmas sample_photo_steps = sample_commits(8) [THEN photo_steps(1)] sample_commits(9) [THEN photo_steps(2)]
  sample_commits(14) [THEN photo_steps(1)] sample_commits(15) [THEN photo_steps(2)]

lemma sample_stop_steps:
  "step sha256 id d_ready d_waiting" "step sha256 id d_ready2 d_done" "step sha256 id d_waiting d_rejected"
  "step sha256 id d_rejected d_rework" "step sha256 id d_waiting d_approved"
  by (rule exE [OF sample_commits(10)], erule st_complete_step [OF sample_inputs(6)],
      rule exE [OF sample_commits(16)], erule st_complete_step [OF sample_inputs(6)],
      rule exE [OF sample_commits(11)], erule st_reject [OF sample_inputs(7)],
      rule exE [OF sample_commits(12)], erule st_rework [OF sample_inputs(6)],
      rule exE [OF sample_commits(13)], erule st_approve [OF sample_inputs(7)])

lemmas sample_path = sample_steps sample_job_steps sample_photo_steps sample_stop_steps

lemma sample_reachable:
  "(step sha256 id)\<^sup>*\<^sup>* seeded d_waiting" "(step sha256 id)\<^sup>*\<^sup>* d_waiting d_rejected"
  "(step sha256 id)\<^sup>*\<^sup>* d_rejected d_rework" "(step sha256 id)\<^sup>*\<^sup>* d_waiting d_done"
proof -
  show "(step sha256 id)\<^sup>*\<^sup>* seeded d_waiting"
    by (rule rtranclp.rtrancl_refl | rule converse_rtranclp_into_rtranclp, rule sample_path)+
  show "(step sha256 id)\<^sup>*\<^sup>* d_waiting d_rejected" "(step sha256 id)\<^sup>*\<^sup>* d_rejected d_rework"
    by (rule r_into_rtranclp, rule sample_path)+
  have "(step sha256 id)\<^sup>*\<^sup>* d_approved d_done"
    by (rule rtranclp.rtrancl_refl | rule converse_rtranclp_into_rtranclp, rule sample_path)+
  then show "(step sha256 id)\<^sup>*\<^sup>* d_waiting d_done"
    by (rule converse_rtranclp_into_rtranclp [of "step sha256 id", OF sample_stop_steps(5)])
qed

lemma seeded_fresh: "fresh_db seeded"
  by code_simp

end
