(* ===== verification/AuditTrail.thy ===== *)
theory AuditTrail
  imports SampleRun
begin

section \<open>Every change leaves an audit record\<close>

text \<open>
  A committed transaction either changes nothing or appends at least one record to the audit
  log; no transaction removes or rewrites a record.
\<close>

definition audited :: "db \<Rightarrow> db \<Rightarrow> bool" where
  "audited d d' \<longleftrightarrow> (\<exists>es. audits d' = audits d @ es \<and> (es = [] \<longrightarrow> d' = d))"

lemma audited_refl [simp]: "audited d d"
  by (simp add: audited_def)

lemma audited_log:
  assumes "\<exists>es. audits e = audits d @ es"
  shows "audited d (logAudit q u ac et ei old new e)"
  using assms by (auto simp: audited_def audits_logAudit_eq)

lemma audited_log_same: "audits e = audits d \<Longrightarrow> audited d (logAudit q u ac et ei old new e)"
  by (rule audited_log) simp

lemma audited_trans:
  assumes "audited d e" "audited e f"
  shows "audited d f"
proof -
  obtain xs ys where "audits e = audits d @ xs" "xs = [] \<longrightarrow> e = d" "audits f = audits e @ ys" "ys = [] \<longrightarrow> f = e"
    using assms unfolding audited_def by blast
  then have "audits f = audits d @ (xs @ ys)" "xs @ ys = [] \<longrightarrow> f = d" by auto
  then show ?thesis unfolding audited_def by blast
qed

lemma audited_prefix: "audited d e \<Longrightarrow> \<exists>es. audits e = audits d @ es"
  by (auto simp: audited_def)

text \<open>The write functions.\<close>

lemma audited_writes:
  "audited d (reassign_writes q a i t ro job d)" "audited d (unassign_writes q a i ro job d)"
  "audited d (create_writes q a c v b d)" "audited d (start_writes q a i d)"
  "audited d (installation_writes q a i inp job d)" "audited d (cancel_writes q a i r job d)"
  "audited d (assign_writes q a i t ver ss d)" "audited d (redo_writes q a i cl s cs d)"
  "audited d (rework_writes q a i job s cs d)" "audited d (review_writes q a i rd d)"
  "audited d (close_writes q a i from ex rd d)" "audited d (retire_writes q a vn m d)"
  unfolding reassign_writes_def unassign_writes_def create_writes_def start_writes_def installation_writes_def
    cancel_writes_def assign_writes_def redo_writes_def rework_writes_def review_writes_def close_writes_def
    retire_writes_def Let_def
  by (rule audited_log_same; simp add: assignAtCreation_def complete_job_def)+

lemma audited_step_writes:
  assumes "audits e = audits d"
  shows "audited d (submit_stop q a job s c note st e)" "audited d (finish_step q a job cl s c note st e)"
  unfolding submit_stop_def finish_step_def Let_def by (rule audited_log_same; simp add: assms)+

lemma audited_resolve_all: "audited d (fold (resolve_one q u ap) rs d)"
proof (induction rs arbitrary: d)
  case (Cons r rs)
  have "audited d (resolve_one q u ap r d)" unfolding resolve_one_def by (rule audited_log_same) simp
  with Cons.IH show ?case by (auto intro: audited_trans)
qed simp

lemma audited_approve: "audited d (approve_writes q a i job ap s c d)"
proof -
  have "\<exists>es. audits (resolveStopRisk q i cy st u k d) = audits d @ es" for cy st u k
    unfolding resolveStopRisk_def by (rule audited_prefix [OF audited_resolve_all])
  then show ?thesis unfolding approve_writes_def Let_def by (intro audited_log) simp
qed

lemma audited_reopen: "audited d (reopen_writes q a i r job d)"
  unfolding reopen_writes_def Let_def by (auto simp: audited_def audits_logAudit_eq)

lemma audited_link: "linkStopRejectionRisk q i cy s att u nm r e = Inr d' \<Longrightarrow> audited e d'"
  unfolding linkStopRejectionRisk_def by (auto simp: insertRisk_def flow_iffs audited_def audits_logAudit_eq split: if_splits)

lemma audited_finalize: "finalizeSnapshot sha256 q i cy u e = Inr d' \<Longrightarrow> audited e d'"
  unfolding finalizeSnapshot_def by (auto simp: flow_iffs audited_def audits_logAudit_eq split: if_splits)

text \<open>The handlers.\<close>

lemma audits_insert_smeas_all: "audits (fold (insert_smeas s att) mvs d) = audits d"
  by simp

lemma audited_completeStep: "completeStep q a i s note ms d = Inr (x, d') \<Longrightarrow> audited d d'"
  by (auto dest!: completeStep_Inr intro!: audited_step_writes split: if_splits)

lemma audited_rejectStop:
  assumes "rejectStop q a i r d = Inr (x, d')"
  shows "audited d d'"
proof -
  from assms obtain job :: job_row and ap s c e where
    "linkStopRejectionRisk q i (j_cycle job) (js_id s) (js_attempt s) (au_id a) (cs_name c) r
       (reject_marks q a i r ap s d) = Inr e" and d': "d' = reject_log q a i r ap c e"
    unfolding rejectStop_def by (auto simp: andThen_Inr_iff)
  then have "\<exists>es. audits e = audits (reject_marks q a i r ap s d) @ es" by (intro audited_prefix audited_link)
  then show ?thesis unfolding d' reject_log_def by (intro audited_log) (simp add: reject_marks_def)
qed

lemma audited_close:
  "closeJob_tx sha256 q a i d = Inr (x, d') \<Longrightarrow> audited d d'"
  "confirmQuality_tx sha256 q a i d = Inr (x, d') \<Longrightarrow> audited d d'"
  by (auto dest!: closeJob_tx_Inr confirmQuality_tx_Inr audited_finalize intro: audited_writes audited_trans)

lemma audited_risks:
  "createRisk q a i ri d = Inr (n, d') \<Longrightarrow> audited d d'"
  "resolveRisk q a k note mi d = Inr (u, d') \<Longrightarrow> audited d d'"
  "reviseRisk q a k rv d = Inr (n, d') \<Longrightarrow> audited d d'"
  "overrideRisk q a k r d = Inr (u, d') \<Longrightarrow> audited d d'"
  by (auto simp: createRisk_def resolveRisk_def reviseRisk_def overrideRisk_def insertRisk_def flow_iffs Let_def
      intro!: audited_log_same split: prod.splits)

lemma audited_activate:
  assumes "activateMatrix q a v r d = Inr (x, d')"
  shows "audited d d'"
proof -
  have fold: "audited e (fold (retire_other q a t) ms e)" for t ms e
  proof (induction ms arbitrary: e)
    case (Cons m ms)
    have "audited e (retire_other q a t m e)" unfolding retire_other_def by (rule audited_log_same) simp
    with Cons.IH show ?case by (auto intro: audited_trans)
  qed simp
  from assms obtain t ms f ac et ei old new where "d' = logAudit q (au_id a) ac et ei old new
      ((fold (retire_other q a t) ms d)\<lparr>matrices := f\<rparr>)"
    unfolding activateMatrix_def flow_iffs throw_if_Inr_iff Let_def by auto
  then show ?thesis using audited_prefix [OF fold [of d t ms]] by (auto intro: audited_log)
qed

lemma audited_matrices:
  "createMatrixVersion q a vn def d = Inr (w, d') \<Longrightarrow> audited d d'"
  "retireMatrix q a vn d = Inr (u, d') \<Longrightarrow> audited d d'"
  by (auto simp: createMatrixVersion_def retireMatrix_def flow_iffs Let_def
      intro: audited_log_same audited_writes split: if_splits)

lemma audited_photos:
  "registerPhoto q a i s key nm m sz h d = Inr (pr, d') \<Longrightarrow> audited d d'"
  "finalizePhoto q a i s p att sz h d = Inr (b, d') \<Longrightarrow> audited d d'"
  "markPhotoFailed q a p r d = Inr (u, d') \<Longrightarrow> audited d d'"
  by (auto simp: registerPhoto_def finalizePhoto_def markPhotoFailed_def flow_iffs Let_def
      intro!: audited_log_same split: option.splits if_splits)

lemma audited_signatures:
  "registerSignature sha256 q a i key m sz h dig d = Inr (pr, d') \<Longrightarrow> audited d d'"
  "finalizeSignature q a i s cy h d = Inr (b, d') \<Longrightarrow> audited d d'"
  "markSignatureFailed q a i s r d = Inr (u, d') \<Longrightarrow> audited d d'"
  by (auto simp: registerSignature_def finalizeSignature_def markSignatureFailed_def flow_iffs Let_def
      audits_logAudit_eq intro!: audited_log split: option.splits if_splits)

lemma audited_templates:
  assumes "template_step lower d d'"
  shows "audited d d'"
  using assms
  by cases
    (auto simp: createTemplate_def createVersion_def addStep_def updateStep_def deleteStep_def moveStep_def
      publishVersion_def archiveVersion_def deleteTemplate_def step_changed_def flow_iffs Let_def audits_logAudit_eq
      intro!: audited_log split: option.splits)

lemma step_audited:
  assumes "step sha256 lower d d'"
  shows "outside d d' \<or> audited d d'"
  using assms
proof cases
  case st_outside then show ?thesis by simp
next
  case st_template then show ?thesis using audited_templates by blast
qed (auto dest!: createJob_Inr startJob_Inr updateInstallation_Inr cancelJob_Inr reassign_Inr unassign_Inr
      assignChecklist_Inr redoStep_Inr approveStop_Inr reworkStop_Inr reopenJob_Inr
    dest: audited_completeStep audited_rejectStop audited_close audited_risks audited_activate audited_matrices
      audited_photos audited_signatures
    intro: audited_writes audited_approve audited_reopen)


text \<open>Over whole runs: the log only grows, whatever the start.\<close>

interpretation log_life: progress_order "\<lambda>_. True" "step sha256 lower" "\<lambda>_. True" "\<lambda>d d'. prefix (audits d) (audits d')"
  for sha256 lower :: "string \<Rightarrow> string"
proof
  show "prefix (audits d) (audits d')" if "step sha256 lower d d'" for d d'
    using step_audited [OF that] by (auto simp: audited_def outside_def)
qed (auto intro: prefix_order.trans)



end
