(* ===== verification/StopGuarantees.thy ===== *)
theory StopGuarantees
  imports StopInvariant AuditTrail
begin

section \<open>What the STOP protocol guarantees\<close>

text \<open>
  Consequences of \<open>workflow_ok\<close> for every reachable state: the three records of a STOP agree, a
  waiting STOP can be decided, and the completion mark of a checklist is right.
\<close>

lemma job_inE:
  assumes "job_in st i d"
  obtains j where "by_id j_id i (jobs d) = Some j" "j_status j = st" "j \<in> set (rows (jobs d))" "j_id j = i"
  using assms by_id_Some by (fastforce simp: job_in_def split: option.splits)

lemma t_first_where: "t_first P t = (case t_where P t of [] \<Rightarrow> None | r # _ \<Rightarrow> Some r)"
proof -
  have "List.find P xs = (case filter P xs of [] \<Rightarrow> None | x # _ \<Rightarrow> Some x)" for xs by (induction xs) auto
  then show ?thesis by (simp add: t_first_def t_where_def)
qed

lemma step_with_def:
  assumes "workflow_ok d" "s \<in> set (rows (jsteps d))"
  shows "\<exists>c. with_def d s = Some (s, c)"
proof -
  obtain t where "t \<in> set (rows (csteps d))" "cs_id t = js_step s" using workflow_okD(7) [OF assms] by blast
  then have "by_id cs_id (js_step s) (csteps d) \<noteq> None" by (auto simp: by_id_None)
  then show ?thesis by (auto simp: with_def_def)
qed

lemma lock_succeeds:
  assumes ok: "workflow_ok d" and job: "by_id j_id i (jobs d) = Some job" "in_scope a (j_branch job)"
    and st: "j_status job = J_WAITING_STOP_APPROVAL"
  shows "\<exists>ap s c. lockPendingStop a i d = Inr (job, ap, s, c)"
proof -
  obtain p u where p: "pending i d = [p]" "in_status S_WAITING_APPROVAL (job_steps i d) = [u]" "sa_job_step p = js_id u"
    using stop_stateD [OF ok job(1)] st by (auto simp: stop_state_def)
  have u: "u \<in> set (rows (jsteps d))" "js_status u = S_WAITING_APPROVAL"
    using in_status_mem [OF p(2)] job_steps_owned [OF ok] by blast+
  obtain c where "with_def d u = Some (u, c)" using step_with_def [OF ok u(1)] by blast
  moreover have "by_id js_id (sa_job_step p) (jsteps d) = Some u"
    using by_id_member [OF workflow_okD(4) [OF ok] u(1)] p(3) by simp
  moreover have "t_first (\<lambda>r. sa_job r = i \<and> sa_status r = AP_PENDING) (approvals d) = Some p"
    using p(1) by (simp add: pending_def t_first_where)
  ultimately show ?thesis using job st u(2) by (simp add: lockPendingStop_def loadScopedJob_def need_def throw_if_def)
qed

lemma rework_found:
  assumes ok: "workflow_ok d" and job: "by_id j_id i (jobs d) = Some job" and st: "j_status job = J_REJECTED"
  shows "\<exists>cl s c. job_checklist i d = Some cl \<and> rejected_step (cl_id cl) d = Some (s, c)"
proof -
  obtain u where u: "in_status S_REJECTED (job_steps i d) = [u]"
    using stop_stateD [OF ok job] st by (auto simp: stop_state_def)
  have mem: "u \<in> set (job_steps i d)" "js_status u = S_REJECTED" using in_status_mem [OF u] by blast+
  obtain cl where cl: "job_checklist i d = Some cl" "js_checklist u = cl_id cl" and row: "u \<in> set (rows (jsteps d))"
    using job_steps_owned [OF ok mem(1)] by blast
  obtain c where "with_def d u = Some (u, c)" using step_with_def [OF ok row] by blast
  then have "(u, c) \<in> set (joined_steps (cl_id cl) d)"
    using row cl(2) by (force simp: joined_steps_def map_filter_def)
  then have "rejected_step (cl_id cl) d \<noteq> None"
    using mem(2) by (auto simp: rejected_step_def find_None_iff)
  then show ?thesis using cl(1) by auto
qed

text \<open>C4: In every reachable state the job status, the approvals and the step statuses agree: a
  job waits for a STOP decision exactly when it has a pending approval, it never has two, the
  waiting steps of the job are as many as its pending approvals, and it has a rejected step,
  exactly one, only while its own status is REJECTED.\<close>

theorem stop_protocol:
  assumes start: "fresh_db d0" and run: "(step sha256 lower)\<^sup>*\<^sup>* d0 d" and j: "j \<in> set (rows (jobs d))"
  shows "(j_status j = J_WAITING_STOP_APPROVAL \<longleftrightarrow> pending (j_id j) d \<noteq> []) \<and>
    length (pending (j_id j) d) \<le> 1 \<and>
    length (in_status S_WAITING_APPROVAL (job_steps (j_id j) d)) = length (pending (j_id j) d) \<and>
    length (in_status S_REJECTED (job_steps (j_id j) d)) = (if j_status j = J_REJECTED then 1 else 0)"
proof -
  have "workflow_ok d" by (rule flow.inv_reachable [OF start run])
  from workflow_okD(8) [OF this j] show ?thesis by (auto simp: stop_state_def split: if_splits)
qed

theorem stop_protocol_witness:
  "length (pending 1 d_waiting) = 1 \<and> length (in_status S_REJECTED (job_steps 1 d_rejected)) = 1"
proof -
  obtain j where j: "j \<in> set (rows (jobs d_waiting))" "j_id j = 1" "j_status j = J_WAITING_STOP_APPROVAL"
    by (rule job_inE [OF sample_commits(17)])
  obtain k where k: "k \<in> set (rows (jobs d_rejected))" "j_id k = 1" "j_status k = J_REJECTED"
    by (rule job_inE [OF sample_commits(18)])
  have "pending 1 d_waiting \<noteq> []" "length (pending 1 d_waiting) \<le> 1"
    using stop_protocol [OF seeded_fresh sample_reachable(1) j(1)] j(2,3) by simp_all
  then have "length (pending 1 d_waiting) = 1" by (cases "pending 1 d_waiting") auto
  moreover have "length (in_status S_REJECTED (job_steps 1 d_rejected)) = 1"
    using stop_protocol [OF seeded_fresh rtranclp_trans [OF sample_reachable(1,2)] k(1)] k(2,3) by simp
  ultimately show ?thesis ..
qed

text \<open>C3: No STOP is ever stuck. In every reachable state an approval of a waiting job by an actor
  who sees the job succeeds and puts the job back to work, and the rework of a rejected job
  succeeds and puts it back to work.\<close>

theorem stop_never_stuck:
  assumes start: "fresh_db d0" and run: "(step sha256 lower)\<^sup>*\<^sup>* d0 d"
    and job: "by_id j_id i (jobs d) = Some job" "in_scope a (j_branch job)"
  shows "(j_status job = J_WAITING_STOP_APPROVAL \<longrightarrow> (\<exists>d' job'. approveStop q a i d = Inr ((), d') \<and>
       by_id j_id i (jobs d') = Some job' \<and> isWorkable job')) \<and>
    (j_status job = J_REJECTED \<longrightarrow> (\<exists>d' job'. reworkStop q a i d = Inr ((), d') \<and>
       by_id j_id i (jobs d') = Some job' \<and> isWorkable job'))"
proof (intro conjI impI)
  have ok: "workflow_ok d" by (rule flow.inv_reachable [OF start run])
  let ?f = "\<lambda>j. j\<lparr>j_status := workingStatus job, j_updated_at := rq_now q\<rparr>"
  have found: "by_id j_id i (update_id j_id i ?f (jobs d)) = Some (?f job)"
    using by_id_update [OF workflow_okD(2) [OF ok], of ?f i i] job(1) by simp
  have work: "isWorkable (?f job)" by (simp add: isWorkable_def workingStatus_def isReopenCycle_def)
  show "\<exists>d' job'. approveStop q a i d = Inr ((), d') \<and> by_id j_id i (jobs d') = Some job' \<and> isWorkable job'"
    if st: "j_status job = J_WAITING_STOP_APPROVAL"
  proof -
    obtain ap s c where "lockPendingStop a i d = Inr (job, ap, s, c)" using lock_succeeds [OF ok job st] by blast
    then have "approveStop q a i d = Inr ((), approve_writes q a i job ap s c d)" by (simp add: approveStop_def andThen_def)
    then show ?thesis using found work jobs_writes(7) by metis
  qed
  show "\<exists>d' job'. reworkStop q a i d = Inr ((), d') \<and> by_id j_id i (jobs d') = Some job' \<and> isWorkable job'"
    if st: "j_status job = J_REJECTED"
  proof -
    obtain cl s c where "job_checklist i d = Some cl" "rejected_step (cl_id cl) d = Some (s, c)"
      using rework_found [OF ok job(1) st] by blast
    then have "reworkStop q a i d = Inr ((), rework_writes q a i job s c d)"
      using job st by (simp add: reworkStop_def loadScopedJob_def andThen_def need_def throw_if_def)
    then show ?thesis using found work jobs_writes(9) by metis
  qed
qed

theorem stop_never_stuck_witness:
  "(\<exists>d'. approveStop (at_time 20) master 1 d_waiting = Inr ((), d')) \<and>
   (\<exists>d'. reworkStop (at_time 20) usta 1 d_rejected = Inr ((), d'))"
proof -
  obtain j where j: "by_id j_id 1 (jobs d_waiting) = Some j" "j_status j = J_WAITING_STOP_APPROVAL"
    by (rule job_inE [OF sample_commits(17)])
  obtain k where k: "by_id j_id 1 (jobs d_rejected) = Some k" "j_status k = J_REJECTED"
    by (rule job_inE [OF sample_commits(18)])
  obtain j' ap s c where "lockPendingStop master 1 d_waiting = Inr (j', ap, s, c)"
    using sample_commits(13) by (elim exE) (drule approveStop_Inr, blast)
  note lj = lockPendingStop_Inr [OF this]
  obtain k' where lk: "by_id j_id 1 (jobs d_rejected) = Some k'" "in_scope usta (j_branch k')"
    using sample_commits(12) by (elim exE) (drule reworkStop_Inr, blast)
  have s: "in_scope master (j_branch j)" "in_scope usta (j_branch k)" using lj lk j(1) k(1) by simp_all
  show ?thesis
    using stop_never_stuck [OF seeded_fresh sample_reachable(1) j(1) s(1)]
      stop_never_stuck [OF seeded_fresh rtranclp_trans [OF sample_reachable(1,2)] k(1) s(2)] j(2) k(2) by blast
qed

text \<open>C6: The completion mark of a checklist is right in every reachable state: it is set exactly
  when every step of the checklist is done, and no checklist is without steps.\<close>

theorem checklist_mark_correct:
  assumes start: "fresh_db d0" and run: "(step sha256 lower)\<^sup>*\<^sup>* d0 d" and cl: "job_checklist i d = Some cl"
  shows "(cl_completed_at cl \<noteq> None \<longleftrightarrow> list_all step_done (job_steps i d)) \<and> job_steps i d \<noteq> []"
proof -
  have ok: "workflow_ok d" by (rule flow.inv_reachable [OF start run])
  have row: "cl \<in> set (rows (checklists d))" using job_checklist_row [OF cl] by blast
  show ?thesis using ok row unfolding workflow_ok_def complete_ok_def
    by (auto simp: job_steps_checklist [OF ok cl] list_all_iff)
qed

theorem checklist_mark_correct_witness:
  "\<exists>cl. job_checklist 1 d_waiting = Some cl \<and> cl_completed_at cl = None"
proof -
  obtain j where j: "j \<in> set (rows (jobs d_waiting))" "j_id j = 1" "j_status j = J_WAITING_STOP_APPROVAL"
    by (rule job_inE [OF sample_commits(17)])
  have ok: "workflow_ok d_waiting" by (rule flow.inv_reachable [OF seeded_fresh sample_reachable(1)])
  obtain s where s: "in_status S_WAITING_APPROVAL (job_steps 1 d_waiting) = [s]"
    using workflow_okD(8) [OF ok j(1)] j(2,3) by (auto simp: stop_state_def)
  have mem: "s \<in> set (job_steps 1 d_waiting)" "\<not> step_done s"
    using in_status_mem [OF s] by (auto simp: step_done_def STEP_DONE_STATUSES_def)
  obtain cl where cl: "job_checklist 1 d_waiting = Some cl" using job_steps_owned [OF ok mem(1)] by blast
  then have "cl_completed_at cl = None"
    using checklist_mark_correct [OF seeded_fresh sample_reachable(1) cl] mem by (auto simp: list_all_iff)
  with cl show ?thesis by blast
qed

end
