(* ===== verification/Gps.thy ===== *)
theory Gps
  imports Schema
begin

section \<open>GPS checkpoints\<close>

text \<open>
  Models src/modules/gps/gps.service.ts: the validation of a client-reported position, its
  capture, the authorized override and the listing. The limits are environment variables;
  \<open>dateParse\<close> is JavaScript's \<open>Date.parse\<close> (NaN for a text it cannot read). Capture and override
  are separate statements without a transaction, so a rejected capture still leaves its audit
  record: the handlers return the response and the database.
\<close>

fun gps_purpose_str :: "gps_purpose \<Rightarrow> string" where
  "gps_purpose_str G_JOB_START = ''JOB_START''"
| "gps_purpose_str G_CHECKLIST_COMPLETE = ''CHECKLIST_COMPLETE''"
| "gps_purpose_str G_CUSTOMER_SIGNATURE = ''CUSTOMER_SIGNATURE''"
| "gps_purpose_str G_JOB_COMPLETE = ''JOB_COMPLETE''"
| "gps_purpose_str G_RISK_STOP_EVENT = ''RISK_STOP_EVENT''"

record gps_env =
  GPS_MAX_ACCURACY_METERS :: rat
  GPS_MAX_AGE_SECONDS :: rat
  GPS_FUTURE_SKEW_SECONDS :: rat

datatype timestamp = TsNumber jsnum | TsText string

record gps_input =
  gi_latitude :: jsnum
  gi_longitude :: jsnum
  gi_accuracy :: jsnum
  gi_timestamp :: timestamp
  gi_purpose :: "gps_purpose option"

datatype gps_reject =
    NAN_OR_INFINITE | OUT_OF_RANGE | NULL_ISLAND | LOW_ACCURACY | BAD_TIMESTAMP | FUTURE_TIMESTAMP | STALE

fun gps_reject_str :: "gps_reject \<Rightarrow> string" where
  "gps_reject_str NAN_OR_INFINITE = ''NAN_OR_INFINITE''"
| "gps_reject_str OUT_OF_RANGE = ''OUT_OF_RANGE''"
| "gps_reject_str NULL_ISLAND = ''NULL_ISLAND''"
| "gps_reject_str LOW_ACCURACY = ''LOW_ACCURACY''"
| "gps_reject_str BAD_TIMESTAMP = ''BAD_TIMESTAMP''"
| "gps_reject_str FUTURE_TIMESTAMP = ''FUTURE_TIMESTAMP''"
| "gps_reject_str STALE = ''STALE''"

definition ts_value :: "(string \<Rightarrow> jsnum) \<Rightarrow> timestamp \<Rightarrow> jsnum" where
  "ts_value dateParse ts = (case ts of TsNumber n \<Rightarrow> n | TsText s \<Rightarrow> dateParse s)"

text \<open>The checks, in order; \<open>Inr\<close> carries the finite values that passed.\<close>

definition validateGps ::
  "gps_env \<Rightarrow> (string \<Rightarrow> jsnum) \<Rightarrow> gps_input \<Rightarrow> rat \<Rightarrow> gps_reject + (rat \<times> rat \<times> rat \<times> rat)" where
  "validateGps env dateParse inp nowMs =
    (case (gi_latitude inp, gi_longitude inp, gi_accuracy inp) of
       (Fin lat, Fin lng, Fin acc) \<Rightarrow>
         if lat < -90 \<or> lat > 90 \<or> lng < -180 \<or> lng > 180 then Inl OUT_OF_RANGE
         else if lat = 0 \<and> lng = 0 then Inl NULL_ISLAND
         else if acc \<le> 0 \<or> acc > GPS_MAX_ACCURACY_METERS env then Inl LOW_ACCURACY
         else (case ts_value dateParse (gi_timestamp inp) of
                 Fin ts \<Rightarrow>
                   if ts > nowMs + GPS_FUTURE_SKEW_SECONDS env * 1000 then Inl FUTURE_TIMESTAMP
                   else if ts < nowMs - GPS_MAX_AGE_SECONDS env * 1000 then Inl STALE
                   else Inr (lat, lng, acc, ts)
               | _ \<Rightarrow> Inl BAD_TIMESTAMP)
     | _ \<Rightarrow> Inl NAN_OR_INFINITE)"

definition json_num :: "jsnum \<Rightarrow> json" where
  "json_num n = (case n of Fin q \<Rightarrow> JNum q | _ \<Rightarrow> JNull)"

text \<open>The coordinates are \<open>DECIMAL(9,6)\<close>, the accuracy \<open>DECIMAL(8,2)\<close>.\<close>

definition captureGps ::
  "gps_env \<Rightarrow> (string \<Rightarrow> jsnum) \<Rightarrow> rat \<Rightarrow> req \<Rightarrow> auth_user \<Rightarrow> nat \<Rightarrow> gps_input \<Rightarrow> db \<Rightarrow> (api_error + nat) \<times> db" where
  "captureGps env dateParse nowMs q a jobId inp d =
    (case loadScopedJob a jobId d of
       Inl e \<Rightarrow> (Inl e, d)
     | Inr job \<Rightarrow>
         (let purpose = (case gi_purpose inp of None \<Rightarrow> G_JOB_START | Some p \<Rightarrow> p) in
          case validateGps env dateParse inp nowMs of
            Inl reject \<Rightarrow>
              (Inl (ApiError 422 ''GPS_INVALID'' [gps_reject_str reject]),
               logAudit q (au_id a) ''GPS_REJECTED'' ''job'' (nat_str jobId) None
                 (Some (JObj [(''purpose'', JStr (gps_purpose_str purpose)),
                    (''reason'', JStr (gps_reject_str reject)), (''accuracy'', json_num (gi_accuracy inp))])) d)
          | Inr (lat, lng, acc, ts) \<Rightarrow>
              (let newId = next_id (gps_events d);
                   d1 = d\<lparr>gps_events := t_insert (\<lambda>i. \<lparr>ge_id = i, ge_job = jobId, ge_cycle = j_cycle job,
                          ge_actor = au_id a, ge_purpose = purpose, ge_latitude = Some (decimal 6 lat),
                          ge_longitude = Some (decimal 6 lng), ge_accuracy = Some (decimal 2 acc),
                          ge_client_ts = Some ts, ge_override_reason = None, ge_override_by = None\<rparr>) (gps_events d)\<rparr>
               in (Inr newId, logAudit q (au_id a) ''GPS_CAPTURED'' ''job'' (nat_str jobId) None
                    (Some (JObj [(''gpsId'', jnat newId), (''purpose'', JStr (gps_purpose_str purpose)),
                       (''provenance'', JStr ''VALIDATED''), (''accuracy'', JNum acc)])) d1))))"

definition overrideGps :: "req \<Rightarrow> auth_user \<Rightarrow> nat \<Rightarrow> gps_purpose \<Rightarrow> string \<Rightarrow> db \<Rightarrow> (api_error + nat) \<times> db" where
  "overrideGps q a jobId purpose reason d =
    (if \<not> can (au_role a) Gps_override then (Inl (forbidden ''FORBIDDEN''), d)
     else if blank reason then (Inl (badRequest ''GPS_OVERRIDE_REASON_REQUIRED''), d)
     else case loadScopedJob a jobId d of
       Inl e \<Rightarrow> (Inl e, d)
     | Inr job \<Rightarrow>
         (let newId = next_id (gps_events d);
              d1 = d\<lparr>gps_events := t_insert (\<lambda>i. \<lparr>ge_id = i, ge_job = jobId, ge_cycle = j_cycle job,
                     ge_actor = au_id a, ge_purpose = purpose, ge_latitude = None, ge_longitude = None,
                     ge_accuracy = None, ge_client_ts = None, ge_override_reason = Some (trim reason),
                     ge_override_by = Some (au_id a)\<rparr>) (gps_events d)\<rparr>
          in (Inr newId, logAudit q (au_id a) ''GPS_OVERRIDE'' ''job'' (nat_str jobId) None
               (Some (JObj [(''gpsId'', jnat newId), (''purpose'', JStr (gps_purpose_str purpose)),
                  (''reason'', JStr (trim reason))])) d1)))"

text \<open>Newest first, one page; the route sends no page parameters.\<close>

definition listGps :: "auth_user \<Rightarrow> nat \<Rightarrow> nat option \<Rightarrow> nat option \<Rightarrow> db \<Rightarrow>
    api_error + (gps_row list \<times> nat \<times> nat \<times> nat)" where
  "listGps a jobId optPage optSize d =
    andThen (loadScopedJob a jobId d) (\<lambda>_.
      let page = max 1 (case optPage of None \<Rightarrow> 1 | Some p \<Rightarrow> p);
          pageSize = min 100 (max 1 (case optSize of None \<Rightarrow> 50 | Some n \<Rightarrow> n));
          found = t_where (\<lambda>g. ge_job g = jobId) (gps_events d)
      in Inr (take pageSize (drop ((page - 1) * pageSize) (rev found)), page, pageSize, length found))"

subsection \<open>What a stored position satisfies\<close>

lemma decimal_bounds:
  assumes "\<bar>v\<bar> \<le> of_int n"
  shows "\<bar>decimal k v\<bar> \<le> of_int n"
proof -
  have up: "of_int \<lfloor>w * 10 ^ k + 1/2\<rfloor> / 10 ^ k \<le> (of_int n :: rat)" if "0 \<le> w" "w \<le> of_int n" for w :: rat
  proof -
    have "w * 10 ^ k \<le> of_int (n * 10 ^ k)" using that(2) by (simp add: mult_right_mono)
    then have "\<lfloor>w * 10 ^ k + 1/2\<rfloor> \<le> n * 10 ^ k" by linarith
    then have "of_int \<lfloor>w * 10 ^ k + 1/2\<rfloor> \<le> (of_int (n * 10 ^ k) :: rat)" by (simp only: of_int_le_iff)
    then show ?thesis by (simp add: divide_le_eq)
  qed
  have low: "0 \<le> of_int \<lfloor>w * 10 ^ k + 1/2\<rfloor> / (10 ^ k :: rat)" if "0 \<le> w" for w :: rat
    using that by (simp add: zero_le_divide_iff)
  show ?thesis
  proof (cases "v < 0")
    case True
    then show ?thesis using up [of "- v"] low [of "- v"] assms by (simp add: decimal_def abs_le_iff)
  next
    case False
    then show ?thesis using up [of v] low [of v] assms by (simp add: decimal_def abs_le_iff)
  qed
qed

lemma validateGps_Inr:
  "validateGps env dateParse inp now = Inr (lat, lng, acc, ts) \<longleftrightarrow>
     gi_latitude inp = Fin lat \<and> gi_longitude inp = Fin lng \<and> gi_accuracy inp = Fin acc \<and>
     ts_value dateParse (gi_timestamp inp) = Fin ts \<and>
     \<bar>lat\<bar> \<le> 90 \<and> \<bar>lng\<bar> \<le> 180 \<and> (lat \<noteq> 0 \<or> lng \<noteq> 0) \<and> 0 < acc \<and> acc \<le> GPS_MAX_ACCURACY_METERS env \<and>
     now - GPS_MAX_AGE_SECONDS env * 1000 \<le> ts \<and> ts \<le> now + GPS_FUTURE_SKEW_SECONDS env * 1000"
  by (auto simp: validateGps_def abs_le_iff split: jsnum.splits if_splits)

text \<open>C21: A captured position is stored as one new row of the job and its current cycle, with
  coordinates in range whatever the rounding of the columns does, an accuracy within the
  policy and a fresh timestamp; no table but the positions and the audit log changes.\<close>

theorem captured_position_in_range:
  assumes "captureGps env dateParse now q a jobId inp d = (Inr i, d')"
  shows "\<exists>job row. loadScopedJob a jobId d = Inr job \<and> rows (gps_events d') = rows (gps_events d) @ [row] \<and>
     ge_id row = i \<and> ge_job row = jobId \<and> ge_cycle row = j_cycle job \<and> ge_actor row = au_id a \<and>
     (\<exists>lat lng acc ts. ge_latitude row = Some lat \<and> ge_longitude row = Some lng \<and> ge_accuracy row = Some acc \<and>
        ge_client_ts row = Some ts \<and> \<bar>lat\<bar> \<le> 90 \<and> \<bar>lng\<bar> \<le> 180 \<and> \<bar>ts - now\<bar> \<le>
          1000 * max (GPS_MAX_AGE_SECONDS env) (GPS_FUTURE_SKEW_SECONDS env)) \<and>
     d' = d\<lparr>gps_events := gps_events d', audits := audits d'\<rparr>"
proof -
  obtain job where job: "loadScopedJob a jobId d = Inr job"
    using assms by (auto simp: captureGps_def split: sum.splits)
  obtain lat lng acc ts where v: "validateGps env dateParse inp now = Inr (lat, lng, acc, ts)"
    using assms job by (auto simp: captureGps_def Let_def split: sum.splits)
  note ok = v [unfolded validateGps_Inr]
  have "\<bar>decimal 6 lat\<bar> \<le> of_int 90" "\<bar>decimal 6 lng\<bar> \<le> of_int 180"
    by (rule decimal_bounds, use ok in simp)+
  moreover have "\<bar>ts - now\<bar> \<le> 1000 * max (GPS_MAX_AGE_SECONDS env) (GPS_FUTURE_SKEW_SECONDS env)"
    using ok by (auto simp: abs_le_iff max_def)
  ultimately show ?thesis
    using assms job v by (auto simp: captureGps_def Let_def t_insert_def logAudit_def)
qed

definition same_but_coordinates :: "gps_input \<Rightarrow> gps_input \<Rightarrow> bool" where
  "same_but_coordinates x y \<longleftrightarrow> x\<lparr>gi_latitude := NaN, gi_longitude := NaN\<rparr> = y\<lparr>gi_latitude := NaN, gi_longitude := NaN\<rparr>"


definition near_null_island :: gps_input where
  "near_null_island = \<lparr>gi_latitude = Fin (1/10000000), gi_longitude = Fin (1/10000000), gi_accuracy = Fin 5,
     gi_timestamp = TsNumber (Fin 1000), gi_purpose = None\<rparr>"

definition gps_defaults :: gps_env where
  "gps_defaults = \<lparr>GPS_MAX_ACCURACY_METERS = 100, GPS_MAX_AGE_SECONDS = 300, GPS_FUTURE_SKEW_SECONDS = 120\<rparr>"

text \<open>The test against the point (0, 0) is made before the columns round: a position within
  half a micro-degree of it is accepted and stored as exactly (0, 0), although the header of
  the service says that it never silently accepts that point.\<close>

theorem null_island_can_be_stored:
  assumes "loadScopedJob a jobId d = Inr job"
  shows "\<exists>i d' row. captureGps gps_defaults dateParse 1000 q a jobId near_null_island d = (Inr i, d') \<and>
     row \<in> set (rows (gps_events d')) \<and> ge_latitude row = Some 0 \<and> ge_longitude row = Some 0"
proof -
  have v: "validateGps gps_defaults dateParse near_null_island 1000 = Inr (1/10000000, 1/10000000, 5, 1000)"
    unfolding validateGps_Inr by (simp add: near_null_island_def gps_defaults_def ts_value_def)
  have z: "decimal 6 (1/10000000) = 0" by (simp add: decimal_def floor_eq_iff)
  have "rows (gps_events (snd (captureGps gps_defaults dateParse 1000 q a jobId near_null_island d))) =
      rows (gps_events d) @ [\<lparr>ge_id = next_id (gps_events d), ge_job = jobId, ge_cycle = j_cycle job, ge_actor = au_id a,
        ge_purpose = G_JOB_START, ge_latitude = Some 0, ge_longitude = Some 0, ge_accuracy = Some (decimal 2 5),
        ge_client_ts = Some 1000, ge_override_reason = None, ge_override_by = None\<rparr>]"
    by (simp only: captureGps_def assms v Let_def) (simp add: z t_insert_def near_null_island_def)
  moreover have "fst (captureGps gps_defaults dateParse 1000 q a jobId near_null_island d) = Inr (next_id (gps_events d))"
    by (simp only: captureGps_def assms v Let_def) simp
  ultimately show ?thesis by (metis gps_row.select_convs(6,7) in_set_conv_decomp prod.collapse)
qed

text \<open>A database with one job of branch 1 and one of its technicians, to apply the theorems at.\<close>

definition one_job :: job_row where
  "one_job = \<lparr>j_id = 1, j_customer = 1, j_vehicle = 1, j_branch = 1, j_created_by = 4, j_status = J_IN_PROGRESS,
     j_started_at = Some 1, j_cancel_reason = None, j_cancelled_by = None, j_cancelled_at = None, j_closed_by = None,
     j_closed_at = None, j_reopen_reason = None, j_reopened_by = None, j_reopened_at = None, j_assignee = Some 4,
     j_assignment_status = A_ASSIGNED, j_cycle = 1, j_gas_type = Some LPG, j_kit = None, j_ecu = None,
     j_cylinder = None, j_note = None, j_created_at = 0, j_updated_at = 1\<rparr>"

definition one_job_db :: db where
  "one_job_db = empty_db\<lparr>jobs := \<lparr>rows = [one_job], next_id = 2\<rparr>\<rparr>"

definition technician :: auth_user where
  "technician = \<lparr>au_id = 4, au_role = USTA, au_branch = Some 1, au_status = U_ACTIVE, au_must_change = False\<rparr>"

lemma one_job_loads: "loadScopedJob technician 1 one_job_db = Inr one_job"
  by (simp add: loadScopedJob_def one_job_db_def one_job_def technician_def by_id_def t_first_def in_scope_iff)

theorem null_island_can_be_stored_witness:
  "\<exists>i d' row. captureGps gps_defaults (\<lambda>_. NaN) 1000 \<lparr>rq_now = 1, rq_ip = None, rq_agent = None\<rparr> technician 1
     near_null_island one_job_db = (Inr i, d') \<and>
     row \<in> set (rows (gps_events d')) \<and> ge_latitude row = Some 0 \<and> ge_longitude row = Some 0"
  by (rule null_island_can_be_stored [OF one_job_loads])

definition tashkent :: "rat \<Rightarrow> gps_input" where
  "tashkent lat = near_null_island\<lparr>gi_latitude := Fin lat, gi_longitude := Fin 69\<rparr>"

lemma tashkent_valid: "41 \<le> lat \<Longrightarrow> lat \<le> 42 \<Longrightarrow>
    validateGps gps_defaults (\<lambda>_. NaN) (tashkent lat) 1000 = Inr (lat, 69, 5, 1000)"
  unfolding validateGps_Inr by (simp add: tashkent_def near_null_island_def gps_defaults_def ts_value_def)

theorem captured_position_in_range_witness:
  "\<exists>row. rows (gps_events (snd (captureGps gps_defaults (\<lambda>_. NaN) 1000 \<lparr>rq_now = 1, rq_ip = None, rq_agent = None\<rparr>
     technician 1 (tashkent 41) one_job_db))) = [row] \<and> ge_cycle row = 1 \<and> ge_actor row = 4"
proof -
  let ?r = "captureGps gps_defaults (\<lambda>_. NaN) 1000 \<lparr>rq_now = 1, rq_ip = None, rq_agent = None\<rparr> technician 1 (tashkent 41) one_job_db"
  obtain i d' where r: "?r = (Inr i, d')"
    using one_job_loads tashkent_valid [of 41] by (simp add: captureGps_def Let_def)
  obtain job row where "loadScopedJob technician 1 one_job_db = Inr job"
    "rows (gps_events d') = rows (gps_events one_job_db) @ [row]" "ge_cycle row = j_cycle job" "ge_actor row = au_id technician"
    using captured_position_in_range [OF r] by blast
  then show ?thesis
    using one_job_loads r by (auto simp: one_job_db_def empty_db_def empty_tbl_def one_job_def technician_def)
qed


end
