(* ===== verification/Accounts.thy ===== *)
theory Accounts
  imports Jobs "HOL-Library.List_Lexorder" "HOL-Library.Char_ord" "HOL-Library.Product_Lexorder"
begin

section \<open>Accounts, sessions, branches\<close>

text \<open>
  Models src/modules/auth (auth.service.ts, session.service.ts), src/modules/users
  (users.service.ts, user.mapper.ts, registration.admin.service.ts), branches.service.ts and the
  normalizers of src/utils. The state is the part of the database these services write.

  Parameters: \<open>sha256\<close>; bcrypt as the pair of \<open>hash\<close> (the salt is part of the argument the
  caller instantiates) and \<open>compare\<close>; random tokens and indices are arguments. Clock readings
  are in seconds, the precision of the columns; \<open>session_env\<close> holds the settings of env.ts.
\<close>

subsection \<open>Normalization of identifiers\<close>

definition normalizePhone :: "string \<Rightarrow> string option" where
  "normalizePhone inp =
    (let digits = filter is_digit inp in
     if length digits = 12 \<and> take 3 digits = ''998'' then Some (''+998'' @ drop 3 digits)
     else if length digits = 9 then Some (''+998'' @ digits)
     else None)"

definition is_upper :: "char \<Rightarrow> bool" where
  "is_upper c = (CHR ''A'' \<le> c \<and> c \<le> CHR ''Z'')"

text \<open>\<open>toUpperCase\<close> of ASCII letters; the few other letters whose upper case is ASCII are not modelled.\<close>

definition upper_char :: "char \<Rightarrow> char" where
  "upper_char c = (if CHR ''a'' \<le> c \<and> c \<le> CHR ''z'' then char_of (of_char c - 32 :: nat) else c)"

definition normalizePlate :: "string \<Rightarrow> string option" where
  "normalizePlate inp =
    (let n = filter (\<lambda>c. \<not> js_ws c \<and> c \<noteq> CHR ''-'') (map upper_char inp) in
     if list_all (\<lambda>c. is_upper c \<or> is_digit c) n \<and> 5 \<le> length n \<and> length n \<le> 12 then Some n else None)"

definition normalizeVin :: "string \<Rightarrow> string option" where
  "normalizeVin inp =
    (let n = filter (\<lambda>c. \<not> js_ws c) (map upper_char inp) in
     if list_all (\<lambda>c. (is_upper c \<or> is_digit c) \<and> c \<notin> {CHR ''I'', CHR ''O'', CHR ''Q''}) n \<and> length n = 17
     then Some n else None)"

subsection \<open>Paging\<close>

text \<open>\<open>Number(value)\<close> has been applied; an integer of at least 1, or the fallback.\<close>

definition js_integer :: "jsnum \<Rightarrow> int option" where
  "js_integer n = (case n of Fin r \<Rightarrow> if of_int \<lfloor>r\<rfloor> = r then Some \<lfloor>r\<rfloor> else None | _ \<Rightarrow> None)"

definition safePage :: "jsnum \<Rightarrow> int \<Rightarrow> int" where
  "safePage n fb = (case js_integer n of Some i \<Rightarrow> if i \<ge> 1 then i else fb | None \<Rightarrow> fb)"

definition safePageSize :: "jsnum \<Rightarrow> int \<Rightarrow> int \<Rightarrow> int" where
  "safePageSize n fb mx = min mx (case js_integer n of Some i \<Rightarrow> if i \<ge> 1 then i else fb | None \<Rightarrow> fb)"

definition pageOffset :: "jsnum \<Rightarrow> jsnum \<Rightarrow> int" where
  "pageOffset p s = (safePage p 1 - 1) * safePageSize s 20 100"

subsection \<open>The tables\<close>

record account =
  ac_id :: nat
  ac_first :: string
  ac_last :: string
  ac_phone :: string
  ac_hash :: string
  ac_region :: string
  ac_branch :: "nat option"
  ac_role :: role
  ac_status :: user_status
  ac_must_change :: bool
  ac_temp_expires :: "nat option"
  ac_last_login :: "nat option"
  ac_created_at :: nat
  ac_deleted :: bool

record session_row =
  se_id :: nat
  se_user :: nat
  se_token_hash :: string
  se_remember :: bool
  se_absolute :: nat
  se_family :: nat
  se_seq :: nat
  se_rotated_to :: "nat option"
  se_superseded :: "nat option"
  se_created :: nat
  se_last_used :: nat
  se_revoked :: "nat option"
  se_ip :: "string option"
  se_agent :: "string option"

datatype reg_status = RG_PENDING | RG_APPROVED | RG_REJECTED

record reg_row =
  rg_id :: nat
  rg_first :: string
  rg_last :: string
  rg_phone :: string
  rg_region :: string
  rg_branch :: nat
  rg_comment :: "string option"
  rg_hash :: string
  rg_status :: reg_status
  rg_reviewed_by :: "nat option"
  rg_reviewed_at :: "nat option"
  rg_reject_reason :: "string option"
  rg_user :: "nat option"
  rg_created_at :: nat

record reset_row =
  pr_id :: nat
  pr_user :: nat
  pr_consumed :: "nat option"
  pr_used :: "nat option"

record adb =
  accounts :: "account tbl"
  sessions :: "session_row tbl"
  regs :: "reg_row tbl"
  resets :: "reset_row tbl"
  abranches :: "branch_row tbl"
  alog :: "audit_entry list"

definition alog_add :: "req \<Rightarrow> nat option \<Rightarrow> string \<Rightarrow> string \<Rightarrow> string \<Rightarrow> json option \<Rightarrow> json option \<Rightarrow> adb \<Rightarrow> adb" where
  "alog_add q user action etype eid old new d =
    d\<lparr>alog := alog d @
        [\<lparr>ae_user = user, ae_action = action, ae_entity_type = Some etype, ae_entity_id = Some eid,
          ae_old = old, ae_new = new, ae_ip = rq_ip q, ae_agent = rq_agent q\<rparr>]\<rparr>"

lemma alog_add_frame [simp]:
  "accounts (alog_add q u a et ei old new d) = accounts d" "sessions (alog_add q u a et ei old new d) = sessions d"
  "regs (alog_add q u a et ei old new d) = regs d" "resets (alog_add q u a et ei old new d) = resets d"
  "abranches (alog_add q u a et ei old new d) = abranches d"
  by (simp_all add: alog_add_def)

text \<open>The row of a user that is not deleted, and the mapping to the authenticated user.\<close>

definition live_account :: "nat \<Rightarrow> adb \<Rightarrow> account option" where
  "live_account i d = t_first (\<lambda>u. ac_id u = i \<and> \<not> ac_deleted u) (accounts d)"

definition findUserByPhone :: "string \<Rightarrow> adb \<Rightarrow> account option" where
  "findUserByPhone p d = t_first (\<lambda>u. ac_phone u = p \<and> \<not> ac_deleted u) (accounts d)"

definition branch_active :: "nat \<Rightarrow> adb \<Rightarrow> bool" where
  "branch_active b d = (t_first (\<lambda>r. b_id r = b \<and> b_active r) (abranches d) \<noteq> None)"

text \<open>\<open>branch_id !== null && branch_status !== 'ACTIVE'\<close> is the negation of this.\<close>

definition branch_open :: "account \<Rightarrow> adb \<Rightarrow> bool" where
  "branch_open u d = (case ac_branch u of None \<Rightarrow> True | Some b \<Rightarrow> branch_active b d)"

definition toAuthUser :: "account \<Rightarrow> auth_user" where
  "toAuthUser u = \<lparr>au_id = ac_id u, au_role = ac_role u, au_branch = ac_branch u,
     au_status = ac_status u, au_must_change = ac_must_change u\<rparr>"

subsection \<open>Sessions\<close>

record session_env =
  idle_s :: nat
  rotate_s :: nat
  grace_s :: nat
  absolute_s :: nat
  ttl_s :: nat
  temp_ttl_s :: nat

definition upd_sessions :: "(session_row \<Rightarrow> bool) \<Rightarrow> (session_row \<Rightarrow> session_row) \<Rightarrow> adb \<Rightarrow> adb" where
  "upd_sessions P f d = d\<lparr>sessions := t_update P f (sessions d)\<rparr>"

definition revoke_where :: "nat \<Rightarrow> (session_row \<Rightarrow> bool) \<Rightarrow> adb \<Rightarrow> adb" where
  "revoke_where now P = upd_sessions (\<lambda>s. P s \<and> se_revoked s = None) (\<lambda>s. s\<lparr>se_revoked := Some now\<rparr>)"

definition revokeFamily :: "nat \<Rightarrow> nat \<Rightarrow> adb \<Rightarrow> adb" where
  "revokeFamily now family = revoke_where now (\<lambda>s. se_family s = family)"

definition revokeAllSessions :: "nat \<Rightarrow> nat \<Rightarrow> adb \<Rightarrow> adb" where
  "revokeAllSessions now user = revoke_where now (\<lambda>s. se_user s = user)"

definition hash_used :: "string \<Rightarrow> adb \<Rightarrow> bool" where
  "hash_used h d = (\<exists>s\<in>set (rows (sessions d)). se_token_hash s = h)"

text \<open>A new family: the session is its own root. The token hash is a unique key.\<close>

definition createSession ::
  "(string \<Rightarrow> string) \<Rightarrow> session_env \<Rightarrow> req \<Rightarrow> string \<Rightarrow> nat \<Rightarrow> bool \<Rightarrow> (adb, nat) tx" where
  "createSession sha256 e q token userId remember d =
    throw_if (hash_used (sha256 token) d) duplicateKey
    (let absolute = rq_now q + (if remember then absolute_s e else ttl_s e) in
     Inr (absolute, d\<lparr>sessions := t_insert (\<lambda>i. \<lparr>se_id = i, se_user = userId, se_token_hash = sha256 token,
       se_remember = remember, se_absolute = absolute, se_family = i, se_seq = 0, se_rotated_to = None,
       se_superseded = None, se_created = rq_now q, se_last_used = rq_now q, se_revoked = None,
       se_ip = rq_ip q, se_agent = rq_agent q\<rparr>) (sessions d)\<rparr>))"

text \<open>\<open>rotateSession\<close>: \<open>None\<close> when the row is gone, superseded or revoked by now.\<close>

definition rotateSession ::
  "(string \<Rightarrow> string) \<Rightarrow> req \<Rightarrow> string \<Rightarrow> nat \<Rightarrow> (adb, session_row option) tx" where
  "rotateSession sha256 q token currentId d =
    (case by_id se_id currentId (sessions d) of
       None \<Rightarrow> Inr (None, d)
     | Some cur \<Rightarrow>
         if se_superseded cur \<noteq> None \<or> se_revoked cur \<noteq> None then Inr (None, d)
         else throw_if (hash_used (sha256 token) d) duplicateKey
           (let i = next_id (sessions d);
                succ = \<lparr>se_id = i, se_user = se_user cur, se_token_hash = sha256 token,
                  se_remember = se_remember cur, se_absolute = se_absolute cur, se_family = se_family cur,
                  se_seq = se_seq cur + 1, se_rotated_to = None, se_superseded = None,
                  se_created = rq_now q, se_last_used = rq_now q, se_revoked = None,
                  se_ip = se_ip cur, se_agent = se_agent cur\<rparr>
            in Inr (Some succ, d\<lparr>sessions := update_id se_id currentId
                 (\<lambda>s. s\<lparr>se_superseded := Some (rq_now q), se_rotated_to := Some i\<rparr>)
                 (t_insert (\<lambda>_. succ) (sessions d))\<rparr>)))"

text \<open>What the unlocked read of \<open>resolveSession\<close> decides; \<open>Rotate\<close> and \<open>Touch\<close> then write.\<close>

datatype session_plan = Refuse | Replay nat | Serve session_row | Rotate session_row | Touch session_row

definition resolve_plan ::
  "(string \<Rightarrow> string) \<Rightarrow> session_env \<Rightarrow> nat \<Rightarrow> string \<Rightarrow> adb \<Rightarrow> session_plan" where
  "resolve_plan sha256 e now rawToken d =
    (if length rawToken \<noteq> 64 then Refuse
     else case t_first (\<lambda>s. se_token_hash s = sha256 rawToken) (sessions d) of
       None \<Rightarrow> Refuse
     | Some row \<Rightarrow>
         if se_revoked row \<noteq> None then Refuse
         else if se_absolute row \<le> now then Refuse
         else if int now - int (se_last_used row) > int (idle_s e) then Refuse
         else (case se_superseded row of
             Some t \<Rightarrow> if int now - int t \<le> int (grace_s e) then Serve row else Replay (se_family row)
           | None \<Rightarrow>
               if int now - int (se_created row) > int (rotate_s e) then Rotate row
               else if int now - int (se_last_used row) > 60 then Touch row
               else Serve row))"

datatype resolve_outcome = Resolved session_row bool | Invalid | Replayed

definition resolve_act ::
  "(string \<Rightarrow> string) \<Rightarrow> req \<Rightarrow> string \<Rightarrow> session_plan \<Rightarrow> (adb, resolve_outcome) tx" where
  "resolve_act sha256 q fresh plan d =
    (case plan of
       Refuse \<Rightarrow> Inr (Invalid, d)
     | Replay family \<Rightarrow> Inr (Replayed, revokeFamily (rq_now q) family d)
     | Serve row \<Rightarrow> Inr (Resolved row False, d)
     | Rotate row \<Rightarrow> andThen (rotateSession sha256 q fresh (se_id row) d) (\<lambda>(r, d').
         case r of Some succ \<Rightarrow> Inr (Resolved succ True, d') | None \<Rightarrow> Inr (Resolved row False, d'))
     | Touch row \<Rightarrow> Inr (Resolved row False,
         upd_sessions (\<lambda>s. se_id s = se_id row) (\<lambda>s. s\<lparr>se_last_used := rq_now q\<rparr>) d))"

definition resolveSession ::
  "(string \<Rightarrow> string) \<Rightarrow> session_env \<Rightarrow> req \<Rightarrow> string \<Rightarrow> string \<Rightarrow> (adb, resolve_outcome) tx" where
  "resolveSession sha256 e q fresh rawToken d =
    resolve_act sha256 q fresh (resolve_plan sha256 e (rq_now q) rawToken d) d"

text \<open>\<open>resolveAuth\<close> of auth.middleware.ts: the session's user must be live, active, on an active branch.\<close>

definition session_user :: "session_row \<Rightarrow> adb \<Rightarrow> auth_user option" where
  "session_user s d =
    (case live_account (se_user s) d of
       None \<Rightarrow> None
     | Some u \<Rightarrow> if ac_status u = U_ACTIVE \<and> branch_open u d then Some (toAuthUser u) else None)"

definition resolveAuth ::
  "(string \<Rightarrow> string) \<Rightarrow> session_env \<Rightarrow> req \<Rightarrow> string \<Rightarrow> string \<Rightarrow> (adb, auth_user option) tx" where
  "resolveAuth sha256 e q fresh rawToken d =
    andThen (resolveSession sha256 e q fresh rawToken d) (\<lambda>(r, d').
      case r of Resolved s _ \<Rightarrow> Inr (session_user s d', d') | _ \<Rightarrow> Inr (None, d'))"

definition revokeByToken :: "(string \<Rightarrow> string) \<Rightarrow> nat \<Rightarrow> string \<Rightarrow> adb \<Rightarrow> session_row option \<times> adb" where
  "revokeByToken sha256 now rawToken d =
    (if length rawToken \<noteq> 64 then (None, d)
     else case t_first (\<lambda>s. se_token_hash s = sha256 rawToken \<and> se_revoked s = None) (sessions d) of
       None \<Rightarrow> (None, d)
     | Some row \<Rightarrow> (Some row, revokeFamily now (se_family row) d))"

subsection \<open>Shared by the services\<close>

fun role_str :: "role \<Rightarrow> string" where
  "role_str USTA = ''USTA''"
| "role_str MASTER = ''MASTER''"
| "role_str RAHBAR = ''RAHBAR''"
| "role_str SIFAT = ''SIFAT''"
| "role_str ADMIN = ''ADMIN''"

definition upd_account :: "nat \<Rightarrow> (account \<Rightarrow> account) \<Rightarrow> adb \<Rightarrow> adb" where
  "upd_account i f d = d\<lparr>accounts := update_id ac_id i f (accounts d)\<rparr>"

definition phone_taken :: "string \<Rightarrow> adb \<Rightarrow> bool" where
  "phone_taken p d = (\<exists>u\<in>set (rows (accounts d)). ac_phone u = p)"

definition given :: "'a option \<Rightarrow> 'a \<Rightarrow> 'a" where
  "given next current = (case next of None \<Rightarrow> current | Some v \<Rightarrow> v)"

definition text_change :: "string \<Rightarrow> string option \<Rightarrow> string \<Rightarrow> (string \<times> json) list" where
  "text_change key next current = change_entry key JStr (map_option Some next) (Some current)"

end
