(* ===== verification/Auth.thy ===== *)
theory Auth
  imports Accounts
begin

section \<open>Authentication\<close>

text \<open>
  Models auth.service.ts: login, logout, registration requests and the password change. bcrypt
  is \<open>verify\<close> (\<open>bcrypt.compare\<close>) and hashes that arrive as arguments, a fresh one per call.
\<close>

subsection \<open>Login and logout\<close>

datatype login_outcome = LoginOk nat bool | LoginInvalid | LoginTempExpired

definition login_fail :: "req \<Rightarrow> nat \<Rightarrow> (string \<times> json) list \<Rightarrow> adb \<Rightarrow> adb" where
  "login_fail q u members =
    alog_add q (Some u) ''LOGIN_FAILED'' ''user'' (nat_str u) None
      (if members = [] then None else Some (JObj members))"

definition temp_expired :: "nat \<Rightarrow> account \<Rightarrow> bool" where
  "temp_expired now u = (ac_must_change u \<and> (case ac_temp_expires u of None \<Rightarrow> False | Some t \<Rightarrow> t \<le> now))"

text \<open>The transaction of \<open>login\<close>; the user and the state of the branch are those of the read before it.\<close>

definition login_tx ::
  "(string \<Rightarrow> string) \<Rightarrow> (string \<Rightarrow> string \<Rightarrow> bool) \<Rightarrow> session_env \<Rightarrow> req \<Rightarrow> string \<Rightarrow> account \<Rightarrow> bool \<Rightarrow>
   string \<Rightarrow> bool \<Rightarrow> (adb, login_outcome) tx" where
  "login_tx sha256 verify e q token user opened password remember d =
    (case live_account (ac_id user) d of
       None \<Rightarrow> Inr (LoginInvalid, d)
     | Some row \<Rightarrow>
         if \<not> verify password (ac_hash row) then Inr (LoginInvalid, login_fail q (ac_id user) [] d)
         else if ac_status row \<noteq> U_ACTIVE then
           Inr (LoginInvalid, login_fail q (ac_id user) [(''reason'', JStr ''ACCOUNT_INACTIVE'')] d)
         else if \<not> opened then
           Inr (LoginInvalid, login_fail q (ac_id user)
             [(''reason'', JStr ''BRANCH_INACTIVE''), (''branchId'', jopt jnat (ac_branch user))] d)
         else if temp_expired (rq_now q) row then
           Inr (LoginTempExpired, login_fail q (ac_id user) [(''reason'', JStr ''TEMP_PASSWORD_EXPIRED'')] d)
         else andThen (createSession sha256 e q token (ac_id user) remember d) (\<lambda>(absolute, d1).
           Inr (LoginOk absolute (ac_must_change row),
             alog_add q (Some (ac_id user)) ''LOGIN'' ''user'' (nat_str (ac_id user)) None None
               (upd_account (ac_id user) (\<lambda>u. u\<lparr>ac_last_login := Some (rq_now q)\<rparr>) d1))))"

record login_result =
  lr_user :: auth_user
  lr_token :: string
  lr_expires :: nat
  lr_remember :: bool
  lr_seq :: nat

definition login ::
  "(string \<Rightarrow> string) \<Rightarrow> (string \<Rightarrow> string \<Rightarrow> bool) \<Rightarrow> session_env \<Rightarrow> req \<Rightarrow> string \<Rightarrow>
   string \<Rightarrow> string \<Rightarrow> bool \<Rightarrow> adb \<Rightarrow> (api_error + login_result) \<times> adb" where
  "login sha256 verify e q token phone password remember d =
    (case findUserByPhone phone d of
       None \<Rightarrow> (Inl (unauthorized ''INVALID_CREDENTIALS''), d)
     | Some user \<Rightarrow>
         (case transaction (login_tx sha256 verify e q token user (branch_open user d) password remember) d of
            (Inl err, d') \<Rightarrow> (Inl err, d')
          | (Inr LoginInvalid, d') \<Rightarrow> (Inl (unauthorized ''INVALID_CREDENTIALS''), d')
          | (Inr LoginTempExpired, d') \<Rightarrow> (Inl (unauthorized ''TEMP_PASSWORD_EXPIRED''), d')
          | (Inr (LoginOk absolute must), d') \<Rightarrow>
              (Inr \<lparr>lr_user = (toAuthUser user)\<lparr>au_must_change := must\<rparr>, lr_token = token,
                 lr_expires = absolute, lr_remember = remember, lr_seq = 0\<rparr>, d')))"

definition logout :: "(string \<Rightarrow> string) \<Rightarrow> req \<Rightarrow> string \<Rightarrow> adb \<Rightarrow> adb" where
  "logout sha256 q rawToken d =
    (case revokeByToken sha256 (rq_now q) rawToken d of
       (None, d') \<Rightarrow> d'
     | (Some s, d') \<Rightarrow> alog_add q (Some (se_user s)) ''LOGOUT'' ''session'' (nat_str (se_id s)) None None d')"

subsection \<open>Registration\<close>

record register_input =
  ri_first :: string
  ri_last :: string
  ri_phone :: string
  ri_region :: string
  ri_branch :: nat
  ri_comment :: "string option"

definition createRegistrationRequest :: "req \<Rightarrow> string \<Rightarrow> register_input \<Rightarrow> (adb, nat) tx" where
  "createRegistrationRequest q hash inp d =
    throw_if (\<not> branch_active (ri_branch inp) d) (badRequest ''INVALID_BRANCH'')
    (throw_if (findUserByPhone (ri_phone inp) d \<noteq> None) (conflict ''PHONE_TAKEN'')
    (throw_if (t_first (\<lambda>r. rg_phone r = ri_phone inp \<and> rg_status r = RG_PENDING) (regs d) \<noteq> None)
       (conflict ''REQUEST_PENDING'')
    (let i = next_id (regs d);
         d1 = d\<lparr>regs := t_insert (\<lambda>i. \<lparr>rg_id = i, rg_first = ri_first inp, rg_last = ri_last inp,
           rg_phone = ri_phone inp, rg_region = ri_region inp, rg_branch = ri_branch inp,
           rg_comment = ri_comment inp, rg_hash = hash, rg_status = RG_PENDING, rg_reviewed_by = None,
           rg_reviewed_at = None, rg_reject_reason = None, rg_user = None, rg_created_at = rq_now q\<rparr>) (regs d)\<rparr>
     in Inr (i, alog_add q None ''REGISTRATION_REQUESTED'' ''registration_request'' (nat_str i) None
          (Some (JObj [(''phone'', JStr (ri_phone inp)), (''branchId'', jnat (ri_branch inp))])) d1))))"

subsection \<open>Password change\<close>

definition changePassword ::
  "(string \<Rightarrow> string) \<Rightarrow> (string \<Rightarrow> string \<Rightarrow> bool) \<Rightarrow> session_env \<Rightarrow> req \<Rightarrow> string \<Rightarrow> string \<Rightarrow> auth_user \<Rightarrow>
   string \<Rightarrow> string \<Rightarrow> (adb, nat) tx" where
  "changePassword sha256 verify e q token newHash a currentPassword newPassword d =
    need (live_account (au_id a) d) (unauthorized ''UNAUTHORIZED'') (\<lambda>row.
    throw_if (temp_expired (rq_now q) row) (unauthorized ''TEMP_PASSWORD_EXPIRED'')
    (throw_if (\<not> verify currentPassword (ac_hash row)) (badRequest ''INVALID_CURRENT_PASSWORD'')
    (throw_if (verify newPassword (ac_hash row)) (badRequest ''PASSWORD_REUSE'')
    (let d1 = upd_account (au_id a) (\<lambda>u. u\<lparr>ac_hash := newHash, ac_must_change := False, ac_temp_expires := None\<rparr>) d;
         d2 = revokeAllSessions (rq_now q) (au_id a) d1;
         d3 = alog_add q (Some (au_id a)) ''PASSWORD_CHANGED'' ''user'' (nat_str (au_id a)) None None d2
     in createSession sha256 e q token (au_id a) False d3))))"

end
