(* ===== verification/Users.thy ===== *)
theory Users
  imports Accounts
begin

section \<open>User management\<close>

text \<open>
  Models users.service.ts, user.mapper.ts, registration.admin.service.ts and temp-password.ts
  over the tables of \<open>Accounts\<close>. \<open>toIso\<close> is \<open>toISOString\<close>, \<open>like\<close> the LIKE of the collation.
\<close>

subsection \<open>Registration requests under review\<close>

definition listRegistrationRequests :: "reg_status option \<Rightarrow> adb \<Rightarrow> reg_row list" where
  "listRegistrationRequests st d =
    take 200 (rev (sort_key rg_created_at
      (filter (\<lambda>r. (\<exists>b\<in>set (rows (abranches d)). b_id b = rg_branch r) \<and>
        (case st of None \<Rightarrow> True | Some s \<Rightarrow> rg_status r = s)) (rows (regs d)))))"

definition new_account ::
  "nat \<Rightarrow> string \<Rightarrow> string \<Rightarrow> string \<Rightarrow> string \<Rightarrow> string \<Rightarrow> nat option \<Rightarrow> role \<Rightarrow> nat \<Rightarrow> account" where
  "new_account now fname lname phone hash region branch r i =
    \<lparr>ac_id = i, ac_first = fname, ac_last = lname, ac_phone = phone, ac_hash = hash, ac_region = region,
     ac_branch = branch, ac_role = r, ac_status = U_ACTIVE, ac_must_change = False, ac_temp_expires = None,
     ac_last_login = None, ac_created_at = now, ac_deleted = False\<rparr>"

text \<open>The unique key of \<open>users.phone\<close> also sees deleted rows.\<close>

definition approveRegistrationRequest :: "req \<Rightarrow> nat \<Rightarrow> role \<Rightarrow> nat \<Rightarrow> (adb, nat) tx" where
  "approveRegistrationRequest q requestId r adminId d =
    need (by_id rg_id requestId (regs d)) notFound (\<lambda>rq.
    throw_if (rg_status rq \<noteq> RG_PENDING) (conflict ''ALREADY_REVIEWED'')
    (throw_if (findUserByPhone (rg_phone rq) d \<noteq> None) (conflict ''PHONE_TAKEN'')
    (throw_if (phone_taken (rg_phone rq) d) duplicateKey
    (let newUserId = next_id (accounts d);
         d1 = d\<lparr>accounts := t_insert (new_account (rq_now q) (rg_first rq) (rg_last rq) (rg_phone rq)
                (rg_hash rq) (rg_region rq) (Some (rg_branch rq)) r) (accounts d)\<rparr>;
         d2 = d1\<lparr>regs := update_id rg_id requestId (\<lambda>x. x\<lparr>rg_status := RG_APPROVED,
                rg_reviewed_by := Some adminId, rg_reviewed_at := Some (rq_now q), rg_user := Some newUserId\<rparr>) (regs d1)\<rparr>
     in Inr (newUserId, alog_add q (Some adminId) ''USER_APPROVED'' ''registration_request'' (nat_str requestId)
          (Some (JObj [(''status'', JStr ''PENDING'')]))
          (Some (JObj [(''status'', JStr ''APPROVED''), (''userId'', jnat newUserId), (''role'', JStr (role_str r))])) d2)))))"

definition rejectRegistrationRequest :: "req \<Rightarrow> nat \<Rightarrow> string \<Rightarrow> nat \<Rightarrow> (adb, unit) tx" where
  "rejectRegistrationRequest q requestId reason adminId d =
    need (by_id rg_id requestId (regs d)) notFound (\<lambda>rq.
    throw_if (rg_status rq \<noteq> RG_PENDING) (conflict ''ALREADY_REVIEWED'')
    (Inr ((), alog_add q (Some adminId) ''USER_REJECTED'' ''registration_request'' (nat_str requestId)
       (Some (JObj [(''status'', JStr ''PENDING'')]))
       (Some (JObj [(''status'', JStr ''REJECTED''), (''reason'', JStr reason)]))
       (d\<lparr>regs := update_id rg_id requestId (\<lambda>x. x\<lparr>rg_status := RG_REJECTED, rg_reviewed_by := Some adminId,
          rg_reviewed_at := Some (rq_now q), rg_reject_reason := Some reason\<rparr>) (regs d)\<rparr>))))"

subsection \<open>User management\<close>

text \<open>\<open>resolveRoleAndBranch\<close>; \<open>!actor.branchId\<close> also holds for 0.\<close>

definition resolveRoleAndBranch :: "auth_user \<Rightarrow> role \<Rightarrow> nat option \<Rightarrow> adb \<Rightarrow> api_error + nat option" where
  "resolveRoleAndBranch a r branchId d =
    throw_if (r \<notin> set (getAssignableRoles (au_role a))) (forbidden ''ROLE_NOT_ALLOWED'')
    (let finish = (\<lambda>b.
       throw_if (r \<in> set BRANCH_REQUIRED_ROLES \<and> b = None) (badRequest ''BRANCH_REQUIRED'')
       (throw_if (case b of None \<Rightarrow> False | Some i \<Rightarrow> \<not> branch_active i d) (badRequest ''INVALID_BRANCH'') (Inr b)))
     in if isBranchScoped (au_role a) then
          (case au_branch a of
             None \<Rightarrow> Inl (forbidden ''NO_BRANCH'')
           | Some mine \<Rightarrow>
               throw_if (mine = 0) (forbidden ''NO_BRANCH'')
               (throw_if (branchId \<noteq> None \<and> branchId \<noteq> Some mine) (forbidden ''BRANCH_SCOPE'') (finish (Some mine))))
        else finish branchId)"

definition activeAdminIds :: "adb \<Rightarrow> nat list" where
  "activeAdminIds d =
    map ac_id (t_where (\<lambda>u. ac_role u = ADMIN \<and> ac_status u = U_ACTIVE \<and> \<not> ac_deleted u) (accounts d))"

definition assertNotLastActiveAdmin :: "nat list \<Rightarrow> nat \<Rightarrow> (api_error + 'a) \<Rightarrow> api_error + 'a" where
  "assertNotLastActiveAdmin ids target k =
    throw_if (filter (\<lambda>i. i \<noteq> target) ids = []) (conflict ''LAST_ADMIN_PROTECTED'') k"

record create_user_input =
  cu_first :: string
  cu_last :: string
  cu_phone_in :: string
  cu_region :: string
  cu_branch :: "nat option"
  cu_role :: role

definition createUser :: "req \<Rightarrow> auth_user \<Rightarrow> string \<Rightarrow> create_user_input \<Rightarrow> (adb, nat) tx" where
  "createUser q a hash inp d =
    andThen (resolveRoleAndBranch a (cu_role inp) (cu_branch inp) d) (\<lambda>branch.
    throw_if (findUserByPhone (cu_phone_in inp) d \<noteq> None) (conflict ''PHONE_TAKEN'')
    (throw_if (phone_taken (cu_phone_in inp) d) duplicateKey
    (let newId = next_id (accounts d);
         d1 = d\<lparr>accounts := t_insert (new_account (rq_now q) (cu_first inp) (cu_last inp) (cu_phone_in inp) hash
                (cu_region inp) branch (cu_role inp)) (accounts d)\<rparr>
     in Inr (newId, alog_add q (Some (au_id a)) ''USER_CREATED'' ''user'' (nat_str newId) None
          (Some (JObj [(''phone'', JStr (cu_phone_in inp)), (''role'', JStr (role_str (cu_role inp))),
             (''branchId'', jopt jnat branch), (''region'', JStr (cu_region inp))])) d1))))"

text \<open>\<open>None\<close> is an absent member; the branch may also be present and null.\<close>

record update_user_input =
  uu_first :: "string option"
  uu_last :: "string option"
  uu_phone :: "string option"
  uu_region :: "string option"
  uu_branch :: "nat option option"
  uu_role :: "role option"

definition user_changes :: "update_user_input \<Rightarrow> account \<Rightarrow> (string \<times> json) list" where
  "user_changes inp u =
     text_change ''firstName'' (uu_first inp) (ac_first u) @ text_change ''lastName'' (uu_last inp) (ac_last u)
   @ text_change ''phone'' (uu_phone inp) (ac_phone u) @ text_change ''region'' (uu_region inp) (ac_region u)"

definition user_writes :: "req \<Rightarrow> auth_user \<Rightarrow> nat \<Rightarrow> update_user_input \<Rightarrow> account \<Rightarrow> adb \<Rightarrow> adb" where
  "user_writes q a i inp cur d =
    (let log = (\<lambda>action old new. alog_add q (Some (au_id a)) action ''user'' (nat_str i) old new);
         d1 = upd_account i (\<lambda>u. u\<lparr>ac_first := given (uu_first inp) (ac_first u), ac_last := given (uu_last inp) (ac_last u),
                ac_phone := given (uu_phone inp) (ac_phone u), ac_region := given (uu_region inp) (ac_region u),
                ac_branch := given (uu_branch inp) (ac_branch u), ac_role := given (uu_role inp) (ac_role u)\<rparr>) d;
         d2 = (case uu_role inp of
                 Some r \<Rightarrow> if r \<noteq> ac_role cur then log ''USER_ROLE_CHANGED'' (Some (JObj [(''role'', JStr (role_str (ac_role cur)))]))
                   (Some (JObj [(''role'', JStr (role_str r))])) d1 else d1
               | None \<Rightarrow> d1);
         d3 = (case uu_branch inp of
                 Some b \<Rightarrow> if b \<noteq> ac_branch cur then log ''USER_BRANCH_CHANGED'' (Some (JObj [(''branchId'', jopt jnat (ac_branch cur))]))
                   (Some (JObj [(''branchId'', jopt jnat b)])) d2 else d2
               | None \<Rightarrow> d2)
     in if user_changes inp cur \<noteq> [] then log ''USER_UPDATED'' None (Some (JObj (user_changes inp cur))) d3 else d3)"

definition updateUser :: "req \<Rightarrow> auth_user \<Rightarrow> nat \<Rightarrow> update_user_input \<Rightarrow> (adb, unit) tx" where
  "updateUser q a i inp d =
    throw_if (uu_role inp \<noteq> None \<and> i = au_id a) (conflict ''SELF_ROLE_CHANGE'')
    (need (live_account i d) notFound (\<lambda>cur.
     let nextRole = given (uu_role inp) (ac_role cur);
         branch = given (uu_branch inp) (ac_branch cur);
         checks = (\<lambda>k :: api_error + unit \<times> adb. if uu_role inp \<noteq> None \<or> uu_branch inp \<noteq> None then
             (let k' = andThen (resolveRoleAndBranch a nextRole branch d) (\<lambda>_. k) in
              if ac_role cur = ADMIN \<and> nextRole \<noteq> ADMIN then assertNotLastActiveAdmin (activeAdminIds d) i k' else k')
           else k)
     in checks
      (throw_if (case uu_phone inp of None \<Rightarrow> False | Some p \<Rightarrow> p \<noteq> ac_phone cur \<and>
           t_first (\<lambda>u. ac_phone u = p \<and> \<not> ac_deleted u \<and> ac_id u \<noteq> i) (accounts d) \<noteq> None)
         (conflict ''PHONE_TAKEN'')
      (throw_if (case uu_phone inp of None \<Rightarrow> False | Some p \<Rightarrow> p \<noteq> ac_phone cur \<and> phone_taken p d) duplicateKey
      (Inr ((), user_writes q a i inp cur d))))))"

definition blockUser :: "req \<Rightarrow> auth_user \<Rightarrow> nat \<Rightarrow> (adb, unit) tx" where
  "blockUser q a i d =
    throw_if (i = au_id a) (conflict ''SELF_BLOCK'')
    (need (live_account i d) notFound (\<lambda>cur.
     throw_if (ac_status cur = U_BLOCKED) (conflict ''ALREADY_BLOCKED'')
     (let k = Inr ((), alog_add q (Some (au_id a)) ''USER_BLOCKED'' ''user'' (nat_str i)
           (Some (JObj [(''status'', JStr ''ACTIVE'')])) (Some (JObj [(''status'', JStr ''BLOCKED'')]))
           (revokeAllSessions (rq_now q) i (upd_account i (\<lambda>u. u\<lparr>ac_status := U_BLOCKED\<rparr>) d)))
      in if ac_role cur = ADMIN then assertNotLastActiveAdmin (activeAdminIds d) i k else k)))"

definition unblockUser :: "req \<Rightarrow> auth_user \<Rightarrow> nat \<Rightarrow> (adb, unit) tx" where
  "unblockUser q a i d =
    need (live_account i d) notFound (\<lambda>cur.
    throw_if (ac_status cur \<noteq> U_BLOCKED) (conflict ''NOT_BLOCKED'')
    (Inr ((), alog_add q (Some (au_id a)) ''USER_UNBLOCKED'' ''user'' (nat_str i)
       (Some (JObj [(''status'', JStr ''BLOCKED'')])) (Some (JObj [(''status'', JStr ''ACTIVE'')]))
       (upd_account i (\<lambda>u. u\<lparr>ac_status := U_ACTIVE\<rparr>) d))))"

definition ALPHABET :: string where
  "ALPHABET = ''ABCDEFGHJKLMNPQRSTUVWXYZabcdefghijkmnpqrstuvwxyz23456789''"

text \<open>The indices are the results of \<open>crypto.randomInt(ALPHABET.length)\<close>.\<close>

definition generateTemporaryPassword :: "nat list \<Rightarrow> string" where
  "generateTemporaryPassword is = map ((!) ALPHABET) (take 14 is)"

definition resetUserPassword ::
  "(string \<Rightarrow> string \<Rightarrow> bool) \<Rightarrow> (nat \<Rightarrow> string) \<Rightarrow> session_env \<Rightarrow> req \<Rightarrow> auth_user \<Rightarrow> string \<Rightarrow> nat \<Rightarrow>
   string \<Rightarrow> string \<Rightarrow> (adb, nat) tx" where
  "resetUserPassword verify toIso e q a newHash targetId currentPassword reason d =
    throw_if (targetId = au_id a) (conflict ''SELF_RESET_FORBIDDEN'')
    (throw_if (case live_account (au_id a) d of None \<Rightarrow> True | Some me \<Rightarrow> \<not> verify currentPassword (ac_hash me))
       (unauthorized ''ADMIN_REAUTH_FAILED'')
    (need (live_account targetId d) notFound (\<lambda>_.
     let expires = rq_now q + temp_ttl_s e;
         d1 = upd_account targetId (\<lambda>u. u\<lparr>ac_hash := newHash, ac_must_change := True, ac_temp_expires := Some expires\<rparr>) d;
         d2 = revokeAllSessions (rq_now q) targetId d1;
         d3 = d2\<lparr>resets := t_update (\<lambda>r. pr_user r = targetId \<and> (pr_consumed r = None \<or> pr_used r = None))
                (\<lambda>r. r\<lparr>pr_consumed := Some (rq_now q), pr_used := Some (rq_now q)\<rparr>) (resets d2)\<rparr>
     in Inr (expires, alog_add q (Some (au_id a)) ''PASSWORD_RESET_BY_ADMIN'' ''user'' (nat_str targetId) None
          (Some (JObj [(''reason'', JStr (take 500 reason)), (''tempPasswordExpiresAt'', JStr (toIso expires)),
             (''sessionsRevoked'', JBool True), (''mustChangePassword'', JBool True)])) d3))))"

subsection \<open>Reading users\<close>

record user_detail =
  ud_id :: nat
  ud_first :: string
  ud_last :: string
  ud_phone :: string
  ud_region :: string
  ud_role :: role
  ud_branch :: "nat option"
  ud_branch_name :: "string option"
  ud_status :: user_status
  ud_last_login :: "nat option"
  ud_created :: nat

definition toUserDetail :: "adb \<Rightarrow> account \<Rightarrow> user_detail" where
  "toUserDetail d u = \<lparr>ud_id = ac_id u, ud_first = ac_first u, ud_last = ac_last u, ud_phone = ac_phone u,
     ud_region = ac_region u, ud_role = ac_role u, ud_branch = ac_branch u,
     ud_branch_name = Option.bind (ac_branch u) (\<lambda>b. map_option b_name (by_id b_id b (abranches d))),
     ud_status = ac_status u, ud_last_login = ac_last_login u, ud_created = ac_created_at u\<rparr>"

definition getOwnProfile :: "auth_user \<Rightarrow> adb \<Rightarrow> api_error + user_detail" where
  "getOwnProfile a d = need (live_account (au_id a) d) notFound (\<lambda>u. Inr (toUserDetail d u))"

definition getUser :: "auth_user \<Rightarrow> nat \<Rightarrow> adb \<Rightarrow> api_error + user_detail" where
  "getUser a i d =
    need (live_account i d) notFound (\<lambda>u.
    throw_if (isBranchScoped (au_role a) \<and> ac_branch u \<noteq> au_branch a) notFound (Inr (toUserDetail d u)))"

record list_users_query =
  lq_search :: "string option"
  lq_role :: "role option"
  lq_branch :: "nat option"
  lq_status :: "user_status option"
  lq_page :: nat
  lq_limit :: nat
  lq_exclude_self :: bool

definition escape_like :: "string \<Rightarrow> string" where
  "escape_like s = concat (map (\<lambda>c. if c = CHR ''%'' \<or> c = CHR ''_'' then [CHR 0x5C, c] else [c]) s)"

definition like_term :: "string \<Rightarrow> string" where
  "like_term s = ''%'' @ escape_like s @ ''%''"

text \<open>\<open>like column pattern\<close> is the LIKE of the collation. A search of no characters is no search.\<close>

definition user_listed :: "(string \<Rightarrow> string \<Rightarrow> bool) \<Rightarrow> auth_user \<Rightarrow> list_users_query \<Rightarrow> account \<Rightarrow> bool" where
  "user_listed like a qy u =
    (\<not> ac_deleted u \<and> (lq_exclude_self qy \<longrightarrow> ac_id u \<noteq> au_id a) \<and>
     (if isBranchScoped (au_role a) then au_branch a \<noteq> None \<and> ac_branch u = au_branch a
      else (case lq_branch qy of None \<Rightarrow> True | Some b \<Rightarrow> ac_branch u = Some b)) \<and>
     opt_eq (lq_role qy) (Some (ac_role u)) \<and> opt_eq (lq_status qy) (Some (ac_status u)) \<and>
     (case lq_search qy of None \<Rightarrow> True | Some s \<Rightarrow> s = [] \<or>
        like (ac_first u) (like_term s) \<or> like (ac_last u) (like_term s) \<or>
        (length (filter is_digit s) \<ge> 4 \<and> like (ac_phone u) (''%'' @ filter is_digit s @ ''%''))))"

definition listUsers ::
  "(string \<Rightarrow> string \<Rightarrow> bool) \<Rightarrow> auth_user \<Rightarrow> list_users_query \<Rightarrow> adb \<Rightarrow> user_detail list \<times> nat" where
  "listUsers like a qy d =
    (let found = t_where (user_listed like a qy) (accounts d) in
     (map (toUserDetail d) (take (lq_limit qy) (drop ((lq_page qy - 1) * lq_limit qy)
        (rev (sort_key (\<lambda>u. (ac_created_at u, ac_id u)) found)))), length found))"

end
