(* ===== verification/Branches.thy ===== *)
theory Branches
  imports Accounts
begin

section \<open>Branches\<close>

text \<open>
  Models branches.service.ts over the tables of \<open>Accounts\<close>. \<open>lower\<close> is LOWER of the collation
  and \<open>weight\<close> the sort key of its ORDER BY.
\<close>

definition listBranchesFull :: "(string \<Rightarrow> string) \<Rightarrow> adb \<Rightarrow> (branch_row \<times> nat) list" where
  "listBranchesFull weight d =
    map (\<lambda>b. (b, t_count (\<lambda>u. ac_branch u = Some (b_id b) \<and> \<not> ac_deleted u) (accounts d)))
      (sort_key (\<lambda>b. weight (b_name b)) (rows (abranches d)))"

definition listBranchesPublic :: "(string \<Rightarrow> string) \<Rightarrow> adb \<Rightarrow> (nat \<times> string \<times> string) list" where
  "listBranchesPublic weight d =
    map (\<lambda>b. (b_id b, b_name b, b_region b)) (sort_key (\<lambda>b. weight (b_name b)) (t_where b_active (abranches d)))"

definition getBranch :: "nat \<Rightarrow> adb \<Rightarrow> api_error + branch_row" where
  "getBranch i d = need (by_id b_id i (abranches d)) notFound Inr"

definition name_free :: "(string \<Rightarrow> string) \<Rightarrow> string \<Rightarrow> nat option \<Rightarrow> adb \<Rightarrow> bool" where
  "name_free lower name except d =
    (t_first (\<lambda>b. lower (b_name b) = lower name \<and> Some (b_id b) \<noteq> except) (abranches d) = None)"

definition createBranch ::
  "(string \<Rightarrow> string) \<Rightarrow> req \<Rightarrow> auth_user \<Rightarrow> string \<Rightarrow> string \<Rightarrow> string option \<Rightarrow> string option \<Rightarrow> (adb, nat) tx" where
  "createBranch lower q a name region address phone d =
    throw_if (\<not> name_free lower name None d) (conflict ''BRANCH_NAME_TAKEN'')
    (let i = next_id (abranches d) in
     Inr (i, alog_add q (Some (au_id a)) ''BRANCH_CREATED'' ''branch'' (nat_str i) None
       (Some (JObj [(''name'', JStr name), (''region'', JStr region)]))
       (d\<lparr>abranches := t_insert (\<lambda>i. \<lparr>b_id = i, b_name = name, b_region = region, b_address = address,
          b_phone = phone, b_active = True\<rparr>) (abranches d)\<rparr>)))"

record branch_input =
  bi_name :: "string option"
  bi_region :: "string option"
  bi_address :: "string option option"
  bi_phone :: "string option option"

definition branch_changes :: "branch_input \<Rightarrow> branch_row \<Rightarrow> (string \<times> json) list" where
  "branch_changes inp b =
     text_change ''name'' (bi_name inp) (b_name b) @ text_change ''region'' (bi_region inp) (b_region b)
   @ change_entry ''address'' JStr (bi_address inp) (b_address b) @ change_entry ''phone'' JStr (bi_phone inp) (b_phone b)"

definition updateBranch :: "(string \<Rightarrow> string) \<Rightarrow> req \<Rightarrow> auth_user \<Rightarrow> nat \<Rightarrow> branch_input \<Rightarrow> (adb, unit) tx" where
  "updateBranch lower q a i inp d =
    throw_if (case bi_name inp of None \<Rightarrow> False | Some n \<Rightarrow> \<not> name_free lower n (Some i) d) (conflict ''BRANCH_NAME_TAKEN'')
    (need (by_id b_id i (abranches d)) notFound (\<lambda>cur.
     if branch_changes inp cur = [] then Inr ((), d)
     else Inr ((), alog_add q (Some (au_id a)) ''BRANCH_UPDATED'' ''branch'' (nat_str i) None
       (Some (JObj (branch_changes inp cur)))
       (d\<lparr>abranches := update_id b_id i (\<lambda>b. b\<lparr>b_name := given (bi_name inp) (b_name b),
          b_region := given (bi_region inp) (b_region b), b_address := given (bi_address inp) (b_address b),
          b_phone := given (bi_phone inp) (b_phone b)\<rparr>) (abranches d)\<rparr>))))"

definition branch_status_str :: "bool \<Rightarrow> string" where
  "branch_status_str act = (if act then ''ACTIVE'' else ''INACTIVE'')"

definition of_branch :: "nat \<Rightarrow> adb \<Rightarrow> session_row \<Rightarrow> bool" where
  "of_branch i d s = (\<exists>u\<in>set (rows (accounts d)). ac_id u = se_user s \<and> ac_branch u = Some i \<and> \<not> ac_deleted u)"

definition setBranchStatus :: "req \<Rightarrow> auth_user \<Rightarrow> nat \<Rightarrow> bool \<Rightarrow> (adb, unit) tx" where
  "setBranchStatus q a i act d =
    need (by_id b_id i (abranches d)) notFound (\<lambda>cur.
    throw_if (b_active cur = act) (conflict ''STATUS_UNCHANGED'')
    (let d1 = d\<lparr>abranches := update_id b_id i (\<lambda>b. b\<lparr>b_active := act\<rparr>) (abranches d)\<rparr>;
         live = t_count (\<lambda>s. of_branch i d1 s \<and> se_revoked s = None) (sessions d1);
         d2 = (if act then d1 else revoke_where (rq_now q) (of_branch i d1) d1)
     in Inr ((), alog_add q (Some (au_id a)) (if act then ''BRANCH_ACTIVATED'' else ''BRANCH_DEACTIVATED'') ''branch'' (nat_str i)
          (Some (JObj [(''status'', JStr (branch_status_str (b_active cur)))]))
          (Some (JObj ((''status'', JStr (branch_status_str act)) #
             (if act then [] else [(''revokedSessions'', jnat live)])))) d2)))"

end
