(* ===== verification/AccountRuns.thy ===== *)
theory AccountRuns
  imports Auth Users Branches
begin

section \<open>Runs of account requests\<close>

text \<open>
  One step is one committed request of the authentication, user, registration or branch
  services, by a user whose role has the permission the route demands (or by anyone, for login,
  logout, registration and the resolution of a cookie). Failed logins are steps as well: they
  write an audit record.
\<close>

record account_env =
  en_sha256 :: "string \<Rightarrow> string"
  en_verify :: "string \<Rightarrow> string \<Rightarrow> bool"
  en_session :: session_env
  en_lower :: "string \<Rightarrow> string"
  en_iso :: "nat \<Rightarrow> string"

inductive account_step :: "account_env \<Rightarrow> adb \<Rightarrow> adb \<Rightarrow> bool" for c where
  ac_login: "login (en_sha256 c) (en_verify c) (en_session c) q token p pw rm d = (res, d') \<Longrightarrow> account_step c d d'"
| ac_logout: "logout (en_sha256 c) q tok d = d' \<Longrightarrow> account_step c d d'"
| ac_resolve: "resolveSession (en_sha256 c) (en_session c) q fresh tok d = Inr (out, d') \<Longrightarrow> account_step c d d'"
| ac_register: "createRegistrationRequest q h inp d = Inr (n, d') \<Longrightarrow> account_step c d d'"
| ac_password: "changePassword (en_sha256 c) (en_verify c) (en_session c) q token h a old new d = Inr (ab, d') \<Longrightarrow>
    account_step c d d'"
| ac_approve: "can (au_role (a :: auth_user)) Registration_review \<Longrightarrow> approveRegistrationRequest q i r (au_id a) d = Inr (n, d') \<Longrightarrow>
    account_step c d d'"
| ac_reject: "can (au_role (a :: auth_user)) Registration_review \<Longrightarrow> rejectRegistrationRequest q i why (au_id a) d = Inr (u, d') \<Longrightarrow>
    account_step c d d'"
| ac_create: "can (au_role a) Users_create \<Longrightarrow> createUser q a h cinp d = Inr (n, d') \<Longrightarrow> account_step c d d'"
| ac_update: "can (au_role a) Users_update \<Longrightarrow> updateUser q a i uinp d = Inr (u, d') \<Longrightarrow> account_step c d d'"
| ac_block: "can (au_role a) Users_block \<Longrightarrow> blockUser q a i d = Inr (u, d') \<Longrightarrow> account_step c d d'"
| ac_unblock: "can (au_role a) Users_block \<Longrightarrow> unblockUser q a i d = Inr (u, d') \<Longrightarrow> account_step c d d'"
| ac_reset: "can (au_role a) Users_reset_password \<Longrightarrow>
    resetUserPassword (en_verify c) (en_iso c) (en_session c) q a h i old why d = Inr (n, d') \<Longrightarrow> account_step c d d'"
| ac_branch_create: "can (au_role a) Branches_manage \<Longrightarrow> createBranch (en_lower c) q a nm rg ad ph d = Inr (n, d') \<Longrightarrow>
    account_step c d d'"
| ac_branch_update: "can (au_role a) Branches_manage \<Longrightarrow> updateBranch (en_lower c) q a i binp d = Inr (u, d') \<Longrightarrow>
    account_step c d d'"
| ac_branch_status: "can (au_role a) Branches_manage \<Longrightarrow> setBranchStatus q a i act d = Inr (u, d') \<Longrightarrow>
    account_step c d d'"

subsection \<open>The session table\<close>

text \<open>
  Token hashes are unique, and the sessions of a family belong to one user, end at one time and
  at most one of them has not been superseded.
\<close>

definition one_login :: "session_row \<Rightarrow> session_row \<Rightarrow> bool" where
  "one_login s s' \<longleftrightarrow> se_user s = se_user s' \<and> se_absolute s = se_absolute s' \<and>
     (se_superseded s = None \<longrightarrow> se_superseded s' = None \<longrightarrow> se_id s = se_id s')"

definition sessions_ok :: "session_row tbl \<Rightarrow> bool" where
  "sessions_ok t \<longleftrightarrow> keyed se_id t \<and> distinct (map se_token_hash (rows t)) \<and>
     (\<forall>s\<in>set (rows t). se_family s < next_id t) \<and>
     (\<forall>s\<in>set (rows t). \<forall>s'\<in>set (rows t). se_family s = se_family s' \<longrightarrow> one_login s s')"

lemma sessions_okD:
  assumes "sessions_ok t"
  shows "keyed se_id t" "distinct (map se_token_hash (rows t))" "s \<in> set (rows t) \<Longrightarrow> se_family s < next_id t"
    "s \<in> set (rows t) \<Longrightarrow> s' \<in> set (rows t) \<Longrightarrow> se_family s = se_family s' \<Longrightarrow> one_login s s'"
  using assms by (simp_all add: sessions_ok_def)

lemma sessions_okI:
  assumes "keyed se_id t" "distinct (map se_token_hash (rows t))" "\<And>s. s \<in> set (rows t) \<Longrightarrow> se_family s < next_id t"
    "\<And>s s'. s \<in> set (rows t) \<Longrightarrow> s' \<in> set (rows t) \<Longrightarrow> se_family s = se_family s' \<Longrightarrow> one_login s s'"
  shows "sessions_ok t"
  using assms by (simp add: sessions_ok_def)

text \<open>What no operation changes in a row: all but the revocation, the last use and the supersession.\<close>

definition later :: "session_row \<Rightarrow> session_row \<Rightarrow> bool" where
  "later s s' \<longleftrightarrow> se_id s' = se_id s \<and> se_token_hash s' = se_token_hash s \<and> se_user s' = se_user s \<and>
     se_family s' = se_family s \<and> se_absolute s' = se_absolute s \<and>
     (se_revoked s \<noteq> None \<longrightarrow> se_revoked s' = se_revoked s) \<and>
     (se_superseded s \<noteq> None \<longrightarrow> se_superseded s' = se_superseded s)"

definition sessions_le :: "session_row tbl \<Rightarrow> session_row tbl \<Rightarrow> bool" where
  "sessions_le t t' \<longleftrightarrow> (\<forall>s\<in>set (rows t). \<exists>s'\<in>set (rows t'). later s s')"

definition sessions_grow :: "adb \<Rightarrow> adb \<Rightarrow> bool" where
  "sessions_grow d d' \<longleftrightarrow> (sessions_ok (sessions d) \<longrightarrow>
     sessions_ok (sessions d') \<and> sessions_le (sessions d) (sessions d'))"

lemma later_refl: "later s s"
  by (simp add: later_def)

lemma later_trans: "later s t \<Longrightarrow> later t u \<Longrightarrow> later s u"
  by (auto simp: later_def)

lemma sessions_le_refl: "sessions_le t t"
  by (auto simp: sessions_le_def intro: later_refl)

lemma sessions_le_trans: "sessions_le t u \<Longrightarrow> sessions_le u v \<Longrightarrow> sessions_le t v"
  unfolding sessions_le_def by (meson later_trans)

lemma grow_same: "sessions d' = sessions d \<Longrightarrow> sessions_grow d d'"
  by (simp add: sessions_grow_def sessions_le_refl)

lemma grow_trans: "sessions_grow d d1 \<Longrightarrow> sessions_grow d1 d2 \<Longrightarrow> sessions_grow d d2"
  unfolding sessions_grow_def by (blast intro: sessions_le_trans)

lemma grow_same_left: "sessions_grow d1 d2 \<Longrightarrow> sessions d = sessions d1 \<Longrightarrow> sessions_grow d d2"
  by (simp add: sessions_grow_def)

lemma grow_same_right: "sessions_grow d d1 \<Longrightarrow> sessions d2 = sessions d1 \<Longrightarrow> sessions_grow d d2"
  by (simp add: sessions_grow_def)

lemma sessions_ok_update:
  assumes ok: "sessions_ok t" and later: "\<And>s. s \<in> set (rows t) \<Longrightarrow> P s \<Longrightarrow> later s (f s)"
  shows "sessions_ok (t_update P f t)"
proof -
  define g where "g = (\<lambda>s. if P s then f s else s)"
  have g: "se_id (g s) = se_id s" "se_token_hash (g s) = se_token_hash s" "se_user (g s) = se_user s"
    "se_family (g s) = se_family s" "se_absolute (g s) = se_absolute s"
    "se_superseded (g s) = None \<Longrightarrow> se_superseded s = None" if "s \<in> set (rows t)" for s
    using later [OF that] by (auto simp: later_def g_def split: if_splits)
  have rows: "rows (t_update P f t) = map g (rows t)" by (simp add: t_update_def g_def)
  have hashes: "map (se_token_hash \<circ> g) (rows t) = map se_token_hash (rows t)" by (simp add: g)
  show ?thesis
  proof (rule sessions_okI)
    show "keyed se_id (t_update P f t)"
      using sessions_okD(1) [OF ok] later by (intro keyed_update) (simp_all add: later_def)
    show "distinct (map se_token_hash (rows (t_update P f t)))"
      unfolding rows map_map hashes by (rule sessions_okD(2) [OF ok])
    show "se_family s < next_id (t_update P f t)" if "s \<in> set (rows (t_update P f t))" for s
      using that sessions_okD(3) [OF ok] g(4) by (auto simp: rows)
    show "one_login s s'" if m: "s \<in> set (rows (t_update P f t))" "s' \<in> set (rows (t_update P f t))"
      "se_family s = se_family s'" for s s'
    proof -
      obtain r r' where r: "s = g r" "s' = g r'" "r \<in> set (rows t)" "r' \<in> set (rows t)" using m(1,2) by (auto simp: rows)
      with m(3) have "one_login r r'" using sessions_okD(4) [OF ok r(3,4)] g(4) by simp
      with g(1,3,5,6) [OF r(3)] g(1,3,5,6) [OF r(4)] show ?thesis by (simp add: r(1,2) one_login_def)
    qed
  qed
qed

lemma sessions_le_update:
  assumes "\<And>s. s \<in> set (rows t) \<Longrightarrow> P s \<Longrightarrow> later s (f s)"
  shows "sessions_le t (t_update P f t)"
proof -
  define g where "g = (\<lambda>s. if P s then f s else s)"
  have "later s (g s)" if "s \<in> set (rows t)" for s using assms [OF that] by (simp add: later_refl g_def)
  moreover have "rows (t_update P f t) = map g (rows t)" by (simp add: t_update_def g_def)
  ultimately show ?thesis unfolding sessions_le_def by auto
qed

lemma sessions_le_insert: "sessions_le t (t_insert mk t)"
  by (auto simp: sessions_le_def set_rows_insert intro: later_refl)

lemma grow_update:
  assumes "\<And>s. s \<in> set (rows (sessions d)) \<Longrightarrow> P s \<Longrightarrow> later s (f s)"
  shows "sessions_grow d (upd_sessions P f d)"
  unfolding sessions_grow_def upd_sessions_def
  using sessions_ok_update [of "sessions d" P f] sessions_le_update [of "sessions d" P f] assms by simp

lemma grow_revoke: "sessions_grow d (revoke_where now P d)"
  unfolding revoke_where_def by (rule grow_update) (simp add: later_def)

lemma grow_touch: "sessions_grow d (upd_sessions P (\<lambda>s. s\<lparr>se_last_used := n\<rparr>) d)"
  by (rule grow_update) (simp add: later_def)

text \<open>A new session with a fresh hash: of a family of its own, or of one all of whose members are superseded.\<close>

lemma sessions_ok_insert:
  assumes ok: "sessions_ok t" and new: "mk (next_id t) = n" "se_id n = next_id t"
    and hash: "\<forall>s\<in>set (rows t). se_token_hash s \<noteq> se_token_hash n"
    and family: "se_family n \<le> next_id t"
    and members: "\<And>s. s \<in> set (rows t) \<Longrightarrow> se_family s = se_family n \<Longrightarrow>
      se_user s = se_user n \<and> se_absolute s = se_absolute n \<and> se_superseded s \<noteq> None"
  shows "sessions_ok (t_insert mk t)"
proof (rule sessions_okI)
  show "keyed se_id (t_insert mk t)"
    using sessions_okD(1) [OF ok] new by (auto simp: keyed_def t_insert_def less_Suc_eq)
  show "distinct (map se_token_hash (rows (t_insert mk t)))"
    using sessions_okD(2) [OF ok] hash by (auto simp: t_insert_def new(1))
  show "se_family s < next_id (t_insert mk t)" if "s \<in> set (rows (t_insert mk t))" for s
    using that family sessions_okD(3) [OF ok, of s] by (auto simp: set_rows_insert new(1))
  show "one_login s s'" if "s \<in> set (rows (t_insert mk t))" "s' \<in> set (rows (t_insert mk t))"
    "se_family s = se_family s'" for s s'
  proof -
    from that(1,2) consider "s = n" "s' = n" | "s = n" "s' \<in> set (rows t)" | "s \<in> set (rows t)" "s' = n"
      | "s \<in> set (rows t)" "s' \<in> set (rows t)" by (auto simp: set_rows_insert new(1))
    then show ?thesis
    proof cases
      case 1
      then show ?thesis by (simp add: one_login_def)
    next
      case 2
      with members [of s'] that(3) show ?thesis by (auto simp: one_login_def)
    next
      case 3
      with members [of s] that(3) show ?thesis by (auto simp: one_login_def)
    next
      case 4
      with sessions_okD(4) [OF ok] that(3) show ?thesis by simp
    qed
  qed
qed

lemma grow_create:
  assumes "createSession sha256 e q token u rm d = Inr (x, d')"
  shows "sessions_grow d d'"
proof -
  obtain mk n where d': "sessions d' = t_insert mk (sessions d)" and n: "mk (next_id (sessions d)) = n"
      "se_id n = next_id (sessions d)" "se_family n = next_id (sessions d)"
    and h: "\<not> hash_used (se_token_hash n) d"
    using assms by (auto simp: createSession_def Let_def)
  have "sessions_ok (t_insert mk (sessions d))" if ok: "sessions_ok (sessions d)"
  proof (rule sessions_ok_insert [OF ok, where n = n])
    show "mk (next_id (sessions d)) = n" "se_id n = next_id (sessions d)" by (rule n)+
    show "\<forall>s\<in>set (rows (sessions d)). se_token_hash s \<noteq> se_token_hash n" using h by (simp add: hash_used_def)
    show "se_family n \<le> next_id (sessions d)" by (simp add: n)
    fix s assume "s \<in> set (rows (sessions d))" "se_family s = se_family n"
    with sessions_okD(3) [OF ok this(1)] n(3)
    show "se_user s = se_user n \<and> se_absolute s = se_absolute n \<and> se_superseded s \<noteq> None" by simp
  qed
  then show ?thesis by (simp add: sessions_grow_def d' sessions_le_insert)
qed

lemma rotateSession_Inr:
  assumes "rotateSession sha256 q token i d = Inr (x, d')"
  obtains "d' = d" | cur n f where "cur \<in> set (rows (sessions d))" "se_id cur = i" "se_superseded cur = None"
    "sessions d' = update_id se_id i f (t_insert (\<lambda>_. n) (sessions d))" "\<not> hash_used (se_token_hash n) d"
    "se_id n = next_id (sessions d)" "se_user n = se_user cur" "se_family n = se_family cur" "se_absolute n = se_absolute cur"
    "f = (\<lambda>s. s\<lparr>se_superseded := Some (rq_now q), se_rotated_to := Some (next_id (sessions d))\<rparr>)"
proof (cases "by_id se_id i (sessions d)")
  case None
  with assms that(1) show ?thesis by (simp add: rotateSession_def)
next
  case (Some cur)
  show ?thesis
  proof (cases "se_superseded cur \<noteq> None \<or> se_revoked cur \<noteq> None")
    case True
    with assms that(1) Some show ?thesis by (auto simp: rotateSession_def)
  next
    case False
    let ?n = "\<lparr>se_id = next_id (sessions d), se_user = se_user cur, se_token_hash = sha256 token,
      se_remember = se_remember cur, se_absolute = se_absolute cur, se_family = se_family cur,
      se_seq = se_seq cur + 1, se_rotated_to = None, se_superseded = None, se_created = rq_now q,
      se_last_used = rq_now q, se_revoked = None, se_ip = se_ip cur, se_agent = se_agent cur\<rparr>"
    let ?f = "\<lambda>s. s\<lparr>se_superseded := Some (rq_now q), se_rotated_to := Some (next_id (sessions d))\<rparr>"
    have "sessions d' = update_id se_id i ?f (t_insert (\<lambda>_. ?n) (sessions d))" "\<not> hash_used (sha256 token) d"
      using assms Some False by (auto simp: rotateSession_def Let_def)
    with False by_id_Some [OF Some] show ?thesis by (intro that(2) [of cur ?f ?n]) simp_all
  qed
qed

lemma grow_rotate:
  assumes "rotateSession sha256 q token i d = Inr (x, d')"
  shows "sessions_grow d d'"
  using assms
proof (cases rule: rotateSession_Inr)
  case 1
  then show ?thesis by (simp add: grow_same)
next
  case (2 cur n f)
  let ?t = "sessions d" and ?u = "update_id se_id i f (sessions d)"
  show ?thesis unfolding sessions_grow_def
  proof (intro impI)
    assume ok: "sessions_ok ?t"
    have only: "s = cur" if "s \<in> set (rows ?t)" "se_id s = i" for s
      using keyed_inj [OF sessions_okD(1) [OF ok] that(1) 2(1)] that 2(2) by simp
    have later: "later s (f s)" if "s \<in> set (rows ?t)" "se_id s = i" for s
      using only [OF that] 2(3) by (simp add: later_def 2(10))
    have u: "sessions_ok ?u" "sessions_le ?t ?u"
      unfolding update_id_def using sessions_ok_update [OF ok later] sessions_le_update [OF later] by simp_all
    have "i \<noteq> next_id ?t" using keyed_fresh [OF sessions_okD(1) [OF ok] 2(1)] 2(2) by simp
    then have d': "sessions d' = t_insert (\<lambda>_. n) ?u"
      using 2(4,6) by (simp add: update_id_def t_update_def t_insert_def)
    have "sessions_ok (t_insert (\<lambda>_. n) ?u)"
    proof (rule sessions_ok_insert [OF u(1), where n = n])
      show "n = n" ..
      show "se_id n = next_id ?u" by (simp add: 2(6) update_id_def)
      show "\<forall>s\<in>set (rows ?u). se_token_hash s \<noteq> se_token_hash n"
        using 2(5) by (auto simp: hash_used_def update_id_def t_update_def 2(10))
      show "se_family n \<le> next_id ?u"
        using sessions_okD(3) [OF ok 2(1)] by (simp add: 2(8) update_id_def)
      fix s assume s: "s \<in> set (rows ?u)" "se_family s = se_family n"
      then obtain r where r: "r \<in> set (rows ?t)" "s = (if se_id r = i then f r else r)"
        by (auto simp: update_id_def t_update_def)
      have "one_login r cur" using s(2) r sessions_okD(4) [OF ok r(1) 2(1)] by (simp add: 2(8,10) split: if_splits)
      then show "se_user s = se_user n \<and> se_absolute s = se_absolute n \<and> se_superseded s \<noteq> None"
        using r(2) 2(2,3) by (auto simp: one_login_def 2(7,9,10) split: if_splits)
    qed
    then show "sessions_ok (sessions d') \<and> sessions_le ?t (sessions d')"
      unfolding d' using sessions_le_trans [OF u(2) sessions_le_insert] by simp
  qed
qed

subsection \<open>Every request keeps the session table\<close>

lemma sessions_upd_account [simp]: "sessions (upd_account i f d) = sessions d"
  by (simp add: upd_account_def)

lemma sessions_user_writes [simp]: "sessions (user_writes q a i inp cur d) = sessions d"
  by (simp add: user_writes_def Let_def split: option.splits)

lemma grow_audit: "sessions_grow d d' \<Longrightarrow> sessions_grow d (alog_add q u act et ei old new d')"
  by (rule grow_same_right) simp_all

lemma grow_login:
  assumes "login sha256 verify e q token p pw rm d = (res, d')"
  shows "sessions_grow d d'"
proof -
  have "sessions_grow d d1" if tx: "login_tx sha256 verify e q token u opened pw rm d = Inr (x, d1)" for u opened x d1
  proof (cases "\<exists>y d2. createSession sha256 e q token (ac_id u) rm d = Inr (y, d2) \<and> sessions d1 = sessions d2")
    case True
    then show ?thesis using grow_create grow_same_right by blast
  next
    case False
    with tx have "sessions d1 = sessions d"
      by (auto simp: login_tx_def login_fail_def andThen_Inr_iff split: option.splits if_splits)
    then show ?thesis by (rule grow_same)
  qed
  with assms show ?thesis
    by (auto simp: login_def transaction_def grow_same split: option.splits sum.splits prod.splits login_outcome.splits)
qed

lemma grow_resolve:
  assumes "resolveSession sha256 e q fresh tok d = Inr (out, d')"
  shows "sessions_grow d d'"
  using assms
  by (auto simp: resolveSession_def resolve_act_def andThen_Inr_iff grow_same grow_revoke grow_touch revokeFamily_def
      intro: grow_rotate split: session_plan.splits option.splits)

lemma grow_logout: "sessions_grow d (logout sha256 q tok d)"
  by (auto simp: logout_def revokeByToken_def revokeFamily_def grow_same grow_revoke intro: grow_audit
      split: option.splits prod.splits if_splits)

lemma changePassword_Inr:
  assumes "changePassword sha256 verify e q token h a old new d = Inr (x, d')"
  shows "\<exists>d1. sessions d1 = sessions (revoke_where (rq_now q) (\<lambda>s. se_user s = au_id a) d) \<and>
    createSession sha256 e q token (au_id a) False d1 = Inr (x, d')"
  using assms by (force simp: changePassword_def need_Inr_iff Let_def revokeAllSessions_def revoke_where_def upd_sessions_def)

lemma grow_password:
  assumes "changePassword sha256 verify e q token h a old new d = Inr (x, d')"
  shows "sessions_grow d d'"
  using changePassword_Inr [OF assms] grow_same_right [OF grow_revoke] grow_trans grow_create by blast

lemma sessions_account_writes:
  "sessions (revoke_where now P (upd_account i f d)) = sessions (revoke_where now P d)"
  by (simp add: revoke_where_def upd_sessions_def)

lemma grow_users:
  shows "createRegistrationRequest q h inp d = Inr (n, d') \<Longrightarrow> sessions_grow d d'"
    and "approveRegistrationRequest q i r b d = Inr (n, d') \<Longrightarrow> sessions_grow d d'"
    and "rejectRegistrationRequest q i why b d = Inr (x, d') \<Longrightarrow> sessions_grow d d'"
    and "createUser q a h cinp d = Inr (n, d') \<Longrightarrow> sessions_grow d d'"
    and "updateUser q a i uinp d = Inr (x, d') \<Longrightarrow> sessions_grow d d'"
    and "unblockUser q a i d = Inr (x, d') \<Longrightarrow> sessions_grow d d'"
    and "createBranch lower q a nm rg ad ph d = Inr (n, d') \<Longrightarrow> sessions_grow d d'"
    and "updateBranch lower q a i binp d = Inr (x, d') \<Longrightarrow> sessions_grow d d'"
  by (rule grow_same; auto simp: createRegistrationRequest_def approveRegistrationRequest_def rejectRegistrationRequest_def
      createUser_def updateUser_def unblockUser_def createBranch_def updateBranch_def assertNotLastActiveAdmin_def
      flow_iffs Let_def split: if_splits)+

lemma grow_block: "blockUser q a i d = Inr (x, d') \<Longrightarrow> sessions_grow d d'"
  by (auto simp: blockUser_def assertNotLastActiveAdmin_def need_Inr_iff Let_def sessions_account_writes
      revokeAllSessions_def intro!: grow_audit grow_same_right [OF grow_revoke] split: if_splits)

lemma grow_reset: "resetUserPassword verify toIso e q a h i old why d = Inr (x, d') \<Longrightarrow> sessions_grow d d'"
  by (auto simp: resetUserPassword_def need_Inr_iff Let_def sessions_account_writes
      revokeAllSessions_def intro!: grow_audit grow_same_right [OF grow_revoke])

lemma grow_branch_status: "setBranchStatus q a i act d = Inr (x, d') \<Longrightarrow> sessions_grow d d'"
  by (auto simp: setBranchStatus_def need_Inr_iff Let_def grow_same intro!: grow_audit
      grow_same_left [OF grow_revoke])

lemma step_sessions_grow: "account_step c d d' \<Longrightarrow> sessions_grow d d'"
  by (induction rule: account_step.induct)
    (auto intro: grow_login grow_logout grow_resolve grow_password grow_users grow_block grow_reset grow_branch_status)

subsection \<open>Every request keeps an active administrator\<close>

definition active_admin :: "account \<Rightarrow> bool" where
  "active_admin u \<longleftrightarrow> ac_role u = ADMIN \<and> ac_status u = U_ACTIVE \<and> \<not> ac_deleted u"

definition accounts_ok :: "account tbl \<Rightarrow> bool" where
  "accounts_ok t \<longleftrightarrow> keyed ac_id t \<and> (\<exists>u\<in>set (rows t). active_admin u)"

lemma accounts_frame [simp]:
  "accounts (revoke_where now P d) = accounts d" "accounts (upd_sessions P f d) = accounts d"
  "accounts (upd_account i g d) = update_id ac_id i g (accounts d)"
  by (simp_all add: revoke_where_def upd_sessions_def upd_account_def)

lemma accounts_ok_insert:
  assumes "accounts_ok t" "\<And>i. ac_id (mk i) = i"
  shows "accounts_ok (t_insert mk t)"
  using assms keyed_insert [of ac_id t mk] by (auto simp: accounts_ok_def set_rows_insert)

lemma accounts_ok_update:
  assumes ok: "accounts_ok t" and key: "\<And>u. ac_id (f u) = ac_id u"
    and stays: "(\<forall>u\<in>set (rows t). ac_id u = i \<longrightarrow> active_admin u \<longrightarrow> active_admin (f u)) \<or>
      (\<exists>u\<in>set (rows t). active_admin u \<and> ac_id u \<noteq> i)"
  shows "accounts_ok (update_id ac_id i f t)"
proof -
  define g where "g = (\<lambda>u. if ac_id u = i then f u else u)"
  have "keyed ac_id (update_id ac_id i f t)"
    unfolding update_id_def using ok key by (intro keyed_update) (auto simp: accounts_ok_def)
  moreover have "\<exists>u\<in>set (rows t). active_admin (g u)"
    using stays ok unfolding accounts_ok_def g_def by metis
  moreover have "rows (update_id ac_id i f t) = map g (rows t)" by (simp add: update_id_def t_update_def g_def)
  ultimately show ?thesis by (auto simp: accounts_ok_def)
qed

lemma live_account_only:
  assumes "accounts_ok (accounts d)" "live_account i d = Some cur" "u \<in> set (rows (accounts d))" "ac_id u = i"
  shows "u = cur"
proof -
  have "cur \<in> set (rows (accounts d))" "ac_id cur = i"
    using t_first_Some [OF assms(2) [unfolded live_account_def]] by simp_all
  with assms(1,3,4) keyed_inj [of ac_id "accounts d" u cur] show ?thesis by (simp add: accounts_ok_def)
qed

text \<open>What the two guarded operations rely on: the check of the locked set leaves another administrator.\<close>

lemma another_admin:
  assumes "filter (\<lambda>j. j \<noteq> i) (activeAdminIds d) \<noteq> []"
  shows "\<exists>u\<in>set (rows (accounts d)). active_admin u \<and> ac_id u \<noteq> i"
  using assms by (auto simp: activeAdminIds_def active_admin_def filter_empty_conv)

lemma accounts_createSession: "createSession sha256 e q token u rm d = Inr (x, d') \<Longrightarrow> accounts d' = accounts d"
  by (auto simp: createSession_def Let_def)

lemma accounts_rotate: "rotateSession sha256 q token i d = Inr (x, d') \<Longrightarrow> accounts d' = accounts d"
  by (auto simp: rotateSession_def Let_def split: option.splits if_splits)

lemma accounts_resolve: "resolveSession sha256 e q fresh tok d = Inr (out, d') \<Longrightarrow> accounts d' = accounts d"
  by (auto simp: resolveSession_def resolve_act_def andThen_Inr_iff revokeFamily_def
      dest: accounts_rotate split: session_plan.splits option.splits)

lemma accounts_logout: "accounts (logout sha256 q tok d) = accounts d"
  by (simp add: logout_def revokeByToken_def revokeFamily_def split: option.splits prod.splits)

lemma accounts_login_tx:
  assumes "login_tx sha256 verify e q token u opened pw rm d = Inr (x, d')"
  shows "accounts d' = accounts d \<or> (\<exists>i. accounts d' = update_id ac_id i (\<lambda>u. u\<lparr>ac_last_login := Some (rq_now q)\<rparr>) (accounts d))"
  using assms by (auto simp: login_tx_def login_fail_def andThen_Inr_iff split: option.splits if_splits)
    (metis accounts_createSession)

lemma accounts_login:
  assumes "login sha256 verify e q token p pw rm d = (res, d')"
  shows "accounts d' = accounts d \<or> (\<exists>i. accounts d' = update_id ac_id i (\<lambda>u. u\<lparr>ac_last_login := Some (rq_now q)\<rparr>) (accounts d))"
  using assms
  by (auto simp: login_def transaction_def split: option.splits sum.splits prod.splits login_outcome.splits
      dest!: accounts_login_tx)

lemma accounts_others:
  shows "createRegistrationRequest q h inp d = Inr (n, d') \<Longrightarrow> accounts d' = accounts d"
    and "rejectRegistrationRequest q i why b d = Inr (x, d') \<Longrightarrow> accounts d' = accounts d"
    and "createBranch lower q a nm rg ad ph d = Inr (n, d') \<Longrightarrow> accounts d' = accounts d"
    and "updateBranch lower q a i binp d = Inr (x, d') \<Longrightarrow> accounts d' = accounts d"
    and "setBranchStatus q a i act d = Inr (x, d') \<Longrightarrow> accounts d' = accounts d"
  by (auto simp: createRegistrationRequest_def rejectRegistrationRequest_def createBranch_def updateBranch_def
      setBranchStatus_def flow_iffs Let_def split: if_splits)

lemma accounts_ok_created:
  assumes "approveRegistrationRequest q i r b d = Inr (n, d') \<or> createUser q a h cinp d = Inr (n, d')"
    and ok: "accounts_ok (accounts d)"
  shows "accounts_ok (accounts d')"
  using assms(1) accounts_ok_insert [OF ok]
  by (auto simp: approveRegistrationRequest_def createUser_def flow_iffs Let_def new_account_def)

lemma accounts_changed:
  shows "changePassword sha256 verify e q token h a old new d = Inr (ab, d') \<Longrightarrow> accounts d' =
      update_id ac_id (au_id a) (\<lambda>u. u\<lparr>ac_hash := h, ac_must_change := False, ac_temp_expires := None\<rparr>) (accounts d)"
    and "unblockUser q a i d = Inr (u, d') \<Longrightarrow> accounts d' = update_id ac_id i (\<lambda>u. u\<lparr>ac_status := U_ACTIVE\<rparr>) (accounts d)"
    and "blockUser q a i d = Inr (u, d') \<Longrightarrow> accounts d' = update_id ac_id i (\<lambda>u. u\<lparr>ac_status := U_BLOCKED\<rparr>) (accounts d)"
    and "resetUserPassword verify toIso e q a h i old why d = Inr (n, d') \<Longrightarrow> accounts d' =
      update_id ac_id i (\<lambda>u. u\<lparr>ac_hash := h, ac_must_change := True, ac_temp_expires := Some n\<rparr>) (accounts d)"
  by (auto simp: changePassword_def unblockUser_def blockUser_def resetUserPassword_def assertNotLastActiveAdmin_def
      revokeAllSessions_def need_Inr_iff Let_def dest!: accounts_createSession split: if_splits)

lemma accounts_user_writes:
  "accounts (user_writes q a i inp cur d) = update_id ac_id i (\<lambda>u. u\<lparr>ac_first := given (uu_first inp) (ac_first u),
     ac_last := given (uu_last inp) (ac_last u), ac_phone := given (uu_phone inp) (ac_phone u),
     ac_region := given (uu_region inp) (ac_region u), ac_branch := given (uu_branch inp) (ac_branch u),
     ac_role := given (uu_role inp) (ac_role u)\<rparr>) (accounts d)"
  by (simp add: user_writes_def Let_def split: option.splits)

lemma updateUser_Inr:
  assumes "updateUser q a i inp d = Inr (x, d')"
  shows "\<exists>cur. live_account i d = Some cur \<and> d' = user_writes q a i inp cur d \<and>
    (ac_role cur = ADMIN \<longrightarrow> given (uu_role inp) (ac_role cur) \<noteq> ADMIN \<longrightarrow>
      (\<exists>u\<in>set (rows (accounts d)). active_admin u \<and> ac_id u \<noteq> i))"
proof -
  obtain cur where cur: "live_account i d = Some cur" using assms by (auto simp: updateUser_def need_Inr_iff)
  have "d' = user_writes q a i inp cur d"
    using assms cur by (auto simp: updateUser_def andThen_Inr_iff assertNotLastActiveAdmin_def Let_def split: if_splits)
  moreover have "\<exists>u\<in>set (rows (accounts d)). active_admin u \<and> ac_id u \<noteq> i"
    if role: "ac_role cur = ADMIN" "given (uu_role inp) (ac_role cur) \<noteq> ADMIN"
  proof -
    obtain r where r: "uu_role inp = Some r" "r \<noteq> ADMIN" using role by (cases "uu_role inp") (simp_all add: given_def)
    show ?thesis
      by (rule another_admin) (use assms cur role(1) r in
        \<open>simp add: updateUser_def Let_def given_def assertNotLastActiveAdmin_def\<close>)
  qed
  ultimately show ?thesis using cur by blast
qed

lemma accounts_ok_updateUser:
  assumes "updateUser q a i inp d = Inr (x, d')" and ok: "accounts_ok (accounts d)"
  shows "accounts_ok (accounts d')"
proof -
  obtain cur where cur: "live_account i d = Some cur" and d': "d' = user_writes q a i inp cur d"
    and other: "ac_role cur = ADMIN \<Longrightarrow> given (uu_role inp) (ac_role cur) \<noteq> ADMIN \<Longrightarrow>
      \<exists>u\<in>set (rows (accounts d)). active_admin u \<and> ac_id u \<noteq> i"
    using updateUser_Inr [OF assms(1)] by blast
  show ?thesis unfolding d' accounts_user_writes
    using live_account_only [OF ok cur] other
    by (intro accounts_ok_update [OF ok]) (auto simp: active_admin_def)
qed

lemma accounts_ok_block:
  assumes block: "blockUser q a i d = Inr (x, d')" and ok: "accounts_ok (accounts d)"
  shows "accounts_ok (accounts d')"
proof -
  obtain cur where cur: "live_account i d = Some cur"
    using block by (auto simp: blockUser_def need_Inr_iff)
  have other: "\<exists>u\<in>set (rows (accounts d)). active_admin u \<and> ac_id u \<noteq> i" if "ac_role cur = ADMIN"
    by (rule another_admin) (use block cur that in \<open>simp add: blockUser_def Let_def assertNotLastActiveAdmin_def\<close>)
  show ?thesis unfolding accounts_changed(3) [OF block]
    using live_account_only [OF ok cur] other
    by (intro accounts_ok_update [OF ok]) (auto simp: active_admin_def)
qed

lemma step_accounts_ok: "account_step c d d' \<Longrightarrow> accounts_ok (accounts d) \<Longrightarrow> accounts_ok (accounts d')"
proof (induction rule: account_step.induct)
  case (ac_login q token p pw rm d res d')
  then show ?case using accounts_login by (fastforce intro: accounts_ok_update simp: active_admin_def)
qed (auto simp: accounts_logout accounts_resolve accounts_others accounts_changed(1,2,4) active_admin_def
    intro: accounts_ok_created [OF disjI1] accounts_ok_created [OF disjI2] accounts_ok_updateUser accounts_ok_block accounts_ok_update)

end
