(* ===== verification/AccountProperties.thy ===== *)
theory AccountProperties
  imports AccountRuns
begin

section \<open>What the account services guarantee\<close>

text \<open>
  The properties of runs (theory \<open>AccountRuns\<close>) and of single requests. The examples use the
  identity for SHA-256, equality for bcrypt's comparison and scaled-down settings that keep the order the configuration check of env.ts demands.
\<close>

definition short_sessions :: session_env where
  "short_sessions = \<lparr>idle_s = 100, rotate_s = 10, grace_s = 2, absolute_s = 300, ttl_s = 200, temp_ttl_s = 20\<rparr>"

definition plain_env :: account_env where
  "plain_env = \<lparr>en_sha256 = (\<lambda>s. s), en_verify = (=), en_session = short_sessions, en_lower = (\<lambda>s. s), en_iso = nat_str\<rparr>"

definition bootstrap :: adb where
  "bootstrap = \<lparr>accounts = t_insert (new_account 0 ''Ada'' ''A'' ''+998900000001'' ''pw'' ''T'' None ADMIN) empty_tbl,
     sessions = empty_tbl, regs = empty_tbl, resets = empty_tbl,
     abranches = t_insert (\<lambda>i. \<lparr>b_id = i, b_name = ''North'', b_region = ''T'', b_address = None, b_phone = None,
       b_active = True\<rparr>) empty_tbl, alog = []\<rparr>"

definition at_time :: "nat \<Rightarrow> req" where
  "at_time t = \<lparr>rq_now = t, rq_ip = None, rq_agent = None\<rparr>"

definition actor :: "nat \<Rightarrow> role \<Rightarrow> nat option \<Rightarrow> auth_user" where
  "actor i r b = \<lparr>au_id = i, au_role = r, au_branch = b, au_status = U_ACTIVE, au_must_change = False\<rparr>"

subsection \<open>Runs\<close>

interpretation sessions_run: progress_order "\<lambda>d. sessions_ok (sessions d)" "account_step c"
  "\<lambda>d. sessions_ok (sessions d)" "\<lambda>d d'. sessions_le (sessions d) (sessions d')"
proof unfold_locales
  fix d d' d'' :: adb
  show "sessions_ok (sessions d) \<Longrightarrow> sessions_ok (sessions d)" .
  show "sessions_ok (sessions d) \<Longrightarrow> account_step c d d' \<Longrightarrow> sessions_ok (sessions d')"
    and "sessions_ok (sessions d) \<Longrightarrow> account_step c d d' \<Longrightarrow> sessions_le (sessions d) (sessions d')"
    using step_sessions_grow by (auto simp: sessions_grow_def)
  show "sessions_le (sessions d) (sessions d)" by (rule sessions_le_refl)
  show "sessions_le (sessions d) (sessions d') \<Longrightarrow> sessions_le (sessions d') (sessions d'') \<Longrightarrow>
    sessions_le (sessions d) (sessions d'')" by (rule sessions_le_trans)
qed

interpretation accounts_run: inductive_invariant "\<lambda>d. accounts_ok (accounts d)" "account_step c" "\<lambda>d. accounts_ok (accounts d)"
  by unfold_locales (auto intro: step_accounts_ok)

text \<open>The token of a session finds that session: the hashes are unique.\<close>

lemma token_finds:
  assumes "sessions_ok t" "s \<in> set (rows t)" "se_token_hash s = h"
  shows "t_first (\<lambda>s. se_token_hash s = h) t = Some s"
  using find_unique [of se_token_hash "rows t" s] sessions_okD(2) [OF assms(1)] assms(2,3) by (simp add: t_first_def)

lemma revoked_refused:
  assumes "sessions_ok (sessions d)" "s \<in> set (rows (sessions d))" "se_revoked s \<noteq> None" "se_token_hash s = sha256 tok"
  shows "resolveSession sha256 e q fresh tok d = Inr (Invalid, d)"
  using token_finds [OF assms(1,2,4)] assms(3) by (simp add: resolveSession_def resolve_plan_def resolve_act_def)

lemma revoked_for_ever:
  assumes "(account_step c)\<^sup>*\<^sup>* d d'" "sessions_ok (sessions d)" "s \<in> set (rows (sessions d))" "se_revoked s \<noteq> None"
    "se_token_hash s = sha256 tok"
  shows "resolveSession sha256 e q fresh tok d' = Inr (Invalid, d')"
proof -
  obtain s' where s': "s' \<in> set (rows (sessions d'))" "later s s'"
    using sessions_run.steps_le [OF assms(1,2)] assms(3) by (auto simp: sessions_le_def)
  then show ?thesis
    using assms(4,5) sessions_run.inv_steps [OF assms(1,2)] by (intro revoked_refused [of _ s']) (auto simp: later_def)
qed

subsection \<open>Administrators\<close>

text \<open>C23: Over any sequence of account, registration and branch requests at least one active
  administrator account remains: blocking and demoting check the locked set of active
  administrators, and nothing else takes the role or the status away.\<close>

theorem an_administrator_remains:
  assumes "\<exists>u\<in>set (rows (accounts d)). ac_role u = ADMIN \<and> ac_status u = U_ACTIVE \<and> \<not> ac_deleted u"
    and "keyed ac_id (accounts d)" and "(account_step c)\<^sup>*\<^sup>* d d'"
  shows "activeAdminIds d' \<noteq> []"
proof -
  have "accounts_ok (accounts d')"
    using assms(1,2) by (intro accounts_run.inv_steps [OF assms(3)]) (simp add: accounts_ok_def active_admin_def)
  then show ?thesis
    by (auto simp: accounts_ok_def active_admin_def activeAdminIds_def filter_empty_conv t_where_def)
qed


text \<open>A run of three requests: a second administrator, on the branch, who blocks the first and closes the branch.\<close>

definition bob :: create_user_input where
  "bob = \<lparr>cu_first = ''Bob'', cu_last = ''B'', cu_phone_in = ''+998900000002'', cu_region = ''T'', cu_branch = Some 1, cu_role = ADMIN\<rparr>"

definition admin_two :: adb where
  "admin_two = committed (createUser (at_time 10) (actor 1 ADMIN None) ''pw2'' bob) bootstrap"

definition admin_two_alone :: adb where
  "admin_two_alone = committed (blockUser (at_time 20) (actor 2 ADMIN (Some 1)) 1) admin_two"

definition branch_closed :: adb where
  "branch_closed = committed (setBranchStatus (at_time 30) (actor 2 ADMIN (Some 1)) 1 False) admin_two_alone"

lemma admin_commits:
  "\<exists>n. createUser (at_time 10) (actor 1 ADMIN None) ''pw2'' bob bootstrap = Inr (n, admin_two)"
  "\<exists>u. blockUser (at_time 20) (actor 2 ADMIN (Some 1)) 1 admin_two = Inr (u, admin_two_alone)"
  "\<exists>u. setBranchStatus (at_time 30) (actor 2 ADMIN (Some 1)) 1 False admin_two_alone = Inr (u, branch_closed)"
  unfolding admin_two_def admin_two_alone_def branch_closed_def by (rule committed_Inr; code_simp)+

lemma admin_may: "can (au_role (actor i ADMIN b)) Users_create" "can (au_role (actor i ADMIN b)) Users_block"
  "can (au_role (actor i ADMIN b)) Users_reset_password" "can (au_role (actor i ADMIN b)) Branches_manage"
  by (simp_all add: actor_def can_def)

lemma admin_run: "(account_step plain_env)\<^sup>*\<^sup>* bootstrap admin_two_alone"
  using exE [OF admin_commits(1), of "account_step plain_env bootstrap admin_two"]
    exE [OF admin_commits(2), of "account_step plain_env admin_two admin_two_alone"]
  by (meson ac_create ac_block admin_may rtranclp.rtrancl_refl rtranclp.rtrancl_into_rtrancl)

theorem an_administrator_remains_witness: "activeAdminIds admin_two_alone \<noteq> []"
proof (rule an_administrator_remains [OF _ _ admin_run])
  show "\<exists>u\<in>set (rows (accounts bootstrap)). ac_role u = ADMIN \<and> ac_status u = U_ACTIVE \<and> \<not> ac_deleted u"
    and "keyed ac_id (accounts bootstrap)" by code_simp+
qed

lemma abranches_rotate: "rotateSession sha256 q token i d = Inr (x, d') \<Longrightarrow> abranches d' = abranches d"
  by (auto simp: rotateSession_def Let_def split: option.splits if_splits)

lemma abranches_revoke [simp]: "abranches (revoke_where now P d) = abranches d" "abranches (upd_sessions P f d) = abranches d"
  by (simp_all add: revoke_where_def upd_sessions_def)

lemma abranches_resolve: "resolveSession sha256 e q fresh tok d = Inr (out, d') \<Longrightarrow> abranches d' = abranches d"
  by (auto simp: resolveSession_def resolve_act_def andThen_Inr_iff revokeFamily_def
      dest: abranches_rotate split: session_plan.splits option.splits)

lemma branch_open_cong: "abranches d' = abranches d \<Longrightarrow> branch_open u d' = branch_open u d"
  by (simp add: branch_open_def branch_active_def split: option.splits)

lemma resolveAuth_user:
  assumes "resolveAuth sha256 e q fresh tok d = Inr (Some p, d')"
  shows "\<exists>u\<in>set (rows (accounts d)). p = toAuthUser u \<and> ac_status u = U_ACTIVE \<and> branch_open u d"
proof -
  obtain out d1 where r: "resolveSession sha256 e q fresh tok d = Inr (out, d1)"
    and p: "(case out of Resolved s _ \<Rightarrow> Inr (session_user s d1, d1) | _ \<Rightarrow> Inr (None, d1)) = (Inr (Some p, d') :: api_error + auth_user option \<times> adb)"
    using assms by (auto simp: resolveAuth_def andThen_Inr_iff)
  then obtain s where "session_user s d1 = Some p" by (cases out) auto
  then obtain u where "live_account (se_user s) d1 = Some u" "ac_status u = U_ACTIVE" "branch_open u d1" "p = toAuthUser u"
    by (auto simp: session_user_def split: option.splits if_splits)
  then show ?thesis
    using accounts_resolve [OF r] branch_open_cong [OF abranches_resolve [OF r]] t_first_Some
    by (fastforce simp: live_account_def)
qed

lemma login_user:
  assumes "login sha256 verify e q token phone pw rm d = (Inr r, d')"
  shows "\<exists>u u'. findUserByPhone phone d = Some u \<and> live_account (ac_id u) d = Some u' \<and> verify pw (ac_hash u') \<and>
    ac_status u' = U_ACTIVE \<and> branch_open u d \<and> au_role (lr_user r) = ac_role u"
  using assms
  by (auto simp: login_def login_tx_def transaction_def andThen_Inr_iff toAuthUser_def
      split: option.splits sum.splits prod.splits login_outcome.splits if_splits)

lemma same_account:
  assumes "keyed ac_id (accounts d)" "findUserByPhone phone d = Some u" "live_account (ac_id u) d = Some u'"
  shows "u' = u" "u \<in> set (rows (accounts d))"
proof -
  have "u \<in> set (rows (accounts d))" "u' \<in> set (rows (accounts d))" "ac_id u' = ac_id u"
    using t_first_Some [OF assms(2) [unfolded findUserByPhone_def]] t_first_Some [OF assms(3) [unfolded live_account_def]] by simp_all
  with keyed_inj [OF assms(1)] show "u' = u" "u \<in> set (rows (accounts d))" by simp_all
qed

lemma abranches_status:
  assumes "setBranchStatus q a i act d = Inr (u, d')"
  shows "abranches d' = update_id b_id i (\<lambda>b. b\<lparr>b_active := act\<rparr>) (abranches d)"
proof -
  obtain cur where "by_id b_id i (abranches d) = Some cur" "b_active cur \<noteq> act"
    using assms by (auto simp: setBranchStatus_def need_Inr_iff)
  with assms show ?thesis by (cases act) (simp_all add: setBranchStatus_def Let_def, safe, simp_all)
qed

text \<open>C24: Deactivating a branch has no such check. When every active administrator belongs to the
  branch, deactivating it leaves no administrator who could undo it: no session of one resolves
  any more and none can log in, whatever the token, the password and the time.\<close>

theorem branch_switch_can_lock_out_administrators:
  assumes "setBranchStatus q a i False d = Inr (u, d')" and "keyed ac_id (accounts d)"
    and "\<forall>u\<in>set (rows (accounts d)). ac_role u = ADMIN \<and> ac_status u = U_ACTIVE \<longrightarrow> ac_branch u = Some i"
  shows "(resolveAuth sha256 e q1 fresh tok d' = Inr (Some p, d1) \<longrightarrow> au_role p \<noteq> ADMIN) \<and>
    (login sha256 verify e q2 token phone pw rm d' = (Inr r, d2) \<longrightarrow> au_role (lr_user r) \<noteq> ADMIN)"
proof -
  have acc: "accounts d' = accounts d" using accounts_others(5) [OF assms(1)] .
  have closed: "\<not> branch_active i d'"
  proof -
    have "\<not> (b_id r = i \<and> b_active r)" if "r \<in> set (rows (abranches d'))" for r
    proof -
      obtain b where "r = (if b_id b = i then b\<lparr>b_active := False\<rparr> else b)"
        using \<open>r \<in> _\<close> unfolding abranches_status [OF assms(1)] update_id_def set_rows_update by blast
      then show ?thesis by (simp split: if_splits)
    qed
    then show ?thesis by (simp add: branch_active_def t_first_None)
  qed
  have none: "\<not> (ac_role u = ADMIN \<and> ac_status u = U_ACTIVE \<and> branch_open u d')" if "u \<in> set (rows (accounts d'))" for u
    using that assms(3) closed by (auto simp: acc branch_open_def)
  show ?thesis
  proof (intro conjI impI)
    assume "resolveAuth sha256 e q1 fresh tok d' = Inr (Some p, d1)"
    from resolveAuth_user [OF this] none show "au_role p \<noteq> ADMIN" by (auto simp: toAuthUser_def)
  next
    assume "login sha256 verify e q2 token phone pw rm d' = (Inr r, d2)"
    from login_user [OF this] obtain v v' where v: "findUserByPhone phone d' = Some v" "live_account (ac_id v) d' = Some v'"
      "ac_status v' = U_ACTIVE" "branch_open v d'" "au_role (lr_user r) = ac_role v" by blast
    have "v' = v" "v \<in> set (rows (accounts d'))" using same_account [OF _ v(1,2)] assms(2) acc by simp_all
    with none v(3-5) show "au_role (lr_user r) \<noteq> ADMIN" by auto
  qed
qed

theorem branch_switch_can_lock_out_administrators_witness:
  "\<exists>d d'. (account_step plain_env)\<^sup>*\<^sup>* bootstrap d \<and> account_step plain_env d d' \<and> activeAdminIds d' \<noteq> [] \<and>
    (\<forall>q tok fresh p d1. resolveAuth id short_sessions q fresh tok d' = Inr (Some p, d1) \<longrightarrow> au_role p \<noteq> ADMIN) \<and>
    (\<forall>q token phone pw rm r d2. login id (=) short_sessions q token phone pw rm d' = (Inr r, d2) \<longrightarrow> au_role (lr_user r) \<noteq> ADMIN)"
proof -
  obtain u where close: "setBranchStatus (at_time 30) (actor 2 ADMIN (Some 1)) 1 False admin_two_alone = Inr (u, branch_closed)"
    using admin_commits(3) by blast
  have ok: "keyed ac_id (accounts admin_two_alone)"
    "\<forall>u\<in>set (rows (accounts admin_two_alone)). ac_role u = ADMIN \<and> ac_status u = U_ACTIVE \<longrightarrow> ac_branch u = Some 1"
    "activeAdminIds branch_closed \<noteq> []" by code_simp+
  show ?thesis
    using admin_run ac_branch_status [OF admin_may(4) close] ok(3)
      branch_switch_can_lock_out_administrators [OF close ok(1,2)] by blast
qed

subsection \<open>Sessions\<close>

lemma rows_revoke_where: "rows (sessions (revoke_where now P d)) =
  map (\<lambda>s. if P s \<and> se_revoked s = None then s\<lparr>se_revoked := Some now\<rparr> else s) (rows (sessions d))"
  by (simp add: revoke_where_def upd_sessions_def t_update_def)

lemma revoked_where:
  assumes "s \<in> set (rows (sessions d))" "P s"
  shows "\<exists>s'\<in>set (rows (sessions (revoke_where now P d))). later s s' \<and> se_revoked s' \<noteq> None"
proof -
  let ?f = "\<lambda>s. if P s \<and> se_revoked s = None then s\<lparr>se_revoked := Some now\<rparr> else s"
  have "?f s \<in> set (rows (sessions (revoke_where now P d)))"
    unfolding rows_revoke_where list.set_map by (rule imageI [OF assms(1)])
  moreover have "later s (?f s) \<and> se_revoked (?f s) \<noteq> None" using assms(2) by (auto simp: later_def)
  ultimately show ?thesis by blast
qed

lemma revoked_later:
  assumes "\<exists>s'\<in>set (rows t). later s s' \<and> se_revoked s' \<noteq> None" "sessions_le t t'"
  shows "\<exists>s'\<in>set (rows t'). later s s' \<and> se_revoked s' \<noteq> None"
proof -
  obtain s' where s': "s' \<in> set (rows t)" "later s s'" "se_revoked s' \<noteq> None" using assms(1) by blast
  then obtain s'' where "s'' \<in> set (rows t')" "later s' s''" using assms(2) by (auto simp: sessions_le_def)
  with s' later_trans show ?thesis by (intro bexI [of _ s'']) (auto simp: later_def)
qed

text \<open>The operations that revoke every session of a user.\<close>

inductive ends_sessions :: "account_env \<Rightarrow> nat \<Rightarrow> adb \<Rightarrow> adb \<Rightarrow> bool" for c where
  es_block: "can (au_role a) Users_block \<Longrightarrow> blockUser q a i d = Inr (u, d') \<Longrightarrow> ends_sessions c i d d'"
| es_reset: "can (au_role a) Users_reset_password \<Longrightarrow>
    resetUserPassword (en_verify c) (en_iso c) (en_session c) q a h i old why d = Inr (n, d') \<Longrightarrow> ends_sessions c i d d'"
| es_password: "changePassword (en_sha256 c) (en_verify c) (en_session c) q token h a old new d = Inr (ab, d') \<Longrightarrow>
    ends_sessions c (au_id a) d d'"

lemma ends_sessions_step: "ends_sessions c i d d' \<Longrightarrow> account_step c d d'"
  by (induction rule: ends_sessions.induct) (auto intro: account_step.intros)

lemma ends_sessions_revokes:
  assumes "ends_sessions c i d d'" "sessions_ok (sessions d)" "s \<in> set (rows (sessions d))" "se_user s = i"
  shows "\<exists>s'\<in>set (rows (sessions d')). later s s' \<and> se_revoked s' \<noteq> None"
  using assms
proof (cases rule: ends_sessions.cases)
  case (es_block a q u)
  then have "sessions d' = sessions (revoke_where (rq_now q) (\<lambda>s. se_user s = i) d)"
    by (auto simp: blockUser_def assertNotLastActiveAdmin_def need_Inr_iff Let_def sessions_account_writes
        revokeAllSessions_def split: if_splits)
  then show ?thesis using revoked_where [of s d "\<lambda>s. se_user s = i"] assms(3,4) by simp
next
  case (es_reset a q h old why n)
  then have "sessions d' = sessions (revoke_where (rq_now q) (\<lambda>s. se_user s = i) d)"
    by (auto simp: resetUserPassword_def need_Inr_iff Let_def sessions_account_writes revokeAllSessions_def)
  then show ?thesis using revoked_where [of s d "\<lambda>s. se_user s = i"] assms(3,4) by simp
next
  case (es_password q token h a old new ab)
  then obtain d1 where d1: "sessions d1 = sessions (revoke_where (rq_now q) (\<lambda>s. se_user s = i) d)"
    and create: "createSession (en_sha256 c) (en_session c) q token i False d1 = Inr (ab, d')"
    using changePassword_Inr by blast
  have "\<exists>s'\<in>set (rows (sessions d1)). later s s' \<and> se_revoked s' \<noteq> None"
    unfolding d1 by (rule revoked_where [OF assms(3)]) (rule assms(4))
  moreover have "sessions_le (sessions d1) (sessions d')"
    using create by (auto simp: createSession_def Let_def sessions_le_insert)
  ultimately show ?thesis by (rule revoked_later)
qed

text \<open>C25: Blocking a user, resetting the password of a user by an administrator and changing one's own
  password end every session the user had: no token of one resolves afterwards, whatever happens
  in between and whenever it is presented.\<close>

theorem credential_change_ends_sessions:
  assumes "sessions_ok (sessions d)" and "ends_sessions c i d d1" and "(account_step c)\<^sup>*\<^sup>* d1 d2"
    and "s \<in> set (rows (sessions d))" and "se_user s = i" and "se_token_hash s = en_sha256 c tok"
  shows "resolveSession (en_sha256 c) (en_session c) q fresh tok d2 = Inr (Invalid, d2)"
proof -
  obtain s' where s': "s' \<in> set (rows (sessions d1))" "later s s'" "se_revoked s' \<noteq> None"
    using ends_sessions_revokes [OF assms(2,1,4,5)] by blast
  have "sessions_ok (sessions d1)"
    using sessions_run.inv_step [OF assms(1) ends_sessions_step [OF assms(2)]] .
  with s' assms(3,6) show ?thesis by (intro revoked_for_ever [of c d1 d2 s']) (auto simp: later_def)
qed

text \<open>C26: In every reachable state the sessions of one family (one login and its rotations) belong to
  one user and end at one time, and at most one of them has not been superseded: a rotation
  neither extends the lifetime of a login nor splits it into two current tokens.\<close>

theorem family_is_one_login:
  assumes "sessions d = empty_tbl" and "(account_step c)\<^sup>*\<^sup>* d d'"
    and "s \<in> set (rows (sessions d'))" and "s' \<in> set (rows (sessions d'))" and "se_family s = se_family s'"
  shows "se_user s = se_user s' \<and> se_absolute s = se_absolute s' \<and>
    (se_superseded s = None \<and> se_superseded s' = None \<longrightarrow> s = s')"
proof -
  have "sessions_ok (sessions d)" by (simp add: assms(1) sessions_ok_def keyed_empty) (simp add: empty_tbl_def)
  then have ok: "sessions_ok (sessions d')" by (rule sessions_run.inv_steps [OF assms(2)])
  have "one_login s s'" by (rule sessions_okD(4) [OF ok assms(3-5)])
  then show ?thesis using keyed_inj [OF sessions_okD(1) [OF ok] assms(3,4)] by (auto simp: one_login_def)
qed


text \<open>A run of sessions: the administrator logs in with token A, and it is rotated later to token B.\<close>

definition tok :: "char \<Rightarrow> string" where
  "tok c = replicate 64 c"

definition signed_in :: adb where
  "signed_in = snd (login id (=) short_sessions (at_time 1) (tok CHR ''a'') ''+998900000001'' ''pw'' True bootstrap)"

definition rotated :: adb where
  "rotated = committed (resolveSession id short_sessions (at_time 12) (tok CHR ''b'') (tok CHR ''a'')) signed_in"

definition with_bob :: adb where
  "with_bob = committed (createUser (at_time 15) (actor 1 ADMIN None) ''pw2'' bob) rotated"

definition ada_blocked :: adb where
  "ada_blocked = committed (blockUser (at_time 16) (actor 2 ADMIN (Some 1)) 1) with_bob"

lemma session_commits:
  "\<exists>out. resolveSession id short_sessions (at_time 12) (tok CHR ''b'') (tok CHR ''a'') signed_in = Inr (out, rotated)"
  "\<exists>n. createUser (at_time 15) (actor 1 ADMIN None) ''pw2'' bob rotated = Inr (n, with_bob)"
  "\<exists>u. blockUser (at_time 16) (actor 2 ADMIN (Some 1)) 1 with_bob = Inr (u, ada_blocked)"
  unfolding rotated_def with_bob_def ada_blocked_def by (rule committed_Inr; code_simp)+

lemma plain_simps [simp]: "en_sha256 plain_env = id" "en_verify plain_env = (=)" "en_session plain_env = short_sessions"
  by (simp_all add: plain_env_def id_def)

lemma session_run: "(account_step plain_env)\<^sup>*\<^sup>* bootstrap rotated" "(account_step plain_env)\<^sup>*\<^sup>* bootstrap with_bob"
proof -
  have 1: "account_step plain_env bootstrap signed_in"
    by (rule ac_login) (simp add: signed_in_def prod_eq_iff)
  have 2: "account_step plain_env signed_in rotated"
    using session_commits(1) ac_resolve [of plain_env] by (metis plain_simps(1,3))
  have 3: "account_step plain_env rotated with_bob"
    using session_commits(2) ac_create admin_may(1) by blast
  show "(account_step plain_env)\<^sup>*\<^sup>* bootstrap rotated" using 1 2 by simp
  then show "(account_step plain_env)\<^sup>*\<^sup>* bootstrap with_bob" using 3 by simp
qed

lemma no_sessions: "sessions bootstrap = empty_tbl" "sessions_ok (sessions bootstrap)"
proof -
  show "sessions bootstrap = empty_tbl" by (simp add: bootstrap_def)
  then show "sessions_ok (sessions bootstrap)" by (simp add: sessions_ok_def keyed_empty) (simp add: empty_tbl_def)
qed

definition ada_session :: "adb \<Rightarrow> nat \<Rightarrow> session_row" where
  "ada_session d n = rows (sessions d) ! n"

lemma ada_sessions: "n < 2 \<Longrightarrow> ada_session rotated n \<in> set (rows (sessions rotated))"
  "n < 2 \<Longrightarrow> ada_session with_bob n \<in> set (rows (sessions with_bob))"
proof -
  have "length (rows (sessions rotated)) = 2" "length (rows (sessions with_bob)) = 2" by code_simp+
  then show "n < 2 \<Longrightarrow> ada_session rotated n \<in> set (rows (sessions rotated))"
    "n < 2 \<Longrightarrow> ada_session with_bob n \<in> set (rows (sessions with_bob))" by (simp_all add: ada_session_def)
qed

theorem credential_change_ends_sessions_witness:
  "resolveSession id short_sessions (at_time 17) (tok CHR ''c'') (tok CHR ''b'') ada_blocked = Inr (Invalid, ada_blocked)"
proof -
  obtain u where "blockUser (at_time 16) (actor 2 ADMIN (Some 1)) 1 with_bob = Inr (u, ada_blocked)"
    using session_commits(3) by blast
  then have "ends_sessions plain_env 1 with_bob ada_blocked" by (rule es_block [OF admin_may(2)])
  moreover have "se_user (ada_session with_bob 1) = 1" "se_token_hash (ada_session with_bob 1) = tok CHR ''b''" by code_simp+
  ultimately show ?thesis
    using credential_change_ends_sessions [OF sessions_run.inv_steps [OF session_run(2) no_sessions(2)] _ rtranclp.rtrancl_refl
        ada_sessions(2) [of 1], where c = plain_env and i = 1 and tok = "tok CHR ''b''"] by simp
qed

theorem family_is_one_login_witness:
  "se_id (ada_session rotated 0) \<noteq> se_id (ada_session rotated 1) \<and>
   se_absolute (ada_session rotated 0) = se_absolute (ada_session rotated 1)"
proof -
  have "se_family (ada_session rotated 0) = se_family (ada_session rotated 1)"
    "se_id (ada_session rotated 0) \<noteq> se_id (ada_session rotated 1)" by code_simp+
  with family_is_one_login [OF no_sessions(1) session_run(1) ada_sessions(1) ada_sessions(1)] show ?thesis by simp
qed



subsection \<open>Credentials\<close>

lemma live_of_phone:
  assumes "keyed ac_id (accounts d)" "findUserByPhone phone d = Some u"
  shows "live_account (ac_id u) d = Some u"
proof -
  have u: "u \<in> set (rows (accounts d))" "\<not> ac_deleted u"
    using t_first_Some [OF assms(2) [unfolded findUserByPhone_def]] by simp_all
  then obtain v where "live_account (ac_id u) d = Some v"
    by (cases "live_account (ac_id u) d") (auto simp: live_account_def t_first_None)
  with same_account(1) [OF assms] show ?thesis by simp
qed

text \<open>C29: The outcome of a login. An unknown phone number, a wrong password, a blocked account and an
  account of a closed branch are answered alike; an expired temporary password is told apart only
  to who knows it; otherwise the login succeeds. A failure leaves the session table unchanged.\<close>

theorem login_outcomes:
  assumes "keyed ac_id (accounts d)"
  shows "fst (login sha256 verify e q token phone pw rm d) =
    (case findUserByPhone phone d of
       None \<Rightarrow> Inl (unauthorized ''INVALID_CREDENTIALS'')
     | Some u \<Rightarrow>
         if \<not> verify pw (ac_hash u) \<or> ac_status u \<noteq> U_ACTIVE \<or> \<not> branch_open u d then Inl (unauthorized ''INVALID_CREDENTIALS'')
         else if temp_expired (rq_now q) u then Inl (unauthorized ''TEMP_PASSWORD_EXPIRED'')
         else if hash_used (sha256 token) d then Inl duplicateKey
         else Inr \<lparr>lr_user = toAuthUser u, lr_token = token,
           lr_expires = rq_now q + (if rm then absolute_s e else ttl_s e), lr_remember = rm, lr_seq = 0\<rparr>) \<and>
    (isl (fst (login sha256 verify e q token phone pw rm d)) \<longrightarrow>
      sessions (snd (login sha256 verify e q token phone pw rm d)) = sessions d)"
proof (cases "findUserByPhone phone d")
  case None
  then show ?thesis by (simp add: login_def)
next
  case (Some u)
  note live = live_of_phone [OF assms Some]
  show ?thesis
    by (simp add: login_def Some login_tx_def live transaction_def login_fail_def createSession_def Let_def toAuthUser_def)
qed

theorem login_outcomes_witness:
  "fst (login id (=) short_sessions (at_time 1) (tok CHR ''a'') ''+998900000001'' ''wrong'' True bootstrap) =
     Inl (unauthorized ''INVALID_CREDENTIALS'') \<and>
   fst (login id (=) short_sessions (at_time 1) (tok CHR ''a'') ''+998900000009'' ''pw'' True bootstrap) =
     Inl (unauthorized ''INVALID_CREDENTIALS'')"
proof -
  have a: "keyed ac_id (accounts bootstrap)" "findUserByPhone ''+998900000009'' bootstrap = None"
    "case findUserByPhone ''+998900000001'' bootstrap of Some u \<Rightarrow> ac_hash u \<noteq> ''wrong'' | None \<Rightarrow> True" by code_simp+
  show ?thesis
    using login_outcomes [OF a(1), of id "(=)" short_sessions "at_time 1" "tok CHR ''a''" "''+998900000001''" "''wrong''" True]
      login_outcomes [OF a(1), of id "(=)" short_sessions "at_time 1" "tok CHR ''a''" "''+998900000009''" "''pw''" True] a(2,3)
    by (auto split: option.splits)
qed

text \<open>C30: A created user is within the authority of the creator: the role is one the creator's role may
  assign, a creator bound to a branch places the user there, and a branch that is given is active.\<close>

theorem created_user_within_authority:
  assumes "createUser q a h inp d = Inr (n, d')" and "keyed ac_id (accounts d)"
  shows "\<exists>u. by_id ac_id n (accounts d') = Some u \<and> ac_role u \<in> set (getAssignableRoles (au_role a)) \<and>
    (isBranchScoped (au_role a) \<longrightarrow> ac_branch u = au_branch a \<and> au_branch a \<noteq> None) \<and>
    (case ac_branch u of None \<Rightarrow> ac_role u \<notin> set BRANCH_REQUIRED_ROLES | Some b \<Rightarrow> branch_active b d)"
proof -
  obtain branch where branch: "resolveRoleAndBranch a (cu_role inp) (cu_branch inp) d = Inr branch"
    and n: "n = next_id (accounts d)" and d': "accounts d' = t_insert (new_account (rq_now q) (cu_first inp) (cu_last inp)
        (cu_phone_in inp) h (cu_region inp) branch (cu_role inp)) (accounts d)"
    using assms(1) by (auto simp: createUser_def andThen_Inr_iff Let_def)
  let ?u = "new_account (rq_now q) (cu_first inp) (cu_last inp) (cu_phone_in inp) h (cu_region inp) branch (cu_role inp) n"
  have u: "by_id ac_id n (accounts d') = Some ?u" "ac_role ?u = cu_role inp" "ac_branch ?u = branch"
    unfolding n d' using assms(2) by (simp_all add: by_id_insert new_account_def)
  have m: "cu_role inp \<in> set (getAssignableRoles (au_role a))"
      "isBranchScoped (au_role a) \<longrightarrow> branch = au_branch a \<and> au_branch a \<noteq> None"
      "case branch of None \<Rightarrow> cu_role inp \<notin> set BRANCH_REQUIRED_ROLES | Some b \<Rightarrow> branch_active b d"
    using branch by (auto simp: resolveRoleAndBranch_def Let_def split: option.splits if_splits)
  show ?thesis
  proof (intro exI [of _ ?u] conjI u(1))
    show "ac_role ?u \<in> set (getAssignableRoles (au_role a))" unfolding u by (rule m)
    show "isBranchScoped (au_role a) \<longrightarrow> ac_branch ?u = au_branch a \<and> au_branch a \<noteq> None" unfolding u by (rule m)
    show "case ac_branch ?u of None \<Rightarrow> ac_role ?u \<notin> set BRANCH_REQUIRED_ROLES | Some b \<Rightarrow> branch_active b d"
      unfolding u by (rule m)
  qed
qed

theorem created_user_within_authority_witness:
  "\<exists>n d' u. createUser (at_time 2) (actor 7 RAHBAR (Some 1)) ''pw2'' (bob\<lparr>cu_role := USTA\<rparr>) bootstrap = Inr (n, d') \<and>
     by_id ac_id n (accounts d') = Some u \<and> ac_branch u = Some 1"
proof -
  have "\<exists>x. createUser (at_time 2) (actor 7 RAHBAR (Some 1)) ''pw2'' (bob\<lparr>cu_role := USTA\<rparr>) bootstrap =
      Inr (x, committed (createUser (at_time 2) (actor 7 RAHBAR (Some 1)) ''pw2'' (bob\<lparr>cu_role := USTA\<rparr>)) bootstrap)"
    by (rule committed_Inr) code_simp
  then obtain n d' where new: "createUser (at_time 2) (actor 7 RAHBAR (Some 1)) ''pw2'' (bob\<lparr>cu_role := USTA\<rparr>) bootstrap = Inr (n, d')"
    by blast
  moreover have "keyed ac_id (accounts bootstrap)" "isBranchScoped RAHBAR" by code_simp+
  ultimately show ?thesis using created_user_within_authority [OF new] by (fastforce simp: actor_def)
qed

lemma t_first_update:
  assumes "\<And>r. P (f r) = P r"
  shows "t_first P (t_update Q f t) = map_option (\<lambda>r. if Q r then f r else r) (t_first P t)"
proof -
  have "List.find P (map (\<lambda>r. if Q r then f r else r) xs) = map_option (\<lambda>r. if Q r then f r else r) (List.find P xs)" for xs
    using assms by (induction xs) auto
  then show ?thesis by (simp add: t_first_def t_update_def)
qed


lemma reset_commits: "\<exists>n. resetUserPassword (=) nat_str short_sessions (at_time 20) (actor 2 ADMIN (Some 1)) ''tmp'' 1 ''pw2'' ''forgot'' with_bob =
    Inr (n, committed (resetUserPassword (=) nat_str short_sessions (at_time 20) (actor 2 ADMIN (Some 1)) ''tmp'' 1 ''pw2'' ''forgot'') with_bob)"
  by (rule committed_Inr) code_simp


subsection \<open>Identifiers and pages\<close>

text \<open>C32: An accepted phone number is in the one canonical form, \<open>+998\<close> and nine digits, whatever
  separators it was written with, and normalizing it again changes nothing; the check for an
  existing user therefore compares canonical forms.\<close>

theorem normalizePhone_canonical:
  assumes "normalizePhone s = Some p"
  shows "\<exists>ds. p = ''+998'' @ ds \<and> length ds = 9 \<and> list_all is_digit ds \<and> suffix ds (filter is_digit s) \<and> normalizePhone p = Some p"
proof -
  let ?n = "filter is_digit s"
  have digits: "list_all is_digit (drop k ?n)" for k
    by (auto simp: list_all_iff dest: in_set_dropD)
  have again: "normalizePhone (''+998'' @ ds) = Some (''+998'' @ ds)" if "length ds = 9" "list_all is_digit ds" for ds
  proof -
    have "filter is_digit (''+998'' @ ds) = ''998'' @ ds"
      using that(2) by (simp add: is_digit_def list_all_iff filter_id_conv)
    with that(1) show ?thesis by (simp add: normalizePhone_def)
  qed
  from assms consider "length ?n = 12" "p = ''+998'' @ drop 3 ?n" | "length ?n = 9" "p = ''+998'' @ drop 0 ?n"
    by (auto simp: normalizePhone_def Let_def split: if_splits)
  then show ?thesis
  proof cases
    case 1
    with digits [of 3] again [of "drop 3 ?n"] show ?thesis by (intro exI [of _ "drop 3 ?n"]) (simp add: suffix_drop)
  next
    case 2
    with digits [of 0] again [of ?n] show ?thesis by (intro exI [of _ ?n]) simp
  qed
qed

theorem normalizePhone_canonical_witness:
  "normalizePhone ''90 123-45-67'' = Some ''+998901234567'' \<and> normalizePhone ''+998901234567'' = Some ''+998901234567''"
proof -
  have "normalizePhone ''90 123-45-67'' = Some ''+998901234567''" by code_simp
  with normalizePhone_canonical [OF this] show ?thesis by blast
qed

end
