(* ===== verification/Sms.thy ===== *)
theory Sms
  imports Accounts Canonical
begin

section \<open>The SMS outbox and its worker\<close>

text \<open>
  Models src/sms (outbox.service.ts, sms.worker.ts, the capability gate of index.ts) and the
  authenticated encryption of src/utils/crypto.ts. A message is queued encrypted, claimed by a
  worker under a lease, handed to the provider, and the outcome is recorded.

  Parameters: \<open>sha256\<close>; AES-256-GCM under the outbox key as \<open>seal aad iv plaintext\<close> (tag and
  ciphertext) and \<open>unseal aad iv tag ciphertext\<close>; the provider's answer; random bytes and
  \<open>Math.random()\<close>. The database clock and the process clock are separate arguments, in seconds.
\<close>

subsection \<open>Encryption of the body\<close>

definition to_hex :: "nat list \<Rightarrow> string" where
  "to_hex bs = concat (map (\<lambda>b. [hex_char (b div 16), hex_char (b mod 16)]) bs)"

text \<open>\<open>Buffer.from(s, 'hex')\<close> of hex digits; an odd last digit is dropped.\<close>

fun of_hex :: "string \<Rightarrow> nat list" where
  "of_hex (a # b # s) = (16 * unhex a + unhex b) # of_hex s"
| "of_hex _ = []"

definition is_hex :: "char \<Rightarrow> bool" where
  "is_hex c = (is_digit c \<or> (CHR ''a'' \<le> c \<and> c \<le> CHR ''f''))"

text \<open>\<open>split(':')\<close>\<close>

fun split_colon :: "string \<Rightarrow> string list" where
  "split_colon [] = [[]]"
| "split_colon (c # s) = (if c = CHR '':'' then [] # split_colon s
     else (case split_colon s of p # ps \<Rightarrow> (c # p) # ps | [] \<Rightarrow> [[c]]))"

definition OUTBOX_ENVELOPE_VERSION :: string where
  "OUTBOX_ENVELOPE_VERSION = ''v1''"

definition encryptSecret ::
  "(string \<Rightarrow> nat list \<Rightarrow> string \<Rightarrow> nat list \<times> nat list) \<Rightarrow> nat list \<Rightarrow> string \<Rightarrow> string \<Rightarrow> string" where
  "encryptSecret seal iv plaintext aad =
    (let (tag, ct) = seal aad iv plaintext
     in OUTBOX_ENVELOPE_VERSION @ '':'' @ to_hex iv @ '':'' @ to_hex tag @ '':'' @ to_hex ct)"

definition decryptSecret ::
  "(string \<Rightarrow> nat list \<Rightarrow> nat list \<Rightarrow> nat list \<Rightarrow> string option) \<Rightarrow> string \<Rightarrow> string \<Rightarrow> string option" where
  "decryptSecret unseal payload aad =
    (case split_colon payload of
       [v, ivHex, tagHex, ctHex] \<Rightarrow>
         if v \<noteq> OUTBOX_ENVELOPE_VERSION then None
         else if \<not> (length ivHex = 24 \<and> list_all is_hex ivHex) \<or> \<not> (length tagHex = 32 \<and> list_all is_hex tagHex)
           \<or> \<not> list_all is_hex ctHex then None
         else unseal aad (of_hex ivHex) (of_hex tagHex) (of_hex ctHex)
     | _ \<Rightarrow> None)"

definition smsAad :: "(string \<Rightarrow> string) \<Rightarrow> string \<Rightarrow> string \<Rightarrow> string" where
  "smsAad sha256 type recipient =
    ''sms-outbox:'' @ OUTBOX_ENVELOPE_VERSION @ '':'' @ type @ '':'' @ take 32 (sha256 recipient)"

subsection \<open>The outbox\<close>

datatype sms_status = SM_PENDING | SM_PROCESSING | SM_SENT | SM_DELIVERED | SM_RETRY | SM_FAILED | SM_CANCELLED

record sms_row =
  so_id :: nat
  so_type :: string
  so_user :: "nat option"
  so_recipient :: string
  so_template :: "string option"
  so_cipher :: string
  so_status :: sms_status
  so_attempts :: nat
  so_max :: nat
  so_next :: nat
  so_not_after :: nat
  so_owner :: "string option"
  so_lease :: "nat option"
  so_provider :: "string option"
  so_message :: "string option"
  so_error :: "string option"
  so_sent_at :: "nat option"
  so_failed_at :: "nat option"

record sms_env =
  max_attempts_e :: nat
  max_age_s :: nat
  lease_s :: nat
  batch_e :: nat

definition queued :: "sms_row \<Rightarrow> bool" where
  "queued r = (so_status r \<in> {SM_PENDING, SM_RETRY})"

text \<open>\<open>cipher\<close> is the body as \<open>encryptSecret\<close> returns it for this recipient.\<close>

definition enqueueOtpSms ::
  "sms_env \<Rightarrow> nat \<Rightarrow> nat \<Rightarrow> (string \<Rightarrow> string) \<Rightarrow> nat option \<Rightarrow> string \<Rightarrow> (sms_row tbl, nat) tx" where
  "enqueueOtpSms e dbNow jsNow cipher user phone t =
    (case normalizePhone phone of
       None \<Rightarrow> Inl (ApiError 500 ''INTERNAL_ERROR'' [])
     | Some recipient \<Rightarrow>
         let t1 = t_update (\<lambda>r. so_recipient r = recipient \<and> so_type r = ''OTP'' \<and> queued r)
               (\<lambda>r. r\<lparr>so_status := SM_CANCELLED, so_error := Some ''SUPERSEDED''\<rparr>) t
         in Inr (next_id t1, t_insert (\<lambda>i. \<lparr>so_id = i, so_type = ''OTP'', so_user = user, so_recipient = recipient,
              so_template = Some ''otp_reset_v1'', so_cipher = cipher recipient, so_status = SM_PENDING, so_attempts = 0,
              so_max = max_attempts_e e, so_next = dbNow, so_not_after = jsNow + max_age_s e, so_owner = None,
              so_lease = None, so_provider = None, so_message = None, so_error = None, so_sent_at = None,
              so_failed_at = None\<rparr>) t1))"

definition otp_cipher ::
  "(string \<Rightarrow> string) \<Rightarrow> (string \<Rightarrow> nat list \<Rightarrow> string \<Rightarrow> nat list \<times> nat list) \<Rightarrow> nat list \<Rightarrow> string \<Rightarrow> string \<Rightarrow> string" where
  "otp_cipher sha256 seal iv message recipient = encryptSecret seal iv message (smsAad sha256 ''OTP'' recipient)"

subsection \<open>Claiming\<close>

definition BASE_BACKOFF_MS :: int where "BASE_BACKOFF_MS = 5000"
definition MAX_BACKOFF_MS :: int where "MAX_BACKOFF_MS = 5 * 60 * 1000"

text \<open>\<open>rnd\<close> is the reading of \<open>Math.random()\<close>.\<close>

definition backoffMs :: "rat \<Rightarrow> nat \<Rightarrow> int" where
  "backoffMs rnd attempts =
    (let e = min (BASE_BACKOFF_MS * 2 ^ (attempts - 1)) MAX_BACKOFF_MS
     in \<lfloor>of_int e * (8 / 10 + rnd * (4 / 10))\<rfloor>)"

definition backoff_seconds :: "rat \<Rightarrow> nat \<Rightarrow> nat" where
  "backoff_seconds rnd attempts = nat \<lceil>(of_int (backoffMs rnd attempts) :: rat) / 1000\<rceil>"

definition recoverStaleLeases :: "nat \<Rightarrow> sms_row tbl \<Rightarrow> sms_row tbl" where
  "recoverStaleLeases dbNow =
    t_update (\<lambda>r. so_status r = SM_PROCESSING \<and> (case so_lease r of None \<Rightarrow> False | Some l \<Rightarrow> l < dbNow))
      (\<lambda>r. r\<lparr>so_status := SM_RETRY, so_owner := None\<rparr>)"

definition claimable :: "nat \<Rightarrow> sms_row \<Rightarrow> bool" where
  "claimable dbNow r = (queued r \<and> so_next r \<le> dbNow)"

definition candidates :: "nat \<Rightarrow> nat \<Rightarrow> sms_row tbl \<Rightarrow> nat list" where
  "candidates dbNow limit t = map so_id (take limit (sort_key so_next (t_where (claimable dbNow) t)))"

text \<open>The conditional update of one candidate and the row read back when it matched.\<close>

definition claim_one :: "sms_env \<Rightarrow> string \<Rightarrow> nat \<Rightarrow> nat \<Rightarrow> sms_row tbl \<Rightarrow> sms_row option \<times> sms_row tbl" where
  "claim_one e worker dbNow i t =
    (if t_count (\<lambda>r. so_id r = i \<and> claimable dbNow r) t = 1
     then let t' = t_update (\<lambda>r. so_id r = i \<and> claimable dbNow r)
              (\<lambda>r. r\<lparr>so_status := SM_PROCESSING, so_owner := Some worker, so_lease := Some (dbNow + lease_s e)\<rparr>) t
          in (by_id so_id i t', t')
     else (None, t))"

fun claim_all :: "sms_env \<Rightarrow> string \<Rightarrow> nat \<Rightarrow> nat list \<Rightarrow> sms_row tbl \<Rightarrow> sms_row list \<times> sms_row tbl" where
  "claim_all e worker dbNow [] t = ([], t)"
| "claim_all e worker dbNow (i # is) t =
    (let (r, t1) = claim_one e worker dbNow i t; (rs, t2) = claim_all e worker dbNow is t1
     in ((case r of None \<Rightarrow> rs | Some row \<Rightarrow> row # rs), t2))"

definition claim :: "sms_env \<Rightarrow> string \<Rightarrow> nat \<Rightarrow> nat \<Rightarrow> sms_row tbl \<Rightarrow> sms_row list \<times> sms_row tbl" where
  "claim e worker dbNow limit t = claim_all e worker dbNow (candidates dbNow limit t) t"

subsection \<open>Delivery\<close>

datatype failure_kind = RETRYABLE | PERMANENT | AMBIGUOUS

fun kind_str :: "failure_kind \<Rightarrow> string" where
  "kind_str RETRYABLE = ''RETRYABLE''"
| "kind_str PERMANENT = ''PERMANENT''"
| "kind_str AMBIGUOUS = ''AMBIGUOUS''"

text \<open>A send is confirmed (delivered to the handset or only accepted) or fails with a classification.\<close>

datatype send_outcome = Confirmed bool "string option" | SendFailed failure_kind string

definition markTerminal :: "nat \<Rightarrow> (sms_row \<Rightarrow> sms_row) \<Rightarrow> sms_row tbl \<Rightarrow> sms_row tbl" where
  "markTerminal i patch = update_id so_id i (\<lambda>r. (patch r)\<lparr>so_owner := None, so_lease := None\<rparr>)"

text \<open>What \<open>deliver\<close> decides before it calls the provider, from the copy of the row it claimed.\<close>

datatype deliver_plan = TooOld | Unreadable | Send string

definition plan_delivery ::
  "(string \<Rightarrow> string) \<Rightarrow> (string \<Rightarrow> nat list \<Rightarrow> nat list \<Rightarrow> nat list \<Rightarrow> string option) \<Rightarrow> nat \<Rightarrow> sms_row \<Rightarrow> deliver_plan" where
  "plan_delivery sha256 unseal jsNow row =
    (if so_not_after row \<le> jsNow then TooOld
     else case decryptSecret unseal (so_cipher row) (smsAad sha256 (so_type row) (so_recipient row)) of
       None \<Rightarrow> Unreadable
     | Some m \<Rightarrow> Send m)"

definition close_unsent :: "nat \<Rightarrow> sms_row \<Rightarrow> deliver_plan \<Rightarrow> sms_row tbl \<Rightarrow> sms_row tbl" where
  "close_unsent dbNow row plan t =
    (case plan of
       TooOld \<Rightarrow> markTerminal (so_id row) (\<lambda>r. r\<lparr>so_status := SM_CANCELLED,
         so_error := Some ''EXPIRED_BEFORE_SEND'', so_failed_at := Some dbNow\<rparr>) t
     | Unreadable \<Rightarrow> markTerminal (so_id row) (\<lambda>r. r\<lparr>so_status := SM_FAILED, so_attempts := so_attempts row + 1,
         so_error := Some ''PAYLOAD_DECRYPT'', so_failed_at := Some dbNow\<rparr>) t
     | Send _ \<Rightarrow> t)"

definition error_text :: "failure_kind \<Rightarrow> string \<Rightarrow> string" where
  "error_text fk code = take 60 (kind_str fk @ '':'' @ code)"

definition record_outcome ::
  "rat \<Rightarrow> string \<Rightarrow> nat \<Rightarrow> sms_row \<Rightarrow> send_outcome \<Rightarrow> sms_row tbl \<Rightarrow> sms_row tbl" where
  "record_outcome rnd provider dbNow row out t =
    (let attempts = so_attempts row + 1 in
     case out of
       Confirmed delivered mid \<Rightarrow> markTerminal (so_id row) (\<lambda>r. r\<lparr>
         so_status := if delivered then SM_DELIVERED else SM_SENT, so_attempts := attempts,
         so_provider := Some provider, so_message := mid, so_error := None, so_sent_at := Some dbNow\<rparr>) t
     | SendFailed fk code \<Rightarrow>
         if fk = AMBIGUOUS \<or> fk = PERMANENT \<or> attempts \<ge> so_max row
         then markTerminal (so_id row) (\<lambda>r. r\<lparr>so_status := SM_FAILED, so_attempts := attempts,
           so_error := Some (error_text fk code), so_failed_at := Some dbNow\<rparr>) t
         else update_id so_id (so_id row) (\<lambda>r. r\<lparr>so_status := SM_RETRY, so_attempts := attempts,
           so_error := Some (error_text fk code), so_next := dbNow + backoff_seconds rnd attempts,
           so_owner := None, so_lease := None\<rparr>) t)"

text \<open>\<open>deliver\<close> when nothing else runs in between; \<open>provider recipient message\<close> answers.\<close>

definition deliver ::
  "(string \<Rightarrow> string) \<Rightarrow> (string \<Rightarrow> nat list \<Rightarrow> nat list \<Rightarrow> nat list \<Rightarrow> string option) \<Rightarrow> rat \<Rightarrow> string \<Rightarrow>
   (string \<Rightarrow> string \<Rightarrow> send_outcome) \<Rightarrow> nat \<Rightarrow> nat \<Rightarrow> sms_row \<Rightarrow> sms_row tbl \<Rightarrow> sms_row tbl" where
  "deliver sha256 unseal rnd name provider dbNow jsNow row t =
    (case plan_delivery sha256 unseal jsNow row of
       Send m \<Rightarrow> record_outcome rnd name dbNow row (provider (so_recipient row) m) t
     | p \<Rightarrow> close_unsent dbNow row p t)"

subsection \<open>The worker cycle and its gate\<close>

record sms_capability =
  ca_provider :: string
  ca_implemented :: bool
  ca_configured :: bool
  ca_ready :: bool

text \<open>\<open>selected\<close> is the outcome of \<open>getSmsProvider()\<close>: the name and the \<open>implemented\<close> member, or a throw.\<close>

definition smsCapability :: "string option \<Rightarrow> bool \<Rightarrow> (string \<times> bool option) option \<Rightarrow> sms_capability" where
  "smsCapability setting credentials selected =
    (case selected of
       None \<Rightarrow> \<lparr>ca_provider = (case setting of None \<Rightarrow> ''none'' | Some p \<Rightarrow> p), ca_implemented = False,
         ca_configured = False, ca_ready = False\<rparr>
     | Some (name, impl) \<Rightarrow>
         let implemented = (impl \<noteq> Some False); configured = (setting = Some ''eskiz'' \<longrightarrow> credentials)
         in \<lparr>ca_provider = name, ca_implemented = implemented, ca_configured = configured,
           ca_ready = (implemented \<and> configured)\<rparr>)"

text \<open>Whether a production instance refuses to start.\<close>

definition smsStartupProblem :: "sms_capability \<Rightarrow> bool \<Rightarrow> bool" where
  "smsStartupProblem cap isProd = (isProd \<and> \<not> ca_ready cap)"

text \<open>One cycle; the deliveries in the order of the batch, with one answer of the provider each.\<close>

definition runOnce ::
  "(string \<Rightarrow> string) \<Rightarrow> (string \<Rightarrow> nat list \<Rightarrow> nat list \<Rightarrow> nat list \<Rightarrow> string option) \<Rightarrow> sms_env \<Rightarrow> rat \<Rightarrow> string \<Rightarrow> string \<Rightarrow>
   (string \<Rightarrow> string \<Rightarrow> send_outcome) \<Rightarrow> bool \<Rightarrow> sms_capability \<Rightarrow> nat \<Rightarrow> nat \<Rightarrow> sms_row tbl \<Rightarrow> nat \<times> sms_row tbl" where
  "runOnce sha256 unseal e rnd worker name provider stopping cap dbNow jsNow t =
    (if stopping \<or> \<not> ca_ready cap then (0, t)
     else let (batch, t1) = claim e worker dbNow (batch_e e) (recoverStaleLeases dbNow t)
          in (length batch, fold (deliver sha256 unseal rnd name provider dbNow jsNow) batch t1))"

end
