(* ===== verification/SmsRuns.thy ===== *)
theory SmsRuns
  imports Sms
begin

section \<open>Workers on the outbox\<close>

text \<open>
  The workers of several processes share the table: a step is one statement of one of them.
  Between the claim of a message and the record of its outcome the worker holds a copy of the
  row; \<open>holding\<close> are the copies not yet handed to the provider, \<open>sending\<close> those that are, and
  \<open>handed\<close> records every hand-over with its time. A worker may stop at any point.
\<close>

record sms_world =
  outbox :: "sms_row tbl"
  holding :: "sms_row list"
  sending :: "sms_row list"
  handed :: "(nat \<times> nat) list"

inductive sms_step ::
  "sms_env \<Rightarrow> (string \<Rightarrow> string) \<Rightarrow> (string \<Rightarrow> nat list \<Rightarrow> nat list \<Rightarrow> nat list \<Rightarrow> string option) \<Rightarrow>
   sms_world \<Rightarrow> sms_world \<Rightarrow> bool" for e sha256 unseal where
  sw_enqueue: "enqueueOtpSms e dbNow jsNow cipher user phone (outbox w) = Inr (i, t) \<Longrightarrow>
    sms_step e sha256 unseal w (w\<lparr>outbox := t\<rparr>)"
| sw_recover: "sms_step e sha256 unseal w (w\<lparr>outbox := recoverStaleLeases dbNow (outbox w)\<rparr>)"
| sw_claim: "claim_one e worker dbNow i (outbox w) = (Some row, t) \<Longrightarrow>
    sms_step e sha256 unseal w (w\<lparr>outbox := t, holding := row # holding w\<rparr>)"
| sw_close: "row \<in> set (holding w) \<Longrightarrow> plan_delivery sha256 unseal jsNow row = p \<Longrightarrow> p = TooOld \<or> p = Unreadable \<Longrightarrow>
    sms_step e sha256 unseal w (w\<lparr>outbox := close_unsent dbNow row p (outbox w), holding := remove1 row (holding w)\<rparr>)"
| sw_hand: "row \<in> set (holding w) \<Longrightarrow> plan_delivery sha256 unseal jsNow row = Send m \<Longrightarrow>
    sms_step e sha256 unseal w (w\<lparr>holding := remove1 row (holding w), sending := row # sending w,
      handed := (so_id row, jsNow) # handed w\<rparr>)"
| sw_record: "row \<in> set (sending w) \<Longrightarrow>
    sms_step e sha256 unseal w (w\<lparr>outbox := record_outcome rnd name dbNow row out (outbox w), sending := remove1 row (sending w)\<rparr>)"
| sw_crash: "set hs \<subseteq> set (holding w) \<Longrightarrow> set ss \<subseteq> set (sending w) \<Longrightarrow>
    sms_step e sha256 unseal w (w\<lparr>holding := hs, sending := ss\<rparr>)"

definition idle_world :: sms_world where
  "idle_world = \<lparr>outbox = empty_tbl, holding = [], sending = [], handed = []\<rparr>"

subsection \<open>What every step keeps\<close>

definition active :: "sms_row \<Rightarrow> bool" where
  "active r \<longleftrightarrow> queued r \<or> so_status r = SM_PROCESSING"

definition row_ok :: "sms_env \<Rightarrow> sms_row \<Rightarrow> bool" where
  "row_ok e r \<longleftrightarrow> so_max r = max_attempts_e e \<and> so_attempts r \<le> so_max r \<and> (active r \<longrightarrow> so_attempts r < so_max r)"

definition copy_ok :: "sms_env \<Rightarrow> sms_row tbl \<Rightarrow> sms_row \<Rightarrow> bool" where
  "copy_ok e t c \<longleftrightarrow> so_attempts c < so_max c \<and> so_max c = max_attempts_e e \<and>
     (\<exists>r\<in>set (rows t). so_id r = so_id c \<and> so_not_after r = so_not_after c)"

definition outbox_ok :: "sms_env \<Rightarrow> sms_world \<Rightarrow> bool" where
  "outbox_ok e w \<longleftrightarrow> keyed so_id (outbox w) \<and> (\<forall>r\<in>set (rows (outbox w)). row_ok e r) \<and>
     (\<forall>c\<in>set (holding w) \<union> set (sending w). copy_ok e (outbox w) c) \<and>
     (\<forall>(i, n)\<in>set (handed w). \<exists>r\<in>set (rows (outbox w)). so_id r = i \<and> n < so_not_after r)"

text \<open>No operation removes a message or changes its identity and deadline.\<close>

definition same_messages :: "sms_row tbl \<Rightarrow> sms_row tbl \<Rightarrow> bool" where
  "same_messages t t' \<longleftrightarrow> (\<forall>r\<in>set (rows t). \<exists>r'\<in>set (rows t'). so_id r' = so_id r \<and> so_not_after r' = so_not_after r)"

lemma same_messages_update:
  assumes "\<And>r. so_id (f r) = so_id r \<and> so_not_after (f r) = so_not_after r"
  shows "same_messages t (t_update P f t)"
proof -
  define g where "g = (\<lambda>r. if P r then f r else r)"
  have "so_id (g r) = so_id r" "so_not_after (g r) = so_not_after r" for r using assms by (simp_all add: g_def)
  moreover have "rows (t_update P f t) = map g (rows t)" by (simp add: t_update_def g_def)
  ultimately show ?thesis by (auto simp: same_messages_def)
qed

lemma same_messages_insert: "same_messages t (t_insert mk t)"
  by (auto simp: same_messages_def set_rows_insert)

lemma same_messages_trans: "same_messages t u \<Longrightarrow> same_messages u v \<Longrightarrow> same_messages t v"
  unfolding same_messages_def by metis

lemma copy_ok_mono: "copy_ok e t c \<Longrightarrow> same_messages t t' \<Longrightarrow> copy_ok e t' c"
  unfolding copy_ok_def same_messages_def by metis

lemma outbox_okI:
  assumes "outbox_ok e w" "same_messages (outbox w) (outbox w')" "keyed so_id (outbox w')"
    "\<And>r. r \<in> set (rows (outbox w')) \<Longrightarrow> row_ok e r"
    and "\<And>c. c \<in> set (holding w') \<union> set (sending w') \<Longrightarrow>
      c \<in> set (holding w) \<union> set (sending w) \<or> copy_ok e (outbox w') c"
    and "handed w' = handed w"
  shows "outbox_ok e w'"
proof -
  have "copy_ok e (outbox w') c" if "c \<in> set (holding w') \<union> set (sending w')" for c
    using assms(5) [OF that] assms(1) copy_ok_mono [OF _ assms(2)] by (auto simp: outbox_ok_def)
  moreover have "\<exists>r\<in>set (rows (outbox w')). so_id r = i \<and> n < so_not_after r" if "(i, n) \<in> set (handed w')" for i n
    using that assms(1,2,6) unfolding outbox_ok_def same_messages_def by fastforce
  ultimately show ?thesis using assms(3,4) by (auto simp: outbox_ok_def)
qed

lemma update_row_ok:
  assumes "\<And>r. r \<in> set (rows t) \<Longrightarrow> row_ok e r" "\<And>r. r \<in> set (rows t) \<Longrightarrow> P r \<Longrightarrow> row_ok e r \<Longrightarrow> row_ok e (f r)"
    and "r \<in> set (rows (t_update P f t))"
  shows "row_ok e r"
proof -
  obtain s where "s \<in> set (rows t)" "r = (if P s then f s else s)"
    using assms(3) by (auto simp: t_update_def)
  with assms(1,2) show ?thesis by (simp split: if_splits)
qed

text \<open>A change of rows that keeps identities, deadlines and the bound on the attempts.\<close>

lemma world_update:
  assumes ok: "outbox_ok e w" and keeps: "\<And>r. so_id (f r) = so_id r \<and> so_not_after (f r) = so_not_after r"
    and row: "\<And>r. r \<in> set (rows (outbox w)) \<Longrightarrow> P r \<Longrightarrow> row_ok e r \<Longrightarrow> row_ok e (f r)"
  shows "same_messages (outbox w) (t_update P f (outbox w))" "keyed so_id (t_update P f (outbox w))"
    "r \<in> set (rows (t_update P f (outbox w))) \<Longrightarrow> row_ok e r"
proof -
  show "same_messages (outbox w) (t_update P f (outbox w))" by (rule same_messages_update [OF keeps])
  show "keyed so_id (t_update P f (outbox w))"
    using ok keeps by (intro keyed_update) (auto simp: outbox_ok_def)
  show "r \<in> set (rows (t_update P f (outbox w))) \<Longrightarrow> row_ok e r"
    by (rule update_row_ok [where t = "outbox w" and P = P and f = f]) (use ok row in \<open>auto simp: outbox_ok_def\<close>)
qed

lemma outbox_ok_enqueue:
  assumes ok: "outbox_ok e w" and max: "0 < max_attempts_e e"
    and enq: "enqueueOtpSms e dbNow jsNow cipher user phone (outbox w) = Inr (i, t)"
  shows "outbox_ok e (w\<lparr>outbox := t\<rparr>)"
proof -
  obtain recipient where p: "normalizePhone phone = Some recipient"
    using enq by (auto simp: enqueueOtpSms_def split: option.splits)
  let ?P = "\<lambda>r. so_recipient r = recipient \<and> so_type r = ''OTP'' \<and> queued r"
  let ?f = "\<lambda>r. r\<lparr>so_status := SM_CANCELLED, so_error := Some ''SUPERSEDED''\<rparr>"
  let ?t = "t_update ?P ?f (outbox w)"
  obtain mk where t: "t = t_insert mk ?t" and mk: "\<And>i. so_id (mk i) = i" "\<And>i. row_ok e (mk i)"
    using enq max by (auto simp: enqueueOtpSms_def p Let_def row_ok_def)
  have upd: "same_messages (outbox w) ?t" "keyed so_id ?t" "\<And>r. r \<in> set (rows ?t) \<Longrightarrow> row_ok e r"
    by (rule world_update [OF ok]; simp add: row_ok_def active_def queued_def)+
  have "same_messages (outbox w) t" unfolding t by (rule same_messages_trans [OF upd(1) same_messages_insert])
  moreover have "keyed so_id t" unfolding t by (rule keyed_insert [OF upd(2) mk(1)])
  moreover have "row_ok e r" if "r \<in> set (rows t)" for r
    using that upd(3) mk(2) by (auto simp: t set_rows_insert)
  ultimately show ?thesis by (intro outbox_okI [OF ok]) simp_all
qed

lemma outbox_ok_rows:
  assumes ok: "outbox_ok e w" and keeps: "\<And>r. so_id (f r) = so_id r \<and> so_not_after (f r) = so_not_after r"
    and row: "\<And>r. r \<in> set (rows (outbox w)) \<Longrightarrow> P r \<Longrightarrow> row_ok e r \<Longrightarrow> row_ok e (f r)"
    and "set hs \<subseteq> set (holding w)" "set ss \<subseteq> set (sending w)"
  shows "outbox_ok e (w\<lparr>outbox := t_update P f (outbox w), holding := hs, sending := ss\<rparr>)"
proof (rule outbox_okI [OF ok])
  note upd = world_update [where w = w and e = e and P = P and f = f, OF ok keeps row]
  show "same_messages (outbox w) (outbox (w\<lparr>outbox := t_update P f (outbox w), holding := hs, sending := ss\<rparr>))"
    and "keyed so_id (outbox (w\<lparr>outbox := t_update P f (outbox w), holding := hs, sending := ss\<rparr>))"
    using upd(1,2) by simp_all
  show "row_ok e r" if "r \<in> set (rows (outbox (w\<lparr>outbox := t_update P f (outbox w), holding := hs, sending := ss\<rparr>)))" for r
    using that upd(3) by simp
qed (use assms(4,5) in auto)

lemma outbox_ok_copy:
  assumes ok: "outbox_ok e w" and c: "c \<in> set (holding w) \<union> set (sending w)"
    and sub: "set hs \<subseteq> set (holding w)" "set ss \<subseteq> set (sending w)"
  shows "outbox_ok e (w\<lparr>outbox := close_unsent dbNow c p (outbox w), holding := hs, sending := ss\<rparr>)"
    and "outbox_ok e (w\<lparr>outbox := record_outcome rnd name dbNow c out (outbox w), holding := hs, sending := ss\<rparr>)"
proof -
  have "copy_ok e (outbox w) c" using ok c unfolding outbox_ok_def by blast
  then have c: "so_attempts c < max_attempts_e e" "so_max c = max_attempts_e e" by (simp_all add: copy_ok_def)
  note rows = outbox_ok_rows [OF ok _ _ sub]
  have same: "outbox_ok e (w\<lparr>holding := hs, sending := ss\<rparr>)"
    using rows [of "\<lambda>r. r" "\<lambda>_. False"] by (simp add: t_update_def)
  show "outbox_ok e (w\<lparr>outbox := close_unsent dbNow c p (outbox w), holding := hs, sending := ss\<rparr>)"
    using c same by (cases p) (auto simp: close_unsent_def markTerminal_def update_id_def row_ok_def active_def queued_def intro!: rows)
  show "outbox_ok e (w\<lparr>outbox := record_outcome rnd name dbNow c out (outbox w), holding := hs, sending := ss\<rparr>)"
    using c by (cases out) (auto simp: record_outcome_def Let_def markTerminal_def update_id_def row_ok_def active_def
        queued_def intro!: rows)
qed

lemma claim_one_Some:
  assumes "claim_one e worker now i t = (Some row, t')" and "keyed so_id t"
  shows "\<exists>r\<in>set (rows t). claimable now r \<and> so_id r = i \<and>
      row = r\<lparr>so_status := SM_PROCESSING, so_owner := Some worker, so_lease := Some (now + lease_s e)\<rparr> \<and>
      t' = t_update (\<lambda>r. so_id r = i \<and> claimable now r)
        (\<lambda>r. r\<lparr>so_status := SM_PROCESSING, so_owner := Some worker, so_lease := Some (now + lease_s e)\<rparr>) t"
proof -
  let ?f = "\<lambda>r. r\<lparr>so_status := SM_PROCESSING, so_owner := Some worker, so_lease := Some (now + lease_s e)\<rparr>"
  let ?P = "\<lambda>r. so_id r = i \<and> claimable now r"
  have one: "t_count ?P t = 1" and t': "t' = t_update ?P ?f t" and row: "by_id so_id i t' = Some row"
    using assms(1) by (auto simp: claim_one_def Let_def split: if_splits)
  from one have "t_count ?P t \<noteq> 0" by simp
  then obtain r where r: "r \<in> set (rows t)" "?P r" unfolding t_count_0 by blast
  have "?f r \<in> set (rows t')" using r by (force simp: t' t_update_def)
  moreover have "keyed so_id t'" unfolding t' by (rule keyed_update [OF assms(2)]) simp
  ultimately have "by_id so_id i t' = Some (?f r)" using r(2) by_id_member [of so_id t' "?f r"] by simp
  with row r t' show ?thesis by auto
qed

lemma outbox_ok_claim:
  assumes ok: "outbox_ok e w" and claim: "claim_one e worker now i (outbox w) = (Some row, t)"
  shows "outbox_ok e (w\<lparr>outbox := t, holding := row # holding w\<rparr>)"
proof -
  let ?f = "\<lambda>r. r\<lparr>so_status := SM_PROCESSING, so_owner := Some worker, so_lease := Some (now + lease_s e)\<rparr>"
  let ?P = "\<lambda>r. so_id r = i \<and> claimable now r"
  have key: "keyed so_id (outbox w)" using ok by (simp add: outbox_ok_def)
  obtain r where r: "r \<in> set (rows (outbox w))" "?P r" "row = ?f r" and t: "t = t_update ?P ?f (outbox w)"
    using claim_one_Some [OF claim key] by blast
  have upd: "same_messages (outbox w) t" "keyed so_id t" "\<And>r. r \<in> set (rows t) \<Longrightarrow> row_ok e r"
    unfolding t by (rule world_update [OF ok]; auto simp: row_ok_def active_def claimable_def)+
  have "row_ok e r" "active r" using ok r(1,2) by (auto simp: outbox_ok_def claimable_def active_def)
  then have "copy_ok e t row"
    using r(1,3) upd(1) by (auto simp: copy_ok_def row_ok_def same_messages_def)
  with upd show ?thesis by (intro outbox_okI [OF ok]) auto
qed

lemma step_outbox_ok:
  assumes "sms_step e sha256 unseal w w'" "0 < max_attempts_e e" "outbox_ok e w"
  shows "outbox_ok e w'"
  using assms(1)
proof cases
  case (sw_enqueue dbNow jsNow cipher user phone i t)
  then show ?thesis using outbox_ok_enqueue [OF assms(3,2)] by simp
next
  case (sw_recover dbNow)
  have "outbox_ok e (w\<lparr>outbox := recoverStaleLeases dbNow (outbox w), holding := holding w, sending := sending w\<rparr>)"
    unfolding recoverStaleLeases_def
    by (rule outbox_ok_rows [OF assms(3)]) (auto simp: row_ok_def active_def queued_def)
  then show ?thesis using sw_recover by simp
next
  case (sw_claim worker dbNow i row t)
  then show ?thesis using outbox_ok_claim [OF assms(3)] by simp
next
  case (sw_close row jsNow p dbNow)
  then show ?thesis
    using outbox_ok_copy(1) [OF assms(3), of row "remove1 row (holding w)" "sending w" dbNow p] set_remove1_subset [of row "holding w"] by simp
next
  case (sw_hand row jsNow m)
  have late: "jsNow < so_not_after row" using sw_hand(3) by (simp add: plan_delivery_def split: if_splits)
  have "copy_ok e (outbox w) row" using assms(3) sw_hand(2) by (simp add: outbox_ok_def)
  then obtain r where "r \<in> set (rows (outbox w))" "so_id r = so_id row" "jsNow < so_not_after r"
    using late by (auto simp: copy_ok_def)
  moreover have "set (remove1 row (holding w)) \<subseteq> set (holding w)" by (rule set_remove1_subset)
  ultimately show ?thesis using assms(3) sw_hand(1,2) by (auto simp: outbox_ok_def)
next
  case (sw_record row rnd name dbNow out)
  then show ?thesis
    using outbox_ok_copy(2) [OF assms(3), of row "holding w" "remove1 row (sending w)" rnd name dbNow out] set_remove1_subset [of row "sending w"] by simp
next
  case (sw_crash hs ss)
  then show ?thesis using assms(3) by (auto simp: outbox_ok_def)
qed

interpretation sms_run: inductive_invariant "\<lambda>w. w = idle_world \<and> 0 < max_attempts_e e" "sms_step e sha256 unseal"
  "\<lambda>w. outbox_ok e w \<and> 0 < max_attempts_e e"
proof
  show "outbox_ok e w \<and> 0 < max_attempts_e e" if "w = idle_world \<and> 0 < max_attempts_e e" for w
    using that by (simp add: outbox_ok_def idle_world_def keyed_def empty_tbl_def)
  show "outbox_ok e w' \<and> 0 < max_attempts_e e" if "outbox_ok e w \<and> 0 < max_attempts_e e" "sms_step e sha256 unseal w w'" for w w'
    using step_outbox_ok [OF that(2)] that(1) by simp
qed

subsection \<open>Bounds\<close>


subsection \<open>Closed messages\<close>

definition closed :: "sms_row \<Rightarrow> bool" where
  "closed r \<longleftrightarrow> so_status r \<in> {SM_SENT, SM_DELIVERED, SM_FAILED, SM_CANCELLED}"

definition held :: "nat \<Rightarrow> sms_world \<Rightarrow> bool" where
  "held i w \<longleftrightarrow> (\<exists>c\<in>set (holding w) \<union> set (sending w). so_id c = i)"

definition hand_overs :: "nat \<Rightarrow> sms_world \<Rightarrow> nat" where
  "hand_overs i w = length (filter (\<lambda>h. fst h = i) (handed w))"

definition settled :: "sms_row \<Rightarrow> nat \<Rightarrow> sms_world \<Rightarrow> bool" where
  "settled r n w \<longleftrightarrow> keyed so_id (outbox w) \<and> r \<in> set (rows (outbox w)) \<and> closed r \<and> \<not> held (so_id r) w \<and>
     hand_overs (so_id r) w = n"

lemma update_other: "r \<in> set (rows t) \<Longrightarrow> \<not> P r \<Longrightarrow> r \<in> set (rows (t_update P f t))"
  by (force simp: t_update_def)

lemma closed_inactive: "closed r \<Longrightarrow> \<not> queued r \<and> so_status r \<noteq> SM_PROCESSING"
  by (auto simp: closed_def queued_def)

lemma held_mono: "set hs \<subseteq> set (holding w) \<Longrightarrow> set ss \<subseteq> set (sending w) \<Longrightarrow> \<not> held i w \<Longrightarrow>
  \<not> held i (w\<lparr>holding := hs, sending := ss\<rparr>)"
  by (auto simp: held_def)

lemma step_settled:
  assumes "sms_step e sha256 unseal w w'" and "settled r n w"
  shows "settled r n w'"
proof -
  let ?t = "outbox w"
  have s: "keyed so_id ?t" "r \<in> set (rows ?t)" "closed r" "\<not> held (so_id r) w" "hand_overs (so_id r) w = n"
    using assms(2) by (simp_all add: settled_def)
  have key: "keyed so_id (t_update P f ?t)" if "\<And>r. so_id (f r) = so_id r" for P f
    by (rule keyed_update [OF s(1) that])
  from assms(1) show ?thesis
  proof cases
    case (sw_enqueue dbNow jsNow cipher user phone i t)
    have "keyed so_id t \<and> r \<in> set (rows t)"
      using sw_enqueue(2) closed_inactive [OF s(3)] s(2)
      by (auto simp: enqueueOtpSms_def Let_def set_rows_insert intro!: keyed_insert key update_other split: option.splits)
    then show ?thesis using s by (simp add: sw_enqueue(1) settled_def held_def hand_overs_def)
  next
    case (sw_recover dbNow)
    have "keyed so_id (recoverStaleLeases dbNow ?t) \<and> r \<in> set (rows (recoverStaleLeases dbNow ?t))"
      unfolding recoverStaleLeases_def using closed_inactive [OF s(3)] s(2) by (auto intro!: key update_other)
    then show ?thesis using s by (simp add: sw_recover settled_def held_def hand_overs_def)
  next
    case (sw_claim worker dbNow i row t)
    obtain r' where r': "r' \<in> set (rows ?t)" "claimable dbNow r'" "so_id row = so_id r'" "so_id r' = i"
      and t: "t = t_update (\<lambda>r. so_id r = i \<and> claimable dbNow r)
        (\<lambda>r. r\<lparr>so_status := SM_PROCESSING, so_owner := Some worker, so_lease := Some (dbNow + lease_s e)\<rparr>) ?t"
      using claim_one_Some [OF sw_claim(2) s(1)] by auto
    have "r \<noteq> r'" using r'(2) closed_inactive [OF s(3)] by (auto simp: claimable_def)
    then have i: "so_id r \<noteq> i" using keyed_inj [OF s(1,2) r'(1)] r'(4) by auto
    then have "keyed so_id t \<and> r \<in> set (rows t)" unfolding t using s(2) by (auto intro!: key update_other)
    then show ?thesis using s i r'(3,4) by (auto simp: sw_claim(1) settled_def held_def hand_overs_def)
  next
    case (sw_close row jsNow p dbNow)
    have i: "so_id row \<noteq> so_id r" using s(4) sw_close(2) by (auto simp: held_def)
    then have "keyed so_id (close_unsent dbNow row p ?t) \<and> r \<in> set (rows (close_unsent dbNow row p ?t))"
      using s(1,2) by (cases p) (auto simp: close_unsent_def markTerminal_def update_id_def intro!: key update_other)
    moreover have "\<not> held (so_id r) (w\<lparr>holding := remove1 row (holding w), sending := sending w\<rparr>)"
      by (rule held_mono [OF set_remove1_subset subset_refl s(4)])
    ultimately show ?thesis using s by (simp add: sw_close(1) settled_def held_def hand_overs_def)
  next
    case (sw_hand row jsNow m)
    have i: "so_id row \<noteq> so_id r" using s(4) sw_hand(2) by (auto simp: held_def)
    moreover have "\<not> held (so_id r) (w\<lparr>holding := remove1 row (holding w), sending := sending w\<rparr>)"
      by (rule held_mono [OF set_remove1_subset subset_refl s(4)])
    ultimately show ?thesis using s by (simp add: sw_hand(1) settled_def held_def hand_overs_def)
  next
    case (sw_record row rnd name dbNow out)
    have i: "so_id row \<noteq> so_id r" using s(4) sw_record(2) by (auto simp: held_def)
    then have "keyed so_id (record_outcome rnd name dbNow row out ?t) \<and> r \<in> set (rows (record_outcome rnd name dbNow row out ?t))"
      using s(1,2) by (cases out) (auto simp: record_outcome_def Let_def markTerminal_def update_id_def intro!: key update_other)
    moreover have "\<not> held (so_id r) (w\<lparr>holding := holding w, sending := remove1 row (sending w)\<rparr>)"
      by (rule held_mono [OF subset_refl set_remove1_subset s(4)])
    ultimately show ?thesis using s by (simp add: sw_record(1) settled_def held_def hand_overs_def)
  next
    case (sw_crash hs ss)
    then show ?thesis using s held_mono [OF sw_crash(2,3) s(4)] by (simp add: settled_def hand_overs_def)
  qed
qed

lemma settled_run: "(sms_step e sha256 unseal)\<^sup>*\<^sup>* w w' \<Longrightarrow> settled r n w \<Longrightarrow> settled r n w'"
  by (induction rule: rtranclp_induct) (auto intro: step_settled)


subsection \<open>The body at rest\<close>

lemma of_hex_to_hex: "list_all (\<lambda>b. b < 256) bs \<Longrightarrow> of_hex (to_hex bs) = bs"
  by (induction bs) (auto simp: to_hex_def unhex_hex_char less_mult_imp_div_less)

lemma is_hex_hex_char: "d < 16 \<Longrightarrow> is_hex (hex_char d)"
proof (cases "d < 10")
  case True
  then show ?thesis using digit_char_is_digit [of d] by (simp add: is_hex_def hex_char_def digit_char_def)
next
  case False
  moreover assume "d < 16"
  moreover from this have "(of_char (char_of (87 + d) :: char) :: nat) = 87 + d" by simp
  ultimately show ?thesis by (simp add: is_hex_def hex_char_def less_eq_char_def)
qed

lemma is_hex_to_hex: "list_all (\<lambda>b. b < 256) bs \<Longrightarrow> list_all is_hex (to_hex bs)"
  by (induction bs) (auto simp: to_hex_def is_hex_hex_char less_mult_imp_div_less)

lemma length_to_hex: "length (to_hex bs) = 2 * length bs"
  by (induction bs) (simp_all add: to_hex_def)

lemma split_colon_join: "CHR '':'' \<notin> set a \<Longrightarrow> split_colon (a @ CHR '':'' # s) = a # split_colon s"
  by (induction a) auto

lemma split_colon_none: "CHR '':'' \<notin> set a \<Longrightarrow> split_colon a = [a]"
  by (induction a) auto

lemma hex_no_colon: "list_all is_hex s \<Longrightarrow> CHR '':'' \<notin> set s"
proof
  assume "list_all is_hex s" "CHR '':'' \<in> set s"
  then have "is_hex (CHR '':'')" by (simp add: list_all_iff)
  moreover have "\<not> is_hex (CHR '':'')" by code_simp
  ultimately show False by simp
qed


subsection \<open>Retries\<close>

lemma backoffMs_bounds:
  assumes "0 \<le> rnd" "rnd < 1"
  shows "4000 \<le> backoffMs rnd n \<and> backoffMs rnd n \<le> 360000"
proof -
  let ?e = "min (BASE_BACKOFF_MS * 2 ^ (n - 1)) MAX_BACKOFF_MS"
  have "1 \<le> (2 :: int) ^ (n - 1)" by simp
  then have e: "5000 \<le> ?e" "?e \<le> 300000" by (auto simp: BASE_BACKOFF_MS_def MAX_BACKOFF_MS_def)
  have f: "8 / 10 \<le> 8 / 10 + rnd * (4 / 10)" "8 / 10 + rnd * (4 / 10) \<le> 12 / 10" using assms by simp_all
  have "5000 * (8 / 10) \<le> (of_int ?e :: rat) * (8 / 10 + rnd * (4 / 10))"
    using e(1) f(1) by (intro mult_mono) simp_all
  moreover have "(of_int ?e :: rat) * (8 / 10 + rnd * (4 / 10)) \<le> 300000 * (12 / 10)"
    using e(2) f(2) assms(1) by (intro mult_mono) simp_all
  ultimately show ?thesis by (simp add: backoffMs_def Let_def floor_le_iff le_floor_iff)
qed

subsection \<open>A slow worker\<close>

text \<open>
  The run of the example: a code is queued and claimed, the worker is slow, the lease is
  recovered, a second code for the same number supersedes the first, and then the send of the
  first fails.
\<close>

definition race_env :: sms_env where
  "race_env = \<lparr>max_attempts_e = 3, max_age_s = 100, lease_s = 5, batch_e = 2\<rparr>"

definition race_seal :: "string \<Rightarrow> nat list \<Rightarrow> string \<Rightarrow> nat list \<times> nat list" where
  "race_seal aad iv m = (replicate 16 0, [])"

definition race_unseal :: "string \<Rightarrow> nat list \<Rightarrow> nat list \<Rightarrow> nat list \<Rightarrow> string option" where
  "race_unseal aad iv tag ct = Some ''code''"

definition race_enqueue :: "nat \<Rightarrow> (sms_row tbl, nat) tx" where
  "race_enqueue n = enqueueOtpSms race_env n n (otp_cipher id race_seal (replicate 12 0) ''code'') None ''90 123 45 67''"

definition box1 :: "sms_row tbl" where "box1 = committed (race_enqueue 0) empty_tbl"
definition copy1 :: sms_row where "copy1 = the (fst (claim_one race_env ''w'' 1 1 box1))"
definition box2 :: "sms_row tbl" where "box2 = snd (claim_one race_env ''w'' 1 1 box1)"
definition box3 :: "sms_row tbl" where "box3 = recoverStaleLeases 10 box2"
definition box4 :: "sms_row tbl" where "box4 = committed (race_enqueue 11) box3"
definition box5 :: "sms_row tbl" where "box5 = record_outcome 0 ''p'' 12 copy1 (SendFailed RETRYABLE ''NET'') box4"

lemma race_commits: "\<exists>i. race_enqueue 0 empty_tbl = Inr (i, box1)" "\<exists>i. race_enqueue 11 box3 = Inr (i, box4)"
  unfolding box1_def box4_def by (rule committed_Inr; code_simp)+

lemma race_claim: "claim_one race_env ''w'' 1 1 box1 = (Some copy1, box2)"
proof -
  have "fst (claim_one race_env ''w'' 1 1 box1) \<noteq> None" by code_simp
  then show ?thesis by (simp add: prod_eq_iff copy1_def box2_def)
qed

lemma race_plan: "plan_delivery id race_unseal 2 copy1 = Send ''code''"
  by code_simp

definition race_world :: "sms_row tbl \<Rightarrow> sms_row list \<Rightarrow> sms_world" where
  "race_world t ss = \<lparr>outbox = t, holding = [], sending = ss, handed = [(1, 2)]\<rparr>"

lemma race_run:
  "(sms_step race_env id race_unseal)\<^sup>*\<^sup>* idle_world (race_world box4 [copy1])"
  "sms_step race_env id race_unseal (race_world box4 [copy1]) (race_world box5 [])"
proof -
  let ?s = "sms_step race_env id race_unseal"
  have 1: "?s idle_world (idle_world\<lparr>outbox := box1\<rparr>)"
    using race_commits(1) sw_enqueue [where w = idle_world] by (auto simp: race_enqueue_def idle_world_def)
  have 2: "?s (idle_world\<lparr>outbox := box1\<rparr>) (idle_world\<lparr>outbox := box2, holding := [copy1]\<rparr>)"
    using sw_claim [where w = "idle_world\<lparr>outbox := box1\<rparr>", OF _] race_claim by (fastforce simp: idle_world_def)
  have id1: "so_id copy1 = 1" by code_simp
  have 3: "?s (idle_world\<lparr>outbox := box2, holding := [copy1]\<rparr>) (race_world box2 [copy1])"
    using sw_hand [where w = "idle_world\<lparr>outbox := box2, holding := [copy1]\<rparr>", OF _ race_plan] id1
    by (simp add: idle_world_def race_world_def)
  have 4: "?s (race_world box2 [copy1]) (race_world box3 [copy1])"
    using sw_recover [where w = "race_world box2 [copy1]" and dbNow = 10] by (simp add: race_world_def box3_def)
  have 5: "?s (race_world box3 [copy1]) (race_world box4 [copy1])"
    using race_commits(2) sw_enqueue [where w = "race_world box3 [copy1]"] by (auto simp: race_enqueue_def race_world_def)
  show "?s\<^sup>*\<^sup>* idle_world (race_world box4 [copy1])" using 1 2 3 4 5 by (meson rtranclp.rtrancl_into_rtrancl rtranclp.rtrancl_refl)
  show "?s (race_world box4 [copy1]) (race_world box5 [])"
    using sw_record [where w = "race_world box4 [copy1]" and row = copy1] by (simp add: race_world_def box5_def)
qed

text \<open>C33: The record of an outcome is not tied to the lease or the status of the row: in this run the first
  code is cancelled as superseded, and the slow worker then puts it back in the queue. Two codes
  for one number are deliverable, which superseding is there to exclude.\<close>

theorem superseded_code_is_revived:
  "\<exists>w w'. (sms_step race_env id race_unseal)\<^sup>*\<^sup>* idle_world w \<and> sms_step race_env id race_unseal w w' \<and>
    (\<exists>r\<in>set (rows (outbox w)). so_id r = 1 \<and> so_status r = SM_CANCELLED \<and> so_error r = Some ''SUPERSEDED'') \<and>
    (\<exists>r\<in>set (rows (outbox w')). \<exists>r2\<in>set (rows (outbox w')). so_id r = 1 \<and> so_id r2 \<noteq> 1 \<and>
      so_recipient r = so_recipient r2 \<and> so_type r = so_type r2 \<and> queued r \<and> queued r2)"
proof -
  have "\<exists>r\<in>set (rows box4). so_id r = 1 \<and> so_status r = SM_CANCELLED \<and> so_error r = Some ''SUPERSEDED''"
    "\<exists>r\<in>set (rows box5). \<exists>r2\<in>set (rows box5). so_id r = 1 \<and> so_id r2 \<noteq> 1 \<and>
      so_recipient r = so_recipient r2 \<and> so_type r = so_type r2 \<and> queued r \<and> queued r2" by code_simp+
  then show ?thesis
    using race_run by (intro exI [of _ "race_world box4 [copy1]"] exI [of _ "race_world box5 []"] conjI) (simp_all add: race_world_def)
qed

lemma race_max: "0 < max_attempts_e race_env"
  by (simp add: race_env_def)




end
