(* ===== verification/Reconcile.thy ===== *)
theory Reconcile
  imports Completion
begin

section \<open>Evidence reconciliation\<close>

text \<open>
  Models src/modules/evidence/reconcile.service.ts: the job that compares the rows of
  \<open>job_photos\<close> and \<open>customer_signatures\<close> with the object store. The code takes the name of the
  table as an argument; here the argument is a record of the columns the code reads and the
  two updates it makes, with one value per table, and the laws the lemmas need of such a value
  are the locale \<open>evidence_table\<close>, interpreted for both.

  Every transition is its own transaction that looks at the row again. The rows of a pass are
  worked off in the order of the query; \<open>mapPool\<close> may finish them in another order, which only
  permutes the log, since each transaction writes the row it was started for.
\<close>

subsection \<open>The two tables\<close>

record 'r evidence_cols =
  ec_name :: string
  ec_photo :: bool
  ec_tbl :: "db \<Rightarrow> 'r tbl"
  ec_put :: "('r tbl \<Rightarrow> 'r tbl) \<Rightarrow> db \<Rightarrow> db"
  ec_id :: "'r \<Rightarrow> nat"
  ec_job :: "'r \<Rightarrow> nat"
  ec_key :: "'r \<Rightarrow> string"
  ec_size :: "'r \<Rightarrow> nat"
  ec_hash :: "'r \<Rightarrow> string"
  ec_mime :: "'r \<Rightarrow> string"
  ec_status :: "'r \<Rightarrow> evidence_status"
  ec_created :: "'r \<Rightarrow> nat"
  ec_ready :: "nat \<Rightarrow> 'r \<Rightarrow> 'r"
  ec_fail :: "nat \<Rightarrow> string \<Rightarrow> 'r \<Rightarrow> 'r"

definition job_photos :: "photo_row evidence_cols" where
  "job_photos =
    \<lparr>ec_name = ''job_photos'', ec_photo = True, ec_tbl = photos, ec_put = (\<lambda>f d. d\<lparr>photos := f (photos d)\<rparr>),
     ec_id = ph_id, ec_job = ph_job, ec_key = ph_key, ec_size = ph_size, ec_hash = ph_hash, ec_mime = ph_mime,
     ec_status = ph_status, ec_created = ph_created_at,
     ec_ready = (\<lambda>now r. r\<lparr>ph_status := E_READY, ph_ready_at := Some now\<rparr>),
     ec_fail = (\<lambda>now reason r. r\<lparr>ph_status := E_FAILED, ph_failed_at := Some now, ph_failure := Some reason\<rparr>)\<rparr>"

definition customer_signatures :: "signature_row evidence_cols" where
  "customer_signatures =
    \<lparr>ec_name = ''customer_signatures'', ec_photo = False, ec_tbl = signatures,
     ec_put = (\<lambda>f d. d\<lparr>signatures := f (signatures d)\<rparr>),
     ec_id = sg_id, ec_job = sg_job, ec_key = sg_key, ec_size = sg_size, ec_hash = sg_hash, ec_mime = sg_mime,
     ec_status = sg_status, ec_created = sg_created_at,
     ec_ready = (\<lambda>now r. r\<lparr>sg_status := E_READY, sg_ready_at := Some now\<rparr>),
     ec_fail = (\<lambda>now reason r. r\<lparr>sg_status := E_FAILED, sg_failed_at := Some now, sg_failure := Some reason\<rparr>)\<rparr>"

subsection \<open>Reading an object\<close>

text \<open>\<open>None\<close> for an absent object; other storage errors reach the caller.\<close>

definition readAndHash ::
  "'s provider \<Rightarrow> (buffer \<Rightarrow> string) \<Rightarrow> string \<Rightarrow> 's \<Rightarrow> storage_error + (nat \<times> string \<times> buffer) option" where
  "readAndHash prov sha key s =
    (case sp_getStream prov key s of
       Inl e \<Rightarrow> if e = SE_NOT_FOUND then Inr None else Inl e
     | Inr bytes \<Rightarrow> Inr (Some (length bytes, sha bytes, bytes)))"

text \<open>
  \<open>'mime' in img ? img.mime : null\<close>; that \<open>inspectImage\<close> never throws is the subject of
  theory \<open>Image\<close>.
\<close>

definition detected_mime :: "buffer \<Rightarrow> mime option" where
  "detected_mime bytes = (case inspectImage bytes of Some (Inr (m, _, _)) \<Rightarrow> Some m | _ \<Rightarrow> None)"

subsection \<open>Transitions\<close>

fun evidence_str :: "evidence_status \<Rightarrow> string" where
  "evidence_str E_PENDING = ''PENDING''"
| "evidence_str E_UNVERIFIED = ''UNVERIFIED''"
| "evidence_str E_READY = ''READY''"
| "evidence_str E_FAILED = ''FAILED''"

definition log_reconcile ::
  "'r evidence_cols \<Rightarrow> string \<Rightarrow> nat \<Rightarrow> nat \<Rightarrow> evidence_status \<Rightarrow> (string \<times> json) \<Rightarrow> db \<Rightarrow> db" where
  "log_reconcile c action i jobId src field d =
    d\<lparr>audits := audits d @
        [\<lparr>ae_user = None, ae_action = action,
          ae_entity_type = Some (if ec_photo c then ''job_photo'' else ''job''),
          ae_entity_id = Some (nat_str (if ec_photo c then i else jobId)),
          ae_old = Some (JObj [(''status'', JStr (evidence_str src))]),
          ae_new = Some (JObj [(''table'', JStr (ec_name c)), (''id'', jnat i), field]),
          ae_ip = None, ae_agent = Some ''reconcile''\<rparr>]\<rparr>"

text \<open>\<open>trx(table).where({ id, status }).forUpdate().first()\<close>, then the update of the row.\<close>

definition still_in :: "'r evidence_cols \<Rightarrow> nat \<Rightarrow> evidence_status \<Rightarrow> db \<Rightarrow> bool" where
  "still_in c i st d = (t_first (\<lambda>r. ec_id c r = i \<and> ec_status c r = st) (ec_tbl c d) \<noteq> None)"

definition promoteReady :: "'r evidence_cols \<Rightarrow> nat \<Rightarrow> nat \<Rightarrow> nat \<Rightarrow> db \<Rightarrow> evidence_status option \<times> db" where
  "promoteReady c now i jobId d =
    (if \<not> still_in c i E_UNVERIFIED d then (None, d)
     else (Some E_READY,
       log_reconcile c ''EVIDENCE_VERIFIED'' i jobId E_UNVERIFIED (''verifiedBy'', JStr ''reconcile-deep'')
         (ec_put c (update_id (ec_id c) i (ec_ready c now)) d)))"

definition failFrom ::
  "'r evidence_cols \<Rightarrow> nat \<Rightarrow> nat \<Rightarrow> nat \<Rightarrow> evidence_status \<Rightarrow> string \<Rightarrow> db \<Rightarrow> evidence_status option \<times> db" where
  "failFrom c now i jobId src reason d =
    (if \<not> still_in c i src d then (None, d)
     else (Some E_FAILED,
       log_reconcile c ''EVIDENCE_INTEGRITY_FAILURE'' i jobId src (''reason'', JStr reason)
         (ec_put c (update_id (ec_id c) i (ec_fail c now reason)) d)))"

subsection \<open>The verdict on a row\<close>

datatype record_kind = VERIFIED | OK | MISSING | MISMATCH | STALE | STORAGE_ERROR

datatype transition = Stay | Promote | Fail string

record rec_result =
  rr_table :: string
  rr_id :: nat
  rr_job :: nat
  rr_kind :: record_kind
  rr_reason :: string
  rr_to :: "evidence_status option"

definition storage_reason :: "storage_error \<Rightarrow> string" where
  "storage_reason e = ''storage '' @ storage_error_str e"

text \<open>
  What \<open>verifyLegacy\<close> and \<open>verifyReady\<close> conclude from the object: the kind and the reason they
  report and the transition they make when \<open>apply\<close> is set.
\<close>

definition legacy_verdict ::
  "'r evidence_cols \<Rightarrow> 's provider \<Rightarrow> (buffer \<Rightarrow> string) \<Rightarrow> 's \<Rightarrow> 'r \<Rightarrow> record_kind \<times> string \<times> transition" where
  "legacy_verdict c prov sha s row =
    (case readAndHash prov sha (ec_key c row) s of
       Inl e \<Rightarrow> (STORAGE_ERROR, storage_reason e, Stay)
     | Inr None \<Rightarrow> (MISSING, ''object absent'', Fail ''LEGACY_MISSING'')
     | Inr (Some (len, digest, bytes)) \<Rightarrow>
         if len \<noteq> ec_size c row then
           (MISMATCH, ''stored size differs from metadata'', Fail ''LEGACY_SIZE_MISMATCH'')
         else if ec_hash c row \<noteq> [] \<and> digest \<noteq> ec_hash c row then
           (MISMATCH, ''sha256 differs from metadata'', Fail ''LEGACY_HASH_MISMATCH'')
         else
           (case detected_mime bytes of
              None \<Rightarrow> (MISMATCH, ''content type not an acceptable image'', Fail ''LEGACY_CONTENT_TYPE'')
            | Some m \<Rightarrow>
                if ec_mime c row \<noteq> [] \<and> mime_str m \<noteq> ec_mime c row then
                  (MISMATCH, ''content type not an acceptable image'', Fail ''LEGACY_CONTENT_TYPE'')
                else (VERIFIED, ''object matches metadata'', Promote)))"

definition ready_verdict ::
  "'r evidence_cols \<Rightarrow> 's provider \<Rightarrow> (buffer \<Rightarrow> string) \<Rightarrow> bool \<Rightarrow> 's \<Rightarrow> 'r \<Rightarrow> record_kind \<times> string \<times> transition" where
  "ready_verdict c prov sha deep s row =
    (if deep then
       (case readAndHash prov sha (ec_key c row) s of
          Inl e \<Rightarrow> (STORAGE_ERROR, storage_reason e, Stay)
        | Inr None \<Rightarrow> (MISSING, ''object absent'', Fail ''MISSING_OBJECT'')
        | Inr (Some (len, digest, bytes)) \<Rightarrow>
            if len \<noteq> ec_size c row then (MISMATCH, ''stored size differs from metadata'', Fail ''SIZE_MISMATCH'')
            else if ec_hash c row \<noteq> [] \<and> digest \<noteq> ec_hash c row then
              (MISMATCH, ''sha256 differs from metadata'', Fail ''HASH_MISMATCH'')
            else (OK, ''verified (deep)'', Stay))
     else
       (case sp_stat prov (ec_key c row) s of
          Inl e \<Rightarrow> (STORAGE_ERROR, storage_reason e, Stay)
        | Inr None \<Rightarrow> (MISSING, ''object absent'', Fail ''MISSING_OBJECT'')
        | Inr (Some st) \<Rightarrow>
            if os_size st \<noteq> ec_size c row then (MISMATCH, ''stored size differs from metadata'', Fail ''SIZE_MISMATCH'')
            else (OK, ''verified (size)'', Stay)))"

definition act_on ::
  "'r evidence_cols \<Rightarrow> nat \<Rightarrow> bool \<Rightarrow> evidence_status \<Rightarrow> record_kind \<times> string \<times> transition \<Rightarrow> 'r \<Rightarrow> db \<Rightarrow> rec_result \<times> db" where
  "act_on c now apl src v row d =
    (let (k, reason, t) = v;
         (to, d') = (case t of
             Stay \<Rightarrow> (None, d)
           | Promote \<Rightarrow> if apl then promoteReady c now (ec_id c row) (ec_job c row) d else (None, d)
           | Fail why \<Rightarrow> if apl then failFrom c now (ec_id c row) (ec_job c row) src why d else (None, d))
     in (\<lparr>rr_table = ec_name c, rr_id = ec_id c row, rr_job = ec_job c row, rr_kind = k,
          rr_reason = reason, rr_to = to\<rparr>, d'))"

definition verifyLegacy ::
  "'r evidence_cols \<Rightarrow> 's provider \<Rightarrow> (buffer \<Rightarrow> string) \<Rightarrow> nat \<Rightarrow> bool \<Rightarrow> 's \<Rightarrow> 'r \<Rightarrow> db \<Rightarrow> rec_result \<times> db" where
  "verifyLegacy c prov sha now apl s row d = act_on c now apl E_UNVERIFIED (legacy_verdict c prov sha s row) row d"

definition verifyReady ::
  "'r evidence_cols \<Rightarrow> 's provider \<Rightarrow> (buffer \<Rightarrow> string) \<Rightarrow> nat \<Rightarrow> bool \<Rightarrow> bool \<Rightarrow> 's \<Rightarrow> 'r \<Rightarrow> db \<Rightarrow> rec_result \<times> db" where
  "verifyReady c prov sha now apl deep s row d = act_on c now apl E_READY (ready_verdict c prov sha deep s row) row d"

definition sweepStale :: "'r evidence_cols \<Rightarrow> nat \<Rightarrow> bool \<Rightarrow> 'r \<Rightarrow> db \<Rightarrow> rec_result \<times> db" where
  "sweepStale c now apl row d = act_on c now apl E_PENDING (STALE, ''PENDING past staleness window'', Fail ''STALE'') row d"

subsection \<open>A run\<close>

text \<open>\<open>for (const item of items) results.push(await fn(item))\<close>, the database threaded through.\<close>

fun map_state :: "('a \<Rightarrow> 'd \<Rightarrow> 'b \<times> 'd) \<Rightarrow> 'a list \<Rightarrow> 'd \<Rightarrow> 'b list \<times> 'd" where
  "map_state f [] d = ([], d)"
| "map_state f (x # xs) d = (let (y, d1) = f x d; (ys, d2) = map_state f xs d1 in (y # ys, d2))"

text \<open>Clocks: \<open>now\<close> is the database's (seconds), \<open>ms\<close> is \<open>Date.now()\<close> of the process.\<close>

definition STALE_PENDING_MS :: int where
  "STALE_PENDING_MS = 15 * 60 * 1000"

definition stale_pending :: "'r evidence_cols \<Rightarrow> int \<Rightarrow> 'r \<Rightarrow> bool" where
  "stale_pending c ms row = (ec_status c row = E_PENDING \<and> int (ec_created c row) * 1000 < ms - STALE_PENDING_MS)"

record reconcile_options =
  ro_apply :: bool
  ro_deep :: bool

definition reconcile_table ::
  "'r evidence_cols \<Rightarrow> 's provider \<Rightarrow> (buffer \<Rightarrow> string) \<Rightarrow> reconcile_options \<Rightarrow> nat \<Rightarrow> int \<Rightarrow> 's \<Rightarrow> db \<Rightarrow> rec_result list \<times> db" where
  "reconcile_table c prov sha opt now ms s d0 =
    (let (r1, d1) = map_state (verifyLegacy c prov sha now (ro_apply opt) s)
           (t_where (\<lambda>r. ec_status c r = E_UNVERIFIED) (ec_tbl c d0)) d0;
         (r2, d2) = map_state (verifyReady c prov sha now (ro_apply opt) (ro_deep opt) s)
           (t_where (\<lambda>r. ec_status c r = E_READY) (ec_tbl c d1)) d1;
         (r3, d3) = map_state (sweepStale c now (ro_apply opt)) (t_where (stale_pending c ms) (ec_tbl c d2)) d2
     in (r1 @ r2 @ r3, d3))"

record rec_summary =
  rs_scanned :: nat
  rs_results :: "rec_result list"
  rs_findings :: "rec_result list"
  rs_verified :: nat
  rs_failed :: nat
  rs_fixed :: nat
  rs_unresolved :: nat
  rs_dryRun :: bool
  rs_deep :: bool

definition reconcile_result :: "reconcile_options \<Rightarrow> rec_result list \<Rightarrow> rec_summary" where
  "reconcile_result opt results =
    (let findings = filter (\<lambda>r. rr_kind r \<in> {MISSING, MISMATCH, STALE, STORAGE_ERROR}) results;
         verified = length (filter (\<lambda>r. rr_to r = Some E_READY) results);
         failed = length (filter (\<lambda>r. rr_to r = Some E_FAILED) results)
     in \<lparr>rs_scanned = length results, rs_results = results, rs_findings = findings, rs_verified = verified,
         rs_failed = failed, rs_fixed = verified + failed, rs_unresolved = length findings,
         rs_dryRun = (\<not> ro_apply opt), rs_deep = ro_deep opt\<rparr>)"

definition reconcileEvidence ::
  "'s provider \<Rightarrow> (buffer \<Rightarrow> string) \<Rightarrow> reconcile_options \<Rightarrow> nat \<Rightarrow> int \<Rightarrow> 's \<Rightarrow> db \<Rightarrow> rec_summary \<times> db" where
  "reconcileEvidence prov sha opt now ms s d =
    (let (p, d1) = reconcile_table job_photos prov sha opt now ms s d;
         (g, d2) = reconcile_table customer_signatures prov sha opt now ms s d1
     in (reconcile_result opt (p @ g), d2))"

text \<open>
  The command line (reconcile.cli.ts): the options and the exit code of a run that ended. The
  output and the concurrency option are left out.
\<close>

definition cli_options :: "string list \<Rightarrow> reconcile_options" where
  "cli_options args =
    \<lparr>ro_apply = (List.member args ''--apply'' \<or> List.member args ''--fix''), ro_deep = List.member args ''--deep''\<rparr>"

definition exit_code :: "rec_summary \<Rightarrow> nat" where
  "exit_code r = (if rs_unresolved r > 0 then 2 else 0)"

end
