(* ===== verification/ReconcileProperties.thy ===== *)
theory ReconcileProperties
  imports Reconcile
begin

section \<open>What a reconciliation run does\<close>

text \<open>
  The run is compared with its specification row by row: \<open>settle_row\<close> says what becomes of one
  evidence row, given the store, and the run maps it over both tables and appends one audit
  entry per transition. The passes are analysed once, in the locale of the interface the code
  has to a table.
\<close>

subsection \<open>The specification\<close>

definition apply_transition :: "'r evidence_cols \<Rightarrow> nat \<Rightarrow> transition \<Rightarrow> 'r \<Rightarrow> 'r" where
  "apply_transition c now t r =
    (case t of Stay \<Rightarrow> r | Promote \<Rightarrow> ec_ready c now r | Fail why \<Rightarrow> ec_fail c now why r)"

definition settle_legacy :: "'r evidence_cols \<Rightarrow> 's provider \<Rightarrow> (buffer \<Rightarrow> string) \<Rightarrow> nat \<Rightarrow> 's \<Rightarrow> 'r \<Rightarrow> 'r" where
  "settle_legacy c prov sha now s r =
    (if ec_status c r = E_UNVERIFIED then apply_transition c now (snd (snd (legacy_verdict c prov sha s r))) r else r)"

definition settle_ready :: "'r evidence_cols \<Rightarrow> 's provider \<Rightarrow> (buffer \<Rightarrow> string) \<Rightarrow> bool \<Rightarrow> nat \<Rightarrow> 's \<Rightarrow> 'r \<Rightarrow> 'r" where
  "settle_ready c prov sha deep now s r =
    (if ec_status c r = E_READY then apply_transition c now (snd (snd (ready_verdict c prov sha deep s r))) r else r)"

definition settle_stale :: "'r evidence_cols \<Rightarrow> nat \<Rightarrow> int \<Rightarrow> 'r \<Rightarrow> 'r" where
  "settle_stale c now ms r = (if stale_pending c ms r then ec_fail c now ''STALE'' r else r)"

definition settle_row ::
  "'r evidence_cols \<Rightarrow> 's provider \<Rightarrow> (buffer \<Rightarrow> string) \<Rightarrow> bool \<Rightarrow> nat \<Rightarrow> int \<Rightarrow> 's \<Rightarrow> 'r \<Rightarrow> 'r" where
  "settle_row c prov sha deep now ms s r =
    settle_stale c now ms (settle_ready c prov sha deep now s (settle_legacy c prov sha now s r))"

text \<open>How many results of a run report a transition.\<close>

definition transitions :: "rec_result list \<Rightarrow> nat" where
  "transitions rs = length (filter (\<lambda>r. rr_to r \<noteq> None) rs)"

text \<open>The store holds an object with the recorded size, hash and image type.\<close>

definition object_matches ::
  "'s provider \<Rightarrow> (buffer \<Rightarrow> string) \<Rightarrow> string \<Rightarrow> nat \<Rightarrow> string \<Rightarrow> string \<Rightarrow> 's \<Rightarrow> bool" where
  "object_matches prov sha key size_bytes hash mime_type s =
    (\<exists>bytes m. sp_getStream prov key s = Inr bytes \<and> length bytes = size_bytes \<and>
      (hash \<noteq> [] \<longrightarrow> sha bytes = hash) \<and> detected_mime bytes = Some m \<and>
      (mime_type \<noteq> [] \<longrightarrow> mime_str m = mime_type))"

subsection \<open>The interface of a table\<close>

locale evidence_table =
  fixes c :: "'r evidence_cols"
  assumes tbl_put: "ec_tbl c (ec_put c f d) = f (ec_tbl c d)"
    and put_put: "ec_put c f (ec_put c g d) = ec_put c (f \<circ> g) d"
    and put_same: "f (ec_tbl c d) = g (ec_tbl c d) \<Longrightarrow> ec_put c f d = ec_put c g d"
    and put_id: "f (ec_tbl c d) = ec_tbl c d \<Longrightarrow> ec_put c f d = d"
    and tbl_log: "ec_tbl c (d\<lparr>audits := l\<rparr>) = ec_tbl c d"
    and put_log: "ec_put c f (d\<lparr>audits := l\<rparr>) = (ec_put c f d)\<lparr>audits := l\<rparr>"
    and audits_put: "audits (ec_put c f d) = audits d"
    and ready_status: "ec_status c (ec_ready c now r) = E_READY"
    and fail_status: "ec_status c (ec_fail c now why r) = E_FAILED"
    and ready_cols: "ec_id c (ec_ready c now r) = ec_id c r \<and> ec_key c (ec_ready c now r) = ec_key c r \<and>
      ec_size c (ec_ready c now r) = ec_size c r \<and> ec_hash c (ec_ready c now r) = ec_hash c r"
    and fail_id: "ec_id c (ec_fail c now why r) = ec_id c r"
begin

lemma transition_id: "ec_id c (apply_transition c now t r) = ec_id c r"
  by (cases t) (simp_all add: apply_transition_def ready_cols fail_id)

lemma still_in_row:
  assumes "r \<in> set (rows (ec_tbl c d))" "ec_status c r = st"
  shows "still_in c (ec_id c r) st d"
  using assms by (auto simp: still_in_def t_first_None)

definition logged :: "db \<Rightarrow> ('r tbl \<Rightarrow> 'r tbl) \<Rightarrow> nat \<Rightarrow> db \<Rightarrow> bool" where
  "logged d f n d' = (\<exists>es. d' = (ec_put c f d)\<lparr>audits := audits d @ es\<rparr> \<and> length es = n)"

lemma logged_refl: "f (ec_tbl c d) = ec_tbl c d \<Longrightarrow> logged d f 0 d"
  by (simp add: logged_def put_id)

lemma logged_tbl: "logged d f n d' \<Longrightarrow> ec_tbl c d' = f (ec_tbl c d)"
  by (auto simp: logged_def tbl_log tbl_put)

lemma logged_trans: "logged d f m d1 \<Longrightarrow> logged d1 g n d2 \<Longrightarrow> logged d (g \<circ> f) (m + n) d2"
  by (fastforce simp: logged_def put_log put_put)

lemma logged_same: "logged d f n d' \<Longrightarrow> f (ec_tbl c d) = g (ec_tbl c d) \<Longrightarrow> logged d g n d'"
  using put_same [of f d g] by (simp add: logged_def)

lemma log_logged: "logged d f (Suc 0) (log_reconcile c action i jobId src field (ec_put c f d))"
  unfolding logged_def log_reconcile_def audits_put by (rule exI, rule conjI, rule refl) simp

subsubsection \<open>One row\<close>

lemma transition_fun:
  "apply_transition c now Stay = (\<lambda>r. r)" "apply_transition c now Promote = ec_ready c now"
  "apply_transition c now (Fail why) = ec_fail c now why"
  by (simp_all add: apply_transition_def fun_eq_iff)

lemma act_on_row:
  assumes "r \<in> set (rows (ec_tbl c d))" "ec_status c r = src"
    and "snd (snd v) = Promote \<Longrightarrow> src = E_UNVERIFIED"
  shows "logged d (update_id (ec_id c) (ec_id c r) (apply_transition c now (snd (snd v))))
           (transitions [fst (act_on c now True src v r d)]) (snd (act_on c now True src v r d))"
proof -
  have *: "update_id (ec_id c) i (\<lambda>r. r) t = t" for i and t :: "'r tbl"
    by (simp add: update_id_def t_update_def)
  obtain k reason t where v: "v = (k, reason, t)" by (cases v)
  show ?thesis
  proof (cases t)
    case Stay
    then show ?thesis
      by (simp add: act_on_def v transitions_def transition_fun * logged_refl)
  next
    case Promote
    with assms have "still_in c (ec_id c r) E_UNVERIFIED d" using still_in_row v by simp
    then show ?thesis
      by (simp add: act_on_def v Promote transitions_def promoteReady_def log_logged transition_fun)
  next
    case (Fail why)
    have "still_in c (ec_id c r) src d" using assms still_in_row by simp
    then show ?thesis
      by (simp add: act_on_def v Fail transitions_def failFrom_def log_logged transition_fun)
  qed
qed

subsubsection \<open>One pass\<close>

lemma pass_logged:
  assumes "keyed (ec_id c) (ec_tbl c d)" "distinct xs" "set xs \<subseteq> set (rows (ec_tbl c d))"
    and "\<forall>x\<in>set xs. ec_status c x = src"
    and "\<And>x. snd (snd (v x)) = Promote \<Longrightarrow> src = E_UNVERIFIED"
  shows "logged d (t_update (\<lambda>r. r \<in> set xs) (\<lambda>r. apply_transition c now (snd (snd (v r))) r))
           (transitions (fst (map_state (\<lambda>r. act_on c now True src (v r) r) xs d)))
           (snd (map_state (\<lambda>r. act_on c now True src (v r) r) xs d))"
  using assms(1-4)
proof (induction xs arbitrary: d)
  case Nil
  then show ?case by (simp add: transitions_def logged_refl t_update_none)
next
  case (Cons x xs)
  let ?act = "\<lambda>r. act_on c now True src (v r) r"
  let ?g = "\<lambda>r. apply_transition c now (snd (snd (v r))) r"
  obtain y d1 where y: "?act x d = (y, d1)" by (cases "?act x d")
  obtain ys d2 where ys: "map_state ?act xs d1 = (ys, d2)" by (cases "map_state ?act xs d1")
  have x: "x \<in> set (rows (ec_tbl c d))" "ec_status c x = src" using Cons.prems by simp_all
  have upd: "update_id (ec_id c) (ec_id c x) (apply_transition c now (snd (snd (v x)))) (ec_tbl c d)
      = t_update (\<lambda>r. r = x) ?g (ec_tbl c d)" (is "?u = _")
    using keyed_inj [OF Cons.prems(1) _ x(1)] by (auto simp: update_id_def t_update_def)
  have one: "logged d (t_update (\<lambda>r. r = x) ?g) (transitions [y]) d1"
    using act_on_row [OF x, of "v x" now] assms(5) y
    by (auto intro: logged_same [where f = "update_id (ec_id c) (ec_id c x) (apply_transition c now (snd (snd (v x))))"]
        simp: upd)
  have t1: "ec_tbl c d1 = t_update (\<lambda>r. r = x) ?g (ec_tbl c d)" by (rule logged_tbl [OF one])
  have k1: "keyed (ec_id c) (ec_tbl c d1)"
    unfolding t1 by (rule keyed_update [OF Cons.prems(1)]) (simp add: transition_id)
  have in1: "set xs \<subseteq> set (rows (ec_tbl c d1))"
    using Cons.prems(2,3) by (force simp: t1 set_rows_update)
  have "logged d1 (t_update (\<lambda>r. r \<in> set xs) ?g) (transitions ys) d2"
    using Cons.IH [OF k1 _ in1] Cons.prems(2,4) ys by simp
  from logged_trans [OF one this]
  have "logged d (t_update (\<lambda>r. r \<in> set xs) ?g \<circ> t_update (\<lambda>r. r = x) ?g) (transitions [y] + transitions ys) d2" .
  moreover have "(t_update (\<lambda>r. r \<in> set xs) ?g \<circ> t_update (\<lambda>r. r = x) ?g) (ec_tbl c d)
      = t_update (\<lambda>r. r \<in> set (x # xs)) ?g (ec_tbl c d)"
  proof -
    have "?g x \<notin> set xs"
    proof
      assume in_xs: "?g x \<in> set xs"
      then have "?g x \<in> set (rows (ec_tbl c d))" using Cons.prems(3) by auto
      then have "?g x = x" using keyed_inj [OF Cons.prems(1) _ x(1)] transition_id by metis
      with in_xs Cons.prems(2) show False by simp
    qed
    then show ?thesis by (auto simp: t_update_def)
  qed
  moreover have "transitions [y] + transitions ys = transitions (y # ys)" by (simp add: transitions_def)
  ultimately show ?case using logged_same y ys by (simp add: case_prod_beta)
qed

lemma query_pass:
  assumes "keyed (ec_id c) (ec_tbl c d)" "\<And>r. P r \<Longrightarrow> ec_status c r = src"
    and "\<And>x. snd (snd (v x)) = Promote \<Longrightarrow> src = E_UNVERIFIED"
    and "map_state (\<lambda>r. act_on c now True src (v r) r) (t_where P (ec_tbl c d)) d = (rs, d')"
  shows "logged d (t_update P (\<lambda>r. apply_transition c now (snd (snd (v r))) r)) (transitions rs) d'"
proof -
  let ?xs = "t_where P (ec_tbl c d)" and ?g = "\<lambda>r. apply_transition c now (snd (snd (v r))) r"
  have "distinct ?xs" using assms(1) by (auto simp: keyed_def t_where_def distinct_map)
  then have "logged d (t_update (\<lambda>r. r \<in> set ?xs) ?g) (transitions rs) d'"
    using pass_logged [of d ?xs src v now] assms by auto
  then show ?thesis by (rule logged_same) (simp add: t_update_def)
qed

subsubsection \<open>The three passes\<close>

lemma legacy_pass:
  assumes "keyed (ec_id c) (ec_tbl c d)"
    and "map_state (verifyLegacy c prov sha now True s) (t_where (\<lambda>r. ec_status c r = E_UNVERIFIED) (ec_tbl c d)) d = (rs, d')"
  shows "logged d (\<lambda>t. t\<lparr>rows := map (settle_legacy c prov sha now s) (rows t)\<rparr>) (transitions rs) d'"
proof -
  have *: "verifyLegacy c prov sha now True s = (\<lambda>r. act_on c now True E_UNVERIFIED (legacy_verdict c prov sha s r) r)"
    by (simp add: verifyLegacy_def fun_eq_iff)
  show ?thesis
    by (rule logged_same [OF query_pass [OF assms(1) _ _ assms(2) [unfolded *]]])
      (simp_all add: t_update_def settle_legacy_def [abs_def])
qed

lemma ready_never_promotes: "snd (snd (ready_verdict c prov sha deep s r)) \<noteq> Promote"
  by (simp add: ready_verdict_def split: sum.split option.split prod.split)

lemma ready_pass:
  assumes "keyed (ec_id c) (ec_tbl c d)"
    and "map_state (verifyReady c prov sha now True deep s) (t_where (\<lambda>r. ec_status c r = E_READY) (ec_tbl c d)) d = (rs, d')"
  shows "logged d (\<lambda>t. t\<lparr>rows := map (settle_ready c prov sha deep now s) (rows t)\<rparr>) (transitions rs) d'"
proof -
  have *: "verifyReady c prov sha now True deep s = (\<lambda>r. act_on c now True E_READY (ready_verdict c prov sha deep s r) r)"
    by (simp add: verifyReady_def fun_eq_iff)
  show ?thesis
    by (rule logged_same [OF query_pass [OF assms(1) _ _ assms(2) [unfolded *]]])
      (simp_all add: t_update_def settle_ready_def [abs_def] ready_never_promotes)
qed

lemma stale_pass:
  assumes "keyed (ec_id c) (ec_tbl c d)"
    and "map_state (sweepStale c now True) (t_where (stale_pending c ms) (ec_tbl c d)) d = (rs, d')"
  shows "logged d (\<lambda>t. t\<lparr>rows := map (settle_stale c now ms) (rows t)\<rparr>) (transitions rs) d'"
proof -
  have *: "sweepStale c now True =
      (\<lambda>r. act_on c now True E_PENDING ((\<lambda>_. (STALE, ''PENDING past staleness window'', Fail ''STALE'')) r) r)"
    by (simp add: sweepStale_def fun_eq_iff)
  show ?thesis
    by (rule logged_same [OF query_pass [OF assms(1) _ _ assms(2) [unfolded *]]])
      (simp_all add: t_update_def settle_stale_def [abs_def] stale_pending_def apply_transition_def)
qed

lemma settle_ids:
  "ec_id c (settle_legacy c prov sha now s r) = ec_id c r"
  "ec_id c (settle_ready c prov sha deep now s r) = ec_id c r"
  "ec_id c (settle_stale c now ms r) = ec_id c r"
  by (simp_all add: settle_legacy_def settle_ready_def settle_stale_def transition_id fail_id)

lemma keyed_map:
  assumes "keyed (ec_id c) t" "\<And>r. ec_id c (f r) = ec_id c r"
  shows "keyed (ec_id c) (t\<lparr>rows := map f (rows t)\<rparr>)"
  using assms by (simp add: keyed_def comp_def)

lemma table_settled:
  assumes k: "keyed (ec_id c) (ec_tbl c d)" and apl: "ro_apply opt"
    and run: "reconcile_table c prov sha opt now ms s d = (rs, d')"
  shows "logged d (\<lambda>t. t\<lparr>rows := map (settle_row c prov sha (ro_deep opt) now ms s) (rows t)\<rparr>) (transitions rs) d'"
proof -
  obtain r1 d1 r2 d2 r3 where
      p1: "map_state (verifyLegacy c prov sha now True s) (t_where (\<lambda>r. ec_status c r = E_UNVERIFIED) (ec_tbl c d)) d = (r1, d1)"
    and p2: "map_state (verifyReady c prov sha now True (ro_deep opt) s) (t_where (\<lambda>r. ec_status c r = E_READY) (ec_tbl c d1)) d1 = (r2, d2)"
    and p3: "map_state (sweepStale c now True) (t_where (stale_pending c ms) (ec_tbl c d2)) d2 = (r3, d')"
    and rs: "rs = r1 @ r2 @ r3"
    using run apl by (auto simp: reconcile_table_def split: prod.splits)
  note l1 = legacy_pass [OF k p1]
  have k1: "keyed (ec_id c) (ec_tbl c d1)" unfolding logged_tbl [OF l1] by (rule keyed_map [OF k settle_ids(1)])
  note l2 = ready_pass [OF k1 p2]
  have k2: "keyed (ec_id c) (ec_tbl c d2)" unfolding logged_tbl [OF l2] by (rule keyed_map [OF k1 settle_ids(2)])
  note l3 = stale_pass [OF k2 p3]
  have "transitions r1 + transitions r2 + transitions r3 = transitions rs" by (simp add: rs transitions_def)
  with logged_trans [OF logged_trans [OF l1 l2] l3] show ?thesis
    by (auto intro: logged_same simp: settle_row_def [abs_def] comp_def)
qed

subsubsection \<open>Dry runs\<close>

lemma dry_act: "\<exists>y. act_on c now False src v r d = (y, d) \<and> rr_to y = None"
  by (cases v) (auto simp: act_on_def split: transition.split)

lemma dry_pass:
  "\<exists>ys. map_state (\<lambda>r. act_on c now False src (v r) r) xs d = (ys, d) \<and> transitions ys = 0"
proof (induction xs)
  case Nil
  then show ?case by (simp add: transitions_def)
next
  case (Cons x xs)
  obtain y where "act_on c now False src (v x) x d = (y, d)" "rr_to y = None" using dry_act by blast
  with Cons show ?case by (auto simp: transitions_def)
qed

lemma table_dry:
  assumes "\<not> ro_apply opt" "reconcile_table c prov sha opt now ms s d = (rs, d')"
  shows "d' = d \<and> transitions rs = 0"
proof -
  obtain r1 where "map_state (verifyLegacy c prov sha now False s) (t_where (\<lambda>r. ec_status c r = E_UNVERIFIED) (ec_tbl c d)) d = (r1, d)"
      "transitions r1 = 0"
    using dry_pass [of now E_UNVERIFIED "legacy_verdict c prov sha s"] unfolding verifyLegacy_def [abs_def] by blast
  moreover obtain r2 where "map_state (verifyReady c prov sha now False (ro_deep opt) s) (t_where (\<lambda>r. ec_status c r = E_READY) (ec_tbl c d)) d = (r2, d)"
      "transitions r2 = 0"
    using dry_pass [of now E_READY "ready_verdict c prov sha (ro_deep opt) s"] unfolding verifyReady_def [abs_def] by blast
  moreover obtain r3 where "map_state (sweepStale c now False) (t_where (stale_pending c ms) (ec_tbl c d)) d = (r3, d)"
      "transitions r3 = 0"
    using dry_pass [of now E_PENDING "\<lambda>_. (STALE, ''PENDING past staleness window'', Fail ''STALE'')"]
    unfolding sweepStale_def [abs_def] by blast
  ultimately show ?thesis using assms by (auto simp: reconcile_table_def transitions_def)
qed

subsubsection \<open>What a settled row looks like\<close>

lemma legacy_promotes:
  "snd (snd (legacy_verdict c prov sha s r)) = Promote \<Longrightarrow>
    object_matches prov sha (ec_key c r) (ec_size c r) (ec_hash c r) (ec_mime c r) s"
  unfolding object_matches_def
  by (auto simp: legacy_verdict_def readAndHash_def split: sum.splits option.splits if_splits)

lemma settle_row_id: "ec_id c (settle_row c prov sha deep now ms s r) = ec_id c r"
  by (simp add: settle_row_def settle_ids)

lemma settled_ready:
  assumes "ec_status c (settle_row c prov sha deep now ms s r) = E_READY" "ec_status c r \<noteq> E_READY"
  shows "ec_status c r = E_UNVERIFIED \<and> snd (snd (legacy_verdict c prov sha s r)) = Promote"
  using assms
  by (auto simp: settle_row_def settle_legacy_def settle_ready_def settle_stale_def apply_transition_def
      ready_status fail_status stale_pending_def split: if_splits transition.splits)

lemma ready_verdict_ready:
  "ready_verdict c prov sha deep s (ec_ready c now r) = ready_verdict c prov sha deep s r"
  by (simp add: ready_verdict_def ready_cols split: sum.split option.split prod.split)

text \<open>A row on which a run has nothing to do any more; a failed row is one.\<close>

definition settled :: "'s provider \<Rightarrow> (buffer \<Rightarrow> string) \<Rightarrow> bool \<Rightarrow> int \<Rightarrow> 's \<Rightarrow> 'r \<Rightarrow> bool" where
  "settled prov sha deep ms s r \<longleftrightarrow>
    (ec_status c r = E_UNVERIFIED \<longrightarrow> snd (snd (legacy_verdict c prov sha s r)) = Stay) \<and>
    (ec_status c r = E_READY \<longrightarrow> snd (snd (ready_verdict c prov sha deep s r)) = Stay) \<and> \<not> stale_pending c ms r"

lemma settled_fixed: "settled prov sha deep ms s r \<Longrightarrow> settle_row c prov sha deep now ms s r = r"
  by (simp add: settled_def settle_row_def settle_legacy_def settle_ready_def settle_stale_def apply_transition_def)

lemma settled_failed: "settled prov sha deep ms s (ec_fail c now why r)"
  by (simp add: settled_def fail_status stale_pending_def)

lemma settled_after_ready:
  assumes "ec_status c r = E_READY"
  shows "settled prov sha deep ms s (settle_stale c now ms (settle_ready c prov sha deep now s r))"
proof -
  have plain: "settle_stale c now ms x = x" if "ec_status c x \<noteq> E_PENDING" for x
    using that by (simp add: settle_stale_def stale_pending_def)
  show ?thesis
  proof (cases "snd (snd (ready_verdict c prov sha deep s r))")
    case Stay
    with assms show ?thesis
      by (simp add: settle_ready_def transition_fun plain) (simp add: settled_def stale_pending_def)
  next
    case Promote
    then show ?thesis by (simp add: ready_never_promotes)
  next
    case (Fail why)
    with assms show ?thesis by (simp add: settle_ready_def transition_fun plain fail_status settled_failed)
  qed
qed

lemma settle_row_settled: "settled prov sha deep ms s (settle_row c prov sha deep now ms s r)"
proof (cases "ec_status c r = E_READY")
  case True
  then show ?thesis using settled_after_ready by (simp add: settle_row_def settle_legacy_def)
next
  case False
  show ?thesis
  proof (cases "ec_status c r = E_UNVERIFIED")
    case True
    show ?thesis
    proof (cases "snd (snd (legacy_verdict c prov sha s r))")
      case Stay
      with True have "settled prov sha deep ms s r" by (simp add: settled_def stale_pending_def)
      then show ?thesis by (simp add: settled_fixed)
    next
      case Promote
      with True show ?thesis
        by (simp add: settle_row_def settle_legacy_def transition_fun settled_after_ready ready_status)
    next
      case (Fail why)
      with True show ?thesis
        by (simp add: settle_row_def settle_legacy_def settle_ready_def settle_stale_def transition_fun
            fail_status stale_pending_def settled_failed)
    qed
  next
    case not_unverified: False
    with False show ?thesis
      by (simp add: settle_row_def settle_legacy_def settle_ready_def settle_stale_def settled_failed)
        (simp add: settled_def)
  qed
qed

subsubsection \<open>Runs without work\<close>

lemma quiet_pass:
  assumes "\<forall>r\<in>set xs. snd (snd (v r)) = Stay"
  shows "\<exists>ys. map_state (\<lambda>r. act_on c now apl src (v r) r) xs d = (ys, d) \<and> transitions ys = 0"
  using assms
proof (induction xs)
  case Nil
  then show ?case by (simp add: transitions_def)
next
  case (Cons x xs)
  then have "\<exists>y. act_on c now apl src (v x) x d = (y, d) \<and> rr_to y = None"
    by (cases "v x") (simp add: act_on_def)
  with Cons show ?case by (auto simp: transitions_def)
qed

lemma table_quiet:
  assumes "\<forall>r\<in>set (rows (ec_tbl c d)). settled prov sha (ro_deep opt) ms s r"
    and "reconcile_table c prov sha opt now ms s d = (rs, d')"
  shows "d' = d \<and> transitions rs = 0"
proof -
  obtain r1 where "map_state (verifyLegacy c prov sha now (ro_apply opt) s)
        (t_where (\<lambda>r. ec_status c r = E_UNVERIFIED) (ec_tbl c d)) d = (r1, d)" "transitions r1 = 0"
    using quiet_pass [of "t_where (\<lambda>r. ec_status c r = E_UNVERIFIED) (ec_tbl c d)" "legacy_verdict c prov sha s"
        now "ro_apply opt" E_UNVERIFIED d] assms(1)
    unfolding verifyLegacy_def [abs_def] by (auto simp: settled_def)
  moreover obtain r2 where "map_state (verifyReady c prov sha now (ro_apply opt) (ro_deep opt) s)
        (t_where (\<lambda>r. ec_status c r = E_READY) (ec_tbl c d)) d = (r2, d)" "transitions r2 = 0"
    using quiet_pass [of "t_where (\<lambda>r. ec_status c r = E_READY) (ec_tbl c d)" "ready_verdict c prov sha (ro_deep opt) s"
        now "ro_apply opt" E_READY d] assms(1)
    unfolding verifyReady_def [abs_def] by (auto simp: settled_def)
  moreover have "t_where (stale_pending c ms) (ec_tbl c d) = []"
    using assms(1) by (auto simp: t_where_def filter_empty_conv settled_def)
  ultimately show ?thesis using assms(2) by (auto simp: reconcile_table_def transitions_def)
qed

end

interpretation photo_rows: evidence_table job_photos
  by unfold_locales (simp_all add: job_photos_def)

interpretation signature_rows: evidence_table customer_signatures
  by unfold_locales (simp_all add: customer_signatures_def)

lemma photo_cols [simp]:
  "ec_tbl job_photos = photos" "ec_put job_photos f d = d\<lparr>photos := f (photos d)\<rparr>" "ec_id job_photos = ph_id"
  "ec_status job_photos = ph_status" "ec_key job_photos = ph_key" "ec_size job_photos = ph_size"
  "ec_hash job_photos = ph_hash" "ec_mime job_photos = ph_mime"
  by (simp_all add: job_photos_def)

lemma signature_cols [simp]:
  "ec_tbl customer_signatures = signatures" "ec_put customer_signatures f d = d\<lparr>signatures := f (signatures d)\<rparr>"
  "ec_id customer_signatures = sg_id" "ec_status customer_signatures = sg_status"
  "ec_key customer_signatures = sg_key" "ec_size customer_signatures = sg_size"
  "ec_hash customer_signatures = sg_hash" "ec_mime customer_signatures = sg_mime"
  by (simp_all add: customer_signatures_def)

subsection \<open>The run\<close>

lemma act_on_to: "rr_to (fst (act_on c now apl src v r d)) \<in> {None, Some E_READY, Some E_FAILED}"
  by (cases v) (auto simp: act_on_def promoteReady_def failFrom_def split: transition.split)

lemma map_state_to:
  assumes "\<And>x d. rr_to (fst (f x d)) \<in> S" "r \<in> set (fst (map_state f xs d))"
  shows "rr_to r \<in> S"
  using assms(2)
proof (induction xs arbitrary: d)
  case (Cons x xs)
  then show ?case using assms(1) [of x d] by (auto simp: case_prod_beta)
qed simp

lemma table_to:
  assumes "r \<in> set (fst (reconcile_table c prov sha opt now ms s d))"
  shows "rr_to r \<in> {None, Some E_READY, Some E_FAILED}"
proof -
  have to: "rr_to (fst (verifyLegacy c prov sha now apl s x d)) \<in> {None, Some E_READY, Some E_FAILED}"
    "rr_to (fst (verifyReady c prov sha now apl deep s x d)) \<in> {None, Some E_READY, Some E_FAILED}"
    "rr_to (fst (sweepStale c now apl x d)) \<in> {None, Some E_READY, Some E_FAILED}" for apl deep x d
    unfolding verifyLegacy_def verifyReady_def sweepStale_def by (rule act_on_to)+
  note step = map_state_to [where S = "{None, Some E_READY, Some E_FAILED}"]
  note parts = step [where f = "verifyLegacy c prov sha now (ro_apply opt) s", OF to(1)]
    step [where f = "verifyReady c prov sha now (ro_apply opt) (ro_deep opt) s", OF to(2)]
    step [where f = "sweepStale c now (ro_apply opt)", OF to(3)]
  from assms show ?thesis unfolding reconcile_table_def Let_def case_prod_beta fst_conv set_append
    by (elim UnE) (erule parts)+
qed

lemma fixed_transitions:
  assumes "\<And>r. r \<in> set rs \<Longrightarrow> rr_to r \<in> {None, Some E_READY, Some E_FAILED}"
  shows "rs_fixed (reconcile_result opt rs) = transitions rs"
proof -
  have "length (filter (\<lambda>r. rr_to r = Some E_READY) xs) + length (filter (\<lambda>r. rr_to r = Some E_FAILED) xs)
      = length (filter (\<lambda>r. rr_to r \<noteq> None) xs)"
    if "\<forall>r\<in>set xs. rr_to r \<in> {None, Some E_READY, Some E_FAILED}" for xs
    using that by (induction xs) auto
  from this [of rs] assms show ?thesis by (simp add: reconcile_result_def Let_def transitions_def)
qed

lemma run_fixed:
  "rs_fixed (fst (reconcileEvidence prov sha opt now ms s d)) =
    transitions (fst (reconcile_table job_photos prov sha opt now ms s d)) +
    transitions (fst (reconcile_table customer_signatures prov sha opt now ms s
      (snd (reconcile_table job_photos prov sha opt now ms s d))))"
proof -
  have "rs_fixed (reconcile_result opt (xs @ ys)) = transitions xs + transitions ys"
    if "\<And>r. r \<in> set (xs @ ys) \<Longrightarrow> rr_to r \<in> {None, Some E_READY, Some E_FAILED}" for xs ys
    using fixed_transitions [OF that, of "xs @ ys" opt] by (simp add: transitions_def)
  moreover have "rr_to r \<in> {None, Some E_READY, Some E_FAILED}"
    if "r \<in> set (fst (reconcile_table job_photos prov sha opt now ms s d) @ fst (reconcile_table customer_signatures prov sha opt now ms s
      (snd (reconcile_table job_photos prov sha opt now ms s d))))" for r
    using that unfolding set_append by (elim UnE) (erule table_to)+
  ultimately show ?thesis by (simp add: reconcileEvidence_def case_prod_beta)
qed

lemma run_rowwise:
  assumes "keyed ph_id (photos d)" "keyed sg_id (signatures d)" "ro_apply opt"
  shows "\<exists>es. snd (reconcileEvidence prov sha opt now ms s d) =
      d\<lparr>photos := (photos d)\<lparr>rows := map (settle_row job_photos prov sha (ro_deep opt) now ms s) (rows (photos d))\<rparr>,
        signatures := (signatures d)\<lparr>rows := map (settle_row customer_signatures prov sha (ro_deep opt) now ms s)
          (rows (signatures d))\<rparr>,
        audits := audits d @ es\<rparr> \<and>
    length es = rs_fixed (fst (reconcileEvidence prov sha opt now ms s d))"
proof -
  obtain p d1 where p: "reconcile_table job_photos prov sha opt now ms s d = (p, d1)" by (rule prod.exhaust)
  obtain g d2 where g: "reconcile_table customer_signatures prov sha opt now ms s d1 = (g, d2)" by (rule prod.exhaust)
  have k: "keyed (ec_id job_photos) (ec_tbl job_photos d)" using assms by simp
  obtain es where d1: "d1 = d\<lparr>photos := (photos d)\<lparr>rows := map (settle_row job_photos prov sha (ro_deep opt) now ms s)
        (rows (photos d))\<rparr>, audits := audits d @ es\<rparr>" and es: "length es = transitions p"
    using photo_rows.table_settled [OF k assms(3) p] by (auto simp: photo_rows.logged_def)
  have k1: "keyed (ec_id customer_signatures) (ec_tbl customer_signatures d1)"
    using assms by (simp add: d1)
  obtain es' where "d2 = d1\<lparr>signatures := (signatures d1)\<lparr>rows := map (settle_row customer_signatures prov sha (ro_deep opt) now ms s)
        (rows (signatures d1))\<rparr>, audits := audits d1 @ es'\<rparr>" and es': "length es' = transitions g"
    using signature_rows.table_settled [OF k1 assms(3) g]
    by (auto simp: signature_rows.logged_def)
  then have "d2 = d\<lparr>photos := (photos d)\<lparr>rows := map (settle_row job_photos prov sha (ro_deep opt) now ms s) (rows (photos d))\<rparr>,
        signatures := (signatures d)\<lparr>rows := map (settle_row customer_signatures prov sha (ro_deep opt) now ms s)
          (rows (signatures d))\<rparr>, audits := audits d @ (es @ es')\<rparr>"
    by (simp add: d1)
  moreover have "length (es @ es') = rs_fixed (fst (reconcileEvidence prov sha opt now ms s d))"
    by (simp add: run_fixed p g es es')
  ultimately show ?thesis by (auto simp: reconcileEvidence_def p g)
qed

subsection \<open>A sample\<close>

text \<open>Two unverified photos, an intact one and a missing one, and an upload that was abandoned.\<close>

definition sample_png :: buffer where
  "sample_png = [0x89, 0x50, 0x4e, 0x47, 0x0d, 0x0a, 0x1a, 0x0a, 0, 0, 0, 13, 0x49, 0x48, 0x44, 0x52, 0, 0, 0, 2, 0, 0, 0, 2]"

definition sample_photo :: "nat \<Rightarrow> string \<Rightarrow> evidence_status \<Rightarrow> photo_row" where
  "sample_photo i key st =
    \<lparr>ph_id = i, ph_job = 1, ph_job_step = 1, ph_attempt = 1, ph_status = st, ph_key = key,
     ph_original_name = ''x'', ph_mime = ''image/png'', ph_size = 24, ph_hash = ''h'', ph_created_by = 1,
     ph_created_at = 0, ph_ready_at = None, ph_failed_at = None, ph_failure = None\<rparr>"

definition sample_evidence :: db where
  "sample_evidence = empty_db\<lparr>photos := \<lparr>rows = [sample_photo 1 ''a'' E_UNVERIFIED, sample_photo 2 ''b'' E_UNVERIFIED,
     sample_photo 3 ''c'' E_PENDING], next_id = 4\<rparr>\<rparr>"

definition sample_store :: fs where
  "sample_store = (\<lambda>p. if p = [''srv'', ''a''] then Some (File sample_png) else if p = [''srv''] then Some Dir else None)"

abbreviation evidence_run :: "db \<Rightarrow> rec_summary \<times> db" where
  "evidence_run \<equiv> reconcileEvidence (local_provider [''srv'']) (\<lambda>b. ''h'') \<lparr>ro_apply = True, ro_deep = False\<rparr> 9 10000000 sample_store"

lemma sample_keyed: "keyed ph_id (photos sample_evidence)" "keyed sg_id (signatures sample_evidence)"
  by (simp_all add: sample_evidence_def keyed_def sample_photo_def empty_db_def empty_tbl_def)

lemma sample_paths:
  "resolveSafe [''srv''] ''a'' = Inr [''srv'', ''a'']" "resolveSafe [''srv''] ''b'' = Inr [''srv'', ''b'']"
  by code_simp+

lemma sample_image: "detected_mime sample_png = Some Png"
  by (simp add: detected_mime_def inspectImage_def detectMime_def subarray_def sample_png_def pngDimensions_def
      readUInt32BE_def both_def MAX_IMAGE_DIMENSION_def MAX_IMAGE_PIXELS_def)

lemma sample_objects:
  "readAndHash (local_provider [''srv'']) (\<lambda>b. ''h'') ''a'' sample_store = Inr (Some (24, ''h'', sample_png))"
  "readAndHash (local_provider [''srv'']) (\<lambda>b. ''h'') ''b'' sample_store = Inr None"
  "sp_stat (local_provider [''srv'']) ''a'' sample_store = Inr (Some \<lparr>os_size = 24, os_content_type = None, os_checksum = None\<rparr>)"
  by (simp_all add: readAndHash_def local_provider_def local_getStream_def local_stat_def sample_paths sample_store_def
      through_file_def proper_prefixes_def upt_rec sample_png_def)

lemma sample_settled:
  "map (settle_row job_photos (local_provider [''srv'']) (\<lambda>b. ''h'') False 9 10000000 sample_store) (rows (photos sample_evidence)) =
    [(sample_photo 1 ''a'' E_READY)\<lparr>ph_ready_at := Some 9\<rparr>,
     (sample_photo 2 ''b'' E_FAILED)\<lparr>ph_failed_at := Some 9, ph_failure := Some ''LEGACY_MISSING''\<rparr>,
     (sample_photo 3 ''c'' E_FAILED)\<lparr>ph_failed_at := Some 9, ph_failure := Some ''STALE''\<rparr>]"
  by (simp add: sample_evidence_def sample_photo_def settle_row_def settle_legacy_def settle_ready_def settle_stale_def
      legacy_verdict_def ready_verdict_def sample_objects sample_image apply_transition_def job_photos_def
      stale_pending_def STALE_PENDING_MS_def)

subsection \<open>Properties\<close>

text \<open>C16: a run with \<open>apply\<close> is its specification mapped over the rows: every photo and signature row
  becomes what \<open>settle_row\<close> says of it alone, nothing else of the database changes but the audit log, and
  the log gains exactly one entry per transition the report counts.\<close>
theorem reconcile_run_is_rowwise:
  assumes "keyed ph_id (photos d)" "keyed sg_id (signatures d)" "ro_apply opt"
  shows "\<exists>es. snd (reconcileEvidence prov sha opt now ms s d) =
      d\<lparr>photos := (photos d)\<lparr>rows := map (settle_row job_photos prov sha (ro_deep opt) now ms s) (rows (photos d))\<rparr>,
        signatures := (signatures d)\<lparr>rows := map (settle_row customer_signatures prov sha (ro_deep opt) now ms s)
          (rows (signatures d))\<rparr>,
        audits := audits d @ es\<rparr> \<and>
    length es = rs_fixed (fst (reconcileEvidence prov sha opt now ms s d))"
  by (rule run_rowwise [OF assms])

text \<open>The tables a run leaves, from the rows it found.\<close>

lemma run_rows:
  assumes "keyed ph_id (photos d)" "keyed sg_id (signatures d)" "ro_apply opt"
    "d' = snd (reconcileEvidence prov sha opt now ms s d)"
  shows "rows (photos d') = map (settle_row job_photos prov sha (ro_deep opt) now ms s) (rows (photos d))"
    "rows (signatures d') = map (settle_row customer_signatures prov sha (ro_deep opt) now ms s) (rows (signatures d))"
    "next_id (photos d') = next_id (photos d)" "next_id (signatures d') = next_id (signatures d)"
  using run_rowwise [OF assms(1-3), of prov sha now ms s] assms(4) by auto

lemma settled_by_id:
  assumes "keyed key t" "rows t' = map f (rows t)" "\<And>r. key (f r) = key r"
    and "by_id key i t = Some r" "by_id key i t' = Some r'"
  shows "r' = f r"
proof -
  obtain x where "x \<in> set (rows t)" "r' = f x" "key x = i"
    using by_id_Some [OF assms(5)] assms(2,3) by auto
  with by_id_Some [OF assms(4)] keyed_inj [OF assms(1)] show ?thesis by metis
qed




theorem reconcile_run_is_rowwise_witness:
  "map ph_status (rows (photos (snd (evidence_run sample_evidence)))) = [E_READY, E_FAILED, E_FAILED]"
proof -
  have "ro_apply \<lparr>ro_apply = True, ro_deep = False\<rparr>" by simp
  from reconcile_run_is_rowwise [OF sample_keyed this, of "local_provider [''srv'']" "\<lambda>b. ''h''" 9 10000000 sample_store]
  show ?thesis by (auto simp: sample_settled sample_photo_def)
qed



end
