(* ===== verification/Catalog.thy ===== *)
theory Catalog
  imports Users
begin

section \<open>Catalogue: money, reference values, products\<close>

text \<open>
  Models src/modules/catalog/money.ts, normalize.ts and products.service.ts over the tables of
  the catalogue. The five kinds of reference values have one row type and one table each,
  selected by \<open>ref_kind\<close> (reference.config.ts).

  Parameters: \<open>lower\<close> is the key under which the database compares LOWER of two strings (its
  collation; the unique indexes compare by it too), \<open>weight\<close> the sort key of ORDER BY and \<open>like\<close>
  the LIKE of the collation.
\<close>

subsection \<open>Names and money\<close>

text \<open>\<open>value.replace(/\s+/g, ' ').trim()\<close>\<close>

function collapse_ws :: "string \<Rightarrow> string" where
  "collapse_ws [] = []"
| "collapse_ws (c # cs) =
    (if js_ws c then CHR '' '' # collapse_ws (dropWhile js_ws cs) else c # collapse_ws cs)"
  by pat_completeness auto
termination
  by (relation "measure length") (auto simp: length_dropWhile_le le_imp_less_Suc)

definition normalizeName :: "string \<Rightarrow> string" where
  "normalizeName s = trim (collapse_ws s)"

definition DEFAULT_CURRENCY :: string where
  "DEFAULT_CURRENCY = ''UZS''"

definition SUPPORTED_CURRENCIES :: "string list" where
  "SUPPORTED_CURRENCIES = [''UZS'']"

definition MAX_PRICE_MINOR :: int where
  "MAX_PRICE_MINOR = 1000000000000"

text \<open>The integer a valid price is.\<close>

definition price_of :: "jsnum \<Rightarrow> int option" where
  "price_of v = (case js_integer v of None \<Rightarrow> None | Some i \<Rightarrow> if 0 \<le> i \<and> i \<le> MAX_PRICE_MINOR then Some i else None)"

definition isValidPriceMinor :: "jsnum \<Rightarrow> bool" where
  "isValidPriceMinor v = (price_of v \<noteq> None)"

text \<open>
  \<open>undefined\<close> is the outer \<open>None\<close>, \<open>null\<close> (an unknown price) the inner one; the result is the
  same value with the number known to be an integer.
\<close>

definition assertPriceMinor :: "jsnum option option \<Rightarrow> api_error + int option option" where
  "assertPriceMinor p =
    (case p of
       None \<Rightarrow> Inr None
     | Some None \<Rightarrow> Inr (Some None)
     | Some (Some v) \<Rightarrow> need (price_of v) (badRequest ''INVALID_PRICE'') (\<lambda>i. Inr (Some (Some i))))"

definition assertCurrency :: "string option \<Rightarrow> api_error + unit" where
  "assertCurrency c =
    (case c of None \<Rightarrow> Inr ()
     | Some x \<Rightarrow> throw_if (x \<notin> set SUPPORTED_CURRENCIES) (badRequest ''INVALID_CURRENCY'') (Inr ()))"

subsection \<open>The tables\<close>

datatype cat_status = CAT_ACTIVE | CAT_ARCHIVED

datatype cat_source = SRC_MANUAL | SRC_IMPORT

fun cat_status_str :: "cat_status \<Rightarrow> string" where
  "cat_status_str CAT_ACTIVE = ''ACTIVE''"
| "cat_status_str CAT_ARCHIVED = ''ARCHIVED''"

datatype ref_kind = Companies | Brands | ProductCategories | ServiceCategories | Units

record ref_row =
  rf_id :: nat
  rf_name :: string
  rf_code :: "string option"
  rf_status :: cat_status
  rf_created_at :: nat
  rf_updated_at :: nat

record product =
  pd_id :: nat
  pd_code :: string
  pd_name :: string
  pd_company :: nat
  pd_brand :: "nat option"
  pd_category :: nat
  pd_unit :: "nat option"
  pd_price :: "int option"
  pd_currency :: string
  pd_status :: cat_status
  pd_version :: nat
  pd_source :: cat_source
  pd_source_ref :: "string option"
  pd_created_by :: nat
  pd_updated_by :: nat
  pd_created_at :: nat
  pd_updated_at :: nat

datatype price_basis = NET | GROSS | UNKNOWN_BASIS

record service =
  sv_id :: nat
  sv_code :: string
  sv_name :: string
  sv_category :: nat
  sv_duration :: "nat option"
  sv_price :: "int option"
  sv_currency :: string
  sv_basis :: price_basis
  sv_tax_bp :: "nat option"
  sv_inclusive :: "int option"
  sv_status :: cat_status
  sv_version :: nat
  sv_source :: cat_source
  sv_source_ref :: "string option"
  sv_created_by :: nat
  sv_updated_by :: nat
  sv_created_at :: nat
  sv_updated_at :: nat

datatype priced = PricedProduct | PricedService

record price_row =
  hi_id :: nat
  hi_type :: priced
  hi_entity :: nat
  hi_old :: "int option"
  hi_new :: "int option"
  hi_currency :: string
  hi_basis :: "price_basis option"
  hi_by :: nat
  hi_reason :: "string option"
  hi_source :: cat_source
  hi_created_at :: nat

datatype injection_tech = PORT_MULTIPOINT | DIRECT | UNKNOWN_TECH

datatype forced_induction = NO_INDUCTION | TURBO | SUPERCHARGED | UNKNOWN_INDUCTION

record injection_row =
  ij_id :: nat
  ij_designation :: string
  ij_tech :: injection_tech
  ij_forced :: forced_induction
  ij_description :: "string option"
  ij_status :: cat_status
  ij_created_at :: nat
  ij_updated_at :: nat

record cdb =
  refs :: "ref_kind \<Rightarrow> ref_row tbl"
  products :: "product tbl"
  services :: "service tbl"
  prices :: "price_row tbl"
  injections :: "injection_row tbl"
  clog :: "audit_entry list"

definition clog_add :: "req \<Rightarrow> nat \<Rightarrow> string \<Rightarrow> string \<Rightarrow> string \<Rightarrow> json option \<Rightarrow> json option \<Rightarrow> cdb \<Rightarrow> cdb" where
  "clog_add q user action etype eid old new d =
    d\<lparr>clog := clog d @
        [\<lparr>ae_user = Some user, ae_action = action, ae_entity_type = Some etype, ae_entity_id = Some eid,
          ae_old = old, ae_new = new, ae_ip = rq_ip q, ae_agent = rq_agent q\<rparr>]\<rparr>"

lemma clog_add_frame [simp]:
  "refs (clog_add q u a et ei old new d) = refs d" "products (clog_add q u a et ei old new d) = products d"
  "services (clog_add q u a et ei old new d) = services d" "prices (clog_add q u a et ei old new d) = prices d"
  "injections (clog_add q u a et ei old new d) = injections d"
  by (simp_all add: clog_add_def)

subsection \<open>Reading products\<close>

record product_detail =
  pt_product :: product
  pt_company :: string
  pt_brand :: "string option"
  pt_category :: string
  pt_unit :: "(string option \<times> string) option"

definition ref_name :: "ref_kind \<Rightarrow> nat option \<Rightarrow> cdb \<Rightarrow> string option" where
  "ref_name k i d = Option.bind i (\<lambda>i. map_option rf_name (by_id rf_id i (refs d k)))"

text \<open>\<open>None\<close> for a row an inner join drops.\<close>

definition product_joined :: "cdb \<Rightarrow> product \<Rightarrow> product_detail option" where
  "product_joined d p =
    (case (by_id rf_id (pd_company p) (refs d Companies), by_id rf_id (pd_category p) (refs d ProductCategories)) of
       (Some c, Some k) \<Rightarrow> Some \<lparr>pt_product = p, pt_company = rf_name c, pt_brand = ref_name Brands (pd_brand p) d,
         pt_category = rf_name k,
         pt_unit = Option.bind (pd_unit p) (\<lambda>u. map_option (\<lambda>r. (rf_code r, rf_name r)) (by_id rf_id u (refs d Units)))\<rparr>
     | _ \<Rightarrow> None)"

datatype sort_field = ByName | ByCode | ByPrice | ByCreatedAt | ByUpdatedAt

record product_query =
  pq_page :: nat
  pq_limit :: nat
  pq_search :: "string option"
  pq_company :: "nat option"
  pq_brand :: "nat option"
  pq_category :: "nat option"
  pq_status :: "cat_status option"
  pq_sort :: "sort_field option"
  pq_desc :: bool

text \<open>ORDER BY key, id over rows in id order; NULL sorts first.\<close>

definition order_rows :: "bool \<Rightarrow> ('r \<Rightarrow> 'k :: linorder) \<Rightarrow> 'r list \<Rightarrow> 'r list" where
  "order_rows descending k xs = (if descending then rev (sort_key k (rev xs)) else sort_key k xs)"

definition null_first :: "int option \<Rightarrow> int \<times> int" where
  "null_first v = (case v of None \<Rightarrow> (0, 0) | Some i \<Rightarrow> (1, i))"

definition sort_products :: "(string \<Rightarrow> string) \<Rightarrow> sort_field option \<Rightarrow> bool \<Rightarrow> product_detail list \<Rightarrow> product_detail list" where
  "sort_products weight f desc =
    (case f of
       Some ByCode \<Rightarrow> order_rows desc (\<lambda>p. weight (pd_code (pt_product p)))
     | Some ByPrice \<Rightarrow> order_rows desc (\<lambda>p. null_first (pd_price (pt_product p)))
     | Some ByCreatedAt \<Rightarrow> order_rows desc (\<lambda>p. pd_created_at (pt_product p))
     | Some ByUpdatedAt \<Rightarrow> order_rows desc (\<lambda>p. pd_updated_at (pt_product p))
     | _ \<Rightarrow> order_rows desc (\<lambda>p. weight (pd_name (pt_product p))))"

text \<open>\<open>if (query.search)\<close>: absent or empty is no search.\<close>

definition searched :: "string option \<Rightarrow> (string \<Rightarrow> bool) \<Rightarrow> bool" where
  "searched s P = (case s of None \<Rightarrow> True | Some x \<Rightarrow> x = [] \<or> P x)"

definition product_listed :: "(string \<Rightarrow> string \<Rightarrow> bool) \<Rightarrow> product_query \<Rightarrow> product \<Rightarrow> bool" where
  "product_listed like qy p =
    (opt_eq (pq_status qy) (Some (pd_status p)) \<and> opt_eq (pq_company qy) (Some (pd_company p)) \<and>
     opt_eq (pq_brand qy) (pd_brand p) \<and> opt_eq (pq_category qy) (Some (pd_category p)) \<and>
     searched (pq_search qy) (\<lambda>s. like (pd_name p) (like_term s) \<or> like (pd_code p) (like_term s)))"

definition page_of :: "nat \<Rightarrow> nat \<Rightarrow> 'r list \<Rightarrow> 'r list" where
  "page_of page limit xs = take limit (drop ((page - 1) * limit) xs)"

definition listProducts ::
  "(string \<Rightarrow> string \<Rightarrow> bool) \<Rightarrow> (string \<Rightarrow> string) \<Rightarrow> product_query \<Rightarrow> cdb \<Rightarrow> product_detail list \<times> nat" where
  "listProducts like weight qy d =
    (let found = List.map_filter (product_joined d) (t_where (product_listed like qy) (products d))
     in (page_of (pq_page qy) (pq_limit qy) (sort_products weight (pq_sort qy) (pq_desc qy) found), length found))"

definition getProduct :: "nat \<Rightarrow> cdb \<Rightarrow> api_error + product_detail" where
  "getProduct i d = need (Option.bind (by_id pd_id i (products d)) (product_joined d)) notFound Inr"

subsection \<open>Writing products\<close>

definition assertRefActive :: "ref_kind \<Rightarrow> nat \<Rightarrow> string \<Rightarrow> cdb \<Rightarrow> api_error + unit" where
  "assertRefActive k i code d =
    need (by_id rf_id i (refs d k)) (badRequest code) (\<lambda>r.
    throw_if (rf_status r \<noteq> CAT_ACTIVE) (badRequest code) (Inr ()))"

text \<open>\<open>if (x != null) await assertRefActive(...)\<close>\<close>

definition assertRefIfGiven :: "ref_kind \<Rightarrow> nat option \<Rightarrow> string \<Rightarrow> cdb \<Rightarrow> api_error + unit" where
  "assertRefIfGiven k i code d = (case i of None \<Rightarrow> Inr () | Some x \<Rightarrow> assertRefActive k x code d)"

definition product_code_free :: "(string \<Rightarrow> string) \<Rightarrow> nat \<Rightarrow> string \<Rightarrow> nat option \<Rightarrow> cdb \<Rightarrow> bool" where
  "product_code_free lower company code except d =
    (t_first (\<lambda>p. pd_company p = company \<and> lower (pd_code p) = lower code \<and> Some (pd_id p) \<noteq> except) (products d) = None)"

definition assertCodeAvailable :: "(string \<Rightarrow> string) \<Rightarrow> nat \<Rightarrow> string \<Rightarrow> nat option \<Rightarrow> cdb \<Rightarrow> api_error + unit" where
  "assertCodeAvailable lower company code except d =
    throw_if (\<not> product_code_free lower company code except d) (conflict ''PRODUCT_CODE_TAKEN'') (Inr ())"

definition add_price ::
  "req \<Rightarrow> nat \<Rightarrow> priced \<Rightarrow> nat \<Rightarrow> int option \<Rightarrow> int option \<Rightarrow> string \<Rightarrow> price_basis option \<Rightarrow> string option \<Rightarrow>
   cat_source \<Rightarrow> cdb \<Rightarrow> cdb" where
  "add_price q user ty i old new currency basis reason src d =
    d\<lparr>prices := t_insert (\<lambda>h. \<lparr>hi_id = h, hi_type = ty, hi_entity = i, hi_old = old, hi_new = new,
       hi_currency = currency, hi_basis = basis, hi_by = user, hi_reason = reason, hi_source = src,
       hi_created_at = rq_now q\<rparr>) (prices d)\<rparr>"

lemma add_price_frame [simp]:
  "refs (add_price q u ty i old new c b r s d) = refs d" "products (add_price q u ty i old new c b r s d) = products d"
  "services (add_price q u ty i old new c b r s d) = services d"
  "injections (add_price q u ty i old new c b r s d) = injections d" "clog (add_price q u ty i old new c b r s d) = clog d"
  by (simp_all add: add_price_def)

record product_input =
  pi_code :: string
  pi_name :: string
  pi_company :: nat
  pi_category :: nat
  pi_brand :: "nat option"
  pi_unit :: "nat option"
  pi_price :: "jsnum option option"
  pi_currency :: "string option"
  pi_reason :: "string option"

definition new_product :: "req \<Rightarrow> nat \<Rightarrow> string \<Rightarrow> string \<Rightarrow> product_input \<Rightarrow> int option \<Rightarrow> string \<Rightarrow> nat \<Rightarrow> product" where
  "new_product q user code name inp price currency i =
    \<lparr>pd_id = i, pd_code = code, pd_name = name, pd_company = pi_company inp, pd_brand = pi_brand inp,
     pd_category = pi_category inp, pd_unit = pi_unit inp, pd_price = price, pd_currency = currency,
     pd_status = CAT_ACTIVE, pd_version = 1, pd_source = SRC_MANUAL, pd_source_ref = None,
     pd_created_by = user, pd_updated_by = user, pd_created_at = rq_now q, pd_updated_at = rq_now q\<rparr>"

definition jprice :: "int \<Rightarrow> json" where
  "jprice i = JNum (of_int i)"

definition product_created :: "req \<Rightarrow> auth_user \<Rightarrow> product_input \<Rightarrow> int option \<Rightarrow> cdb \<Rightarrow> cdb" where
  "product_created q a inp price d =
    (let code = normalizeName (pi_code inp); name = normalizeName (pi_name inp);
         currency = given (pi_currency inp) DEFAULT_CURRENCY; i = next_id (products d);
         d1 = d\<lparr>products := t_insert (new_product q (au_id a) code name inp price currency) (products d)\<rparr>;
         d2 = (if price \<noteq> None then add_price q (au_id a) PricedProduct i None price currency None (pi_reason inp) SRC_MANUAL d1
               else d1)
     in clog_add q (au_id a) ''PRODUCT_CREATED'' ''product'' (nat_str i) None
          (Some (JObj [(''code'', JStr code), (''name'', JStr name), (''companyId'', jnat (pi_company inp)),
             (''categoryId'', jnat (pi_category inp)), (''priceMinor'', jopt jprice price),
             (''currency'', JStr currency)])) d2)"

definition createProduct :: "(string \<Rightarrow> string) \<Rightarrow> req \<Rightarrow> auth_user \<Rightarrow> product_input \<Rightarrow> (cdb, nat) tx" where
  "createProduct lower q a inp d =
    andThen (assertPriceMinor (pi_price inp)) (\<lambda>given_price.
    andThen (assertCurrency (pi_currency inp)) (\<lambda>_.
    andThen (assertRefActive Companies (pi_company inp) ''INVALID_COMPANY'' d) (\<lambda>_.
    andThen (assertRefActive ProductCategories (pi_category inp) ''INVALID_CATEGORY'' d) (\<lambda>_.
    andThen (assertRefIfGiven Brands (pi_brand inp) ''INVALID_BRAND'' d) (\<lambda>_.
    andThen (assertRefIfGiven Units (pi_unit inp) ''INVALID_UNIT'' d) (\<lambda>_.
    andThen (assertCodeAvailable lower (pi_company inp) (normalizeName (pi_code inp)) None d) (\<lambda>_.
    Inr (next_id (products d), product_created q a inp (Option.bind given_price id) d))))))))"

record product_update =
  up_version :: nat
  up_code :: "string option"
  up_name :: "string option"
  up_company :: "nat option"
  up_category :: "nat option"
  up_brand :: "nat option option"
  up_unit :: "nat option option"
  up_price :: "jsnum option option"
  up_currency :: "string option"
  up_reason :: "string option"

text \<open>A value that is given, is not null and differs from the current one is checked.\<close>

definition newly :: "'a option option \<Rightarrow> 'a option \<Rightarrow> 'a option" where
  "newly next current = (case next of Some (Some x) \<Rightarrow> if Some x \<noteq> current then Some x else None | _ \<Rightarrow> None)"

definition product_changes :: "product_update \<Rightarrow> product \<Rightarrow> (string \<times> json) list" where
  "product_changes inp p =
     text_change ''code'' (map_option normalizeName (up_code inp)) (pd_code p)
   @ text_change ''name'' (map_option normalizeName (up_name inp)) (pd_name p)
   @ change_entry ''companyId'' jnat (map_option Some (up_company inp)) (Some (pd_company p))
   @ change_entry ''brandId'' jnat (up_brand inp) (pd_brand p)
   @ change_entry ''categoryId'' jnat (map_option Some (up_category inp)) (Some (pd_category p))
   @ change_entry ''unitId'' jnat (up_unit inp) (pd_unit p)"

definition updated_product :: "req \<Rightarrow> nat \<Rightarrow> product_update \<Rightarrow> int option \<Rightarrow> product \<Rightarrow> product" where
  "updated_product q user inp price p =
    p\<lparr>pd_code := given (map_option normalizeName (up_code inp)) (pd_code p),
      pd_name := given (map_option normalizeName (up_name inp)) (pd_name p),
      pd_company := given (up_company inp) (pd_company p), pd_brand := given (up_brand inp) (pd_brand p),
      pd_category := given (up_category inp) (pd_category p), pd_unit := given (up_unit inp) (pd_unit p),
      pd_price := price, pd_currency := given (up_currency inp) (pd_currency p),
      pd_version := Suc (pd_version p), pd_updated_by := user, pd_updated_at := rq_now q\<rparr>"

definition product_written :: "req \<Rightarrow> auth_user \<Rightarrow> nat \<Rightarrow> product_update \<Rightarrow> int option \<Rightarrow> product \<Rightarrow> cdb \<Rightarrow> cdb" where
  "product_written q a i inp nextPrice cur d =
    (let nextCurrency = given (up_currency inp) (pd_currency cur);
         priceChanged = (nextPrice \<noteq> pd_price cur \<or> nextCurrency \<noteq> pd_currency cur);
         d1 = (if priceChanged then add_price q (au_id a) PricedProduct i (pd_price cur) nextPrice nextCurrency None
                 (up_reason inp) SRC_MANUAL d else d);
         d2 = d1\<lparr>products := update_id pd_id i (updated_product q (au_id a) inp nextPrice) (products d1)\<rparr>;
         d3 = (if priceChanged then clog_add q (au_id a) ''PRODUCT_PRICE_CHANGED'' ''product'' (nat_str i)
                 (Some (JObj [(''priceMinor'', jopt jprice (pd_price cur)), (''currency'', JStr (pd_currency cur))]))
                 (Some (JObj [(''priceMinor'', jopt jprice nextPrice), (''currency'', JStr nextCurrency),
                    (''reason'', jopt JStr (up_reason inp))])) d2 else d2)
     in if product_changes inp cur = [] then d3
        else clog_add q (au_id a) ''PRODUCT_UPDATED'' ''product'' (nat_str i) None
          (Some (JObj (product_changes inp cur))) d3)"

definition updateProduct :: "(string \<Rightarrow> string) \<Rightarrow> req \<Rightarrow> auth_user \<Rightarrow> nat \<Rightarrow> product_update \<Rightarrow> (cdb, unit) tx" where
  "updateProduct lower q a i inp d =
    andThen (assertPriceMinor (up_price inp)) (\<lambda>new_price.
    andThen (assertCurrency (up_currency inp)) (\<lambda>_.
    need (by_id pd_id i (products d)) notFound (\<lambda>cur.
    throw_if (up_version inp \<noteq> pd_version cur) (conflict ''STALE_WRITE'')
    (andThen (assertRefIfGiven ProductCategories (newly (map_option Some (up_category inp)) (Some (pd_category cur)))
       ''INVALID_CATEGORY'' d) (\<lambda>_.
    andThen (assertRefIfGiven Brands (newly (up_brand inp) (pd_brand cur)) ''INVALID_BRAND'' d) (\<lambda>_.
    andThen (assertRefIfGiven Units (newly (up_unit inp) (pd_unit cur)) ''INVALID_UNIT'' d) (\<lambda>_.
    andThen (assertRefIfGiven Companies (newly (map_option Some (up_company inp)) (Some (pd_company cur)))
       ''INVALID_COMPANY'' d) (\<lambda>_.
    let nextCompany = given (up_company inp) (pd_company cur);
        nextCode = given (map_option normalizeName (up_code inp)) (pd_code cur) in
    andThen (if nextCode \<noteq> pd_code cur \<or> nextCompany \<noteq> pd_company cur
             then assertCodeAvailable lower nextCompany nextCode (Some i) d else Inr ()) (\<lambda>_.
    Inr ((), product_written q a i inp (given new_price (pd_price cur)) cur d))))))))))"

definition status_json :: "cat_status \<Rightarrow> json" where
  "status_json st = JObj [(''status'', JStr (cat_status_str st))]"

definition setProductStatus :: "req \<Rightarrow> auth_user \<Rightarrow> nat \<Rightarrow> cat_status \<Rightarrow> (cdb, unit) tx" where
  "setProductStatus q a i st d =
    need (by_id pd_id i (products d)) notFound (\<lambda>cur.
    throw_if (pd_status cur = st) (conflict ''STATUS_UNCHANGED'')
    (Inr ((), clog_add q (au_id a) (if st = CAT_ACTIVE then ''PRODUCT_REACTIVATED'' else ''PRODUCT_ARCHIVED'') ''product''
       (nat_str i) (Some (status_json (pd_status cur))) (Some (status_json st))
       (d\<lparr>products := update_id pd_id i (\<lambda>p. p\<lparr>pd_status := st, pd_version := Suc (pd_version cur),
          pd_updated_by := au_id a, pd_updated_at := rq_now q\<rparr>) (products d)\<rparr>))))"

definition deleteProduct :: "req \<Rightarrow> auth_user \<Rightarrow> nat \<Rightarrow> (cdb, nat) tx" where
  "deleteProduct q a i d =
    need (by_id pd_id i (products d)) notFound (\<lambda>cur.
    Inr (i, clog_add q (au_id a) ''PRODUCT_DELETED'' ''product'' (nat_str i)
       (Some (JObj [(''code'', JStr (pd_code cur)), (''name'', JStr (pd_name cur))])) None
       (d\<lparr>prices := t_delete (\<lambda>h. hi_type h = PricedProduct \<and> hi_entity h = i) (prices d),
          products := t_delete (\<lambda>p. pd_id p = i) (products d)\<rparr>)))"

subsection \<open>Price history\<close>

text \<open>Newest first, with the name of who changed the price (\<open>names\<close> is the users table).\<close>

definition getPriceHistory :: "(nat \<Rightarrow> string option) \<Rightarrow> priced \<Rightarrow> nat \<Rightarrow> cdb \<Rightarrow> (price_row \<times> string option) list" where
  "getPriceHistory names ty i d =
    map (\<lambda>h. (h, names (hi_by h)))
      (rev (sort_key (\<lambda>h. (hi_created_at h, hi_id h)) (t_where (\<lambda>h. hi_type h = ty \<and> hi_entity h = i) (prices d))))"

end
