(* ===== verification/Services.thy ===== *)
theory Services
  imports Catalog
begin

section \<open>Catalogue: services\<close>

text \<open>
  Models src/modules/catalog/services.service.ts: the priced services, with the same optimistic
  version and price history as products and with the price basis and tax fields that products
  do not have. Parameters as in \<open>Catalog\<close>.
\<close>

subsection \<open>Reading\<close>

definition service_joined :: "cdb \<Rightarrow> service \<Rightarrow> (service \<times> string) option" where
  "service_joined d s = map_option (\<lambda>k. (s, rf_name k)) (by_id rf_id (sv_category s) (refs d ServiceCategories))"

record service_query =
  sq_page :: nat
  sq_limit :: nat
  sq_search :: "string option"
  sq_category :: "nat option"
  sq_status :: "cat_status option"
  sq_sort :: "sort_field option"
  sq_desc :: bool

definition sort_services :: "(string \<Rightarrow> string) \<Rightarrow> sort_field option \<Rightarrow> bool \<Rightarrow> (service \<times> string) list \<Rightarrow> (service \<times> string) list" where
  "sort_services weight f desc =
    (case f of
       Some ByCode \<Rightarrow> order_rows desc (\<lambda>s. weight (sv_code (fst s)))
     | Some ByPrice \<Rightarrow> order_rows desc (\<lambda>s. null_first (sv_price (fst s)))
     | Some ByCreatedAt \<Rightarrow> order_rows desc (\<lambda>s. sv_created_at (fst s))
     | Some ByUpdatedAt \<Rightarrow> order_rows desc (\<lambda>s. sv_updated_at (fst s))
     | _ \<Rightarrow> order_rows desc (\<lambda>s. weight (sv_name (fst s))))"

definition service_listed :: "(string \<Rightarrow> string \<Rightarrow> bool) \<Rightarrow> service_query \<Rightarrow> service \<Rightarrow> bool" where
  "service_listed like qy s =
    (opt_eq (sq_status qy) (Some (sv_status s)) \<and> opt_eq (sq_category qy) (Some (sv_category s)) \<and>
     searched (sq_search qy) (\<lambda>x. like (sv_name s) (like_term x) \<or> like (sv_code s) (like_term x)))"

definition listServices ::
  "(string \<Rightarrow> string \<Rightarrow> bool) \<Rightarrow> (string \<Rightarrow> string) \<Rightarrow> service_query \<Rightarrow> cdb \<Rightarrow> (service \<times> string) list \<times> nat" where
  "listServices like weight qy d =
    (let found = List.map_filter (service_joined d) (t_where (service_listed like qy) (services d))
     in (page_of (sq_page qy) (sq_limit qy) (sort_services weight (sq_sort qy) (sq_desc qy) found), length found))"

definition getService :: "nat \<Rightarrow> cdb \<Rightarrow> api_error + service \<times> string" where
  "getService i d = need (Option.bind (by_id sv_id i (services d)) (service_joined d)) notFound Inr"

subsection \<open>Writing\<close>

definition assertCategoryActive :: "nat \<Rightarrow> cdb \<Rightarrow> api_error + unit" where
  "assertCategoryActive i d = assertRefActive ServiceCategories i ''INVALID_CATEGORY'' d"

definition service_code_free :: "(string \<Rightarrow> string) \<Rightarrow> string \<Rightarrow> nat option \<Rightarrow> cdb \<Rightarrow> bool" where
  "service_code_free lower code except d =
    (t_first (\<lambda>s. lower (sv_code s) = lower code \<and> Some (sv_id s) \<noteq> except) (services d) = None)"

definition assertServiceCodeAvailable :: "(string \<Rightarrow> string) \<Rightarrow> string \<Rightarrow> nat option \<Rightarrow> cdb \<Rightarrow> api_error + unit" where
  "assertServiceCodeAvailable lower code except d =
    throw_if (\<not> service_code_free lower code except d) (conflict ''SERVICE_CODE_TAKEN'') (Inr ())"

fun basis_str :: "price_basis \<Rightarrow> string" where
  "basis_str NET = ''NET''"
| "basis_str GROSS = ''GROSS''"
| "basis_str UNKNOWN_BASIS = ''UNKNOWN''"

record service_input =
  si_code :: string
  si_name :: string
  si_category :: nat
  si_duration :: "nat option"
  si_price :: "jsnum option option"
  si_currency :: "string option"
  si_basis :: "price_basis option"
  si_tax_bp :: "nat option"
  si_inclusive :: "jsnum option option"
  si_reason :: "string option"

definition new_service ::
  "req \<Rightarrow> nat \<Rightarrow> string \<Rightarrow> string \<Rightarrow> service_input \<Rightarrow> int option \<Rightarrow> int option \<Rightarrow> string \<Rightarrow> price_basis \<Rightarrow> nat \<Rightarrow> service" where
  "new_service q user code name inp price inclusive currency basis i =
    \<lparr>sv_id = i, sv_code = code, sv_name = name, sv_category = si_category inp, sv_duration = si_duration inp,
     sv_price = price, sv_currency = currency, sv_basis = basis, sv_tax_bp = si_tax_bp inp,
     sv_inclusive = inclusive, sv_status = CAT_ACTIVE, sv_version = 1, sv_source = SRC_MANUAL,
     sv_source_ref = None, sv_created_by = user, sv_updated_by = user, sv_created_at = rq_now q,
     sv_updated_at = rq_now q\<rparr>"

definition service_created :: "req \<Rightarrow> auth_user \<Rightarrow> service_input \<Rightarrow> int option \<Rightarrow> int option \<Rightarrow> cdb \<Rightarrow> cdb" where
  "service_created q a inp price inclusive d =
    (let code = normalizeName (si_code inp); name = normalizeName (si_name inp);
         currency = given (si_currency inp) DEFAULT_CURRENCY; basis = given (si_basis inp) UNKNOWN_BASIS;
         i = next_id (services d);
         d1 = d\<lparr>services := t_insert (new_service q (au_id a) code name inp price inclusive currency basis) (services d)\<rparr>;
         d2 = (if price \<noteq> None then add_price q (au_id a) PricedService i None price currency (Some basis) (si_reason inp)
                 SRC_MANUAL d1 else d1)
     in clog_add q (au_id a) ''SERVICE_CREATED'' ''service'' (nat_str i) None
          (Some (JObj [(''code'', JStr code), (''name'', JStr name), (''categoryId'', jnat (si_category inp)),
             (''priceMinor'', jopt jprice price), (''currency'', JStr currency),
             (''priceBasis'', JStr (basis_str basis))])) d2)"

definition createService :: "(string \<Rightarrow> string) \<Rightarrow> req \<Rightarrow> auth_user \<Rightarrow> service_input \<Rightarrow> (cdb, nat) tx" where
  "createService lower q a inp d =
    andThen (assertPriceMinor (si_price inp)) (\<lambda>given_price.
    andThen (assertPriceMinor (si_inclusive inp)) (\<lambda>given_inclusive.
    andThen (assertCurrency (si_currency inp)) (\<lambda>_.
    andThen (assertCategoryActive (si_category inp) d) (\<lambda>_.
    andThen (assertServiceCodeAvailable lower (normalizeName (si_code inp)) None d) (\<lambda>_.
    Inr (next_id (services d), service_created q a inp (Option.bind given_price id) (Option.bind given_inclusive id) d))))))"

record service_update =
  us_version :: nat
  us_code :: "string option"
  us_name :: "string option"
  us_category :: "nat option"
  us_duration :: "nat option option"
  us_tax_bp :: "nat option option"
  us_inclusive :: "jsnum option option"
  us_basis :: "price_basis option"
  us_price :: "jsnum option option"
  us_currency :: "string option"
  us_reason :: "string option"

definition service_changes :: "service_update \<Rightarrow> int option option \<Rightarrow> service \<Rightarrow> (string \<times> json) list" where
  "service_changes inp inclusive s =
     text_change ''code'' (map_option normalizeName (us_code inp)) (sv_code s)
   @ text_change ''name'' (map_option normalizeName (us_name inp)) (sv_name s)
   @ change_entry ''categoryId'' jnat (map_option Some (us_category inp)) (Some (sv_category s))
   @ change_entry ''durationMinutes'' jnat (us_duration inp) (sv_duration s)
   @ change_entry ''taxRateBp'' jnat (us_tax_bp inp) (sv_tax_bp s)
   @ change_entry ''priceInclusiveMinor'' jprice inclusive (sv_inclusive s)
   @ text_change ''priceBasis'' (map_option basis_str (us_basis inp)) (basis_str (sv_basis s))"

definition updated_service :: "req \<Rightarrow> nat \<Rightarrow> service_update \<Rightarrow> int option \<Rightarrow> int option option \<Rightarrow> service \<Rightarrow> service" where
  "updated_service q user inp price inclusive s =
    s\<lparr>sv_code := given (map_option normalizeName (us_code inp)) (sv_code s),
      sv_name := given (map_option normalizeName (us_name inp)) (sv_name s),
      sv_category := given (us_category inp) (sv_category s), sv_duration := given (us_duration inp) (sv_duration s),
      sv_tax_bp := given (us_tax_bp inp) (sv_tax_bp s), sv_inclusive := given inclusive (sv_inclusive s),
      sv_basis := given (us_basis inp) (sv_basis s), sv_price := price,
      sv_currency := given (us_currency inp) (sv_currency s), sv_version := Suc (sv_version s),
      sv_updated_by := user, sv_updated_at := rq_now q\<rparr>"

definition service_written ::
  "req \<Rightarrow> auth_user \<Rightarrow> nat \<Rightarrow> service_update \<Rightarrow> int option \<Rightarrow> int option option \<Rightarrow> service \<Rightarrow> cdb \<Rightarrow> cdb" where
  "service_written q a i inp nextPrice inclusive cur d =
    (let nextBasis = given (us_basis inp) (sv_basis cur);
         nextCurrency = given (us_currency inp) (sv_currency cur);
         priceChanged = (nextPrice \<noteq> sv_price cur \<or> nextCurrency \<noteq> sv_currency cur);
         changes = service_changes inp inclusive cur;
         d1 = (if priceChanged then add_price q (au_id a) PricedService i (sv_price cur) nextPrice nextCurrency
                 (Some nextBasis) (us_reason inp) SRC_MANUAL d else d);
         d2 = d1\<lparr>services := update_id sv_id i (updated_service q (au_id a) inp nextPrice inclusive) (services d1)\<rparr>;
         d3 = (if priceChanged then clog_add q (au_id a) ''SERVICE_PRICE_CHANGED'' ''service'' (nat_str i)
                 (Some (JObj [(''priceMinor'', jopt jprice (sv_price cur)), (''currency'', JStr (sv_currency cur))]))
                 (Some (JObj [(''priceMinor'', jopt jprice nextPrice), (''currency'', JStr nextCurrency),
                    (''priceBasis'', JStr (basis_str nextBasis)), (''reason'', jopt JStr (us_reason inp))])) d2 else d2)
     in if changes = [] then d3
        else clog_add q (au_id a) ''SERVICE_UPDATED'' ''service'' (nat_str i) None (Some (JObj changes)) d3)"

definition updateService :: "(string \<Rightarrow> string) \<Rightarrow> req \<Rightarrow> auth_user \<Rightarrow> nat \<Rightarrow> service_update \<Rightarrow> (cdb, unit) tx" where
  "updateService lower q a i inp d =
    andThen (assertPriceMinor (us_price inp)) (\<lambda>new_price.
    andThen (assertPriceMinor (us_inclusive inp)) (\<lambda>new_inclusive.
    andThen (assertCurrency (us_currency inp)) (\<lambda>_.
    need (by_id sv_id i (services d)) notFound (\<lambda>cur.
    throw_if (us_version inp \<noteq> sv_version cur) (conflict ''STALE_WRITE'')
    (andThen (case newly (map_option Some (us_category inp)) (Some (sv_category cur)) of
                None \<Rightarrow> Inr () | Some c \<Rightarrow> assertCategoryActive c d) (\<lambda>_.
    let nextCode = given (map_option normalizeName (us_code inp)) (sv_code cur) in
    andThen (if nextCode \<noteq> sv_code cur then assertServiceCodeAvailable lower nextCode (Some i) d else Inr ()) (\<lambda>_.
    Inr ((), service_written q a i inp (given new_price (sv_price cur)) new_inclusive cur d))))))))"

definition setServiceStatus :: "req \<Rightarrow> auth_user \<Rightarrow> nat \<Rightarrow> cat_status \<Rightarrow> (cdb, unit) tx" where
  "setServiceStatus q a i st d =
    need (by_id sv_id i (services d)) notFound (\<lambda>cur.
    throw_if (sv_status cur = st) (conflict ''STATUS_UNCHANGED'')
    (Inr ((), clog_add q (au_id a) (if st = CAT_ACTIVE then ''SERVICE_REACTIVATED'' else ''SERVICE_ARCHIVED'') ''service''
       (nat_str i) (Some (status_json (sv_status cur))) (Some (status_json st))
       (d\<lparr>services := update_id sv_id i (\<lambda>s. s\<lparr>sv_status := st, sv_version := Suc (sv_version cur),
          sv_updated_by := au_id a, sv_updated_at := rq_now q\<rparr>) (services d)\<rparr>))))"

definition deleteService :: "req \<Rightarrow> auth_user \<Rightarrow> nat \<Rightarrow> (cdb, nat) tx" where
  "deleteService q a i d =
    need (by_id sv_id i (services d)) notFound (\<lambda>cur.
    Inr (i, clog_add q (au_id a) ''SERVICE_DELETED'' ''service'' (nat_str i)
       (Some (JObj [(''code'', JStr (sv_code cur)), (''name'', JStr (sv_name cur))])) None
       (d\<lparr>prices := t_delete (\<lambda>h. hi_type h = PricedService \<and> hi_entity h = i) (prices d),
          services := t_delete (\<lambda>s. sv_id s = i) (services d)\<rparr>)))"

end
