(* ===== verification/Reference.thy ===== *)
theory Reference
  imports Catalog
begin

section \<open>Reference data\<close>

text \<open>
  Models src/modules/reference: reference.service.ts with its registry reference.config.ts
  (companies, brands, categories, units) and injection.service.ts. Parameters as in \<open>Catalog\<close>.
\<close>

subsection \<open>The registry\<close>

record kind_config =
  kc_entityType :: string
  kc_hasCode :: bool

fun REFERENCE_KINDS :: "ref_kind \<Rightarrow> kind_config" where
  "REFERENCE_KINDS Companies = \<lparr>kc_entityType = ''catalog_company'', kc_hasCode = False\<rparr>"
| "REFERENCE_KINDS Brands = \<lparr>kc_entityType = ''catalog_brand'', kc_hasCode = False\<rparr>"
| "REFERENCE_KINDS ProductCategories = \<lparr>kc_entityType = ''product_category'', kc_hasCode = False\<rparr>"
| "REFERENCE_KINDS ServiceCategories = \<lparr>kc_entityType = ''service_category'', kc_hasCode = False\<rparr>"
| "REFERENCE_KINDS Units = \<lparr>kc_entityType = ''catalog_unit'', kc_hasCode = True\<rparr>"

definition hasCode :: "ref_kind \<Rightarrow> bool" where
  "hasCode k = kc_hasCode (REFERENCE_KINDS k)"

text \<open>The rows that point at a value: every kind is referenced by one column of one table.\<close>

fun countInUse :: "ref_kind \<Rightarrow> nat \<Rightarrow> cdb \<Rightarrow> nat" where
  "countInUse Companies i d = t_count (\<lambda>p. pd_company p = i) (products d)"
| "countInUse Brands i d = t_count (\<lambda>p. pd_brand p = Some i) (products d)"
| "countInUse ProductCategories i d = t_count (\<lambda>p. pd_category p = i) (products d)"
| "countInUse ServiceCategories i d = t_count (\<lambda>s. sv_category s = i) (services d)"
| "countInUse Units i d = t_count (\<lambda>p. pd_unit p = Some i) (products d)"

subsection \<open>Reading\<close>

record ref_detail =
  rd_row :: ref_row
  rd_inUse :: nat
  rd_deletable :: bool

definition toRefDetail :: "ref_kind \<Rightarrow> cdb \<Rightarrow> ref_row \<Rightarrow> ref_detail" where
  "toRefDetail k d r =
    \<lparr>rd_row = r, rd_inUse = countInUse k (rf_id r) d, rd_deletable = (countInUse k (rf_id r) d = 0)\<rparr>"

record ref_query =
  rq_page :: nat
  rq_limit :: nat
  rq_search :: "string option"
  rq_status :: "cat_status option"

definition ref_listed :: "(string \<Rightarrow> string \<Rightarrow> bool) \<Rightarrow> ref_kind \<Rightarrow> ref_query \<Rightarrow> ref_row \<Rightarrow> bool" where
  "ref_listed like k qy r =
    (opt_eq (rq_status qy) (Some (rf_status r)) \<and>
     searched (rq_search qy) (\<lambda>s. like (rf_name r) (like_term s) \<or>
       (hasCode k \<and> (case rf_code r of None \<Rightarrow> False | Some c \<Rightarrow> like c (like_term s)))))"

text \<open>The column that is unique and orders the list: the code of a unit, the name of anything else.\<close>

definition ref_label :: "ref_kind \<Rightarrow> ref_row \<Rightarrow> string" where
  "ref_label k r = (if hasCode k then given (rf_code r) [] else rf_name r)"

definition listReference ::
  "(string \<Rightarrow> string \<Rightarrow> bool) \<Rightarrow> (string \<Rightarrow> string) \<Rightarrow> ref_kind \<Rightarrow> ref_query \<Rightarrow> cdb \<Rightarrow> ref_detail list \<times> nat" where
  "listReference like weight k qy d =
    (let found = t_where (ref_listed like k qy) (refs d k)
     in (map (toRefDetail k d) (page_of (rq_page qy) (rq_limit qy) (sort_key (\<lambda>r. weight (ref_label k r)) found)),
         length found))"

definition getReference :: "ref_kind \<Rightarrow> nat \<Rightarrow> cdb \<Rightarrow> api_error + ref_detail" where
  "getReference k i d = need (by_id rf_id i (refs d k)) notFound (\<lambda>r. Inr (toRefDetail k d r))"

subsection \<open>Writing\<close>

definition put_ref :: "ref_kind \<Rightarrow> (ref_row tbl \<Rightarrow> ref_row tbl) \<Rightarrow> cdb \<Rightarrow> cdb" where
  "put_ref k f d = d\<lparr>refs := (refs d)(k := f (refs d k))\<rparr>"

lemma put_ref_frame [simp]:
  "products (put_ref k f d) = products d" "services (put_ref k f d) = services d" "prices (put_ref k f d) = prices d"
  "injections (put_ref k f d) = injections d" "clog (put_ref k f d) = clog d"
  "refs (put_ref k f d) k' = (if k' = k then f (refs d k) else refs d k')"
  by (simp_all add: put_ref_def)

definition ref_free :: "(string \<Rightarrow> string) \<Rightarrow> ref_kind \<Rightarrow> string \<Rightarrow> nat option \<Rightarrow> cdb \<Rightarrow> bool" where
  "ref_free lower k v except d =
    (t_first (\<lambda>r. lower (ref_label k r) = lower v \<and> Some (rf_id r) \<noteq> except) (refs d k) = None)"

definition assertUnique :: "(string \<Rightarrow> string) \<Rightarrow> ref_kind \<Rightarrow> string \<Rightarrow> nat option \<Rightarrow> cdb \<Rightarrow> api_error + unit" where
  "assertUnique lower k v except d =
    throw_if (\<not> ref_free lower k v except d) (conflict ''REFERENCE_DUPLICATE'') (Inr ())"

definition new_ref :: "req \<Rightarrow> string \<Rightarrow> string option \<Rightarrow> nat \<Rightarrow> ref_row" where
  "new_ref q name code i =
    \<lparr>rf_id = i, rf_name = name, rf_code = code, rf_status = CAT_ACTIVE, rf_created_at = rq_now q,
     rf_updated_at = rq_now q\<rparr>"

definition ref_json :: "ref_kind \<Rightarrow> string option \<Rightarrow> string \<Rightarrow> json" where
  "ref_json k code name =
    JObj (if hasCode k then [(''code'', jopt JStr code), (''name'', JStr name)] else [(''name'', JStr name)])"

definition createReference ::
  "(string \<Rightarrow> string) \<Rightarrow> req \<Rightarrow> auth_user \<Rightarrow> ref_kind \<Rightarrow> string \<Rightarrow> string option \<Rightarrow> (cdb, nat) tx" where
  "createReference lower q a k name0 code0 d =
    (let name = normalizeName name0; code = map_option normalizeName code0 in
     throw_if (hasCode k \<and> (code = None \<or> code = Some [])) (badRequest ''CODE_REQUIRED'')
     (andThen (assertUnique lower k (if hasCode k then given code [] else name) None d) (\<lambda>_.
      let i = next_id (refs d k) in
      Inr (i, clog_add q (au_id a) ''CATALOG_REFERENCE_CREATED'' (kc_entityType (REFERENCE_KINDS k)) (nat_str i) None
        (Some (ref_json k code name))
        (put_ref k (t_insert (new_ref q name (if hasCode k then code else None))) d)))))"

definition reference_written ::
  "req \<Rightarrow> auth_user \<Rightarrow> ref_kind \<Rightarrow> nat \<Rightarrow> string \<Rightarrow> string option \<Rightarrow> (string \<times> json) list \<Rightarrow> cdb \<Rightarrow> cdb" where
  "reference_written q a k i name code changes d =
    clog_add q (au_id a) ''CATALOG_REFERENCE_UPDATED'' (kc_entityType (REFERENCE_KINDS k)) (nat_str i) None
      (Some (JObj changes))
      (put_ref k (update_id rf_id i (\<lambda>r. r\<lparr>rf_name := name, rf_code := code, rf_updated_at := rq_now q\<rparr>)) d)"

definition updateReference ::
  "(string \<Rightarrow> string) \<Rightarrow> req \<Rightarrow> auth_user \<Rightarrow> ref_kind \<Rightarrow> nat \<Rightarrow> string option \<Rightarrow> string option \<Rightarrow> (cdb, unit) tx" where
  "updateReference lower q a k i name0 code0 d =
    need (by_id rf_id i (refs d k)) notFound (\<lambda>cur.
    let name = given (map_option normalizeName name0) (rf_name cur);
        code = (if hasCode k then given (map_option (Some \<circ> normalizeName) code0) (rf_code cur) else rf_code cur);
        changes = text_change ''name'' (map_option normalizeName name0) (rf_name cur)
          @ (if hasCode k then change_entry ''code'' JStr (map_option (Some \<circ> normalizeName) code0) (rf_code cur) else [])
    in andThen (if name \<noteq> rf_name cur \<and> \<not> hasCode k then assertUnique lower k name (Some i) d else Inr ()) (\<lambda>_.
       andThen (if code \<noteq> rf_code cur then assertUnique lower k (given code []) (Some i) d else Inr ()) (\<lambda>_.
       if changes = [] then Inr ((), d)
       else Inr ((), reference_written q a k i name code changes d))))"

definition ref_status_action :: "cat_status \<Rightarrow> string" where
  "ref_status_action st =
    (if st = CAT_ACTIVE then ''CATALOG_REFERENCE_REACTIVATED'' else ''CATALOG_REFERENCE_ARCHIVED'')"

definition setReferenceStatus :: "req \<Rightarrow> auth_user \<Rightarrow> ref_kind \<Rightarrow> nat \<Rightarrow> cat_status \<Rightarrow> (cdb, unit) tx" where
  "setReferenceStatus q a k i st d =
    need (by_id rf_id i (refs d k)) notFound (\<lambda>cur.
    throw_if (rf_status cur = st) (conflict ''STATUS_UNCHANGED'')
    (Inr ((), clog_add q (au_id a) (ref_status_action st) (kc_entityType (REFERENCE_KINDS k)) (nat_str i)
       (Some (status_json (rf_status cur))) (Some (status_json st))
       (put_ref k (update_id rf_id i (\<lambda>r. r\<lparr>rf_status := st, rf_updated_at := rq_now q\<rparr>)) d))))"

definition deleteReference :: "req \<Rightarrow> auth_user \<Rightarrow> ref_kind \<Rightarrow> nat \<Rightarrow> (cdb, nat) tx" where
  "deleteReference q a k i d =
    need (by_id rf_id i (refs d k)) notFound (\<lambda>cur.
    throw_if (countInUse k i d > 0) (conflict ''REFERENCE_IN_USE'')
    (Inr (i, clog_add q (au_id a) ''CATALOG_REFERENCE_DELETED'' (kc_entityType (REFERENCE_KINDS k)) (nat_str i)
       (Some (ref_json k (rf_code cur) (rf_name cur))) None
       (put_ref k (t_delete (\<lambda>r. rf_id r = i)) d))))"

subsection \<open>Injection values\<close>

fun tech_str :: "injection_tech \<Rightarrow> string" where
  "tech_str PORT_MULTIPOINT = ''PORT_MULTIPOINT''"
| "tech_str DIRECT = ''DIRECT''"
| "tech_str UNKNOWN_TECH = ''UNKNOWN''"

fun forced_str :: "forced_induction \<Rightarrow> string" where
  "forced_str NO_INDUCTION = ''NONE''"
| "forced_str TURBO = ''TURBO''"
| "forced_str SUPERCHARGED = ''SUPERCHARGED''"
| "forced_str UNKNOWN_INDUCTION = ''UNKNOWN''"

definition designation_free :: "(string \<Rightarrow> string) \<Rightarrow> string \<Rightarrow> nat option \<Rightarrow> cdb \<Rightarrow> bool" where
  "designation_free lower v except d =
    (t_first (\<lambda>r. lower (ij_designation r) = lower v \<and> Some (ij_id r) \<noteq> except) (injections d) = None)"

definition assertDesignationAvailable :: "(string \<Rightarrow> string) \<Rightarrow> string \<Rightarrow> nat option \<Rightarrow> cdb \<Rightarrow> api_error + unit" where
  "assertDesignationAvailable lower v except d =
    throw_if (\<not> designation_free lower v except d) (conflict ''REFERENCE_DUPLICATE'') (Inr ())"

record injection_query =
  jq_page :: nat
  jq_limit :: nat
  jq_search :: "string option"
  jq_status :: "cat_status option"
  jq_tech :: "injection_tech option"

definition injection_listed :: "(string \<Rightarrow> string \<Rightarrow> bool) \<Rightarrow> injection_query \<Rightarrow> injection_row \<Rightarrow> bool" where
  "injection_listed like qy r =
    (opt_eq (jq_status qy) (Some (ij_status r)) \<and> opt_eq (jq_tech qy) (Some (ij_tech r)) \<and>
     searched (jq_search qy) (\<lambda>s. like (ij_designation r) (like_term s) \<or>
       (case ij_description r of None \<Rightarrow> False | Some t \<Rightarrow> like t (like_term s))))"

definition listInjection ::
  "(string \<Rightarrow> string \<Rightarrow> bool) \<Rightarrow> (string \<Rightarrow> string) \<Rightarrow> injection_query \<Rightarrow> cdb \<Rightarrow> injection_row list \<times> nat" where
  "listInjection like weight qy d =
    (let found = t_where (injection_listed like qy) (injections d)
     in (page_of (jq_page qy) (jq_limit qy) (sort_key (\<lambda>r. weight (ij_designation r)) found), length found))"

definition getInjection :: "nat \<Rightarrow> cdb \<Rightarrow> api_error + injection_row" where
  "getInjection i d = need (by_id ij_id i (injections d)) notFound Inr"

record injection_input =
  ii_designation :: string
  ii_tech :: "injection_tech option"
  ii_forced :: "forced_induction option"
  ii_description :: "string option"

definition createInjection :: "(string \<Rightarrow> string) \<Rightarrow> req \<Rightarrow> auth_user \<Rightarrow> injection_input \<Rightarrow> (cdb, nat) tx" where
  "createInjection lower q a inp d =
    (let v = normalizeName (ii_designation inp); tech = given (ii_tech inp) UNKNOWN_TECH;
         forced = given (ii_forced inp) UNKNOWN_INDUCTION in
     andThen (assertDesignationAvailable lower v None d) (\<lambda>_.
     let i = next_id (injections d) in
     Inr (i, clog_add q (au_id a) ''CATALOG_REFERENCE_CREATED'' ''injection_reference'' (nat_str i) None
       (Some (JObj [(''designation'', JStr v), (''technology'', JStr (tech_str tech)),
          (''forcedInduction'', JStr (forced_str forced))]))
       (d\<lparr>injections := t_insert (\<lambda>i. \<lparr>ij_id = i, ij_designation = v, ij_tech = tech, ij_forced = forced,
          ij_description = ii_description inp, ij_status = CAT_ACTIVE, ij_created_at = rq_now q,
          ij_updated_at = rq_now q\<rparr>) (injections d)\<rparr>))))"

record injection_update =
  uj_designation :: "string option"
  uj_tech :: "injection_tech option"
  uj_forced :: "forced_induction option"
  uj_description :: "string option option"

definition injection_changes :: "injection_update \<Rightarrow> injection_row \<Rightarrow> (string \<times> json) list" where
  "injection_changes inp r =
     text_change ''designation'' (map_option normalizeName (uj_designation inp)) (ij_designation r)
   @ text_change ''technology'' (map_option tech_str (uj_tech inp)) (tech_str (ij_tech r))
   @ text_change ''forcedInduction'' (map_option forced_str (uj_forced inp)) (forced_str (ij_forced r))
   @ change_entry ''description'' JStr (uj_description inp) (ij_description r)"

definition updateInjection :: "(string \<Rightarrow> string) \<Rightarrow> req \<Rightarrow> auth_user \<Rightarrow> nat \<Rightarrow> injection_update \<Rightarrow> (cdb, unit) tx" where
  "updateInjection lower q a i inp d =
    need (by_id ij_id i (injections d)) notFound (\<lambda>cur.
    let v = given (map_option normalizeName (uj_designation inp)) (ij_designation cur) in
    andThen (if v \<noteq> ij_designation cur then assertDesignationAvailable lower v (Some i) d else Inr ()) (\<lambda>_.
    if injection_changes inp cur = [] then Inr ((), d)
    else Inr ((), clog_add q (au_id a) ''CATALOG_REFERENCE_UPDATED'' ''injection_reference'' (nat_str i) None
      (Some (JObj (injection_changes inp cur)))
      (d\<lparr>injections := update_id ij_id i (\<lambda>r. r\<lparr>ij_designation := v, ij_tech := given (uj_tech inp) (ij_tech r),
         ij_forced := given (uj_forced inp) (ij_forced r),
         ij_description := given (uj_description inp) (ij_description r), ij_updated_at := rq_now q\<rparr>) (injections d)\<rparr>))))"

definition setInjectionStatus :: "req \<Rightarrow> auth_user \<Rightarrow> nat \<Rightarrow> cat_status \<Rightarrow> (cdb, unit) tx" where
  "setInjectionStatus q a i st d =
    need (by_id ij_id i (injections d)) notFound (\<lambda>cur.
    throw_if (ij_status cur = st) (conflict ''STATUS_UNCHANGED'')
    (Inr ((), clog_add q (au_id a) (ref_status_action st) ''injection_reference'' (nat_str i)
       (Some (status_json (ij_status cur))) (Some (status_json st))
       (d\<lparr>injections := update_id ij_id i (\<lambda>r. r\<lparr>ij_status := st, ij_updated_at := rq_now q\<rparr>) (injections d)\<rparr>))))"

definition deleteInjection :: "req \<Rightarrow> auth_user \<Rightarrow> nat \<Rightarrow> (cdb, nat) tx" where
  "deleteInjection q a i d =
    need (by_id ij_id i (injections d)) notFound (\<lambda>cur.
    Inr (i, clog_add q (au_id a) ''CATALOG_REFERENCE_DELETED'' ''injection_reference'' (nat_str i)
      (Some (JObj [(''designation'', JStr (ij_designation cur))])) None
      (d\<lparr>injections := t_delete (\<lambda>r. ij_id r = i) (injections d)\<rparr>)))"

end
