(* ===== verification/CatalogImport.thy ===== *)
theory CatalogImport
  imports Services Reference Canonical
begin

section \<open>Catalogue import\<close>

text \<open>
  Models src/modules/catalog/import: import-target.ts (which database an import may write) and
  import.service.ts (planning and applying an insert-only import). A raw record of the source
  is the list of its members, with no name twice; doubles are read as exact rationals. Not
  modelled: the regular expressions that cut the two array literals out of the HTML prototype
  (\<open>extractObjects\<close>); what \<open>parseHtmlSource\<close> makes of the extracted objects is.

  Parameters: \<open>key\<close> is \<open>toLocaleLowerCase('uz-UZ')\<close>; \<open>lower\<close> as in \<open>Catalog\<close>. The length limits of
  the columns are not modelled.
\<close>

subsection \<open>The target of an import\<close>

datatype import_mode = DRY_RUN | TEST_APPLY | LOCAL_APPLY

record target_decision =
  td_ok :: bool
  td_mode :: import_mode

record import_flags =
  if_apply :: bool
  if_localApply :: bool
  if_confirmDb :: "string option"

record db_env =
  de_name :: string
  de_host :: string
  de_nodeEnv :: string

definition lower_char :: "char \<Rightarrow> char" where
  "lower_char c = (if is_upper c then char_of (of_char c + 32 :: nat) else c)"

definition isLocalHost :: "string \<Rightarrow> bool" where
  "isLocalHost host = (map lower_char host \<in> {''127.0.0.1'', ''localhost'', ''::1''})"

definition ends_with :: "string \<Rightarrow> string \<Rightarrow> bool" where
  "ends_with suf s = suffix suf s"

definition refused_target :: target_decision where
  "refused_target = \<lparr>td_ok = False, td_mode = DRY_RUN\<rparr>"

definition resolveImportTarget :: "import_flags \<Rightarrow> db_env \<Rightarrow> target_decision" where
  "resolveImportTarget fl e =
    (let isTestDb = ends_with ''_test'' (de_name e); isProd = (de_nodeEnv e = ''production'') in
     if if_apply fl \<and> if_localApply fl then refused_target
     else if (if_apply fl \<or> if_localApply fl) \<and> isProd then refused_target
     else if if_apply fl then
       (if \<not> isTestDb then refused_target else \<lparr>td_ok = True, td_mode = TEST_APPLY\<rparr>)
     else if if_localApply fl then
       (if \<not> isLocalHost (de_host e) then refused_target
        else if isTestDb then refused_target
        else if if_confirmDb fl = None \<or> if_confirmDb fl = Some [] then refused_target
        else if if_confirmDb fl \<noteq> Some (de_name e) then refused_target
        else \<lparr>td_ok = True, td_mode = LOCAL_APPLY\<rparr>)
     else \<lparr>td_ok = True, td_mode = DRY_RUN\<rparr>)"

subsection \<open>Numbers in strings\<close>

text \<open>\<open>Number(s)\<close>: white space around, the empty string is 0, decimal and prefixed literals.\<close>

definition digit_of :: "char \<Rightarrow> nat" where
  "digit_of c = (let n = (of_char c :: nat) in
     if 48 \<le> n \<and> n \<le> 57 then n - 48 else if 97 \<le> n \<and> n \<le> 102 then n - 87
     else if 65 \<le> n \<and> n \<le> 70 then n - 55 else 99)"

definition radix_number :: "nat \<Rightarrow> string \<Rightarrow> jsnum" where
  "radix_number b s =
    (if s \<noteq> [] \<and> list_all (\<lambda>c. digit_of c < b) s
     then Fin (of_nat (fold (\<lambda>c n. n * b + digit_of c) s 0)) else NaN)"

definition split_sign :: "string \<Rightarrow> bool \<times> string" where
  "split_sign s = (case s of c # cs \<Rightarrow> if c = CHR ''-'' then (True, cs) else if c = CHR ''+'' then (False, cs) else (False, s)
     | [] \<Rightarrow> (False, []))"

definition decimal_exponent :: "string \<Rightarrow> int option" where
  "decimal_exponent s =
    (case s of
       [] \<Rightarrow> Some 0
     | c # cs \<Rightarrow>
         if c \<in> {CHR ''e'', CHR ''E''} then
           (let (neg, ds) = split_sign cs in
            if ds \<noteq> [] \<and> list_all is_digit ds then Some (if neg then - int (digits_val ds) else int (digits_val ds)) else None)
         else None)"

definition scaled :: "rat \<Rightarrow> int \<Rightarrow> rat" where
  "scaled m e = (if e \<ge> 0 then m * 10 ^ nat e else m / 10 ^ nat (- e))"

definition decimal_number :: "string \<Rightarrow> jsnum" where
  "decimal_number s =
    (let (neg, t) = split_sign s; sgn = (if neg then -1 else 1 :: rat) in
     if t = ''Infinity'' then (if neg then NegInf else PosInf)
     else
       (let a = takeWhile is_digit t; t1 = dropWhile is_digit t;
            (b, t2) = (case t1 of c # cs \<Rightarrow> if c = CHR ''.'' then (takeWhile is_digit cs, dropWhile is_digit cs) else ([], t1)
                       | [] \<Rightarrow> ([], [])) in
        if a = [] \<and> b = [] then NaN
        else (case decimal_exponent t2 of
                None \<Rightarrow> NaN
              | Some e \<Rightarrow> Fin (sgn * scaled (of_nat (digits_val (a @ b))) (e - int (length b))))))"

definition js_number :: "string \<Rightarrow> jsnum" where
  "js_number s =
    (let t = trim s in
     if t = [] then Fin 0
     else if take 2 t \<in> {''0x'', ''0X''} then radix_number 16 (drop 2 t)
     else if take 2 t \<in> {''0o'', ''0O''} then radix_number 8 (drop 2 t)
     else if take 2 t \<in> {''0b'', ''0B''} then radix_number 2 (drop 2 t)
     else decimal_number t)"

subsection \<open>The source\<close>

type_synonym raw = "(string \<times> json) list"

record raw_source =
  rs_products :: "raw list"
  rs_services :: "raw list"

definition asString :: "json option \<Rightarrow> string option" where
  "asString v =
    (case v of Some (JStr s) \<Rightarrow> Some (normalizeName s) | Some (JNum q) \<Rightarrow> Some (num_str q) | _ \<Rightarrow> None)"

text \<open>\<open>Inl ()\<close> is \<open>'invalid'\<close>.\<close>

definition valid_price :: "jsnum \<Rightarrow> unit + int option" where
  "valid_price v = (case price_of v of None \<Rightarrow> Inl () | Some i \<Rightarrow> Inr (Some i))"

definition asPrice :: "json option \<Rightarrow> unit + int option" where
  "asPrice v =
    (case v of
       None \<Rightarrow> Inr None
     | Some JNull \<Rightarrow> Inr None
     | Some (JStr s) \<Rightarrow> if s = [] then Inr None else valid_price (js_number s)
     | Some (JNum q) \<Rightarrow> valid_price (Fin q)
     | _ \<Rightarrow> Inl ())"

text \<open>A non-negative integer, or null.\<close>

definition asCount :: "json option \<Rightarrow> nat option" where
  "asCount v = (case v of Some (JNum q) \<Rightarrow> if of_int \<lfloor>q\<rfloor> = q \<and> q \<ge> 0 then Some (nat \<lfloor>q\<rfloor>) else None | _ \<Rightarrow> None)"

text \<open>\<open>!s\<close> of a string or null.\<close>

definition missing :: "string option \<Rightarrow> bool" where
  "missing s = (s = None \<or> s = Some [])"

text \<open>What \<open>parseHtmlSource\<close> makes of the objects of PARTS and LABOR.\<close>

definition PROTOTYPE_SERVICE_VAT_BP :: nat where
  "PROTOTYPE_SERVICE_VAT_BP = 1200"

definition html_str :: "string \<Rightarrow> raw \<Rightarrow> string \<Rightarrow> raw" where
  "html_str k r src = (case map_of r src of
     Some (JStr s) \<Rightarrow> [(k, JStr s)] | Some (JNum q) \<Rightarrow> [(k, JStr (num_str q))] | _ \<Rightarrow> [])"

definition html_num :: "raw \<Rightarrow> string \<Rightarrow> rat option" where
  "html_num r src = (case map_of r src of
     Some (JNum q) \<Rightarrow> Some q
   | Some (JStr s) \<Rightarrow> if s = [] then None else (case js_number s of Fin q \<Rightarrow> Some q | _ \<Rightarrow> None)
   | _ \<Rightarrow> None)"

definition html_product :: "raw \<Rightarrow> raw" where
  "html_product r =
     html_str ''code'' r ''c'' @ html_str ''name'' r ''n'' @ html_str ''company'' r ''co'' @ html_str ''category'' r ''cat''
   @ html_str ''brand'' r ''brand''
   @ (case html_num r ''price'' of None \<Rightarrow> [] | Some p \<Rightarrow> [(''priceMinor'', JNum (p * 100))])"

definition html_service :: "raw \<Rightarrow> raw" where
  "html_service r =
     html_str ''code'' r ''c'' @ html_str ''name'' r ''n'' @ html_str ''category'' r ''cat''
   @ (case html_num r ''min'' of None \<Rightarrow> [] | Some n \<Rightarrow> [(''durationMinutes'', JNum n)])
   @ [(''priceBasis'', JStr ''NET''), (''taxRateBp'', jnat PROTOTYPE_SERVICE_VAT_BP)]
   @ (case html_num r ''base'' of None \<Rightarrow> []
      | Some b \<Rightarrow> [(''priceMinor'', JNum (b * 100)),
          (''priceInclusiveMinor'', JNum (of_int (js_round (b * 112 / 100)) * 100))])"

subsection \<open>Planning\<close>

datatype issue_reason = Incomplete | BadPrice | AlreadyExists

record import_issue =
  ie_kind :: priced
  ie_index :: nat
  ie_code :: "string option"
  ie_reason :: issue_reason

record plan_product =
  pp_code :: string
  pp_name :: string
  pp_company :: string
  pp_brand :: "string option"
  pp_category :: string
  pp_unit :: "string option"
  pp_price :: "int option"

record plan_service =
  ps_code :: string
  ps_name :: string
  ps_category :: string
  ps_duration :: "nat option"
  ps_price :: "int option"
  ps_basis :: price_basis
  ps_tax_bp :: "nat option"
  ps_inclusive :: "int option"

record import_plan =
  ip_products :: "plan_product list"
  ip_services :: "plan_service list"
  ip_refs :: "ref_kind \<Rightarrow> string list"
  ip_issues :: "import_issue list"
  ip_seen :: "string list"

definition composite :: "(string \<Rightarrow> string) \<Rightarrow> string \<Rightarrow> string \<Rightarrow> string" where
  "composite key company code = key company @ ''::'' @ key code"

text \<open>What the plan reads of the database: the codes that exist and the reference values.\<close>

definition existing_product_codes :: "(string \<Rightarrow> string) \<Rightarrow> cdb \<Rightarrow> string set" where
  "existing_product_codes key d =
    set (List.map_filter (\<lambda>p. map_option (\<lambda>c. composite key (rf_name c) (pd_code p)) (by_id rf_id (pd_company p) (refs d Companies)))
      (rows (products d)))"

definition existing_service_codes :: "(string \<Rightarrow> string) \<Rightarrow> cdb \<Rightarrow> string set" where
  "existing_service_codes key d = key ` sv_code ` set (rows (services d))"

definition known_refs :: "(string \<Rightarrow> string) \<Rightarrow> cdb \<Rightarrow> ref_kind \<Rightarrow> string set" where
  "known_refs key d k = key ` ref_label k ` set (rows (refs d k))"

text \<open>A value that is not known joins the ordered set of its kind.\<close>

definition add_ref :: "string set \<Rightarrow> (string \<Rightarrow> string) \<Rightarrow> ref_kind \<Rightarrow> string option \<Rightarrow> import_plan \<Rightarrow> import_plan" where
  "add_ref known key k v pl =
    (case v of None \<Rightarrow> pl
     | Some x \<Rightarrow> if x = [] \<or> key x \<in> known then pl
         else pl\<lparr>ip_refs := (ip_refs pl)(k := List.insert x (ip_refs pl k))\<rparr>)"

definition add_issue :: "priced \<Rightarrow> nat \<Rightarrow> string option \<Rightarrow> issue_reason \<Rightarrow> import_plan \<Rightarrow> import_plan" where
  "add_issue k i code why pl = pl\<lparr>ip_issues := ip_issues pl @ [\<lparr>ie_kind = k, ie_index = i, ie_code = code, ie_reason = why\<rparr>]\<rparr>"

definition plan_one_product :: "(string \<Rightarrow> string) \<Rightarrow> cdb \<Rightarrow> nat \<times> raw \<Rightarrow> import_plan \<Rightarrow> import_plan" where
  "plan_one_product key d ir pl =
    (let (i, raw) = ir; code = asString (map_of raw ''code''); name = asString (map_of raw ''name'');
         company = asString (map_of raw ''company''); category = asString (map_of raw ''category'') in
     if missing code \<or> missing name \<or> missing company \<or> missing category
     then add_issue PricedProduct i code Incomplete pl
     else
       (case asPrice (map_of raw ''priceMinor'') of
          Inl _ \<Rightarrow> add_issue PricedProduct i code BadPrice pl
        | Inr price \<Rightarrow>
            (let ck = composite key (the company) (the code) in
             if ck \<in> existing_product_codes key d \<or> ck \<in> set (ip_seen pl)
             then add_issue PricedProduct i code AlreadyExists pl
             else
               (let brand = asString (map_of raw ''brand''); unit = asString (map_of raw ''unit'');
                    pl1 = pl\<lparr>ip_seen := ck # ip_seen pl\<rparr>;
                    pl2 = add_ref (known_refs key d Companies) key Companies company pl1;
                    pl3 = add_ref (known_refs key d Brands) key Brands brand pl2;
                    pl4 = add_ref (known_refs key d ProductCategories) key ProductCategories category pl3;
                    pl5 = add_ref (known_refs key d Units) key Units unit pl4
                in pl5\<lparr>ip_products := ip_products pl5 @
                     [\<lparr>pp_code = the code, pp_name = the name, pp_company = the company, pp_brand = brand,
                       pp_category = the category, pp_unit = unit, pp_price = price\<rparr>]\<rparr>))))"

definition basis_of :: "string option \<Rightarrow> price_basis" where
  "basis_of s = (if s = Some ''NET'' then NET else if s = Some ''GROSS'' then GROSS else UNKNOWN_BASIS)"

definition plan_one_service :: "(string \<Rightarrow> string) \<Rightarrow> cdb \<Rightarrow> nat \<times> raw \<Rightarrow> import_plan \<Rightarrow> import_plan" where
  "plan_one_service key d ir pl =
    (let (i, raw) = ir; code = asString (map_of raw ''code''); name = asString (map_of raw ''name'');
         category = asString (map_of raw ''category'') in
     if missing code \<or> missing name \<or> missing category
     then add_issue PricedService i code Incomplete pl
     else
       (case (asPrice (map_of raw ''priceMinor''), asPrice (map_of raw ''priceInclusiveMinor'')) of
          (Inr price, Inr inclusive) \<Rightarrow>
            if key (the code) \<in> existing_service_codes key d \<or> key (the code) \<in> set (ip_seen pl)
            then add_issue PricedService i code AlreadyExists pl
            else
              (let pl1 = pl\<lparr>ip_seen := key (the code) # ip_seen pl\<rparr>;
                   pl2 = add_ref (known_refs key d ServiceCategories) key ServiceCategories category pl1
               in pl2\<lparr>ip_services := ip_services pl2 @
                    [\<lparr>ps_code = the code, ps_name = the name, ps_category = the category,
                      ps_duration = asCount (map_of raw ''durationMinutes''), ps_price = price,
                      ps_basis = basis_of (asString (map_of raw ''priceBasis'')),
                      ps_tax_bp = asCount (map_of raw ''taxRateBp''), ps_inclusive = inclusive\<rparr>]\<rparr>)
        | _ \<Rightarrow> add_issue PricedService i code BadPrice pl))"

definition empty_plan :: import_plan where
  "empty_plan = \<lparr>ip_products = [], ip_services = [], ip_refs = (\<lambda>k. []), ip_issues = [], ip_seen = []\<rparr>"

text \<open>The codes seen are kept per section.\<close>

definition buildPlan :: "(string \<Rightarrow> string) \<Rightarrow> raw_source \<Rightarrow> cdb \<Rightarrow> import_plan" where
  "buildPlan key src d =
    (let pl = fold (plan_one_product key d) (List.enumerate 0 (rs_products src)) empty_plan
     in fold (plan_one_service key d) (List.enumerate 0 (rs_services src)) (pl\<lparr>ip_seen := []\<rparr>))"

record import_counts =
  ic_total :: nat
  ic_toInsert :: nat
  ic_existing :: int
  ic_invalid :: nat

record import_report =
  ir_products :: import_counts
  ir_services :: import_counts
  ir_references :: "ref_kind \<Rightarrow> string list"
  ir_issues :: "import_issue list"
  ir_applied :: bool
  ir_inserted :: "(nat \<times> nat \<times> nat) option"

definition counts :: "priced \<Rightarrow> nat \<Rightarrow> nat \<Rightarrow> import_issue list \<Rightarrow> import_counts" where
  "counts k all_rows planned issues =
    (let invalid = length (filter (\<lambda>i. ie_kind i = k \<and> ie_reason i \<noteq> AlreadyExists) issues)
     in \<lparr>ic_total = all_rows, ic_toInsert = planned, ic_existing = int all_rows - int planned - int invalid, ic_invalid = invalid\<rparr>)"

fun dedupeByKey :: "(string \<Rightarrow> string) \<Rightarrow> string list \<Rightarrow> string list \<Rightarrow> string list" where
  "dedupeByKey key seen [] = []"
| "dedupeByKey key seen (v # vs) =
    (if key v \<in> set seen then dedupeByKey key seen vs else v # dedupeByKey key (key v # seen) vs)"

definition import_report_of :: "(string \<Rightarrow> string) \<Rightarrow> raw_source \<Rightarrow> import_plan \<Rightarrow> bool \<Rightarrow> import_report" where
  "import_report_of key src pl applied =
    \<lparr>ir_products = counts PricedProduct (length (rs_products src)) (length (ip_products pl)) (ip_issues pl),
     ir_services = counts PricedService (length (rs_services src)) (length (ip_services pl)) (ip_issues pl),
     ir_references = (\<lambda>k. dedupeByKey key [] (ip_refs pl k)), ir_issues = ip_issues pl, ir_applied = applied,
     ir_inserted = None\<rparr>"

definition planImport :: "(string \<Rightarrow> string) \<Rightarrow> raw_source \<Rightarrow> cdb \<Rightarrow> import_report" where
  "planImport key src d = import_report_of key src (buildPlan key src d) False"

subsection \<open>Applying\<close>

text \<open>The database with the id caches (\<open>companyId\<close>, \<open>brandId\<close>, ...) and \<open>refCount\<close>.\<close>

record import_state =
  is_db :: cdb
  is_ids :: "ref_kind \<Rightarrow> string \<Rightarrow> nat option"
  is_refs :: nat

text \<open>\<open>resolve\<close> and \<open>resolveUnit\<close> with \<open>upsertRefByName\<close> and \<open>upsertUnit\<close>.\<close>

definition resolve_ref ::
  "(string \<Rightarrow> string) \<Rightarrow> (string \<Rightarrow> string) \<Rightarrow> req \<Rightarrow> ref_kind \<Rightarrow> string \<Rightarrow> import_state \<Rightarrow> nat \<times> import_state" where
  "resolve_ref key lower q k v st =
    (case is_ids st k (key v) of
       Some i \<Rightarrow> (i, st)
     | None \<Rightarrow>
         (let cache = (\<lambda>i. (is_ids st)(k := (is_ids st k)(key v \<mapsto> i))) in
          case t_first (\<lambda>r. lower (ref_label k r) = lower v) (refs (is_db st) k) of
            Some r \<Rightarrow> (rf_id r, st\<lparr>is_ids := cache (rf_id r)\<rparr>)
          | None \<Rightarrow>
              (let i = next_id (refs (is_db st) k)
               in (i, st\<lparr>is_db := put_ref k (t_insert (new_ref q v (if hasCode k then Some v else None))) (is_db st),
                        is_ids := cache i, is_refs := Suc (is_refs st)\<rparr>))))"

definition resolve_opt ::
  "(string \<Rightarrow> string) \<Rightarrow> (string \<Rightarrow> string) \<Rightarrow> req \<Rightarrow> ref_kind \<Rightarrow> string option \<Rightarrow> import_state \<Rightarrow> nat option \<times> import_state" where
  "resolve_opt key lower q k v st =
    (if missing v then (None, st) else (let (i, st') = resolve_ref key lower q k (the v) st in (Some i, st')))"

text \<open>The text has an em dash where the hyphen is.\<close>

definition IMPORT_REASON :: string where
  "IMPORT_REASON = ''Import (provisional - approval required)''"

definition import_product ::
  "(string \<Rightarrow> string) \<Rightarrow> (string \<Rightarrow> string) \<Rightarrow> req \<Rightarrow> nat \<Rightarrow> plan_product \<Rightarrow> import_state \<Rightarrow> api_error + import_state" where
  "import_product key lower q user p st =
    (let (cId, st1) = resolve_ref key lower q Companies (pp_company p) st;
         (catId, st2) = resolve_ref key lower q ProductCategories (pp_category p) st1;
         (bId, st3) = resolve_opt key lower q Brands (pp_brand p) st2;
         (uId, st4) = resolve_opt key lower q Units (pp_unit p) st3;
         d = is_db st4; i = next_id (products d) in
     throw_if (\<not> product_code_free lower cId (pp_code p) None d) duplicateKey
     (let d1 = d\<lparr>products := t_insert (\<lambda>i. \<lparr>pd_id = i, pd_code = pp_code p, pd_name = pp_name p, pd_company = cId,
            pd_brand = bId, pd_category = catId, pd_unit = uId, pd_price = pp_price p,
            pd_currency = DEFAULT_CURRENCY, pd_status = CAT_ACTIVE, pd_version = 1, pd_source = SRC_IMPORT,
            pd_source_ref = Some (pp_code p), pd_created_by = user, pd_updated_by = user,
            pd_created_at = rq_now q, pd_updated_at = rq_now q\<rparr>) (products d)\<rparr>;
          d2 = (if pp_price p \<noteq> None then add_price q user PricedProduct i None (pp_price p) DEFAULT_CURRENCY None
                  (Some IMPORT_REASON) SRC_IMPORT d1 else d1)
      in Inr (st4\<lparr>is_db := d2\<rparr>)))"

definition import_service ::
  "(string \<Rightarrow> string) \<Rightarrow> (string \<Rightarrow> string) \<Rightarrow> req \<Rightarrow> nat \<Rightarrow> plan_service \<Rightarrow> import_state \<Rightarrow> api_error + import_state" where
  "import_service key lower q user s st =
    (let (catId, st1) = resolve_ref key lower q ServiceCategories (ps_category s) st;
         d = is_db st1; i = next_id (services d) in
     throw_if (\<not> service_code_free lower (ps_code s) None d) duplicateKey
     (let d1 = d\<lparr>services := t_insert (\<lambda>i. \<lparr>sv_id = i, sv_code = ps_code s, sv_name = ps_name s, sv_category = catId,
            sv_duration = ps_duration s, sv_price = ps_price s, sv_currency = DEFAULT_CURRENCY,
            sv_basis = ps_basis s, sv_tax_bp = ps_tax_bp s, sv_inclusive = ps_inclusive s,
            sv_status = CAT_ACTIVE, sv_version = 1, sv_source = SRC_IMPORT, sv_source_ref = Some (ps_code s),
            sv_created_by = user, sv_updated_by = user, sv_created_at = rq_now q, sv_updated_at = rq_now q\<rparr>)
            (services d)\<rparr>;
          d2 = (if ps_price s \<noteq> None then add_price q user PricedService i None (ps_price s) DEFAULT_CURRENCY
                  (Some (ps_basis s)) (Some IMPORT_REASON) SRC_IMPORT d1 else d1)
      in Inr (st1\<lparr>is_db := d2\<rparr>)))"

text \<open>A loop over the planned rows that stops at the first error.\<close>

fun import_all :: "('p \<Rightarrow> import_state \<Rightarrow> api_error + import_state) \<Rightarrow> 'p list \<Rightarrow> import_state \<Rightarrow> api_error + import_state" where
  "import_all f [] st = Inr st"
| "import_all f (x # xs) st = andThen (f x st) (import_all f xs)"

definition log_import :: "nat \<Rightarrow> nat \<Rightarrow> nat \<Rightarrow> nat \<Rightarrow> cdb \<Rightarrow> cdb" where
  "log_import user np ns nr d =
    d\<lparr>clog := clog d @
        [\<lparr>ae_user = Some user, ae_action = ''CATALOG_IMPORT_APPLIED'', ae_entity_type = Some ''catalog_import'',
          ae_entity_id = None, ae_old = None,
          ae_new = Some (JObj [(''products'', jnat np), (''services'', jnat ns), (''references'', jnat nr)]),
          ae_ip = None, ae_agent = None\<rparr>]\<rparr>"

definition applyImport ::
  "(string \<Rightarrow> string) \<Rightarrow> (string \<Rightarrow> string) \<Rightarrow> req \<Rightarrow> nat \<Rightarrow> raw_source \<Rightarrow> (cdb, import_report) tx" where
  "applyImport key lower q user src d =
    (let pl = buildPlan key src d;
         start = \<lparr>is_db = d, is_ids = (\<lambda>k x. None), is_refs = 0\<rparr> in
     andThen (import_all (import_product key lower q user) (ip_products pl) start) (\<lambda>st1.
     andThen (import_all (import_service key lower q user) (ip_services pl) st1) (\<lambda>st2.
     let np = length (ip_products pl); ns = length (ip_services pl); nr = is_refs st2 in
     Inr ((import_report_of key src pl True)\<lparr>ir_inserted := Some (np, ns, nr)\<rparr>,
          log_import user np ns nr (is_db st2)))))"

end
