(* ===== verification/CatalogRuns.thy ===== *)
theory CatalogRuns
  imports CatalogImport
begin

section \<open>Runs of the catalogue\<close>

text \<open>
  The requests of the catalogue and the import as one step relation, and what holds in every
  reachable state. The price history is analysed once for a table of priced rows, in the
  locale \<open>priced_rows\<close>, and used for products and for services.
\<close>

subsection \<open>Steps\<close>

inductive catalog_step :: "(string \<Rightarrow> string) \<Rightarrow> (string \<Rightarrow> string) \<Rightarrow> cdb \<Rightarrow> cdb \<Rightarrow> bool" for lower key where
  cs_createProduct: "createProduct lower q a pinp d = Inr (n, d') \<Longrightarrow> catalog_step lower key d d'"
| cs_updateProduct: "updateProduct lower q a i pupd d = Inr (u, d') \<Longrightarrow> catalog_step lower key d d'"
| cs_setProductStatus: "setProductStatus q a i st d = Inr (u, d') \<Longrightarrow> catalog_step lower key d d'"
| cs_deleteProduct: "deleteProduct q a i d = Inr (n, d') \<Longrightarrow> catalog_step lower key d d'"
| cs_createService: "createService lower q a sinp d = Inr (n, d') \<Longrightarrow> catalog_step lower key d d'"
| cs_updateService: "updateService lower q a i supd d = Inr (u, d') \<Longrightarrow> catalog_step lower key d d'"
| cs_setServiceStatus: "setServiceStatus q a i st d = Inr (u, d') \<Longrightarrow> catalog_step lower key d d'"
| cs_deleteService: "deleteService q a i d = Inr (n, d') \<Longrightarrow> catalog_step lower key d d'"
| cs_createReference: "createReference lower q a k nm cd d = Inr (n, d') \<Longrightarrow> catalog_step lower key d d'"
| cs_updateReference: "updateReference lower q a k i nmo cd d = Inr (u, d') \<Longrightarrow> catalog_step lower key d d'"
| cs_setReferenceStatus: "setReferenceStatus q a k i st d = Inr (u, d') \<Longrightarrow> catalog_step lower key d d'"
| cs_deleteReference: "deleteReference q a k i d = Inr (n, d') \<Longrightarrow> catalog_step lower key d d'"
| cs_createInjection: "createInjection lower q a jinp d = Inr (n, d') \<Longrightarrow> catalog_step lower key d d'"
| cs_updateInjection: "updateInjection lower q a i jupd d = Inr (u, d') \<Longrightarrow> catalog_step lower key d d'"
| cs_setInjectionStatus: "setInjectionStatus q a i st d = Inr (u, d') \<Longrightarrow> catalog_step lower key d d'"
| cs_deleteInjection: "deleteInjection q a i d = Inr (n, d') \<Longrightarrow> catalog_step lower key d d'"
| cs_import: "applyImport key lower q user src d = Inr (rep, d') \<Longrightarrow> catalog_step lower key d d'"

definition empty_catalog :: "cdb \<Rightarrow> bool" where
  "empty_catalog d \<longleftrightarrow> d = \<lparr>refs = (\<lambda>k. empty_tbl), products = empty_tbl, services = empty_tbl, prices = empty_tbl,
     injections = empty_tbl, clog = []\<rparr>"

subsection \<open>Price histories\<close>

text \<open>The entries lead from the price \<open>p\<close> to the price \<open>q\<close>, each starting where the last one ended.\<close>

fun price_chain :: "int option \<Rightarrow> price_row list \<Rightarrow> int option \<Rightarrow> bool" where
  "price_chain p [] q = (p = q)"
| "price_chain p (h # hs) q = (hi_old h = p \<and> price_chain (hi_new h) hs q)"

lemma price_chain_append: "price_chain p (hs @ [h]) q \<longleftrightarrow> price_chain p hs (hi_old h) \<and> hi_new h = q"
  by (induction hs arbitrary: p) auto

definition history_of :: "priced \<Rightarrow> nat \<Rightarrow> price_row tbl \<Rightarrow> price_row list" where
  "history_of ty i ps = t_where (\<lambda>h. hi_type h = ty \<and> hi_entity h = i) ps"

locale priced_rows =
  fixes ty :: priced and key :: "'r \<Rightarrow> nat" and price :: "'r \<Rightarrow> int option"
begin

definition priced_ok :: "'r tbl \<Rightarrow> price_row tbl \<Rightarrow> bool" where
  "priced_ok t ps \<longleftrightarrow> keyed key t \<and>
    (\<forall>r\<in>set (rows t). price_chain None (history_of ty (key r) ps) (price r)) \<and>
    (\<forall>h\<in>set (rows ps). hi_type h = ty \<longrightarrow> (\<exists>r\<in>set (rows t). key r = hi_entity h))"

lemma priced_empty: "priced_ok empty_tbl empty_tbl"
  by (simp add: priced_ok_def keyed_def empty_tbl_def)

lemma history_insert:
  "history_of ty' i (t_insert mk ps) = history_of ty' i ps @
    (if hi_type (mk (next_id ps)) = ty' \<and> hi_entity (mk (next_id ps)) = i then [mk (next_id ps)] else [])"
  by (simp add: history_of_def t_where_insert)

text \<open>A history entry of the other kind of row does not matter.\<close>

lemma priced_other:
  assumes "priced_ok t ps" "\<And>n. hi_type (mk n) \<noteq> ty"
  shows "priced_ok t (t_insert mk ps)"
  using assms by (auto simp: priced_ok_def history_insert set_rows_insert)

lemma priced_delete_other:
  assumes "priced_ok t ps" "ty' \<noteq> ty"
  shows "priced_ok t (t_delete (\<lambda>h. hi_type h = ty' \<and> hi_entity h = i) ps)"
proof -
  have "history_of ty j (t_delete (\<lambda>h. hi_type h = ty' \<and> hi_entity h = i) ps) = history_of ty j ps" for j
    unfolding history_of_def by (rule t_where_delete_other) (use assms(2) in auto)
  with assms show ?thesis by (auto simp: priced_ok_def set_rows_delete)
qed

lemma no_history_yet:
  assumes "priced_ok t ps"
  shows "history_of ty (next_id t) ps = []"
proof -
  have "hi_type h \<noteq> ty \<or> hi_entity h \<noteq> next_id t" if "h \<in> set (rows ps)" for h
    using assms that unfolding priced_ok_def keyed_def by (metis less_irrefl)
  then show ?thesis by (auto simp: history_of_def t_where_def filter_empty_conv)
qed

lemma priced_insert:
  assumes ok: "priced_ok t ps" and mk: "\<And>n. key (mk n) = n" "\<And>n. price (mk n) = p"
    and ps': "ps' = (if p \<noteq> None then t_insert e ps else ps)"
    and e: "\<And>n. hi_type (e n) = ty" "\<And>n. hi_entity (e n) = next_id t" "\<And>n. hi_old (e n) = None" "\<And>n. hi_new (e n) = p"
  shows "priced_ok (t_insert mk t) ps'"
proof -
  have k: "keyed key (t_insert mk t)" using ok mk by (auto simp: priced_ok_def intro: keyed_insert)
  have below: "key r \<noteq> next_id t" if "r \<in> set (rows t)" for r
    using that ok keyed_fresh [of key t r] unfolding priced_ok_def by blast
  have "price_chain None (history_of ty (key r) ps') (price r)" if "r \<in> set (rows (t_insert mk t))" for r
  proof (cases "r \<in> set (rows t)")
    case True
    then have "history_of ty (key r) ps' = history_of ty (key r) ps"
      using below [OF True] by (simp add: ps' history_insert e)
    with True ok show ?thesis by (simp add: priced_ok_def)
  next
    case False
    with that have "r = mk (next_id t)" by (simp add: set_rows_insert)
    then show ?thesis using no_history_yet [OF ok] by (simp add: ps' history_insert e mk)
  qed
  moreover have "\<exists>r\<in>set (rows (t_insert mk t)). key r = hi_entity h" if h: "h \<in> set (rows ps')" "hi_type h = ty" for h
  proof (cases "h \<in> set (rows ps)")
    case True
    then show ?thesis using ok h(2) by (auto simp: priced_ok_def set_rows_insert)
  next
    case False
    then have "hi_entity h = next_id t" using h(1) e(2) by (auto simp: ps' set_rows_insert split: if_splits)
    then show ?thesis by (auto simp: set_rows_insert mk)
  qed
  ultimately show ?thesis using k unfolding priced_ok_def by blast
qed

lemma updated_row:
  assumes "r' \<in> set (rows (update_id key i f t))"
  shows "\<exists>r\<in>set (rows t). r' = (if key r = i then f r else r)"
  using assms unfolding update_id_def set_rows_update image_iff .

lemma same_keys:
  assumes "\<And>r. key (f r) = key r"
  shows "(\<exists>r\<in>set (rows (update_id key i f t)). key r = j) \<longleftrightarrow> (\<exists>r\<in>set (rows t). key r = j)"
  using assms by (auto simp: update_id_def set_rows_update)

lemma priced_update:
  assumes ok: "priced_ok t ps" and cur: "by_id key i t = Some cur"
    and f: "\<And>r. key (f r) = key r" "price (f cur) = p"
    and ps': "ps' = (if ch then t_insert e ps else ps)" "\<not> ch \<Longrightarrow> p = price cur"
    and e: "\<And>n. hi_type (e n) = ty" "\<And>n. hi_entity (e n) = i" "\<And>n. hi_old (e n) = price cur" "\<And>n. hi_new (e n) = p"
  shows "priced_ok (update_id key i f t) ps'"
proof -
  have k: "keyed key t" using ok by (simp add: priced_ok_def)
  have c: "cur \<in> set (rows t)" "key cur = i" using by_id_Some [OF cur] by simp_all
  have hist: "history_of ty (key r) ps' = history_of ty (key r) ps" if "key r \<noteq> i" for r
    using that by (simp add: ps' history_insert e)
  have chain: "price_chain None (history_of ty i ps') p"
  proof -
    have "price_chain None (history_of ty i ps) (price cur)" using ok c by (auto simp: priced_ok_def)
    then show ?thesis using ps' by (simp add: history_insert price_chain_append e)
  qed
  have "price_chain None (history_of ty (key r') ps') (price r')" if r': "r' \<in> set (rows (update_id key i f t))" for r'
  proof -
    obtain r where r: "r \<in> set (rows t)" "r' = (if key r = i then f r else r)"
      using updated_row [OF r'] by blast
    show ?thesis
    proof (cases "key r = i")
      case True
      then have "r' = f cur" using r keyed_inj [OF k r(1) c(1)] c(2) by simp
      then show ?thesis using chain c(2) f by simp
    next
      case False
      then show ?thesis using r hist ok by (simp add: priced_ok_def)
    qed
  qed
  moreover have "keyed key (update_id key i f t)" unfolding update_id_def by (rule keyed_update [OF k]) (rule f)
  moreover have "\<exists>r\<in>set (rows (update_id key i f t)). key r = hi_entity h" if h: "h \<in> set (rows ps')" "hi_type h = ty" for h
  proof -
    have "\<exists>r\<in>set (rows t). key r = hi_entity h"
    proof (cases "h \<in> set (rows ps)")
      case True
      then show ?thesis using ok h(2) by (simp add: priced_ok_def)
    next
      case False
      then have "hi_entity h = i" using h(1) e(2) by (auto simp: ps' set_rows_insert split: if_splits)
      with c show ?thesis by (intro bexI [of _ cur]) simp_all
    qed
    then show ?thesis using same_keys [of f i t] f(1) by blast
  qed
  ultimately show ?thesis unfolding priced_ok_def by blast
qed

lemma priced_touch:
  assumes ok: "priced_ok t ps" and f: "\<And>r. key (f r) = key r" "\<And>r. price (f r) = price r"
  shows "priced_ok (update_id key i f t) ps"
proof -
  have k: "keyed key (update_id key i f t)"
    unfolding update_id_def by (rule keyed_update) (use ok f in \<open>simp_all add: priced_ok_def\<close>)
  moreover have "price_chain None (history_of ty (key r') ps) (price r')" if r': "r' \<in> set (rows (update_id key i f t))" for r'
  proof -
    obtain r where r: "r \<in> set (rows t)" "r' = (if key r = i then f r else r)"
      using updated_row [OF r'] by blast
    then have "price_chain None (history_of ty (key r) ps) (price r)" using ok by (simp add: priced_ok_def)
    moreover have "key r' = key r \<and> price r' = price r" using r(2) f by simp
    ultimately show ?thesis by simp
  qed
  ultimately show ?thesis using ok same_keys [of f i t] f(1) unfolding priced_ok_def by blast
qed

lemma priced_delete:
  assumes ok: "priced_ok t ps"
  shows "priced_ok (t_delete (\<lambda>r. key r = i) t) (t_delete (\<lambda>h. hi_type h = ty \<and> hi_entity h = i) ps)"
proof -
  have "history_of ty j (t_delete (\<lambda>h. hi_type h = ty \<and> hi_entity h = i) ps) = history_of ty j ps" if "j \<noteq> i" for j
    unfolding history_of_def by (rule t_where_delete_other) (use that in auto)
  moreover have "\<exists>r\<in>set (rows (t_delete (\<lambda>r. key r = i) t)). key r = hi_entity h"
    if "h \<in> set (rows ps)" "hi_type h = ty" "hi_entity h \<noteq> i" for h
  proof -
    have "\<exists>r\<in>set (rows t). key r = hi_entity h" using ok that(1,2) unfolding priced_ok_def by blast
    then obtain r where "r \<in> set (rows t)" "key r = hi_entity h" by blast
    with that(3) show ?thesis by (auto simp: set_rows_delete)
  qed
  ultimately show ?thesis using ok by (auto simp: priced_ok_def set_rows_delete intro: keyed_delete)
qed

end

interpretation product_prices: priced_rows PricedProduct pd_id pd_price .

interpretation service_prices: priced_rows PricedService sv_id sv_price .


subsection \<open>The invariant\<close>

definition has_ref :: "ref_kind \<Rightarrow> nat \<Rightarrow> cdb \<Rightarrow> bool" where
  "has_ref k i d \<longleftrightarrow> (\<exists>r\<in>set (rows (refs d k)). rf_id r = i)"

definition has_ref_opt :: "ref_kind \<Rightarrow> nat option \<Rightarrow> cdb \<Rightarrow> bool" where
  "has_ref_opt k i d \<longleftrightarrow> (case i of None \<Rightarrow> True | Some x \<Rightarrow> has_ref k x d)"

text \<open>The values a product points at exist.\<close>

definition product_refs_ok :: "product \<Rightarrow> cdb \<Rightarrow> bool" where
  "product_refs_ok p d \<longleftrightarrow> has_ref Companies (pd_company p) d \<and> has_ref ProductCategories (pd_category p) d \<and>
    has_ref_opt Brands (pd_brand p) d \<and> has_ref_opt Units (pd_unit p) d"

definition codes_unique :: "(string \<Rightarrow> string) \<Rightarrow> cdb \<Rightarrow> bool" where
  "codes_unique lower d \<longleftrightarrow>
    (\<forall>p\<in>set (rows (products d)). \<forall>p'\<in>set (rows (products d)).
       pd_company p = pd_company p' \<and> lower (pd_code p) = lower (pd_code p') \<longrightarrow> pd_id p = pd_id p') \<and>
    (\<forall>s\<in>set (rows (services d)). \<forall>s'\<in>set (rows (services d)). lower (sv_code s) = lower (sv_code s') \<longrightarrow> sv_id s = sv_id s')"

definition refs_ok :: "cdb \<Rightarrow> bool" where
  "refs_ok d \<longleftrightarrow> (\<forall>k. keyed rf_id (refs d k)) \<and> (\<forall>p\<in>set (rows (products d)). product_refs_ok p d) \<and>
    (\<forall>s\<in>set (rows (services d)). has_ref ServiceCategories (sv_category s) d)"

definition prices_ok :: "cdb \<Rightarrow> bool" where
  "prices_ok d \<longleftrightarrow> product_prices.priced_ok (products d) (prices d) \<and> service_prices.priced_ok (services d) (prices d)"

definition catalog_ok :: "(string \<Rightarrow> string) \<Rightarrow> cdb \<Rightarrow> bool" where
  "catalog_ok lower d \<longleftrightarrow> prices_ok d \<and> refs_ok d \<and> codes_unique lower d"

subsection \<open>Effects\<close>

text \<open>
  What a request does to the tables: a row is added, changed or removed, with the price entry
  that goes with it, or nothing but injection values and the log changes.
\<close>

inductive catalog_effect :: "(string \<Rightarrow> string) \<Rightarrow> cdb \<Rightarrow> cdb \<Rightarrow> bool" for lower where
  add_product: "\<lbrakk>products d' = t_insert mk (products d); \<And>n. pd_id (mk n) = n; \<And>n. pd_price (mk n) = p;
      \<And>n. pd_company (mk n) = co; \<And>n. pd_code (mk n) = code; \<And>n. product_refs_ok (mk n) d;
      product_code_free lower co code None d;
      prices d' = (if p \<noteq> None then t_insert e (prices d) else prices d);
      \<And>n. hi_type (e n) = PricedProduct; \<And>n. hi_entity (e n) = next_id (products d); \<And>n. hi_old (e n) = None;
      \<And>n. hi_new (e n) = p; services d' = services d; refs d' = refs d\<rbrakk> \<Longrightarrow> catalog_effect lower d d'"
| put_product: "\<lbrakk>by_id pd_id i (products d) = Some cur; products d' = update_id pd_id i f (products d);
      \<And>r. pd_id (f r) = pd_id r; pd_price (f cur) = p; pd_version (f cur) = Suc (pd_version cur);
      product_refs_ok cur d \<Longrightarrow> product_refs_ok (f cur) d;
      pd_company (f cur) = pd_company cur \<and> pd_code (f cur) = pd_code cur \<or>
        product_code_free lower (pd_company (f cur)) (pd_code (f cur)) (Some i) d;
      prices d' = (if ch then t_insert e (prices d) else prices d); \<not> ch \<Longrightarrow> p = pd_price cur;
      \<And>n. hi_type (e n) = PricedProduct; \<And>n. hi_entity (e n) = i; \<And>n. hi_old (e n) = pd_price cur;
      \<And>n. hi_new (e n) = p; services d' = services d; refs d' = refs d\<rbrakk> \<Longrightarrow> catalog_effect lower d d'"
| del_product: "\<lbrakk>products d' = t_delete (\<lambda>p. pd_id p = i) (products d);
      prices d' = t_delete (\<lambda>h. hi_type h = PricedProduct \<and> hi_entity h = i) (prices d);
      services d' = services d; refs d' = refs d\<rbrakk> \<Longrightarrow> catalog_effect lower d d'"
| add_service: "\<lbrakk>services d' = t_insert smk (services d); \<And>n. sv_id (smk n) = n; \<And>n. sv_price (smk n) = p;
      \<And>n. sv_code (smk n) = code; \<And>n. has_ref ServiceCategories (sv_category (smk n)) d;
      service_code_free lower code None d;
      prices d' = (if p \<noteq> None then t_insert e (prices d) else prices d);
      \<And>n. hi_type (e n) = PricedService; \<And>n. hi_entity (e n) = next_id (services d); \<And>n. hi_old (e n) = None;
      \<And>n. hi_new (e n) = p; products d' = products d; refs d' = refs d\<rbrakk> \<Longrightarrow> catalog_effect lower d d'"
| put_service: "\<lbrakk>by_id sv_id i (services d) = Some scur; services d' = update_id sv_id i sf (services d);
      \<And>r. sv_id (sf r) = sv_id r; sv_price (sf scur) = p; sv_version (sf scur) = Suc (sv_version scur);
      has_ref ServiceCategories (sv_category scur) d \<Longrightarrow> has_ref ServiceCategories (sv_category (sf scur)) d;
      sv_code (sf scur) = sv_code scur \<or> service_code_free lower (sv_code (sf scur)) (Some i) d;
      prices d' = (if ch then t_insert e (prices d) else prices d); \<not> ch \<Longrightarrow> p = sv_price scur;
      \<And>n. hi_type (e n) = PricedService; \<And>n. hi_entity (e n) = i; \<And>n. hi_old (e n) = sv_price scur;
      \<And>n. hi_new (e n) = p; products d' = products d; refs d' = refs d\<rbrakk> \<Longrightarrow> catalog_effect lower d d'"
| del_service: "\<lbrakk>services d' = t_delete (\<lambda>s. sv_id s = i) (services d);
      prices d' = t_delete (\<lambda>h. hi_type h = PricedService \<and> hi_entity h = i) (prices d);
      products d' = products d; refs d' = refs d\<rbrakk> \<Longrightarrow> catalog_effect lower d d'"
| add_ref_row: "\<lbrakk>refs d' = (refs d)(k := t_insert rmk (refs d k)); \<And>n. rf_id (rmk n) = n; products d' = products d;
      services d' = services d; prices d' = prices d\<rbrakk> \<Longrightarrow> catalog_effect lower d d'"
| put_ref_row: "\<lbrakk>refs d' = (refs d)(k := update_id rf_id i rf (refs d k)); \<And>r. rf_id (rf r) = rf_id r;
      products d' = products d; services d' = services d; prices d' = prices d\<rbrakk> \<Longrightarrow> catalog_effect lower d d'"
| del_ref_row: "\<lbrakk>refs d' = (refs d)(k := t_delete (\<lambda>r. rf_id r = i) (refs d k)); countInUse k i d = 0;
      products d' = products d; services d' = services d; prices d' = prices d\<rbrakk> \<Longrightarrow> catalog_effect lower d d'"
| no_row: "\<lbrakk>refs d' = refs d; products d' = products d; services d' = services d; prices d' = prices d\<rbrakk> \<Longrightarrow>
      catalog_effect lower d d'"

subsubsection \<open>Prices\<close>

lemma effect_prices:
  assumes "catalog_effect lower d d'" "prices_ok d"
  shows "prices_ok d'"
  using assms
proof (cases rule: catalog_effect.cases)
  case (add_product mk p co code e)
  have "product_prices.priced_ok (products d') (prices d')"
    unfolding add_product(1)
    by (rule product_prices.priced_insert [OF _ add_product(2,3,8,9-12)]) (use assms(2) in \<open>simp add: prices_ok_def\<close>)
  moreover have "service_prices.priced_ok (services d') (prices d')"
    using assms(2) add_product(8,13) service_prices.priced_other [of "services d" "prices d" e] add_product(9)
    by (simp add: prices_ok_def)
  ultimately show ?thesis by (simp add: prices_ok_def)
next
  case (put_product i cur f p ch e)
  have "product_prices.priced_ok (products d') (prices d')"
    unfolding put_product(2)
    by (rule product_prices.priced_update [OF _ put_product(1,3,4,8,9,10-13)]) (use assms(2) in \<open>simp_all add: prices_ok_def\<close>)
  moreover have "service_prices.priced_ok (services d') (prices d')"
    using assms(2) put_product(8,14) service_prices.priced_other [of "services d" "prices d" e] put_product(10)
    by (simp add: prices_ok_def)
  ultimately show ?thesis by (simp add: prices_ok_def)
next
  case (del_product i)
  then show ?thesis
    using assms(2) by (simp add: prices_ok_def product_prices.priced_delete service_prices.priced_delete_other)
next
  case (add_service mk p code e)
  have "service_prices.priced_ok (services d') (prices d')"
    unfolding add_service(1)
    by (rule service_prices.priced_insert [OF _ add_service(2,3,7,8-11)]) (use assms(2) in \<open>simp add: prices_ok_def\<close>)
  moreover have "product_prices.priced_ok (products d') (prices d')"
    using assms(2) add_service(7,12) product_prices.priced_other [of "products d" "prices d" e] add_service(8)
    by (simp add: prices_ok_def)
  ultimately show ?thesis by (simp add: prices_ok_def)
next
  case (put_service i cur f p ch e)
  have "service_prices.priced_ok (services d') (prices d')"
    unfolding put_service(2)
    by (rule service_prices.priced_update [OF _ put_service(1,3,4,8,9,10-13)]) (use assms(2) in \<open>simp_all add: prices_ok_def\<close>)
  moreover have "product_prices.priced_ok (products d') (prices d')"
    using assms(2) put_service(8,14) product_prices.priced_other [of "products d" "prices d" e] put_service(10)
    by (simp add: prices_ok_def)
  ultimately show ?thesis by (simp add: prices_ok_def)
next
  case (del_service i)
  then show ?thesis
    using assms(2) by (simp add: prices_ok_def service_prices.priced_delete product_prices.priced_delete_other)
qed (simp_all add: prices_ok_def)

subsubsection \<open>References\<close>

lemma has_ref_same: "refs d' = refs d \<Longrightarrow> has_ref k i d' = has_ref k i d"
  by (simp add: has_ref_def)

lemma product_refs_mono:
  assumes "\<And>k i. has_ref k i d \<Longrightarrow> has_ref k i d'" "product_refs_ok p d"
  shows "product_refs_ok p d'"
  using assms by (auto simp: product_refs_ok_def has_ref_opt_def split: option.splits)

lemma product_refs_same: "refs d' = refs d \<Longrightarrow> product_refs_ok p d' = product_refs_ok p d"
  by (simp add: product_refs_ok_def has_ref_opt_def has_ref_def split: option.split)

text \<open>A row of an updated table is an old row, or the changed current one.\<close>

lemma updated_is:
  assumes "keyed key t" "by_id key i t = Some cur" "r' \<in> set (rows (update_id key i f t))"
  shows "r' = f cur \<or> (r' \<in> set (rows t) \<and> key r' \<noteq> i)"
proof -
  obtain r where r: "r \<in> set (rows t)" "r' = (if key r = i then f r else r)"
    using assms(3) unfolding update_id_def set_rows_update image_iff by blast
  have "cur \<in> set (rows t)" "key cur = i" using by_id_Some [OF assms(2)] by simp_all
  then show ?thesis using r keyed_inj [OF assms(1) r(1)] by (cases "key r = i") simp_all
qed

lemma table_keys:
  assumes "prices_ok d"
  shows "keyed pd_id (products d)" "keyed sv_id (services d)"
  using assms by (simp_all add: prices_ok_def product_prices.priced_ok_def service_prices.priced_ok_def)

lemma refs_kept:
  assumes "refs_ok d" "refs d' = refs d" "products d' = products d" "services d' = services d"
  shows "refs_ok d'"
  using assms(1) product_refs_same [OF assms(2)] has_ref_same [OF assms(2)] by (simp add: refs_ok_def assms(2-4))

lemma unused_ref:
  assumes ok: "refs_ok d" and del: "refs d' = (refs d)(k := t_delete (\<lambda>r. rf_id r = i) (refs d k))" "countInUse k i d = 0"
    and same: "products d' = products d" "services d' = services d"
  shows "refs_ok d'"
proof -
  have keep: "has_ref k' j d'" if "has_ref k' j d" "k' \<noteq> k \<or> j \<noteq> i" for k' j
    using that by (auto simp: has_ref_def del(1) set_rows_delete)
  have "product_refs_ok p d'" if p: "p \<in> set (rows (products d))" for p
  proof -
    have "product_refs_ok p d" using ok p by (simp add: refs_ok_def)
    then show ?thesis using keep del(2) p
      by (cases k) (auto simp: product_refs_ok_def has_ref_opt_def t_count_0 split: option.splits)
  qed
  moreover have "has_ref ServiceCategories (sv_category s) d'" if s: "s \<in> set (rows (services d))" for s
  proof -
    have "has_ref ServiceCategories (sv_category s) d" using ok s by (simp add: refs_ok_def)
    then show ?thesis using keep del(2) s by (cases k) (auto simp: t_count_0)
  qed
  moreover have "keyed rf_id (refs d' k')" for k' using ok by (simp add: refs_ok_def del(1) keyed_delete)
  ultimately show ?thesis by (simp add: refs_ok_def same)
qed

lemma grown_refs:
  assumes ok: "refs_ok d" and kept: "\<And>k i. has_ref k i d \<Longrightarrow> has_ref k i d'" "\<And>k. keyed rf_id (refs d' k)"
    and same: "products d' = products d" "services d' = services d"
  shows "refs_ok d'"
  using assms product_refs_mono [of d d'] by (simp add: refs_ok_def)

lemma effect_refs:
  assumes "catalog_effect lower d d'" "prices_ok d" "refs_ok d"
  shows "refs_ok d'"
  using assms(1)
proof (cases rule: catalog_effect.cases)
  case (add_product mk p co code e)
  note same = product_refs_same [OF add_product(14)] has_ref_same [OF add_product(14)]
  show ?thesis
    using assms(3) add_product(6) by (auto simp: refs_ok_def add_product(1,13,14) set_rows_insert same)
next
  case (put_product i cur f p ch e)
  have "product_refs_ok cur d" using by_id_Some [OF put_product(1)] assms(3) by (simp add: refs_ok_def)
  then have "product_refs_ok r d" if "r \<in> set (rows (products d'))" for r
    using updated_is [OF table_keys(1) [OF assms(2)] put_product(1), of r f] that put_product(2,6) assms(3)
    by (auto simp: refs_ok_def)
  then show ?thesis
    using assms(3) product_refs_same [OF put_product(15)] has_ref_same [OF put_product(15)]
    by (simp add: refs_ok_def put_product(14,15))
next
  case (del_product i)
  show ?thesis
    using assms(3) product_refs_same [OF del_product(4)] has_ref_same [OF del_product(4)]
    by (simp add: refs_ok_def del_product(1,3,4) set_rows_delete)
next
  case (add_service mk p code e)
  note same = product_refs_same [OF add_service(13)] has_ref_same [OF add_service(13)]
  show ?thesis
    using assms(3) add_service(5) by (auto simp: refs_ok_def add_service(1,12,13) set_rows_insert same)
next
  case (put_service i cur f p ch e)
  have "has_ref ServiceCategories (sv_category cur) d" using by_id_Some [OF put_service(1)] assms(3) by (simp add: refs_ok_def)
  then have "has_ref ServiceCategories (sv_category r) d" if "r \<in> set (rows (services d'))" for r
    using updated_is [OF table_keys(2) [OF assms(2)] put_service(1), of r f] that put_service(2,6) assms(3)
    by (auto simp: refs_ok_def)
  then show ?thesis
    using assms(3) product_refs_same [OF put_service(15)] has_ref_same [OF put_service(15)]
    by (simp add: refs_ok_def put_service(14,15))
next
  case (del_service i)
  show ?thesis
    using assms(3) product_refs_same [OF del_service(4)] has_ref_same [OF del_service(4)]
    by (simp add: refs_ok_def del_service(1,3,4) set_rows_delete)
next
  case (add_ref_row k mk)
  show ?thesis
    by (rule grown_refs [OF assms(3)])
      (use add_ref_row assms(3) in \<open>auto simp: has_ref_def set_rows_insert refs_ok_def intro: keyed_insert\<close>)
next
  case (put_ref_row k i f)
  show ?thesis
  proof (rule grown_refs [OF assms(3)])
    show "has_ref k' j d'" if "has_ref k' j d" for k' j
      using that put_ref_row(2) by (auto simp: has_ref_def put_ref_row(1) update_id_def set_rows_update)
    show "keyed rf_id (refs d' k')" for k'
      using assms(3) put_ref_row(2) by (auto simp: refs_ok_def put_ref_row(1) update_id_def intro: keyed_update)
  qed (use put_ref_row in simp_all)
next
  case (del_ref_row k i)
  then show ?thesis by (intro unused_ref [OF assms(3)])
next
  case no_row
  then show ?thesis by (intro refs_kept [OF assms(3)])
qed

subsubsection \<open>Codes\<close>

lemma product_free_other:
  assumes "product_code_free lower co code (Some i) d" "p \<in> set (rows (products d))" "pd_id p \<noteq> i"
  shows "pd_company p \<noteq> co \<or> lower (pd_code p) \<noteq> lower code"
  using assms by (auto simp: product_code_free_def t_first_None)

lemma service_free_other:
  assumes "service_code_free lower code (Some i) d" "s \<in> set (rows (services d))" "sv_id s \<noteq> i"
  shows "lower (sv_code s) \<noteq> lower code"
  using assms by (auto simp: service_code_free_def t_first_None)

lemma codes_sub:
  assumes "codes_unique lower d" "set (rows (products d')) \<subseteq> set (rows (products d))" "set (rows (services d')) \<subseteq> set (rows (services d))"
  shows "codes_unique lower d'"
  using assms unfolding codes_unique_def by (meson subsetD)

lemma same_product_code:
  assumes "codes_unique lower d" "p \<in> set (rows (products d))" "p' \<in> set (rows (products d))"
    "pd_company p = pd_company p'" "lower (pd_code p) = lower (pd_code p')"
  shows "pd_id p = pd_id p'"
  using assms unfolding codes_unique_def by blast

lemma same_service_code:
  assumes "codes_unique lower d" "s \<in> set (rows (services d))" "s' \<in> set (rows (services d))"
    "lower (sv_code s) = lower (sv_code s')"
  shows "sv_id s = sv_id s'"
  using assms unfolding codes_unique_def by blast

lemma effect_codes:
  assumes "catalog_effect lower d d'" "prices_ok d" "codes_unique lower d"
  shows "codes_unique lower d'"
  using assms(1)
proof (cases rule: catalog_effect.cases)
  case (add_product mk p co code e)
  let ?new = "mk (next_id (products d))"
  have clash: False if "x \<in> set (rows (products d))" "pd_company x = pd_company ?new" "lower (pd_code x) = lower (pd_code ?new)" for x
    using add_product(7) that by (simp add: product_code_free_def t_first_None add_product(4,5))
  have row: "r = ?new \<or> r \<in> set (rows (products d))" if "r \<in> set (rows (products d'))" for r
    using that by (simp add: add_product(1) set_rows_insert)
  have "pd_id r = pd_id r'" if "r \<in> set (rows (products d'))" "r' \<in> set (rows (products d'))"
      "pd_company r = pd_company r'" "lower (pd_code r) = lower (pd_code r')" for r r'
    using row [OF that(1)] row [OF that(2)] clash that(3,4) same_product_code [OF assms(3)] by metis
  with assms(3) show ?thesis unfolding codes_unique_def add_product(13) by blast
next
  case (put_product i cur f p ch e)
  have cur: "cur \<in> set (rows (products d))" "pd_id cur = i" using by_id_Some [OF put_product(1)] by simp_all
  have clash: "pd_id x = i" if "x \<in> set (rows (products d))" "pd_company x = pd_company (f cur)"
      "lower (pd_code x) = lower (pd_code (f cur))" for x
    using put_product(7) product_free_other [OF _ that(1), of lower "pd_company (f cur)" "pd_code (f cur)" i] that(2,3)
      same_product_code [OF assms(3) that(1) cur(1)] cur(2) by metis
  have row: "r = f cur \<or> (r \<in> set (rows (products d)) \<and> pd_id r \<noteq> i)" if "r \<in> set (rows (products d'))" for r
    using updated_is [OF table_keys(1) [OF assms(2)] put_product(1), of r f] that put_product(2) by simp
  have "pd_id r = pd_id r'" if "r \<in> set (rows (products d'))" "r' \<in> set (rows (products d'))"
      "pd_company r = pd_company r'" "lower (pd_code r) = lower (pd_code r')" for r r'
    using row [OF that(1)] row [OF that(2)] clash that(3,4) same_product_code [OF assms(3)] cur put_product(3) by metis
  with assms(3) show ?thesis unfolding codes_unique_def put_product(14) by blast
next
  case (del_product i)
  then show ?thesis by (intro codes_sub [OF assms(3)]) (auto simp: set_rows_delete)
next
  case (add_service mk p code e)
  let ?new = "mk (next_id (services d))"
  have clash: False if "x \<in> set (rows (services d))" "lower (sv_code x) = lower (sv_code ?new)" for x
    using add_service(6) that by (simp add: service_code_free_def t_first_None add_service(4))
  have row: "r = ?new \<or> r \<in> set (rows (services d))" if "r \<in> set (rows (services d'))" for r
    using that by (simp add: add_service(1) set_rows_insert)
  have "sv_id r = sv_id r'" if "r \<in> set (rows (services d'))" "r' \<in> set (rows (services d'))"
      "lower (sv_code r) = lower (sv_code r')" for r r'
    using row [OF that(1)] row [OF that(2)] clash that(3) same_service_code [OF assms(3)] by metis
  with assms(3) show ?thesis unfolding codes_unique_def add_service(12) by blast
next
  case (put_service i cur f p ch e)
  have cur: "cur \<in> set (rows (services d))" "sv_id cur = i" using by_id_Some [OF put_service(1)] by simp_all
  have clash: "sv_id x = i" if "x \<in> set (rows (services d))" "lower (sv_code x) = lower (sv_code (f cur))" for x
    using put_service(7) service_free_other [OF _ that(1), of lower "sv_code (f cur)" i] that(2)
      same_service_code [OF assms(3) that(1) cur(1)] cur(2) by metis
  have row: "r = f cur \<or> (r \<in> set (rows (services d)) \<and> sv_id r \<noteq> i)" if "r \<in> set (rows (services d'))" for r
    using updated_is [OF table_keys(2) [OF assms(2)] put_service(1), of r f] that put_service(2) by simp
  have "sv_id r = sv_id r'" if "r \<in> set (rows (services d'))" "r' \<in> set (rows (services d'))"
      "lower (sv_code r) = lower (sv_code r')" for r r'
    using row [OF that(1)] row [OF that(2)] clash that(3) same_service_code [OF assms(3)] cur put_service(3) by metis
  with assms(3) show ?thesis unfolding codes_unique_def put_service(14) by blast
next
  case (del_service i)
  then show ?thesis by (intro codes_sub [OF assms(3)]) (auto simp: set_rows_delete)
qed (rule codes_sub [OF assms(3)]; simp)+

lemma effect_ok: "catalog_effect lower d d' \<Longrightarrow> catalog_ok lower d \<Longrightarrow> catalog_ok lower d'"
  by (simp add: catalog_ok_def effect_prices effect_refs effect_codes)

subsection \<open>The requests have these effects\<close>

lemma assertRefActive_Inr: "assertRefActive k i c d = Inr u \<Longrightarrow> has_ref k i d"
  by (auto simp: assertRefActive_def need_Inr_iff has_ref_def dest: by_id_Some)

lemma assertRefIfGiven_Inr: "assertRefIfGiven k i c d = Inr u \<Longrightarrow> has_ref_opt k i d"
  by (auto simp: assertRefIfGiven_def has_ref_opt_def dest: assertRefActive_Inr split: option.splits)

lemma assertCodeAvailable_Inr: "assertCodeAvailable lower co code x d = Inr u \<Longrightarrow> product_code_free lower co code x d"
  by (simp add: assertCodeAvailable_def)

lemma assertServiceCodeAvailable_Inr: "assertServiceCodeAvailable lower code x d = Inr u \<Longrightarrow> service_code_free lower code x d"
  by (simp add: assertServiceCodeAvailable_def)

lemma newly_ref:
  assumes "has_ref_opt k (newly next current) d" "has_ref_opt k current d"
  shows "has_ref_opt k (given next current) d"
  using assms by (auto simp: newly_def given_def has_ref_opt_def split: option.splits if_splits)

lemma newly_ref_some:
  assumes "has_ref_opt k (newly (map_option Some next) (Some current)) d" "has_ref k current d"
  shows "has_ref k (given next current) d"
  using assms by (auto simp: newly_def given_def has_ref_opt_def split: option.splits if_splits)

lemma prices_add_price: "prices (add_price q u ty i old new c b r s d) =
    t_insert (\<lambda>h. \<lparr>hi_id = h, hi_type = ty, hi_entity = i, hi_old = old, hi_new = new, hi_currency = c, hi_basis = b,
      hi_by = u, hi_reason = r, hi_source = s, hi_created_at = rq_now q\<rparr>) (prices d)"
  by (simp add: add_price_def)

lemma created_frame:
  "products (product_created q a inp p d) = t_insert (new_product q (au_id a) (normalizeName (pi_code inp))
     (normalizeName (pi_name inp)) inp p (given (pi_currency inp) DEFAULT_CURRENCY)) (products d)"
  "services (product_created q a inp p d) = services d" "refs (product_created q a inp p d) = refs d"
  "prices (product_created q a inp p d) = (if p \<noteq> None then t_insert (\<lambda>h. \<lparr>hi_id = h, hi_type = PricedProduct,
     hi_entity = next_id (products d), hi_old = None, hi_new = p, hi_currency = given (pi_currency inp) DEFAULT_CURRENCY,
     hi_basis = None, hi_by = au_id a, hi_reason = pi_reason inp, hi_source = SRC_MANUAL, hi_created_at = rq_now q\<rparr>)
     (prices d) else prices d)"
  by (simp_all add: product_created_def Let_def prices_add_price)

lemma createProduct_effect:
  assumes "createProduct lower q a inp d = Inr (n, d')"
  shows "catalog_effect lower d d'"
proof -
  obtain p where
      u: "assertRefActive Companies (pi_company inp) ''INVALID_COMPANY'' d = Inr ()"
        "assertRefActive ProductCategories (pi_category inp) ''INVALID_CATEGORY'' d = Inr ()"
        "assertRefIfGiven Brands (pi_brand inp) ''INVALID_BRAND'' d = Inr ()"
        "assertRefIfGiven Units (pi_unit inp) ''INVALID_UNIT'' d = Inr ()"
        "assertCodeAvailable lower (pi_company inp) (normalizeName (pi_code inp)) None d = Inr ()"
    and d': "d' = product_created q a inp p d"
    using assms by (auto simp: createProduct_def andThen_Inr_iff)
  show ?thesis unfolding d'
    by (rule add_product [OF created_frame(1) _ _ _ _ _ assertCodeAvailable_Inr [OF u(5)] created_frame(4) _ _ _ _ created_frame(2,3)])
      (simp_all add: new_product_def product_refs_ok_def assertRefActive_Inr [OF u(1)] assertRefActive_Inr [OF u(2)]
        assertRefIfGiven_Inr [OF u(3)] assertRefIfGiven_Inr [OF u(4)])
qed

lemma written_frame:
  "products (product_written q a i inp p cur d) = update_id pd_id i (updated_product q (au_id a) inp p) (products d)"
  "services (product_written q a i inp p cur d) = services d" "refs (product_written q a i inp p cur d) = refs d"
  "prices (product_written q a i inp p cur d) =
    (if p \<noteq> pd_price cur \<or> given (up_currency inp) (pd_currency cur) \<noteq> pd_currency cur
     then t_insert (\<lambda>h. \<lparr>hi_id = h, hi_type = PricedProduct, hi_entity = i, hi_old = pd_price cur, hi_new = p,
       hi_currency = given (up_currency inp) (pd_currency cur), hi_basis = None, hi_by = au_id a,
       hi_reason = up_reason inp, hi_source = SRC_MANUAL, hi_created_at = rq_now q\<rparr>) (prices d) else prices d)"
  by (simp_all add: product_written_def Let_def prices_add_price)

lemma updateProduct_Inr:
  assumes "updateProduct lower q a i inp d = Inr (u, d')"
  obtains cur p where "by_id pd_id i (products d) = Some cur" "up_version inp = pd_version cur"
    "assertRefIfGiven ProductCategories (newly (map_option Some (up_category inp)) (Some (pd_category cur))) ''INVALID_CATEGORY'' d = Inr ()"
    "assertRefIfGiven Brands (newly (up_brand inp) (pd_brand cur)) ''INVALID_BRAND'' d = Inr ()"
    "assertRefIfGiven Units (newly (up_unit inp) (pd_unit cur)) ''INVALID_UNIT'' d = Inr ()"
    "assertRefIfGiven Companies (newly (map_option Some (up_company inp)) (Some (pd_company cur))) ''INVALID_COMPANY'' d = Inr ()"
    "given (map_option normalizeName (up_code inp)) (pd_code cur) = pd_code cur \<and> given (up_company inp) (pd_company cur) = pd_company cur
     \<or> product_code_free lower (given (up_company inp) (pd_company cur)) (given (map_option normalizeName (up_code inp)) (pd_code cur)) (Some i) d"
    "d' = product_written q a i inp p cur d"
  using assms
  by (auto simp: updateProduct_def andThen_Inr_iff need_Inr_iff Let_def dest: assertCodeAvailable_Inr split: if_splits)

lemma updateProduct_effect:
  assumes "updateProduct lower q a i inp d = Inr (u, d')"
  shows "catalog_effect lower d d'"
proof -
  obtain cur p where cur: "by_id pd_id i (products d) = Some cur"
    and r: "assertRefIfGiven ProductCategories (newly (map_option Some (up_category inp)) (Some (pd_category cur))) ''INVALID_CATEGORY'' d = Inr ()"
      "assertRefIfGiven Brands (newly (up_brand inp) (pd_brand cur)) ''INVALID_BRAND'' d = Inr ()"
      "assertRefIfGiven Units (newly (up_unit inp) (pd_unit cur)) ''INVALID_UNIT'' d = Inr ()"
      "assertRefIfGiven Companies (newly (map_option Some (up_company inp)) (Some (pd_company cur))) ''INVALID_COMPANY'' d = Inr ()"
    and code: "given (map_option normalizeName (up_code inp)) (pd_code cur) = pd_code cur \<and> given (up_company inp) (pd_company cur) = pd_company cur
     \<or> product_code_free lower (given (up_company inp) (pd_company cur)) (given (map_option normalizeName (up_code inp)) (pd_code cur)) (Some i) d"
    and d': "d' = product_written q a i inp p cur d"
    using updateProduct_Inr [OF assms] .
  have refs: "product_refs_ok (updated_product q (au_id a) inp p cur) d" if "product_refs_ok cur d"
    using that newly_ref_some [OF assertRefIfGiven_Inr [OF r(1)]] newly_ref [OF assertRefIfGiven_Inr [OF r(2)]]
      newly_ref [OF assertRefIfGiven_Inr [OF r(3)]] newly_ref_some [OF assertRefIfGiven_Inr [OF r(4)]]
    by (simp add: product_refs_ok_def updated_product_def)
  show ?thesis unfolding d'
    by (rule put_product [OF cur written_frame(1) _ _ _ refs _ written_frame(4) _ _ _ _ _ written_frame(2,3)])
      (use code in \<open>auto simp: updated_product_def\<close>)
qed

lemma setProductStatus_effect:
  assumes "setProductStatus q a i st d = Inr (u, d')"
  shows "catalog_effect lower d d'"
proof -
  obtain cur where cur: "by_id pd_id i (products d) = Some cur"
    and d': "products d' = update_id pd_id i (\<lambda>p. p\<lparr>pd_status := st, pd_version := Suc (pd_version cur),
        pd_updated_by := au_id a, pd_updated_at := rq_now q\<rparr>) (products d)"
      "prices d' = prices d" "services d' = services d" "refs d' = refs d"
    using assms by (auto simp: setProductStatus_def need_Inr_iff)
  show ?thesis
    by (rule put_product [OF cur d'(1), where ch = False and p = "pd_price cur" and
          e = "\<lambda>n. \<lparr>hi_id = n, hi_type = PricedProduct, hi_entity = i, hi_old = pd_price cur, hi_new = pd_price cur, hi_currency = [],
            hi_basis = None, hi_by = 0, hi_reason = None, hi_source = SRC_MANUAL, hi_created_at = 0\<rparr>"])
      (use d' in \<open>simp_all add: product_refs_ok_def\<close>)
qed

lemma deleteProduct_effect:
  assumes "deleteProduct q a i d = Inr (n, d')"
  shows "catalog_effect lower d d'"
  using assms by (intro del_product [of _ i]) (auto simp: deleteProduct_def need_Inr_iff)

lemma service_created_frame:
  "services (service_created q a inp p inc d) = t_insert (new_service q (au_id a) (normalizeName (si_code inp))
     (normalizeName (si_name inp)) inp p inc (given (si_currency inp) DEFAULT_CURRENCY) (given (si_basis inp) UNKNOWN_BASIS)) (services d)"
  "products (service_created q a inp p inc d) = products d" "refs (service_created q a inp p inc d) = refs d"
  "prices (service_created q a inp p inc d) = (if p \<noteq> None then t_insert (\<lambda>h. \<lparr>hi_id = h, hi_type = PricedService,
     hi_entity = next_id (services d), hi_old = None, hi_new = p, hi_currency = given (si_currency inp) DEFAULT_CURRENCY,
     hi_basis = Some (given (si_basis inp) UNKNOWN_BASIS), hi_by = au_id a, hi_reason = si_reason inp, hi_source = SRC_MANUAL,
     hi_created_at = rq_now q\<rparr>) (prices d) else prices d)"
  by (simp_all add: service_created_def Let_def prices_add_price)

lemma createService_effect:
  assumes "createService lower q a inp d = Inr (n, d')"
  shows "catalog_effect lower d d'"
proof -
  obtain p inc where
      u: "assertRefActive ServiceCategories (si_category inp) ''INVALID_CATEGORY'' d = Inr ()"
        "assertServiceCodeAvailable lower (normalizeName (si_code inp)) None d = Inr ()"
    and d': "d' = service_created q a inp p inc d"
    using assms by (auto simp: createService_def assertCategoryActive_def andThen_Inr_iff)
  show ?thesis unfolding d'
    by (rule add_service [OF service_created_frame(1) _ _ _ _ assertServiceCodeAvailable_Inr [OF u(2)] service_created_frame(4)
          _ _ _ _ service_created_frame(2,3)])
      (simp_all add: new_service_def assertRefActive_Inr [OF u(1)])
qed

lemma service_written_frame:
  "services (service_written q a i inp p inc cur d) = update_id sv_id i (updated_service q (au_id a) inp p inc) (services d)"
  "products (service_written q a i inp p inc cur d) = products d" "refs (service_written q a i inp p inc cur d) = refs d"
  "prices (service_written q a i inp p inc cur d) =
    (if p \<noteq> sv_price cur \<or> given (us_currency inp) (sv_currency cur) \<noteq> sv_currency cur
     then t_insert (\<lambda>h. \<lparr>hi_id = h, hi_type = PricedService, hi_entity = i, hi_old = sv_price cur, hi_new = p,
       hi_currency = given (us_currency inp) (sv_currency cur), hi_basis = Some (given (us_basis inp) (sv_basis cur)),
       hi_by = au_id a, hi_reason = us_reason inp, hi_source = SRC_MANUAL, hi_created_at = rq_now q\<rparr>) (prices d) else prices d)"
  by (simp_all add: service_written_def Let_def prices_add_price)

lemma category_given_Inr:
  "(case x of None \<Rightarrow> Inr () | Some c \<Rightarrow> assertCategoryActive c d) = Inr u \<Longrightarrow> has_ref_opt ServiceCategories x d"
  by (auto simp: has_ref_opt_def assertCategoryActive_def dest: assertRefActive_Inr split: option.splits)

lemma updateService_Inr:
  assumes "updateService lower q a i inp d = Inr (u, d')"
  obtains cur p inc where "by_id sv_id i (services d) = Some cur" "us_version inp = sv_version cur"
    "has_ref_opt ServiceCategories (newly (map_option Some (us_category inp)) (Some (sv_category cur))) d"
    "given (map_option normalizeName (us_code inp)) (sv_code cur) = sv_code cur
     \<or> service_code_free lower (given (map_option normalizeName (us_code inp)) (sv_code cur)) (Some i) d"
    "d' = service_written q a i inp p inc cur d"
  using assms
  by (auto simp: updateService_def andThen_Inr_iff need_Inr_iff Let_def
      dest!: category_given_Inr dest: assertServiceCodeAvailable_Inr split: if_splits)

lemma updateService_effect:
  assumes "updateService lower q a i inp d = Inr (u, d')"
  shows "catalog_effect lower d d'"
proof -
  obtain cur p inc where cur: "by_id sv_id i (services d) = Some cur"
    and r: "has_ref_opt ServiceCategories (newly (map_option Some (us_category inp)) (Some (sv_category cur))) d"
    and code: "given (map_option normalizeName (us_code inp)) (sv_code cur) = sv_code cur
     \<or> service_code_free lower (given (map_option normalizeName (us_code inp)) (sv_code cur)) (Some i) d"
    and d': "d' = service_written q a i inp p inc cur d"
    using updateService_Inr [OF assms] .
  have refs: "has_ref ServiceCategories (sv_category (updated_service q (au_id a) inp p inc cur)) d"
    if "has_ref ServiceCategories (sv_category cur) d"
    using newly_ref_some [OF r that] by (simp add: updated_service_def)
  show ?thesis unfolding d'
    by (rule put_service [OF cur service_written_frame(1) _ _ _ refs _ service_written_frame(4) _ _ _ _ _ service_written_frame(2,3)])
      (use code in \<open>auto simp: updated_service_def\<close>)
qed

lemma setServiceStatus_effect:
  assumes "setServiceStatus q a i st d = Inr (u, d')"
  shows "catalog_effect lower d d'"
proof -
  obtain cur where cur: "by_id sv_id i (services d) = Some cur"
    and d': "services d' = update_id sv_id i (\<lambda>s. s\<lparr>sv_status := st, sv_version := Suc (sv_version cur),
        sv_updated_by := au_id a, sv_updated_at := rq_now q\<rparr>) (services d)"
      "prices d' = prices d" "products d' = products d" "refs d' = refs d"
    using assms by (auto simp: setServiceStatus_def need_Inr_iff)
  show ?thesis
    by (rule put_service [OF cur d'(1), where ch = False and p = "sv_price cur" and
          e = "\<lambda>n. \<lparr>hi_id = n, hi_type = PricedService, hi_entity = i, hi_old = sv_price cur, hi_new = sv_price cur, hi_currency = [],
            hi_basis = None, hi_by = 0, hi_reason = None, hi_source = SRC_MANUAL, hi_created_at = 0\<rparr>"])
      (use d' in simp_all)
qed

lemma deleteService_effect:
  assumes "deleteService q a i d = Inr (n, d')"
  shows "catalog_effect lower d d'"
  using assms by (intro del_service [of _ i]) (auto simp: deleteService_def need_Inr_iff)

lemma reference_effects:
  "createReference lower' q a k nm cd d = Inr (n, d') \<Longrightarrow> catalog_effect lower d d'"
  "updateReference lower' q a k i nmo cd d = Inr (u, d') \<Longrightarrow> catalog_effect lower d d'"
  "setReferenceStatus q a k i st d = Inr (u, d') \<Longrightarrow> catalog_effect lower d d'"
  "deleteReference q a k i d = Inr (n, d') \<Longrightarrow> catalog_effect lower d d'"
proof -
  show "catalog_effect lower d d'" if "createReference lower' q a k nm cd d = Inr (n, d')"
    using that
    by (intro add_ref_row [of _ _ k "new_ref q (normalizeName nm) (if hasCode k then map_option normalizeName cd else None)"])
      (auto simp: createReference_def Let_def andThen_Inr_iff new_ref_def put_ref_def)
  show "catalog_effect lower d d'" if "updateReference lower' q a k i nmo cd d = Inr (u, d')"
  proof (cases "d' = d")
    case True
    then show ?thesis by (simp add: no_row)
  next
    case False
    with that obtain name code ch where "d' = reference_written q a k i name code ch d"
      by (auto simp: updateReference_def Let_def andThen_Inr_iff need_Inr_iff split: if_splits)
    then show ?thesis
      by (intro put_ref_row [of _ _ k i "\<lambda>r. r\<lparr>rf_name := name, rf_code := code, rf_updated_at := rq_now q\<rparr>"])
        (simp_all add: reference_written_def put_ref_def)
  qed
  show "catalog_effect lower d d'" if "setReferenceStatus q a k i st d = Inr (u, d')"
    using that
    by (intro put_ref_row [of _ _ k i "\<lambda>r. r\<lparr>rf_status := st, rf_updated_at := rq_now q\<rparr>"])
      (auto simp: setReferenceStatus_def need_Inr_iff put_ref_def)
  show "catalog_effect lower d d'" if "deleteReference q a k i d = Inr (n, d')"
    using that by (intro del_ref_row [of _ _ k i]) (auto simp: deleteReference_def need_Inr_iff put_ref_def)
qed

lemma injection_effects:
  "createInjection lower' q a jinp d = Inr (n, d') \<Longrightarrow> catalog_effect lower d d'"
  "updateInjection lower' q a i jupd d = Inr (u, d') \<Longrightarrow> catalog_effect lower d d'"
  "setInjectionStatus q a i st d = Inr (u, d') \<Longrightarrow> catalog_effect lower d d'"
  "deleteInjection q a i d = Inr (n, d') \<Longrightarrow> catalog_effect lower d d'"
  by (rule no_row;
      auto simp: createInjection_def updateInjection_def setInjectionStatus_def deleteInjection_def Let_def
        andThen_Inr_iff need_Inr_iff split: if_splits)+

subsubsection \<open>The import\<close>

text \<open>The cached ids are ids of rows; a step of the import keeps that and every row it finds.\<close>

definition ids_ok :: "import_state \<Rightarrow> bool" where
  "ids_ok st \<longleftrightarrow> (\<forall>k x i. is_ids st k x = Some i \<longrightarrow> has_ref k i (is_db st))"

definition import_grows :: "(string \<Rightarrow> string) \<Rightarrow> import_state \<Rightarrow> import_state \<Rightarrow> bool" where
  "import_grows lower st st' \<longleftrightarrow> (catalog_effect lower)\<^sup>*\<^sup>* (is_db st) (is_db st') \<and> ids_ok st' \<and>
    (\<forall>k i. has_ref k i (is_db st) \<longrightarrow> has_ref k i (is_db st'))"

lemma import_grows_refl: "ids_ok st \<Longrightarrow> import_grows lower st st"
  by (simp add: import_grows_def)

lemma import_grows_trans: "import_grows lower st st1 \<Longrightarrow> import_grows lower st1 st2 \<Longrightarrow> import_grows lower st st2"
  by (auto simp: import_grows_def)

lemma resolve_ref_grows:
  assumes "resolve_ref key lower q k v st = (i, st')" "ids_ok st"
  shows "import_grows lower st st' \<and> has_ref k i (is_db st')"
proof (cases "is_ids st k (key v)")
  case (Some j)
  with assms show ?thesis by (auto simp: resolve_ref_def import_grows_def ids_ok_def)
next
  case no_id: None
  show ?thesis
  proof (cases "t_first (\<lambda>r. lower (ref_label k r) = lower v) (refs (is_db st) k)")
    case (Some r)
    then have "has_ref k (rf_id r) (is_db st)" by (auto simp: has_ref_def dest: t_first_Some)
    with no_id Some assms show ?thesis
      by (auto simp: resolve_ref_def import_grows_def ids_ok_def split: if_splits)
  next
    case None
    let ?mk = "new_ref q v (if hasCode k then Some v else None)"
    let ?d = "put_ref k (t_insert ?mk) (is_db st)"
    have st': "is_db st' = ?d" "is_ids st' = (is_ids st)(k := (is_ids st k)(key v \<mapsto> next_id (refs (is_db st) k)))"
        "i = next_id (refs (is_db st) k)"
      using assms no_id None by (auto simp: resolve_ref_def Let_def)
    have "catalog_effect lower (is_db st) ?d"
      by (rule add_ref_row [of _ _ k ?mk]) (simp_all add: new_ref_def put_ref_def)
    moreover have keep: "has_ref k' j ?d" if "has_ref k' j (is_db st)" for k' j
      using that by (auto simp: has_ref_def set_rows_insert)
    moreover have new: "has_ref k i ?d" by (simp add: has_ref_def set_rows_insert st' new_ref_def)
    moreover have "ids_ok st'"
      using assms(2) keep new by (auto simp: ids_ok_def st' split: if_splits)
    ultimately show ?thesis by (auto simp: import_grows_def st')
  qed
qed

lemma resolve_opt_grows:
  assumes "resolve_opt key lower q k v st = (i, st')" "ids_ok st"
  shows "import_grows lower st st' \<and> has_ref_opt k i (is_db st')"
proof (cases "missing v")
  case True
  with assms show ?thesis by (auto simp: resolve_opt_def has_ref_opt_def import_grows_refl)
next
  case False
  then obtain j where "resolve_ref key lower q k (the v) st = (j, st')" "i = Some j"
    using assms by (auto simp: resolve_opt_def split: prod.splits)
  with resolve_ref_grows [of key lower q k "the v" st j st'] assms(2) show ?thesis by (simp add: has_ref_opt_def)
qed

lemma import_growsD:
  "import_grows lower st st' \<Longrightarrow> ids_ok st'" "import_grows lower st st' \<Longrightarrow> has_ref k i (is_db st) \<Longrightarrow> has_ref k i (is_db st')"
  "import_grows lower st st' \<Longrightarrow> has_ref_opt k x (is_db st) \<Longrightarrow> has_ref_opt k x (is_db st')"
  by (auto simp: import_grows_def has_ref_opt_def split: option.splits)

lemma add_row_grows:
  assumes "catalog_effect lower (is_db st) d'" "ids_ok st" "refs d' = refs (is_db st)"
  shows "import_grows lower st (st\<lparr>is_db := d'\<rparr>)"
  using assms by (auto simp: import_grows_def ids_ok_def has_ref_def)

lemma import_product_grows:
  assumes "import_product key lower q user p st = Inr st'" "ids_ok st"
  shows "import_grows lower st st'"
proof -
  obtain c st1 where 1: "resolve_ref key lower q Companies (pp_company p) st = (c, st1)" by (rule prod.exhaust)
  obtain k st2 where 2: "resolve_ref key lower q ProductCategories (pp_category p) st1 = (k, st2)" by (rule prod.exhaust)
  obtain b st3 where 3: "resolve_opt key lower q Brands (pp_brand p) st2 = (b, st3)" by (rule prod.exhaust)
  obtain u st4 where 4: "resolve_opt key lower q Units (pp_unit p) st3 = (u, st4)" by (rule prod.exhaust)
  note g1 = resolve_ref_grows [OF 1 assms(2)]
  note g2 = resolve_ref_grows [OF 2 import_growsD(1) [OF conjunct1 [OF g1]]]
  note g3 = resolve_opt_grows [OF 3 import_growsD(1) [OF conjunct1 [OF g2]]]
  note g4 = resolve_opt_grows [OF 4 import_growsD(1) [OF conjunct1 [OF g3]]]
  have has: "has_ref Companies c (is_db st4)" "has_ref ProductCategories k (is_db st4)"
      "has_ref_opt Brands b (is_db st4)" "has_ref_opt Units u (is_db st4)"
    using g1 g2 g3 g4 import_growsD by meson+
  let ?mk = "\<lambda>i. \<lparr>pd_id = i, pd_code = pp_code p, pd_name = pp_name p, pd_company = c, pd_brand = b, pd_category = k,
    pd_unit = u, pd_price = pp_price p, pd_currency = DEFAULT_CURRENCY, pd_status = CAT_ACTIVE, pd_version = 1,
    pd_source = SRC_IMPORT, pd_source_ref = Some (pp_code p), pd_created_by = user, pd_updated_by = user,
    pd_created_at = rq_now q, pd_updated_at = rq_now q\<rparr>"
  let ?d = "if pp_price p \<noteq> None then add_price q user PricedProduct (next_id (products (is_db st4))) None (pp_price p)
      DEFAULT_CURRENCY None (Some IMPORT_REASON) SRC_IMPORT ((is_db st4)\<lparr>products := t_insert ?mk (products (is_db st4))\<rparr>)
    else (is_db st4)\<lparr>products := t_insert ?mk (products (is_db st4))\<rparr>"
  have free: "product_code_free lower c (pp_code p) None (is_db st4)" and st': "st' = st4\<lparr>is_db := ?d\<rparr>"
    using assms(1) by (auto simp add: import_product_def 1 2 3 4 Let_def)
  have "catalog_effect lower (is_db st4) ?d"
  proof (rule add_product [where e = "\<lambda>h. \<lparr>hi_id = h, hi_type = PricedProduct, hi_entity = next_id (products (is_db st4)),
        hi_old = None, hi_new = pp_price p, hi_currency = DEFAULT_CURRENCY, hi_basis = None, hi_by = user,
        hi_reason = Some IMPORT_REASON, hi_source = SRC_IMPORT, hi_created_at = rq_now q\<rparr>" and mk = ?mk])
    show "product_code_free lower c (pp_code p) None (is_db st4)" by (rule free)
  qed (use has in \<open>simp_all add: product_refs_ok_def prices_add_price\<close>)
  then have "import_grows lower st4 st'"
    unfolding st' by (rule add_row_grows) (use import_growsD(1) [OF conjunct1 [OF g4]] in simp_all)
  then show ?thesis using g1 g2 g3 g4 import_grows_trans by blast
qed

lemma import_service_grows:
  assumes "import_service key lower q user s st = Inr st'" "ids_ok st"
  shows "import_grows lower st st'"
proof -
  obtain k st1 where 1: "resolve_ref key lower q ServiceCategories (ps_category s) st = (k, st1)" by (rule prod.exhaust)
  note g1 = resolve_ref_grows [OF 1 assms(2)]
  let ?mk = "\<lambda>i. \<lparr>sv_id = i, sv_code = ps_code s, sv_name = ps_name s, sv_category = k, sv_duration = ps_duration s,
    sv_price = ps_price s, sv_currency = DEFAULT_CURRENCY, sv_basis = ps_basis s, sv_tax_bp = ps_tax_bp s,
    sv_inclusive = ps_inclusive s, sv_status = CAT_ACTIVE, sv_version = 1, sv_source = SRC_IMPORT,
    sv_source_ref = Some (ps_code s), sv_created_by = user, sv_updated_by = user, sv_created_at = rq_now q,
    sv_updated_at = rq_now q\<rparr>"
  let ?d = "if ps_price s \<noteq> None then add_price q user PricedService (next_id (services (is_db st1))) None (ps_price s)
      DEFAULT_CURRENCY (Some (ps_basis s)) (Some IMPORT_REASON) SRC_IMPORT ((is_db st1)\<lparr>services := t_insert ?mk (services (is_db st1))\<rparr>)
    else (is_db st1)\<lparr>services := t_insert ?mk (services (is_db st1))\<rparr>"
  have free: "service_code_free lower (ps_code s) None (is_db st1)" and st': "st' = st1\<lparr>is_db := ?d\<rparr>"
    using assms(1) by (auto simp add: import_service_def 1 Let_def)
  have "catalog_effect lower (is_db st1) ?d"
  proof (rule add_service [where e = "\<lambda>h. \<lparr>hi_id = h, hi_type = PricedService, hi_entity = next_id (services (is_db st1)),
        hi_old = None, hi_new = ps_price s, hi_currency = DEFAULT_CURRENCY, hi_basis = Some (ps_basis s), hi_by = user,
        hi_reason = Some IMPORT_REASON, hi_source = SRC_IMPORT, hi_created_at = rq_now q\<rparr>" and smk = ?mk])
    show "service_code_free lower (ps_code s) None (is_db st1)" by (rule free)
  qed (use g1 in \<open>simp_all add: prices_add_price\<close>)
  then have "import_grows lower st1 st'"
    unfolding st' by (rule add_row_grows) (use import_growsD(1) [OF conjunct1 [OF g1]] in simp_all)
  then show ?thesis using g1 import_grows_trans by blast
qed

lemma import_all_grows:
  assumes "import_all f xs st = Inr st'" "ids_ok st"
    and "\<And>x st st'. f x st = Inr st' \<Longrightarrow> ids_ok st \<Longrightarrow> import_grows lower st st'"
  shows "import_grows lower st st'"
  using assms(1,2)
proof (induction xs arbitrary: st)
  case Nil
  then show ?case by (simp add: import_grows_refl)
next
  case (Cons x xs)
  then obtain st1 where "f x st = Inr st1" "import_all f xs st1 = Inr st'" by (auto simp: andThen_Inr_iff)
  with Cons assms(3) show ?case by (meson import_growsD(1) import_grows_trans)
qed

lemma applyImport_effects:
  assumes "applyImport key lower q user src d = Inr (rep, d')"
  shows "(catalog_effect lower)\<^sup>*\<^sup>* d d'"
proof -
  let ?start = "\<lparr>is_db = d, is_ids = (\<lambda>k x. None), is_refs = 0\<rparr>"
  obtain st1 st2 where 1: "import_all (import_product key lower q user) (ip_products (buildPlan key src d)) ?start = Inr st1"
      and 2: "import_all (import_service key lower q user) (ip_services (buildPlan key src d)) st1 = Inr st2"
      and d': "d' = log_import user (length (ip_products (buildPlan key src d))) (length (ip_services (buildPlan key src d)))
        (is_refs st2) (is_db st2)"
    using assms by (auto simp: applyImport_def Let_def andThen_Inr_iff)
  have "ids_ok ?start" by (simp add: ids_ok_def)
  then have g1: "import_grows lower ?start st1" by (rule import_all_grows [OF 1]) (rule import_product_grows)
  have "import_grows lower st1 st2"
    by (rule import_all_grows [OF 2 import_growsD(1) [OF g1]]) (rule import_service_grows)
  with g1 have "(catalog_effect lower)\<^sup>*\<^sup>* d (is_db st2)" using import_grows_trans [of lower ?start st1 st2] by (simp add: import_grows_def)
  moreover have "catalog_effect lower (is_db st2) d'" by (rule no_row) (simp_all add: d' log_import_def)
  ultimately show ?thesis by simp
qed

lemma step_effects:
  assumes "catalog_step lower key d d'"
  shows "(catalog_effect lower)\<^sup>*\<^sup>* d d'"
  using assms
proof cases
  case cs_import
  then show ?thesis by (rule applyImport_effects)
qed (blast intro: r_into_rtranclp createProduct_effect updateProduct_effect setProductStatus_effect deleteProduct_effect
    createService_effect updateService_effect setServiceStatus_effect deleteService_effect reference_effects injection_effects)+

lemma effects_ok: "(catalog_effect lower)\<^sup>*\<^sup>* d d' \<Longrightarrow> catalog_ok lower d \<Longrightarrow> catalog_ok lower d'"
  by (induction rule: rtranclp_induct) (auto intro: effect_ok)

lemma empty_catalog_ok: "empty_catalog d \<Longrightarrow> catalog_ok lower d"
  by (simp add: catalog_ok_def prices_ok_def refs_ok_def codes_unique_def empty_catalog_def product_prices.priced_empty
      service_prices.priced_empty) (simp add: empty_tbl_def keyed_def)

interpretation catalog_run: inductive_invariant empty_catalog "catalog_step lower key" "catalog_ok lower"
  for lower key
  by unfold_locales (blast intro: empty_catalog_ok effects_ok dest: step_effects)+

end
