(* ===== verification/CatalogProperties.thy ===== *)
theory CatalogProperties
  imports CatalogRuns
begin

section \<open>Properties of the catalogue\<close>

subsection \<open>Versions\<close>

text \<open>
  The order behind optimistic concurrency: ids are never used again and the version of a row
  that is still there has not gone down.
\<close>

definition versions_le :: "('r \<Rightarrow> nat) \<Rightarrow> ('r \<Rightarrow> nat) \<Rightarrow> 'r tbl \<Rightarrow> 'r tbl \<Rightarrow> bool" where
  "versions_le key ver t t' \<longleftrightarrow> next_id t \<le> next_id t' \<and>
    (\<forall>r'\<in>set (rows t'). key r' < next_id t \<longrightarrow> (\<exists>r\<in>set (rows t). key r = key r' \<and> ver r \<le> ver r'))"

lemma versions_refl: "versions_le key ver t t"
  by (auto simp: versions_le_def)

lemma versions_trans:
  assumes "versions_le key ver t u" "versions_le key ver u v"
  shows "versions_le key ver t v"
proof -
  have "\<exists>r\<in>set (rows t). key r = key r' \<and> ver r \<le> ver r'" if r': "r' \<in> set (rows v)" "key r' < next_id t" for r'
  proof -
    have "key r' < next_id u" using assms(1) r'(2) by (simp add: versions_le_def)
    then obtain s where s: "s \<in> set (rows u)" "key s = key r'" "ver s \<le> ver r'"
      using assms(2) r'(1) unfolding versions_le_def by blast
    then obtain r where "r \<in> set (rows t)" "key r = key s" "ver r \<le> ver s"
      using assms(1) r'(2) unfolding versions_le_def by metis
    with s show ?thesis by (intro bexI [of _ r]) simp_all
  qed
  with assms show ?thesis by (simp add: versions_le_def)
qed

lemma versions_insert: "(\<And>n. key (mk n) = n) \<Longrightarrow> versions_le key ver t (t_insert mk t)"
  by (auto simp: versions_le_def set_rows_insert)

lemma versions_delete: "versions_le key ver t (t_delete P t)"
  by (auto simp: versions_le_def set_rows_delete)

lemma versions_update:
  assumes "keyed key t" "by_id key i t = Some cur" "key (f cur) = key cur" "ver cur \<le> ver (f cur)"
  shows "versions_le key ver t (update_id key i f t)"
proof -
  have "cur \<in> set (rows t)" using by_id_Some [OF assms(2)] by simp
  then have "\<exists>r\<in>set (rows t). key r = key r' \<and> ver r \<le> ver r'" if r': "r' \<in> set (rows (update_id key i f t))" for r'
    using updated_is [OF assms(1,2) r'] assms(3,4) by auto
  then show ?thesis by (simp add: versions_le_def update_id_def)
qed

definition catalog_le :: "cdb \<Rightarrow> cdb \<Rightarrow> bool" where
  "catalog_le d d' \<longleftrightarrow> versions_le pd_id pd_version (products d) (products d') \<and>
    versions_le sv_id sv_version (services d) (services d')"

lemma effect_le:
  assumes "catalog_ok lower d" "catalog_effect lower d d'"
  shows "catalog_le d d'"
proof -
  note keys = table_keys [of d]
  have p: "prices_ok d" using assms(1) by (simp add: catalog_ok_def)
  show ?thesis
    using assms(2)
  proof (cases rule: catalog_effect.cases)
    case (put_product i cur f p ch e)
    then show ?thesis
      using versions_update [OF keys(1) [OF p] put_product(1), of f pd_version] by (simp add: catalog_le_def versions_refl)
  next
    case (put_service i cur f p ch e)
    then show ?thesis
      using versions_update [OF keys(2) [OF p] put_service(1), of f sv_version] by (simp add: catalog_le_def versions_refl)
  qed (simp_all add: catalog_le_def versions_refl versions_insert versions_delete)
qed

interpretation catalog_order: progress_order empty_catalog "catalog_effect lower" "catalog_ok lower" catalog_le
  for lower
proof
  show "catalog_le d d" for d by (simp add: catalog_le_def versions_refl)
  show "catalog_le d d1 \<Longrightarrow> catalog_le d1 d2 \<Longrightarrow> catalog_le d d2" for d d1 d2
    unfolding catalog_le_def by (blast intro: versions_trans)
qed (blast intro: empty_catalog_ok effect_ok effect_le)+

lemma run_effects: "(catalog_step lower key)\<^sup>*\<^sup>* d d' \<Longrightarrow> (catalog_effect lower)\<^sup>*\<^sup>* d d'"
  by (induction rule: rtranclp_induct) (auto dest: step_effects)

lemma run_le: "(catalog_step lower key)\<^sup>*\<^sup>* d d' \<Longrightarrow> catalog_ok lower d \<Longrightarrow> catalog_le d d'"
  by (rule catalog_order.steps_le [OF run_effects])

text \<open>A row that was written at version \<open>v\<close> is later gone or at least at version \<open>v + 1\<close>.\<close>

lemma written_version:
  assumes k: "keyed key t" and cur: "by_id key i t = Some cur" "ver (f cur) = Suc (ver cur)" "key (f cur) = key cur"
    and le: "versions_le key ver (update_id key i f t) t'" and now: "by_id key i t' = Some cur'"
  shows "ver cur < ver cur'"
proof -
  have c: "cur \<in> set (rows t)" "key cur = i" using by_id_Some [OF cur(1)] by simp_all
  have "key cur < next_id t" using k c(1) unfolding keyed_def by blast
  then have "key cur' < next_id (update_id key i f t)" using by_id_Some [OF now] c by (simp add: update_id_def)
  then obtain r where r: "r \<in> set (rows (update_id key i f t))" "key r = i" "ver r \<le> ver cur'"
    using le by_id_Some [OF now] unfolding versions_le_def by metis
  then show ?thesis using updated_is [OF k cur(1) r(1)] cur by auto
qed

text \<open>C37: In every reachable state the price history of each product and service leads from no price to its
  present price without a gap, every value a product or service points at exists, and codes are unique
  (per company for products), as the database compares them.\<close>
theorem catalog_consistent:
  assumes "empty_catalog d0" "(catalog_step lower key)\<^sup>*\<^sup>* d0 d"
  shows "(\<forall>p\<in>set (rows (products d)). price_chain None (history_of PricedProduct (pd_id p) (prices d)) (pd_price p) \<and>
      product_refs_ok p d) \<and>
    (\<forall>s\<in>set (rows (services d)). price_chain None (history_of PricedService (sv_id s) (prices d)) (sv_price s) \<and>
      has_ref ServiceCategories (sv_category s) d) \<and> codes_unique lower d"
  using catalog_run.inv_reachable [OF assms]
  by (simp add: catalog_ok_def prices_ok_def refs_ok_def product_prices.priced_ok_def service_prices.priced_ok_def)

text \<open>C38: No lost updates: after an update of a product or service has been stored, no later request, whatever
  happened in between, can write it with the version that update was made from, or an older one.\<close>
theorem stale_write_is_refused:
  assumes "empty_catalog d0" "(catalog_step lower key)\<^sup>*\<^sup>* d0 d" "(catalog_step lower key)\<^sup>*\<^sup>* d1 d2"
  shows "(updateProduct lower q a i inp d = Inr (u, d1) \<and> up_version inp' \<le> up_version inp \<longrightarrow>
      isl (updateProduct lower q' a' i inp' d2)) \<and>
    (updateService lower q a i sinp d = Inr (u, d1) \<and> us_version sinp' \<le> us_version sinp \<longrightarrow>
      isl (updateService lower q' a' i sinp' d2))"
proof (intro conjI impI)
  have ok: "catalog_ok lower d" using catalog_run.inv_reachable [OF assms(1,2)] .
  note keys = table_keys [of d]
  have p: "prices_ok d" using ok by (simp add: catalog_ok_def)
  {
    assume w: "updateProduct lower q a i inp d = Inr (u, d1) \<and> up_version inp' \<le> up_version inp"
    then obtain cur pr where cur: "by_id pd_id i (products d) = Some cur" "up_version inp = pd_version cur"
        "d1 = product_written q a i inp pr cur d"
      by (blast elim: updateProduct_Inr)
    have "catalog_le d1 d2" using run_le [OF assms(3)] effect_ok [OF updateProduct_effect ok] w by blast
    then have le: "versions_le pd_id pd_version (update_id pd_id i (updated_product q (au_id a) inp pr) (products d)) (products d2)"
      by (simp add: catalog_le_def cur(3) written_frame)
    show "isl (updateProduct lower q' a' i inp' d2)"
    proof (rule ccontr)
      assume "\<not> isl (updateProduct lower q' a' i inp' d2)"
      then obtain u' d3 where "updateProduct lower q' a' i inp' d2 = Inr (u', d3)"
        by (cases "updateProduct lower q' a' i inp' d2") auto
      then obtain cur' where "by_id pd_id i (products d2) = Some cur'" "up_version inp' = pd_version cur'"
        by (blast elim: updateProduct_Inr)
      then show False
        using written_version [OF keys(1) [OF p] cur(1) _ _ le, of cur'] w cur(2) by (simp add: updated_product_def)
    qed
  next
    assume w: "updateService lower q a i sinp d = Inr (u, d1) \<and> us_version sinp' \<le> us_version sinp"
    then obtain cur pr inc where cur: "by_id sv_id i (services d) = Some cur" "us_version sinp = sv_version cur"
        "d1 = service_written q a i sinp pr inc cur d"
      by (blast elim: updateService_Inr)
    have "catalog_le d1 d2" using run_le [OF assms(3)] effect_ok [OF updateService_effect ok] w by blast
    then have le: "versions_le sv_id sv_version (update_id sv_id i (updated_service q (au_id a) sinp pr inc) (services d)) (services d2)"
      by (simp add: catalog_le_def cur(3) service_written_frame)
    show "isl (updateService lower q' a' i sinp' d2)"
    proof (rule ccontr)
      assume "\<not> isl (updateService lower q' a' i sinp' d2)"
      then obtain u' d3 where "updateService lower q' a' i sinp' d2 = Inr (u', d3)"
        by (cases "updateService lower q' a' i sinp' d2") auto
      then obtain cur' where "by_id sv_id i (services d2) = Some cur'" "us_version sinp' = sv_version cur'"
        by (blast elim: updateService_Inr)
      then show False
        using written_version [OF keys(2) [OF p] cur(1) _ _ le, of cur'] w cur(2) by (simp add: updated_service_def)
    qed
  }
qed

subsection \<open>Importing twice\<close>

text \<open>The codes a plan contains, as the planner compares them.\<close>

definition planned_products :: "(string \<Rightarrow> string) \<Rightarrow> plan_product list \<Rightarrow> string set" where
  "planned_products key ps = (\<lambda>p. composite key (pp_company p) (pp_code p)) ` set ps"

definition planned_services :: "(string \<Rightarrow> string) \<Rightarrow> plan_service list \<Rightarrow> string set" where
  "planned_services key ss = (\<lambda>s. key (ps_code s)) ` set ss"

text \<open>A raw row that is complete, with the code it is planned under.\<close>

definition product_candidate :: "(string \<Rightarrow> string) \<Rightarrow> raw \<Rightarrow> string option" where
  "product_candidate key raw =
    (if missing (asString (map_of raw ''code'')) \<or> missing (asString (map_of raw ''name'')) \<or>
        missing (asString (map_of raw ''company'')) \<or> missing (asString (map_of raw ''category'')) \<or>
        isl (asPrice (map_of raw ''priceMinor'')) then None
     else Some (composite key (the (asString (map_of raw ''company''))) (the (asString (map_of raw ''code'')))))"

definition service_candidate :: "(string \<Rightarrow> string) \<Rightarrow> raw \<Rightarrow> string option" where
  "service_candidate key raw =
    (if missing (asString (map_of raw ''code'')) \<or> missing (asString (map_of raw ''name'')) \<or>
        missing (asString (map_of raw ''category'')) \<or> isl (asPrice (map_of raw ''priceMinor'')) \<or>
        isl (asPrice (map_of raw ''priceInclusiveMinor'')) then None
     else Some (key (the (asString (map_of raw ''code'')))))"

lemma add_ref_fields [simp]:
  "ip_products (add_ref known key k v pl) = ip_products pl" "ip_services (add_ref known key k v pl) = ip_services pl"
  "ip_seen (add_ref known key k v pl) = ip_seen pl"
  by (simp_all add: add_ref_def split: option.split)

lemma add_issue_fields [simp]:
  "ip_products (add_issue k i c w pl) = ip_products pl" "ip_services (add_issue k i c w pl) = ip_services pl"
  "ip_seen (add_issue k i c w pl) = ip_seen pl"
  by (simp_all add: add_issue_def)

text \<open>What planning one row does to the planned rows.\<close>

lemma plan_product_effect:
  "ip_services (plan_one_product key d (i, raw) pl) = ip_services pl \<and>
   (case product_candidate key raw of
      None \<Rightarrow> ip_products (plan_one_product key d (i, raw) pl) = ip_products pl \<and> ip_seen (plan_one_product key d (i, raw) pl) = ip_seen pl
    | Some ck \<Rightarrow>
        if ck \<in> existing_product_codes key d \<or> ck \<in> set (ip_seen pl)
        then ip_products (plan_one_product key d (i, raw) pl) = ip_products pl \<and> ip_seen (plan_one_product key d (i, raw) pl) = ip_seen pl
        else ip_seen (plan_one_product key d (i, raw) pl) = ck # ip_seen pl \<and>
          (\<exists>p. ip_products (plan_one_product key d (i, raw) pl) = ip_products pl @ [p] \<and> composite key (pp_company p) (pp_code p) = ck))"
  by (auto simp: plan_one_product_def product_candidate_def Let_def split: sum.split)

lemma plan_service_effect:
  "ip_products (plan_one_service key d (i, raw) pl) = ip_products pl \<and>
   (case service_candidate key raw of
      None \<Rightarrow> ip_services (plan_one_service key d (i, raw) pl) = ip_services pl \<and> ip_seen (plan_one_service key d (i, raw) pl) = ip_seen pl
    | Some ck \<Rightarrow>
        if ck \<in> existing_service_codes key d \<or> ck \<in> set (ip_seen pl)
        then ip_services (plan_one_service key d (i, raw) pl) = ip_services pl \<and> ip_seen (plan_one_service key d (i, raw) pl) = ip_seen pl
        else ip_seen (plan_one_service key d (i, raw) pl) = ck # ip_seen pl \<and>
          (\<exists>s. ip_services (plan_one_service key d (i, raw) pl) = ip_services pl @ [s] \<and> key (ps_code s) = ck))"
  by (auto simp: plan_one_service_def service_candidate_def Let_def split: sum.split)

text \<open>Every candidate exists already or is planned.\<close>

lemma products_planned:
  assumes "set (ip_seen pl) \<subseteq> planned_products key (ip_products pl)"
  shows "planned_products key (ip_products pl) \<subseteq> planned_products key (ip_products (fold (plan_one_product key d) irs pl)) \<and>
    ip_services (fold (plan_one_product key d) irs pl) = ip_services pl \<and>
    (\<forall>ir\<in>set irs. \<forall>ck. product_candidate key (snd ir) = Some ck \<longrightarrow>
      ck \<in> existing_product_codes key d \<union> planned_products key (ip_products (fold (plan_one_product key d) irs pl)))"
  using assms
proof (induction irs arbitrary: pl)
  case Nil
  then show ?case by simp
next
  case (Cons ir irs)
  obtain i raw where ir: "ir = (i, raw)" by (cases ir)
  let ?pl = "plan_one_product key d ir pl"
  have grows: "planned_products key (ip_products pl) \<subseteq> planned_products key (ip_products ?pl)"
    "set (ip_seen ?pl) \<subseteq> planned_products key (ip_products ?pl)" "ip_services ?pl = ip_services pl"
    "\<forall>ck. product_candidate key raw = Some ck \<longrightarrow> ck \<in> existing_product_codes key d \<union> planned_products key (ip_products ?pl)"
    using plan_product_effect [of key d i raw pl] Cons.prems
    by (auto simp: ir planned_products_def split: option.splits if_splits)
  from Cons.IH [OF grows(2)] grows show ?case by (auto simp: ir)
qed

lemma services_planned:
  assumes "set (ip_seen pl) \<subseteq> planned_services key (ip_services pl)"
  shows "planned_services key (ip_services pl) \<subseteq> planned_services key (ip_services (fold (plan_one_service key d) irs pl)) \<and>
    ip_products (fold (plan_one_service key d) irs pl) = ip_products pl \<and>
    (\<forall>ir\<in>set irs. \<forall>ck. service_candidate key (snd ir) = Some ck \<longrightarrow>
      ck \<in> existing_service_codes key d \<union> planned_services key (ip_services (fold (plan_one_service key d) irs pl)))"
  using assms
proof (induction irs arbitrary: pl)
  case Nil
  then show ?case by simp
next
  case (Cons ir irs)
  obtain i raw where ir: "ir = (i, raw)" by (cases ir)
  let ?pl = "plan_one_service key d ir pl"
  have grows: "planned_services key (ip_services pl) \<subseteq> planned_services key (ip_services ?pl)"
    "set (ip_seen ?pl) \<subseteq> planned_services key (ip_services ?pl)" "ip_products ?pl = ip_products pl"
    "\<forall>ck. service_candidate key raw = Some ck \<longrightarrow> ck \<in> existing_service_codes key d \<union> planned_services key (ip_services ?pl)"
    using plan_service_effect [of key d i raw pl] Cons.prems
    by (auto simp: ir planned_services_def split: option.splits if_splits)
  from Cons.IH [OF grows(2)] grows show ?case by (auto simp: ir)
qed

lemma nothing_planned:
  assumes "\<forall>ir\<in>set irs. \<forall>ck. product_candidate key (snd ir) = Some ck \<longrightarrow> ck \<in> existing_product_codes key d"
  shows "ip_products (fold (plan_one_product key d) irs pl) = ip_products pl \<and>
    ip_services (fold (plan_one_product key d) irs pl) = ip_services pl"
  using assms
proof (induction irs arbitrary: pl)
  case (Cons ir irs)
  obtain i raw where ir: "ir = (i, raw)" by (cases ir)
  have "ip_products (plan_one_product key d ir pl) = ip_products pl" "ip_services (plan_one_product key d ir pl) = ip_services pl"
    using plan_product_effect [of key d i raw pl] Cons.prems by (auto simp: ir split: option.splits if_splits)
  with Cons show ?case by simp
qed simp

lemma no_service_planned:
  assumes "\<forall>ir\<in>set irs. \<forall>ck. service_candidate key (snd ir) = Some ck \<longrightarrow> ck \<in> existing_service_codes key d"
  shows "ip_services (fold (plan_one_service key d) irs pl) = ip_services pl \<and>
    ip_products (fold (plan_one_service key d) irs pl) = ip_products pl"
  using assms
proof (induction irs arbitrary: pl)
  case (Cons ir irs)
  obtain i raw where ir: "ir = (i, raw)" by (cases ir)
  have "ip_services (plan_one_service key d ir pl) = ip_services pl" "ip_products (plan_one_service key d ir pl) = ip_products pl"
    using plan_service_effect [of key d i raw pl] Cons.prems by (auto simp: ir split: option.splits if_splits)
  with Cons show ?case by simp
qed simp

text \<open>
  While an import runs, rows are only added, and every cached id belongs to a row whose name
  the planner takes for the cached one. The last needs that strings the database takes for
  equal are equal for the planner.
\<close>

definition compares_finer :: "(string \<Rightarrow> string) \<Rightarrow> (string \<Rightarrow> string) \<Rightarrow> bool" where
  "compares_finer lower key \<longleftrightarrow> (\<forall>x y. lower x = lower y \<longrightarrow> key x = key y)"

definition cached :: "(string \<Rightarrow> string) \<Rightarrow> import_state \<Rightarrow> bool" where
  "cached key st \<longleftrightarrow> (\<forall>k. keyed rf_id (refs (is_db st) k)) \<and>
    (\<forall>k x i. is_ids st k x = Some i \<longrightarrow> (\<exists>r. by_id rf_id i (refs (is_db st) k) = Some r \<and> key (ref_label k r) = x))"

definition only_adds :: "cdb \<Rightarrow> cdb \<Rightarrow> bool" where
  "only_adds d d' \<longleftrightarrow> (\<forall>k i r. by_id rf_id i (refs d k) = Some r \<longrightarrow> by_id rf_id i (refs d' k) = Some r) \<and>
    set (rows (products d)) \<subseteq> set (rows (products d')) \<and> set (rows (services d)) \<subseteq> set (rows (services d'))"

lemma only_adds_refl: "only_adds d d"
  by (simp add: only_adds_def)

lemma only_adds_trans: "only_adds d d1 \<Longrightarrow> only_adds d1 d2 \<Longrightarrow> only_adds d d2"
  unfolding only_adds_def by blast

lemma existing_iff:
  "x \<in> existing_product_codes key d \<longleftrightarrow>
    (\<exists>p\<in>set (rows (products d)). \<exists>c. by_id rf_id (pd_company p) (refs d Companies) = Some c \<and> x = composite key (rf_name c) (pd_code p))"
  by (auto simp: existing_product_codes_def List.map_filter_def image_iff) force+

lemma existing_mono:
  assumes "only_adds d d'"
  shows "existing_product_codes key d \<subseteq> existing_product_codes key d'" "existing_service_codes key d \<subseteq> existing_service_codes key d'"
proof -
  show "existing_product_codes key d \<subseteq> existing_product_codes key d'"
  proof
    fix x assume "x \<in> existing_product_codes key d"
    then obtain p c where "p \<in> set (rows (products d))" "by_id rf_id (pd_company p) (refs d Companies) = Some c"
        "x = composite key (rf_name c) (pd_code p)"
      unfolding existing_iff by blast
    moreover from this assms have "p \<in> set (rows (products d'))" "by_id rf_id (pd_company p) (refs d' Companies) = Some c"
      by (simp_all add: only_adds_def subset_iff)
    ultimately show "x \<in> existing_product_codes key d'" unfolding existing_iff by blast
  qed
  show "existing_service_codes key d \<subseteq> existing_service_codes key d'"
    using assms by (auto simp: existing_service_codes_def only_adds_def)
qed

lemma cached_step:
  assumes "cached key st" "is_ids st' = (is_ids st)(k := (is_ids st k)(key v \<mapsto> i))"
    and "\<And>k. keyed rf_id (refs (is_db st') k)"
    and "\<And>k j r. by_id rf_id j (refs (is_db st) k) = Some r \<Longrightarrow> by_id rf_id j (refs (is_db st') k) = Some r"
    and "\<exists>r. by_id rf_id i (refs (is_db st') k) = Some r \<and> key (ref_label k r) = key v"
  shows "cached key st'"
  unfolding cached_def
proof (intro conjI allI impI)
  show "keyed rf_id (refs (is_db st') k)" for k by (rule assms(3))
  fix k' x j assume j: "is_ids st' k' x = Some j"
  show "\<exists>r. by_id rf_id j (refs (is_db st') k') = Some r \<and> key (ref_label k' r) = x"
  proof (cases "k' = k \<and> x = key v")
    case True
    with j assms(2,5) show ?thesis by simp
  next
    case False
    with j assms(2) have "is_ids st k' x = Some j" by (auto split: if_splits)
    with assms(1,4) show ?thesis unfolding cached_def by blast
  qed
qed

lemma resolve_ref_cached:
  assumes fine: "compares_finer lower key" and ok: "cached key st" and run: "resolve_ref key lower q k v st = (i, st')"
  shows "cached key st' \<and> only_adds (is_db st) (is_db st') \<and>
    (\<exists>r. by_id rf_id i (refs (is_db st') k) = Some r \<and> key (ref_label k r) = key v)"
proof (cases "is_ids st k (key v)")
  case (Some j)
  with run ok show ?thesis by (auto simp: resolve_ref_def only_adds_refl cached_def)
next
  case no_id: None
  have ked: "keyed rf_id (refs (is_db st) k)" using ok by (simp add: cached_def)
  show ?thesis
  proof (cases "t_first (\<lambda>r. lower (ref_label k r) = lower v) (refs (is_db st) k)")
    case (Some r)
    have r: "by_id rf_id (rf_id r) (refs (is_db st) k) = Some r" "key (ref_label k r) = key v"
    proof -
      show "by_id rf_id (rf_id r) (refs (is_db st) k) = Some r" by (rule by_id_member [OF ked]) (use t_first_Some [OF Some] in simp)
      show "key (ref_label k r) = key v" using t_first_Some [OF Some] fine unfolding compares_finer_def by blast
    qed
    have st': "is_db st' = is_db st" "i = rf_id r" "is_ids st' = (is_ids st)(k := (is_ids st k)(key v \<mapsto> i))"
      using run by (auto simp: resolve_ref_def no_id Some Let_def)
    have "cached key st'"
      by (rule cached_step [OF ok st'(3)]) (use ok r in \<open>simp_all add: st' cached_def\<close>)
    with r show ?thesis by (auto simp: st' only_adds_refl)
  next
    case None
    let ?mk = "new_ref q v (if hasCode k then Some v else None)"
    have st': "is_db st' = put_ref k (t_insert ?mk) (is_db st)" "i = next_id (refs (is_db st) k)"
        "is_ids st' = (is_ids st)(k := (is_ids st k)(key v \<mapsto> i))"
      using run no_id None by (auto simp: resolve_ref_def Let_def)
    have look: "by_id rf_id j (t_insert ?mk (refs (is_db st) k))
        = (if j = next_id (refs (is_db st) k) then Some (?mk j) else by_id rf_id j (refs (is_db st) k))" for j
      by (rule by_id_insert [OF ked]) (simp add: new_ref_def)
    have fresh: "by_id rf_id i (refs (is_db st) k) = None"
      using ked by (auto simp: st'(2) by_id_None keyed_def)
    have new: "by_id rf_id i (refs (is_db st') k) = Some (?mk i)" "key (ref_label k (?mk i)) = key v"
      by (simp_all add: st'(1,2) look ref_label_def new_ref_def given_def)
    have old: "by_id rf_id j (refs (is_db st') k') = Some r" if "by_id rf_id j (refs (is_db st) k') = Some r" for k' j r
      using that fresh by (auto simp: st'(1,2) look)
    have "keyed rf_id (refs (is_db st') k')" for k'
      using ok by (auto simp: st'(1) cached_def new_ref_def intro: keyed_insert)
    then have "cached key st'" by (intro cached_step [OF ok st'(3)]) (use old new in blast)+
    then show ?thesis using old new by (auto simp: only_adds_def st'(1))
  qed
qed

lemma resolve_opt_cached:
  assumes "compares_finer lower key" "cached key st" "resolve_opt key lower q k v st = (i, st')"
  shows "cached key st' \<and> only_adds (is_db st) (is_db st')"
proof (cases "missing v")
  case True
  with assms show ?thesis by (simp add: resolve_opt_def only_adds_refl)
next
  case False
  then obtain j where "resolve_ref key lower q k (the v) st = (j, st')"
    using assms(3) by (auto simp: resolve_opt_def split: prod.splits)
  with resolve_ref_cached [OF assms(1,2)] show ?thesis by blast
qed

lemma cached_db: "cached key st \<Longrightarrow> refs d' = refs (is_db st) \<Longrightarrow> cached key (st\<lparr>is_db := d'\<rparr>)"
  by (simp add: cached_def)

lemma import_product_adds:
  assumes fine: "compares_finer lower key" and ok: "cached key st" and run: "import_product key lower q user p st = Inr st'"
  shows "cached key st' \<and> only_adds (is_db st) (is_db st') \<and>
    composite key (pp_company p) (pp_code p) \<in> existing_product_codes key (is_db st')"
proof -
  obtain c st1 where 1: "resolve_ref key lower q Companies (pp_company p) st = (c, st1)" by (rule prod.exhaust)
  obtain k st2 where 2: "resolve_ref key lower q ProductCategories (pp_category p) st1 = (k, st2)" by (rule prod.exhaust)
  obtain b st3 where 3: "resolve_opt key lower q Brands (pp_brand p) st2 = (b, st3)" by (rule prod.exhaust)
  obtain u st4 where 4: "resolve_opt key lower q Units (pp_unit p) st3 = (u, st4)" by (rule prod.exhaust)
  note c1 = resolve_ref_cached [OF fine ok 1]
  then have c2: "cached key st2 \<and> only_adds (is_db st1) (is_db st2)" using resolve_ref_cached [OF fine _ 2] by blast
  then have c3: "cached key st3 \<and> only_adds (is_db st2) (is_db st3)" using resolve_opt_cached [OF fine _ 3] by blast
  then have c4: "cached key st4 \<and> only_adds (is_db st3) (is_db st4)" using resolve_opt_cached [OF fine _ 4] by blast
  have st4: "only_adds (is_db st1) (is_db st4)" using c2 c3 c4 only_adds_trans by blast
  obtain r where r: "by_id rf_id c (refs (is_db st4) Companies) = Some r" "key (rf_name r) = key (pp_company p)"
    using c1 st4 by (auto simp: only_adds_def ref_label_def hasCode_def)
  let ?mk = "\<lambda>i. \<lparr>pd_id = i, pd_code = pp_code p, pd_name = pp_name p, pd_company = c, pd_brand = b, pd_category = k,
    pd_unit = u, pd_price = pp_price p, pd_currency = DEFAULT_CURRENCY, pd_status = CAT_ACTIVE, pd_version = 1,
    pd_source = SRC_IMPORT, pd_source_ref = Some (pp_code p), pd_created_by = user, pd_updated_by = user,
    pd_created_at = rq_now q, pd_updated_at = rq_now q\<rparr>"
  have "products (is_db st') = t_insert ?mk (products (is_db st4)) \<and> refs (is_db st') = refs (is_db st4) \<and>
      services (is_db st') = services (is_db st4) \<and> is_ids st' = is_ids st4"
    using run by (auto simp add: import_product_def 1 2 3 4 Let_def split: if_splits)
  then obtain new where new: "pd_company new = c" "pd_code new = pp_code p"
      "set (rows (products (is_db st'))) = insert new (set (rows (products (is_db st4))))"
      "refs (is_db st') = refs (is_db st4)" "services (is_db st') = services (is_db st4)" "is_ids st' = is_ids st4"
    by (intro that [of "?mk (next_id (products (is_db st4)))"]) (simp_all add: set_rows_insert)
  have "cached key st'" using c4 new(4,6) by (simp add: cached_def)
  moreover have "only_adds (is_db st4) (is_db st')" using new(3-5) by (auto simp: only_adds_def)
  moreover have "composite key (pp_company p) (pp_code p) \<in> existing_product_codes key (is_db st')"
    unfolding existing_iff using new r by (intro bexI [of _ new] exI [of _ r]) (simp_all add: composite_def)
  ultimately show ?thesis using c1 st4 only_adds_trans by blast
qed

lemma import_service_adds:
  assumes fine: "compares_finer lower key" and ok: "cached key st" and run: "import_service key lower q user s st = Inr st'"
  shows "cached key st' \<and> only_adds (is_db st) (is_db st') \<and> key (ps_code s) \<in> existing_service_codes key (is_db st')"
proof -
  obtain k st1 where 1: "resolve_ref key lower q ServiceCategories (ps_category s) st = (k, st1)" by (rule prod.exhaust)
  note c1 = resolve_ref_cached [OF fine ok 1]
  let ?mk = "\<lambda>i. \<lparr>sv_id = i, sv_code = ps_code s, sv_name = ps_name s, sv_category = k, sv_duration = ps_duration s,
    sv_price = ps_price s, sv_currency = DEFAULT_CURRENCY, sv_basis = ps_basis s, sv_tax_bp = ps_tax_bp s,
    sv_inclusive = ps_inclusive s, sv_status = CAT_ACTIVE, sv_version = 1, sv_source = SRC_IMPORT,
    sv_source_ref = Some (ps_code s), sv_created_by = user, sv_updated_by = user, sv_created_at = rq_now q,
    sv_updated_at = rq_now q\<rparr>"
  have "services (is_db st') = t_insert ?mk (services (is_db st1)) \<and> refs (is_db st') = refs (is_db st1) \<and>
      products (is_db st') = products (is_db st1) \<and> is_ids st' = is_ids st1"
    using run by (auto simp add: import_service_def 1 Let_def split: if_splits)
  then obtain new where new: "sv_code new = ps_code s"
      "set (rows (services (is_db st'))) = insert new (set (rows (services (is_db st1))))"
      "refs (is_db st') = refs (is_db st1)" "products (is_db st') = products (is_db st1)" "is_ids st' = is_ids st1"
    by (intro that [of "?mk (next_id (services (is_db st1)))"]) (simp_all add: set_rows_insert)
  have "cached key st'" using c1 new(3,5) by (simp add: cached_def)
  moreover have "only_adds (is_db st1) (is_db st')" using new(2-4) by (auto simp: only_adds_def)
  moreover have "key (ps_code s) \<in> existing_service_codes key (is_db st')"
    using new by (auto simp: existing_service_codes_def image_iff)
  ultimately show ?thesis using c1 only_adds_trans by blast
qed

lemma import_all_adds:
  assumes "import_all f xs st = Inr st'" "cached key st"
    and one: "\<And>x st st'. cached key st \<Longrightarrow> f x st = Inr st' \<Longrightarrow> cached key st' \<and> only_adds (is_db st) (is_db st') \<and> P x (is_db st')"
    and mono: "\<And>x d d'. only_adds d d' \<Longrightarrow> P x d \<Longrightarrow> P x d'"
  shows "cached key st' \<and> only_adds (is_db st) (is_db st') \<and> (\<forall>x\<in>set xs. P x (is_db st'))"
  using assms(1,2)
proof (induction xs arbitrary: st)
  case Nil
  then show ?case by (simp add: only_adds_refl)
next
  case (Cons x xs)
  then obtain st1 where st1: "f x st = Inr st1" "import_all f xs st1 = Inr st'" by (auto simp: andThen_Inr_iff)
  note x = one [OF Cons.prems(2) st1(1)]
  from Cons.IH [OF st1(2)] x have rest: "cached key st' \<and> only_adds (is_db st1) (is_db st') \<and> (\<forall>x\<in>set xs. P x (is_db st'))" by blast
  have "P x (is_db st')" using mono [of "is_db st1" "is_db st'" x] x rest by blast
  moreover have "only_adds (is_db st) (is_db st')" using only_adds_trans [of "is_db st" "is_db st1"] x rest by blast
  ultimately show ?case using rest by simp
qed

lemma in_enumerate: "x \<in> set xs \<Longrightarrow> \<exists>i. (i, x) \<in> set (List.enumerate n xs)"
  by (metis (no_types, opaque_lifting) imageE map_snd_enumerate prod.collapse set_map)

lemma enumerate_member: "ir \<in> set (List.enumerate n xs) \<Longrightarrow> snd ir \<in> set xs"
  by (metis image_eqI map_snd_enumerate set_map)

text \<open>After an import every candidate of the source exists.\<close>

lemma imported_all:
  assumes fine: "compares_finer lower key" and refs: "refs_ok d" and run: "applyImport key lower q user src d = Inr (rep, d')"
  shows "only_adds d d' \<and>
    (\<forall>raw\<in>set (rs_products src). \<forall>ck. product_candidate key raw = Some ck \<longrightarrow> ck \<in> existing_product_codes key d') \<and>
    (\<forall>raw\<in>set (rs_services src). \<forall>ck. service_candidate key raw = Some ck \<longrightarrow> ck \<in> existing_service_codes key d')"
proof -
  let ?pl = "buildPlan key src d" and ?start = "\<lparr>is_db = d, is_ids = (\<lambda>k x. None), is_refs = 0\<rparr>"
  let ?pl1 = "fold (plan_one_product key d) (List.enumerate 0 (rs_products src)) empty_plan"
  obtain st1 st2 where 1: "import_all (import_product key lower q user) (ip_products ?pl) ?start = Inr st1"
      and 2: "import_all (import_service key lower q user) (ip_services ?pl) st1 = Inr st2"
      and d': "only_adds (is_db st2) d'" "products d' = products (is_db st2)" "services d' = services (is_db st2)" "refs d' = refs (is_db st2)"
    using run by (auto simp: applyImport_def Let_def andThen_Inr_iff log_import_def only_adds_def)
  have start: "cached key ?start" using refs by (simp add: cached_def refs_ok_def)
  have p: "cached key st1 \<and> only_adds d (is_db st1) \<and>
      (\<forall>p\<in>set (ip_products ?pl). composite key (pp_company p) (pp_code p) \<in> existing_product_codes key (is_db st1))"
  proof -
    have "cached key st1 \<and> only_adds (is_db ?start) (is_db st1) \<and>
      (\<forall>p\<in>set (ip_products ?pl). composite key (pp_company p) (pp_code p) \<in> existing_product_codes key (is_db st1))"
      by (rule import_all_adds [OF 1 start]) (use import_product_adds [OF fine] existing_mono(1) in blast)+
    then show ?thesis by simp
  qed
  have s: "cached key st2 \<and> only_adds (is_db st1) (is_db st2) \<and>
      (\<forall>s\<in>set (ip_services ?pl). key (ps_code s) \<in> existing_service_codes key (is_db st2))"
    by (rule import_all_adds [OF 2 conjunct1 [OF p]]) (use import_service_adds [OF fine] existing_mono(2) in blast)+
  have adds: "only_adds d d'" "only_adds (is_db st1) d'" using p s d'(1) only_adds_trans by blast+
  have plan: "ip_products ?pl = ip_products ?pl1"
    using services_planned [of "?pl1\<lparr>ip_seen := []\<rparr>" key d "List.enumerate 0 (rs_services src)"] by (simp add: buildPlan_def Let_def)
  have "ck \<in> existing_product_codes key d'" if raw: "raw \<in> set (rs_products src)" "product_candidate key raw = Some ck" for raw ck
  proof -
    obtain i where "(i, raw) \<in> set (List.enumerate 0 (rs_products src))"
      using in_enumerate [OF raw(1)] by blast
    then have "ck \<in> existing_product_codes key d \<union> planned_products key (ip_products ?pl)"
      using products_planned [of empty_plan key d "List.enumerate 0 (rs_products src)"] raw(2) plan by (fastforce simp: empty_plan_def)
    moreover have "planned_products key (ip_products ?pl) \<subseteq> existing_product_codes key (is_db st1)"
      using p by (auto simp: planned_products_def)
    ultimately show ?thesis using existing_mono(1) [OF adds(1), of key] existing_mono(1) [OF adds(2), of key] by blast
  qed
  moreover have "ck \<in> existing_service_codes key d'" if raw: "raw \<in> set (rs_services src)" "service_candidate key raw = Some ck" for raw ck
  proof -
    obtain i where i: "(i, raw) \<in> set (List.enumerate 0 (rs_services src))"
      using in_enumerate [OF raw(1)] by blast
    have "ck \<in> existing_service_codes key d \<union> planned_services key (ip_services ?pl)"
      using services_planned [of "?pl1\<lparr>ip_seen := []\<rparr>" key d "List.enumerate 0 (rs_services src)"] raw(2) i
      by (fastforce simp: buildPlan_def Let_def)
    moreover have "planned_services key (ip_services ?pl) \<subseteq> existing_service_codes key (is_db st2)"
      using s by (auto simp: planned_services_def)
    ultimately show ?thesis using existing_mono(2) [OF adds(1), of key] existing_mono(2) [OF d'(1), of key] by blast
  qed
  ultimately show ?thesis using adds(1) by blast
qed



subsection \<open>An import that cannot be applied\<close>

definition service_row :: "string \<Rightarrow> raw" where
  "service_row code = [(''code'', JStr code), (''name'', JStr ''Wash''), (''category'', JStr ''Care'')]"

definition service_of :: "string \<Rightarrow> plan_service" where
  "service_of code = \<lparr>ps_code = code, ps_name = ''Wash'', ps_category = ''Care'', ps_duration = None, ps_price = None,
     ps_basis = UNKNOWN_BASIS, ps_tax_bp = None, ps_inclusive = None\<rparr>"

lemma plan_service_row:
  assumes "code \<noteq> []" "normalizeName code = code"
    and "key code \<notin> existing_service_codes key d" "key code \<notin> set (ip_seen pl)"
  shows "ip_services (plan_one_service key d (i, service_row code) pl) = ip_services pl @ [service_of code] \<and>
    ip_issues (plan_one_service key d (i, service_row code) pl) = ip_issues pl \<and>
    ip_products (plan_one_service key d (i, service_row code) pl) = ip_products pl \<and>
    ip_seen (plan_one_service key d (i, service_row code) pl) = key code # ip_seen pl"
proof -
  have "normalizeName ''Wash'' = ''Wash''" "normalizeName ''Care'' = ''Care''" by code_simp+
  with assms show ?thesis
    by (simp add: plan_one_service_def service_row_def service_of_def asString_def asPrice_def asCount_def basis_of_def
        missing_def add_ref_def Let_def)
qed

text \<open>A planner that is finer than the database: if two new services have codes that differ for the planner and
  are the same for the database (accents under an accent-insensitive collation), the dry run reports both as
  insertable with no issue, and applying the same source fails on the unique index, so nothing is imported.\<close>
theorem import_can_abort:
  assumes "empty_catalog d" "code1 \<noteq> []" "code2 \<noteq> []" "normalizeName code1 = code1" "normalizeName code2 = code2"
    and "key code1 \<noteq> key code2" "lower code1 = lower code2"
    and "src = \<lparr>rs_products = [], rs_services = [service_row code1, service_row code2]\<rparr>"
  shows "ic_toInsert (ir_services (planImport key src d)) = 2 \<and> ir_issues (planImport key src d) = [] \<and>
    applyImport key lower q user src d = Inl duplicateKey"
proof -
  have none: "existing_service_codes key d = {}"
    using assms(1) by (simp add: empty_catalog_def existing_service_codes_def empty_tbl_def)
  let ?pl1 = "plan_one_service key d (0, service_row code1) empty_plan"
  have 1: "ip_services ?pl1 = [service_of code1]" "ip_issues ?pl1 = []" "ip_products ?pl1 = []" "ip_seen ?pl1 = [key code1]"
    using plan_service_row [OF assms(2,4), of key d empty_plan 0] none by (simp_all add: empty_plan_def)
  have seen: "empty_plan\<lparr>ip_seen := []\<rparr> = empty_plan" by (simp add: empty_plan_def)
  have plan: "ip_services (buildPlan key src d) = [service_of code1, service_of code2] \<and> ip_products (buildPlan key src d) = [] \<and>
      ip_issues (buildPlan key src d) = []"
    using plan_service_row [OF assms(3,5), of key d ?pl1 1] none assms(6) 1
    by (simp add: buildPlan_def Let_def assms(8) seen)
  have "import_all (import_service key lower q user) [service_of code1, service_of code2]
      \<lparr>is_db = d, is_ids = (\<lambda>k x. None), is_refs = 0\<rparr> = Inl duplicateKey"
    using assms(1,7) by (simp add: empty_catalog_def empty_tbl_def service_of_def import_service_def resolve_ref_def
      Let_def t_first_def service_code_free_def t_insert_def throw_if_def andThen_def)
  with plan show ?thesis
    by (simp add: planImport_def import_report_of_def counts_def applyImport_def Let_def assms(8))
qed

subsection \<open>A sample catalogue\<close>

definition same_case :: "string \<Rightarrow> string" where
  "same_case = map lower_char"

definition minute :: "nat \<Rightarrow> req" where
  "minute t = \<lparr>rq_now = t, rq_ip = None, rq_agent = None\<rparr>"

definition manager :: auth_user where
  "manager = \<lparr>au_id = 1, au_role = RAHBAR, au_branch = None, au_status = U_ACTIVE, au_must_change = False\<rparr>"

definition no_catalog :: cdb where
  "no_catalog = \<lparr>refs = (\<lambda>k. empty_tbl), products = empty_tbl, services = empty_tbl, prices = empty_tbl,
     injections = empty_tbl, clog = []\<rparr>"

definition sample_source :: raw_source where
  "sample_source =
    \<lparr>rs_products = [[(''code'', JStr ''R-1''), (''name'', JStr ''Reducer''), (''company'', JStr ''Tomasetto''),
                     (''category'', JStr ''Gas''), (''priceMinor'', JStr ''250'')]],
     rs_services = [service_row ''S-1'']\<rparr>"

definition imported :: cdb where
  "imported = committed (applyImport same_case same_case (minute 1) 1 sample_source) no_catalog"

definition new_price :: "nat \<Rightarrow> product_update" where
  "new_price v = \<lparr>up_version = v, up_code = None, up_name = None, up_company = None, up_category = None, up_brand = None,
     up_unit = None, up_price = Some (Some (Fin 300)), up_currency = None, up_reason = None\<rparr>"

definition repriced :: cdb where
  "repriced = committed (updateProduct same_case (minute 2) manager 1 (new_price 1)) imported"

lemma sample_runs:
  "\<exists>rep. applyImport same_case same_case (minute 1) 1 sample_source no_catalog = Inr (rep, imported)"
  "\<exists>u. updateProduct same_case (minute 2) manager 1 (new_price 1) imported = Inr (u, repriced)"
  unfolding imported_def repriced_def by (rule committed_Inr; code_simp)+

lemma catalog_sample: "empty_catalog no_catalog" "(catalog_step same_case same_case)\<^sup>*\<^sup>* no_catalog imported"
  "(catalog_step same_case same_case)\<^sup>*\<^sup>* no_catalog repriced"
proof -
  show "empty_catalog no_catalog" by (simp add: empty_catalog_def no_catalog_def)
  have "catalog_step same_case same_case no_catalog imported" using sample_runs(1) by (blast intro: cs_import)
  then show i: "(catalog_step same_case same_case)\<^sup>*\<^sup>* no_catalog imported" by blast
  have "catalog_step same_case same_case imported repriced" using sample_runs(2) by (blast intro: cs_updateProduct)
  with i show "(catalog_step same_case same_case)\<^sup>*\<^sup>* no_catalog repriced" by (rule rtranclp.rtrancl_into_rtrancl)
qed

theorem catalog_consistent_witness:
  "price_chain None (history_of PricedProduct 1 (prices repriced)) (Some 300) \<and>
   map hi_new (history_of PricedProduct 1 (prices repriced)) = [Some 250, Some 300] \<and> codes_unique same_case repriced"
proof -
  have "map (\<lambda>p. (pd_id p, pd_price p)) (rows (products repriced)) = [(1, Some 300)]" by code_simp
  then obtain p where "p \<in> set (rows (products repriced))" "pd_id p = 1" "pd_price p = Some 300" by (auto simp: map_eq_Cons_conv)
  moreover have "map hi_new (history_of PricedProduct 1 (prices repriced)) = [Some 250, Some 300]" by code_simp
  ultimately show ?thesis using catalog_consistent [OF catalog_sample(1,3)] by metis
qed

theorem stale_write_witness:
  "isl (updateProduct same_case (minute 3) manager 1 (new_price 1) repriced) \<and>
   \<not> isl (updateProduct same_case (minute 3) manager 1 (new_price 2) repriced)"
proof
  obtain u where u: "updateProduct same_case (minute 2) manager 1 (new_price 1) imported = Inr (u, repriced)"
    using sample_runs(2) by blast
  show "isl (updateProduct same_case (minute 3) manager 1 (new_price 1) repriced)"
    by (rule stale_write_is_refused [OF catalog_sample(1,2) rtranclp.rtrancl_refl, THEN conjunct1, rule_format,
        OF conjI [OF u]]) simp
  show "\<not> isl (updateProduct same_case (minute 3) manager 1 (new_price 2) repriced)" by code_simp
qed


text \<open>An accent-insensitive comparison of the one accented letter used.\<close>

definition no_accent :: "string \<Rightarrow> string" where
  "no_accent = map (\<lambda>c. if c = CHR 0xE9 then CHR ''e'' else lower_char c)"

theorem import_abort_witness:
  "applyImport same_case no_accent (minute 1) 1 \<lparr>rs_products = [], rs_services = [service_row ''Te'', service_row [CHR ''T'', CHR 0xE9]]\<rparr>
     no_catalog = Inl duplicateKey"
proof -
  have "normalizeName ''Te'' = ''Te''" "normalizeName [CHR ''T'', CHR 0xE9] = [CHR ''T'', CHR 0xE9]"
    "same_case ''Te'' \<noteq> same_case [CHR ''T'', CHR 0xE9]" "no_accent ''Te'' = no_accent [CHR ''T'', CHR 0xE9]"
    by code_simp+
  then show ?thesis using import_can_abort [OF catalog_sample(1), of "''Te''" "[CHR ''T'', CHR 0xE9]"] by simp
qed

end
