(* ===== verification/RateLimit.thy ===== *)
theory RateLimit
  imports CatalogImport
begin

section \<open>Shared counters and the rate limiters\<close>

text \<open>
  Models src/redis/redis.ts (the counter \<open>incrWindow\<close> of both implementations of \<open>RedisLike\<close>) and
  src/middleware/rate-limit.middleware.ts (the limiters). The contract of the counter is the
  locale \<open>window_counter\<close>. The in-memory implementation satisfies it; the implementation by a
  Lua script satisfies it on any server that executes INCR, PTTL and PEXPIRE as documented,
  which is the locale \<open>redis_server\<close>. Times are milliseconds.

  Not modelled: the connection to the server and its timers. The keys are only written by
  \<open>incrWindow\<close>; \<open>get\<close>, \<open>set\<close> and \<open>del\<close> are not used by the program.
\<close>

subsection \<open>The contract of the counter\<close>

text \<open>
  A read-only view of a store at a time: \<open>counter\<close> is the count of a live key with its expiry,
  if it has one, \<open>free\<close> says that there is no live key. A call gets the key, the window and the
  time, and returns the count and the time left.
\<close>

locale window_counter =
  fixes incr :: "string \<Rightarrow> nat \<Rightarrow> nat \<Rightarrow> 's \<Rightarrow> (jsnum \<times> nat) \<times> 's"
    and counter :: "nat \<Rightarrow> 's \<Rightarrow> string \<Rightarrow> (nat \<times> nat option) option"
    and free :: "nat \<Rightarrow> 's \<Rightarrow> string \<Rightarrow> bool"
  assumes incr_first: "free now s k \<Longrightarrow> 0 < w \<Longrightarrow> \<exists>s'. incr k w now s = ((Fin 1, w), s') \<and> counter now s' k = Some (1, Some (now + w))"
    and incr_later: "counter now s k = Some (n, e) \<Longrightarrow> 0 < w \<Longrightarrow>
      \<exists>s'. incr k w now s = ((Fin (of_nat (Suc n)), (case e of None \<Rightarrow> w | Some t \<Rightarrow> t - now)), s') \<and>
           counter now s' k = Some (Suc n, Some (case e of None \<Rightarrow> now + w | Some t \<Rightarrow> t))"
    and incr_other: "k' \<noteq> k \<Longrightarrow> counter now' (snd (incr k w now s)) k' = counter now' s k' \<and>
      free now' (snd (incr k w now s)) k' = free now' s k'"
    and lapse: "counter now s k = Some (n, Some t) \<Longrightarrow> now < t \<and> (\<forall>now'\<ge>now. now' < t \<longrightarrow> counter now' s k = Some (n, Some t)) \<and>
      (\<forall>now'\<ge>t. free now' s k)"
    and lasting: "counter now s k = Some (n, None) \<Longrightarrow> now \<le> now' \<Longrightarrow> counter now' s k = Some (n, None)"
    and free_later: "free now s k \<Longrightarrow> now \<le> now' \<Longrightarrow> free now' s k"
    and free_counter: "free now s k \<Longrightarrow> counter now s k = None"

subsection \<open>The in-memory implementation\<close>

record mem_entry =
  me_value :: string
  me_expiresAt :: "nat option"

type_synonym mem = "string \<rightharpoonup> mem_entry"

text \<open>\<open>live\<close>: the entry, and the store without it if it has expired.\<close>

definition mem_live :: "string \<Rightarrow> nat \<Rightarrow> mem \<Rightarrow> mem_entry option \<times> mem" where
  "mem_live k now s =
    (case s k of
       None \<Rightarrow> (None, s)
     | Some e \<Rightarrow>
         (case me_expiresAt e of
            None \<Rightarrow> (Some e, s)
          | Some t \<Rightarrow> if t \<le> now then (None, s(k := None)) else (Some e, s)))"

text \<open>\<open>Number(v) + 1\<close> and \<open>String(n)\<close>.\<close>

definition js_succ :: "jsnum \<Rightarrow> jsnum" where
  "js_succ v = (case v of Fin q \<Rightarrow> Fin (q + 1) | _ \<Rightarrow> v)"

definition js_string :: "jsnum \<Rightarrow> string" where
  "js_string v = (case v of Fin q \<Rightarrow> num_str q | PosInf \<Rightarrow> ''Infinity'' | NegInf \<Rightarrow> ''-Infinity'' | NaN \<Rightarrow> ''NaN'')"

definition mem_incrWindow :: "string \<Rightarrow> nat \<Rightarrow> nat \<Rightarrow> mem \<Rightarrow> (jsnum \<times> nat) \<times> mem" where
  "mem_incrWindow k w now s =
    (let (existing, s1) = mem_live k now s in
     case existing of
       None \<Rightarrow> ((Fin 1, w), s1(k \<mapsto> \<lparr>me_value = ''1'', me_expiresAt = Some (now + w)\<rparr>))
     | Some e \<Rightarrow>
         (let count = js_succ (js_number (me_value e)); t = given (me_expiresAt e) (now + w)
          in ((count, t - now), s1(k \<mapsto> e\<lparr>me_value := js_string count, me_expiresAt := Some t\<rparr>))))"

subsection \<open>The implementation on a Redis server\<close>

text \<open>The commands of a server that the script uses, on keys that hold integers.\<close>

record 's redis_commands =
  rd_incr :: "string \<Rightarrow> nat \<Rightarrow> 's \<Rightarrow> nat \<times> 's"
  rd_pttl :: "string \<Rightarrow> nat \<Rightarrow> 's \<Rightarrow> int"
  rd_pexpire :: "string \<Rightarrow> nat \<Rightarrow> nat \<Rightarrow> 's \<Rightarrow> 's"

definition INCR_WINDOW_LUA :: "'s redis_commands \<Rightarrow> string \<Rightarrow> nat \<Rightarrow> nat \<Rightarrow> 's \<Rightarrow> (nat \<times> int) \<times> 's" where
  "INCR_WINDOW_LUA srv k w now s =
    (let (c, s1) = rd_incr srv k now s; ttl = rd_pttl srv k now s1
     in if ttl < 0 then ((c, int w), rd_pexpire srv k w now s1) else ((c, ttl), s1))"

definition redis_incrWindow :: "'s redis_commands \<Rightarrow> string \<Rightarrow> nat \<Rightarrow> nat \<Rightarrow> 's \<Rightarrow> (jsnum \<times> nat) \<times> 's" where
  "redis_incrWindow srv k w now s =
    (let ((c, ttl), s') = INCR_WINDOW_LUA srv k w now s
     in ((Fin (of_nat c), if ttl < 0 then w else nat ttl), s'))"

text \<open>What the Redis documentation says of the commands.\<close>

locale redis_server =
  fixes srv :: "'s redis_commands"
    and counter :: "nat \<Rightarrow> 's \<Rightarrow> string \<Rightarrow> (nat \<times> nat option) option"
    and free :: "nat \<Rightarrow> 's \<Rightarrow> string \<Rightarrow> bool"
  assumes incr_free: "free now s k \<Longrightarrow> \<exists>s'. rd_incr srv k now s = (1, s') \<and> counter now s' k = Some (1, None)"
    and incr_counter: "counter now s k = Some (n, e) \<Longrightarrow>
      \<exists>s'. rd_incr srv k now s = (Suc n, s') \<and> counter now s' k = Some (Suc n, e)"
    and incr_frame: "k' \<noteq> k \<Longrightarrow> counter now' (snd (rd_incr srv k now s)) k' = counter now' s k' \<and>
      free now' (snd (rd_incr srv k now s)) k' = free now' s k'"
    and pttl_counter: "counter now s k = Some (n, e) \<Longrightarrow>
      rd_pttl srv k now s = (case e of None \<Rightarrow> -1 | Some t \<Rightarrow> int t - int now)"
    and pexpire_counter: "counter now s k = Some (n, e) \<Longrightarrow> 0 < w \<Longrightarrow>
      counter now (rd_pexpire srv k w now s) k = Some (n, Some (now + w))"
    and pexpire_frame: "k' \<noteq> k \<Longrightarrow> counter now' (rd_pexpire srv k w now s) k' = counter now' s k' \<and>
      free now' (rd_pexpire srv k w now s) k' = free now' s k'"
    and expiry: "counter now s k = Some (n, Some t) \<Longrightarrow> now < t \<and> (\<forall>now'\<ge>now. now' < t \<longrightarrow> counter now' s k = Some (n, Some t)) \<and>
      (\<forall>now'\<ge>t. free now' s k)"
    and no_expiry: "counter now s k = Some (n, None) \<Longrightarrow> now \<le> now' \<Longrightarrow> counter now' s k = Some (n, None)"
    and stays_free: "free now s k \<Longrightarrow> now \<le> now' \<Longrightarrow> free now' s k"
    and free_none: "free now s k \<Longrightarrow> counter now s k = None"
begin

text \<open>The script keeps the contract: the first hit sets the window, a stray key is repaired.\<close>

lemma lua_later:
  assumes "counter now s k = Some (n, e)" "0 < w"
  shows "\<exists>s'. redis_incrWindow srv k w now s =
      ((Fin (of_nat (Suc n)), (case e of None \<Rightarrow> w | Some t \<Rightarrow> t - now)), s') \<and>
    counter now s' k = Some (Suc n, Some (case e of None \<Rightarrow> now + w | Some t \<Rightarrow> t))"
proof -
  obtain s1 where s1: "rd_incr srv k now s = (Suc n, s1)" "counter now s1 k = Some (Suc n, e)"
    using incr_counter [OF assms(1)] by blast
  show ?thesis
  proof (cases e)
    case None
    with s1 have "rd_pttl srv k now s1 = -1" using pttl_counter [OF s1(2)] by simp
    with s1 None pexpire_counter [OF s1(2) assms(2)] show ?thesis
      by (simp add: redis_incrWindow_def INCR_WINDOW_LUA_def)
  next
    case (Some t)
    then have "now < t" using expiry s1(2) by blast
    with s1 Some show ?thesis
      using pttl_counter [OF s1(2)] by (simp add: redis_incrWindow_def INCR_WINDOW_LUA_def nat_diff_distrib)
  qed
qed

lemma lua_first:
  assumes "free now s k" "0 < w"
  shows "\<exists>s'. redis_incrWindow srv k w now s = ((Fin 1, w), s') \<and> counter now s' k = Some (1, Some (now + w))"
proof -
  obtain s1 where s1: "rd_incr srv k now s = (1, s1)" "counter now s1 k = Some (1, None)"
    using incr_free [OF assms(1)] by blast
  then have "rd_pttl srv k now s1 = -1" using pttl_counter [OF s1(2)] by simp
  with s1 pexpire_counter [OF s1(2) assms(2)] show ?thesis
    by (simp add: redis_incrWindow_def INCR_WINDOW_LUA_def)
qed

lemma lua_other:
  assumes "k' \<noteq> k"
  shows "counter now' (snd (redis_incrWindow srv k w now s)) k' = counter now' s k' \<and>
    free now' (snd (redis_incrWindow srv k w now s)) k' = free now' s k'"
  using incr_frame [OF assms] pexpire_frame [OF assms]
  by (simp add: redis_incrWindow_def INCR_WINDOW_LUA_def split_beta Let_def)

end

sublocale redis_server \<subseteq> lua: window_counter "redis_incrWindow srv" counter free
  by unfold_locales (rule lua_first lua_later lua_other expiry no_expiry stays_free free_none; assumption)+

context redis_server
begin

lemma lua_contract: "window_counter (redis_incrWindow srv) counter free"
  by (rule lua.window_counter_axioms)

end

subsection \<open>Which implementation is used\<close>

datatype redis_kind = RK_REDIS | RK_MEMORY

text \<open>\<open>getRedis\<close>: the instance there is, or a new one; \<open>None\<close> is the exception of a production without URL.\<close>

definition getRedis :: "bool \<Rightarrow> bool \<Rightarrow> bool \<Rightarrow> redis_kind option \<Rightarrow> redis_kind option" where
  "getRedis isTest hasUrl isProduction inst =
    (if inst \<noteq> None then inst else if isTest then Some RK_MEMORY else if hasUrl then Some RK_REDIS
     else if isProduction then None else Some RK_MEMORY)"

subsection \<open>The two implementations keep the contract\<close>

text \<open>A digit string is read as its number.\<close>

lemma nat_str_ws: "c \<in> set (nat_str n) \<Longrightarrow> \<not> js_ws c"
  using nat_str_digits [of c n] by (auto simp: is_digit_def js_ws_def Let_def)

lemma trim_nat_str: "trim (nat_str n) = nat_str n"
proof -
  have id: "dropWhile js_ws xs = xs" if "\<forall>c\<in>set xs. \<not> js_ws c" for xs
    using that by (cases xs) auto
  have "dropWhile js_ws (nat_str n) = nat_str n" "dropWhile js_ws (rev (nat_str n)) = rev (nat_str n)"
    by (rule id; use nat_str_ws in auto)+
  then show ?thesis by (simp add: trim_def)
qed

lemma js_number_nat_str: "js_number (nat_str n) = Fin (of_nat n)"
proof -
  have digits: "list_all is_digit (nat_str n)" using nat_str_digits by (auto simp: list_all_iff)
  have no_letter: "take 2 (nat_str n) \<noteq> [c, x]" if "\<not> is_digit x" for c x
  proof
    assume "take 2 (nat_str n) = [c, x]"
    then have "x \<in> set (nat_str n)" by (metis in_set_takeD list.set_intros(1) list.set_intros(2))
    with nat_str_digits that show False by blast
  qed
  have "\<not> is_digit CHR ''x''" "\<not> is_digit CHR ''X''" "\<not> is_digit CHR ''o''" "\<not> is_digit CHR ''O''" "\<not> is_digit CHR ''b''" "\<not> is_digit CHR ''B''"
    by code_simp+
  note no = this [THEN no_letter]
  obtain c cs where cs: "nat_str n = c # cs" using nat_str_not_Nil [of n] by (cases "nat_str n") auto
  have c: "is_digit c" using digits cs by simp
  have sign: "split_sign (nat_str n) = (False, nat_str n)"
    using c unfolding cs by (auto simp: split_sign_def is_digit_def)
  have "nat_str n \<noteq> ''Infinity''" using c unfolding cs by (auto simp: is_digit_def)
  moreover have "takeWhile is_digit (nat_str n) = nat_str n" "dropWhile is_digit (nat_str n) = []"
    using digits by (simp_all add: list_all_iff)
  ultimately have "decimal_number (nat_str n) = Fin (of_nat n)"
    by (simp add: decimal_number_def sign Let_def decimal_exponent_def scaled_def del: dropWhile_eq_Nil_conv takeWhile_eq_all_conv)
  then show ?thesis using no by (simp add: js_number_def trim_nat_str Let_def)
qed

definition mem_counter :: "nat \<Rightarrow> mem \<Rightarrow> string \<Rightarrow> (nat \<times> nat option) option" where
  "mem_counter now s k =
    (case fst (mem_live k now s) of
       None \<Rightarrow> None
     | Some e \<Rightarrow> if me_value e = nat_str (digits_val (me_value e)) then Some (digits_val (me_value e), me_expiresAt e) else None)"

definition mem_free :: "nat \<Rightarrow> mem \<Rightarrow> string \<Rightarrow> bool" where
  "mem_free now s k \<longleftrightarrow> fst (mem_live k now s) = None"

lemma num_str_of_nat: "num_str (of_nat n) = nat_str n"
  by (simp add: num_str_def fraction_def)

lemma mem_live_other: "k' \<noteq> k \<Longrightarrow> mem_live k now s = (e, s') \<Longrightarrow> s' k' = s k'"
  by (auto simp: mem_live_def split: option.splits if_splits)

lemma mem_incr_other: "k' \<noteq> k \<Longrightarrow> snd (mem_incrWindow k w now s) k' = s k'"
  using mem_live_other [of k' k now s]
  by (auto simp: mem_incrWindow_def Let_def split: prod.splits option.splits)

lemma mem_live_local: "s k = s' k \<Longrightarrow> fst (mem_live k now s) = fst (mem_live k now s')"
  by (simp add: mem_live_def split: option.split)

interpretation memory: window_counter mem_incrWindow mem_counter mem_free
proof
  show "\<exists>s'. mem_incrWindow k w now s = ((Fin 1, w), s') \<and> mem_counter now s' k = Some (1, Some (now + w))"
    if pre: "mem_free now s k" "0 < w" for now s k w
  proof -
    have one: "nat_str (digits_val ''1'') = ''1''" "digits_val ''1'' = 1" by code_simp+
    obtain s1 where "mem_live k now s = (None, s1)" using pre(1) unfolding mem_free_def by (metis prod.collapse)
    then have "mem_incrWindow k w now s = ((Fin 1, w), s1(k \<mapsto> \<lparr>me_value = ''1'', me_expiresAt = Some (now + w)\<rparr>))"
      by (simp add: mem_incrWindow_def)
    then show ?thesis using pre(2) one by (simp add: mem_counter_def mem_live_def)
  qed
  show "\<exists>s'. mem_incrWindow k w now s = ((Fin (of_nat (Suc n)), (case e of None \<Rightarrow> w | Some t \<Rightarrow> t - now)), s') \<and>
      mem_counter now s' k = Some (Suc n, Some (case e of None \<Rightarrow> now + w | Some t \<Rightarrow> t))"
    if pre: "mem_counter now s k = Some (n, e)" "0 < w" for now s k n e w
  proof -
    obtain en s1 where en: "mem_live k now s = (Some en, s1)" "me_value en = nat_str n" "me_expiresAt en = e"
      using pre(1) by (auto simp: mem_counter_def split: option.splits if_splits) (metis prod.collapse)
    have "now < t" if "e = Some t" for t
      using en that by (auto simp: mem_live_def split: option.splits if_splits)
    moreover have "js_succ (js_number (nat_str n)) = Fin (of_nat (Suc n))"
      by (simp add: js_number_nat_str js_succ_def)
    moreover have "js_string (Fin (of_nat (Suc n))) = nat_str (Suc n)"
      unfolding js_string_def by (simp only: jsnum.case num_str_of_nat)
    ultimately show ?thesis
      using en pre(2)
      by (cases e) (simp_all add: mem_incrWindow_def mem_counter_def mem_live_def given_def del: of_nat_Suc)
  qed
  show "mem_counter now' (snd (mem_incrWindow k w now s)) k' = mem_counter now' s k' \<and>
      mem_free now' (snd (mem_incrWindow k w now s)) k' = mem_free now' s k'"
    if "k' \<noteq> k" for k' k w now s now'
  proof -
    have "fst (mem_live k' now' (snd (mem_incrWindow k w now s))) = fst (mem_live k' now' s)"
      by (rule mem_live_local) (rule mem_incr_other [OF that])
    then show ?thesis by (simp add: mem_counter_def mem_free_def)
  qed
qed (auto simp: mem_counter_def mem_free_def mem_live_def split: option.splits if_splits)

subsection \<open>The limiters\<close>

datatype fail_mode = FailOpen | FailClosed

text \<open>What the limiters read of a request: the address, a string \<open>body.phone\<close>, the user.\<close>

record http_request =
  hr_ip :: "string option"
  hr_phone :: "string option"
  hr_user :: "nat option"

record limiter =
  lm_name :: string
  lm_windowMs :: nat
  lm_limit :: nat
  lm_failMode :: fail_mode
  lm_key :: "http_request \<Rightarrow> string option"

definition ipKey :: "http_request \<Rightarrow> string" where
  "ipKey q = ''ip:'' @ given (hr_ip q) ''unknown''"

text \<open>\<open>hmac\<close> is the keyed hash of crypto.ts; a number that is not one is hashed as \<open>null\<close>.\<close>

definition phoneKey :: "(string \<Rightarrow> string) \<Rightarrow> string \<Rightarrow> string" where
  "phoneKey hmac phone = ''ph:'' @ take 32 (hmac (''rlphone:'' @ given (normalizePhone phone) ''null''))"

definition phoneOrIp :: "(string \<Rightarrow> string) \<Rightarrow> http_request \<Rightarrow> string" where
  "phoneOrIp hmac q = (case hr_phone q of Some (c # cs) \<Rightarrow> phoneKey hmac (c # cs) | _ \<Rightarrow> ipKey q)"

definition userKey :: "http_request \<Rightarrow> string" where
  "userKey q = (case hr_user q of Some u \<Rightarrow> ''u:'' @ nat_str u | None \<Rightarrow> ipKey q)"

definition minutes :: nat where
  "minutes = 60 * 1000"

definition apiLimiter :: limiter where
  "apiLimiter = \<lparr>lm_name = ''api'', lm_windowMs = 15 * minutes, lm_limit = 600, lm_failMode = FailOpen, lm_key = Some \<circ> ipKey\<rparr>"

definition loginIpLimiter :: limiter where
  "loginIpLimiter = \<lparr>lm_name = ''login-ip'', lm_windowMs = 15 * minutes, lm_limit = 30, lm_failMode = FailClosed,
     lm_key = Some \<circ> ipKey\<rparr>"

definition loginPhoneLimiter :: "(string \<Rightarrow> string) \<Rightarrow> limiter" where
  "loginPhoneLimiter hmac = \<lparr>lm_name = ''login-ph'', lm_windowMs = 15 * minutes, lm_limit = 10, lm_failMode = FailClosed,
     lm_key = Some \<circ> phoneOrIp hmac\<rparr>"

definition registerLimiter :: limiter where
  "registerLimiter = \<lparr>lm_name = ''register'', lm_windowMs = 60 * minutes, lm_limit = 10, lm_failMode = FailClosed,
     lm_key = Some \<circ> ipKey\<rparr>"

definition changePasswordLimiter :: limiter where
  "changePasswordLimiter = \<lparr>lm_name = ''change-pw'', lm_windowMs = 15 * minutes, lm_limit = 10, lm_failMode = FailClosed,
     lm_key = Some \<circ> userKey\<rparr>"

definition adminResetLimiter :: limiter where
  "adminResetLimiter = \<lparr>lm_name = ''admin-reset-pw'', lm_windowMs = 15 * minutes, lm_limit = 20, lm_failMode = FailClosed,
     lm_key = Some \<circ> userKey\<rparr>"

definition uploadLimiter :: limiter where
  "uploadLimiter = \<lparr>lm_name = ''upload'', lm_windowMs = 5 * minutes, lm_limit = 120, lm_failMode = FailOpen,
     lm_key = Some \<circ> userKey\<rparr>"

definition LIMITERS :: "(string \<Rightarrow> string) \<Rightarrow> limiter list" where
  "LIMITERS hmac = [apiLimiter, loginIpLimiter, loginPhoneLimiter hmac, registerLimiter, changePasswordLimiter,
     adminResetLimiter, uploadLimiter]"

text \<open>
  The command may be executed with its reply arriving (\<open>Done\<close>), not be executed, or be executed
  with the reply lost; the last two reach the limiter as an exception.
\<close>

datatype command_outcome = Done | NotExecuted | ReplyLost

text \<open>\<open>next()\<close> with the remaining count, when the header is set, or 429 with \<open>Retry-After\<close>.\<close>

datatype verdict = Pass "nat option" | Refused nat

definition retry_after :: "nat \<Rightarrow> nat" where
  "retry_after ttlMs = max 1 ((ttlMs + 999) div 1000)"

definition exceeds :: "jsnum \<Rightarrow> nat \<Rightarrow> bool" where
  "exceeds v limit = (case v of Fin q \<Rightarrow> q > of_nat limit | PosInf \<Rightarrow> True | _ \<Rightarrow> False)"

definition left_over :: "nat \<Rightarrow> jsnum \<Rightarrow> nat" where
  "left_over limit v = (case v of Fin q \<Rightarrow> nat \<lfloor>of_nat limit - q\<rfloor> | _ \<Rightarrow> 0)"

definition limiter_key :: "limiter \<Rightarrow> string \<Rightarrow> string" where
  "limiter_key L who = ''rl:'' @ lm_name L @ '':'' @ who"

definition rateLimiter ::
  "(string \<Rightarrow> nat \<Rightarrow> nat \<Rightarrow> 's \<Rightarrow> (jsnum \<times> nat) \<times> 's) \<Rightarrow> bool \<Rightarrow> limiter \<Rightarrow> http_request \<Rightarrow> nat \<Rightarrow> command_outcome \<Rightarrow>
   's \<Rightarrow> verdict \<times> 's" where
  "rateLimiter incr bypassed L q now outcome s =
    (if bypassed then (Pass None, s)
     else (case lm_key L q of
             None \<Rightarrow> (Pass None, s)
           | Some who \<Rightarrow>
               (let ((count, ttl), s1) = incr (limiter_key L who) (lm_windowMs L) now s;
                    failed = (if lm_failMode L = FailClosed then Refused (retry_after (lm_windowMs L)) else Pass None) in
                case outcome of
                  Done \<Rightarrow> if exceeds count (lm_limit L) then (Refused (retry_after ttl), s1)
                           else (Pass (Some (left_over (lm_limit L) count)), s1)
                | NotExecuted \<Rightarrow> (failed, s)
                | ReplyLost \<Rightarrow> (failed, s1))))"

text \<open>Requests in the order their commands reach the store, and what became of them.\<close>

type_synonym attempt = "limiter \<times> http_request \<times> nat \<times> command_outcome"

fun run_requests ::
  "(string \<Rightarrow> nat \<Rightarrow> nat \<Rightarrow> 's \<Rightarrow> (jsnum \<times> nat) \<times> 's) \<Rightarrow> 's \<Rightarrow> attempt list \<Rightarrow> (limiter \<times> http_request \<times> nat \<times> verdict) list" where
  "run_requests incr s [] = []"
| "run_requests incr s ((L, q, now, outcome) # rs) =
    (let (v, s') = rateLimiter incr False L q now outcome s in (L, q, now, v) # run_requests incr s' rs)"

definition passes :: "verdict \<Rightarrow> bool" where
  "passes v = (case v of Pass _ \<Rightarrow> True | Refused _ \<Rightarrow> False)"

text \<open>How many requests of an identity a limiter let through between \<open>t\<close> and \<open>T\<close>.\<close>

definition passed_between :: "limiter \<Rightarrow> string \<Rightarrow> nat \<Rightarrow> nat \<Rightarrow> (limiter \<times> http_request \<times> nat \<times> verdict) list \<Rightarrow> nat" where
  "passed_between L who t T done_log =
    length (filter (\<lambda>(L', q, now, v). lm_name L' = lm_name L \<and> lm_key L' q = Some who \<and> t \<le> now \<and> now < T \<and> passes v) done_log)"

subsection \<open>The bound\<close>

context window_counter
begin

definition regular :: "nat \<Rightarrow> 's \<Rightarrow> string \<Rightarrow> bool" where
  "regular now s k \<longleftrightarrow> free now s k \<or> counter now s k \<noteq> None"

text \<open>How many more requests can pass before \<open>T\<close>, when a window that begins now lasts until \<open>T\<close>.\<close>

definition allowance :: "nat \<Rightarrow> nat \<Rightarrow> nat \<Rightarrow> 's \<Rightarrow> string \<Rightarrow> nat" where
  "allowance limit T now s k =
    (if T \<le> now then 0
     else (case counter now s k of
             None \<Rightarrow> limit
           | Some (n, None) \<Rightarrow> limit - n
           | Some (n, Some e) \<Rightarrow> if T \<le> e then limit - n else (limit - n) + limit))"

lemma allowance_le: "allowance limit T now s k \<le> 2 * limit"
  by (auto simp: allowance_def split: option.splits)

lemma wait:
  assumes "regular now s k" "now \<le> now'"
  shows "regular now' s k \<and> allowance limit T now' s k \<le> allowance limit T now s k"
proof (cases "counter now s k")
  case None
  with assms have "free now s k" by (simp add: regular_def)
  then have "free now' s k" using assms(2) by (rule free_later)
  with None free_counter [OF this] assms(2) show ?thesis by (simp add: regular_def allowance_def)
next
  case (Some c)
  obtain n e where c: "c = (n, e)" by (cases c)
  show ?thesis
  proof (cases e)
    case None
    with Some c have "counter now s k = Some (n, None)" by simp
    with lasting [OF this assms(2)] assms(2) show ?thesis by (simp add: regular_def allowance_def)
  next
    case (Some t)
    with \<open>counter now s k = Some c\<close> c have now: "counter now s k = Some (n, Some t)" by simp
    show ?thesis
    proof (cases "now' < t")
      case True
      then have "counter now' s k = Some (n, Some t)" using lapse [OF now] assms(2) by blast
      with now assms(2) show ?thesis by (simp add: regular_def allowance_def)
    next
      case False
      then have "free now' s k" using lapse [OF now] by simp
      with free_counter [OF this] now False assms(2) show ?thesis by (simp add: regular_def allowance_def)
    qed
  qed
qed

lemma hit:
  assumes "regular now s k" "0 < w" "T \<le> now + w" "now < T" "incr k w now s = ((cnt, ttl), s')"
  shows "regular now s' k \<and> allowance limit T now s' k + (if exceeds cnt limit then 0 else 1) \<le> allowance limit T now s k"
proof (cases "counter now s k")
  case None
  with assms(1) have f: "free now s k" by (simp add: regular_def)
  with incr_first [OF f assms(2)] assms(5) have "cnt = Fin 1" "counter now s' k = Some (1, Some (now + w))" by auto
  with None assms(3,4) show ?thesis by (auto simp: regular_def allowance_def exceeds_def)
next
  case (Some c)
  obtain n e where c: "counter now s k = Some (n, e)" using Some by (cases c) simp
  with incr_later [OF c assms(2)] assms(5)
  have "cnt = Fin (of_nat (Suc n))" "counter now s' k = Some (Suc n, Some (case e of None \<Rightarrow> now + w | Some t \<Rightarrow> t))" by auto
  moreover have "exceeds (Fin (of_nat (Suc n))) limit \<longleftrightarrow> limit < Suc n" by (simp add: exceeds_def del: of_nat_Suc)
  ultimately show ?thesis using c assms(3,4) by (auto simp: regular_def allowance_def split: option.split)
qed

lemma hit_regular:
  assumes "regular now s k" "0 < w"
  shows "regular now (snd (incr k w now s)) k"
  using incr_first [of now s k w] incr_later [of now s k _ _ w] assms by (fastforce simp: regular_def)

lemma other:
  assumes "k' \<noteq> k"
  shows "regular now' (snd (incr k w now s)) k' = regular now' s k'"
    "allowance limit T now' (snd (incr k w now s)) k' = allowance limit T now' s k'"
  using incr_other [OF assms] by (simp_all add: regular_def allowance_def)

text \<open>One request: what the budget loses is what passes.\<close>

definition budget :: "limiter \<Rightarrow> string \<Rightarrow> nat \<Rightarrow> nat \<Rightarrow> 's \<Rightarrow> nat" where
  "budget L who t now s =
    (if now < t then 2 * lm_limit L else allowance (lm_limit L) (t + lm_windowMs L) now s (limiter_key L who))"

lemma own_request:
  assumes reg: "regular now s (limiter_key L who)" and w: "0 < lm_windowMs L" and closed: "lm_failMode L = FailClosed"
    and key: "lm_key L q = Some who" and run: "rateLimiter incr False L q now outcome s = (v, s')"
  shows "regular now s' (limiter_key L who) \<and>
    budget L who t now s' + (if t \<le> now \<and> now < t + lm_windowMs L \<and> passes v then 1 else 0) \<le> budget L who t now s"
proof -
  let ?k = "limiter_key L who"
  obtain cnt ttl s1 where i: "incr ?k (lm_windowMs L) now s = ((cnt, ttl), s1)" by (metis prod.collapse)
  have s': "s' = (if outcome = NotExecuted then s else s1)" "passes v \<longleftrightarrow> outcome = Done \<and> \<not> exceeds cnt (lm_limit L)"
    using run by (auto simp: rateLimiter_def Let_def key i closed passes_def split: command_outcome.splits if_splits)
  have reg': "regular now s1 ?k" using hit_regular [OF reg w] i by simp
  have hit: "allowance (lm_limit L) (t + lm_windowMs L) now s1 ?k + (if exceeds cnt (lm_limit L) then 0 else 1)
      \<le> allowance (lm_limit L) (t + lm_windowMs L) now s ?k" if "t \<le> now" "now < t + lm_windowMs L"
    using hit [OF reg w _ that(2) i] that(1) by simp
  show ?thesis
  proof (cases "t \<le> now \<and> now < t + lm_windowMs L")
    case True
    with hit have "allowance (lm_limit L) (t + lm_windowMs L) now s1 ?k + (if exceeds cnt (lm_limit L) then 0 else 1)
      \<le> allowance (lm_limit L) (t + lm_windowMs L) now s ?k" by blast
    with True reg reg' s' show ?thesis by (auto simp: budget_def)
  next
    case False
    with reg reg' s'(1) show ?thesis by (auto simp: budget_def allowance_def)
  qed
qed

lemma foreign_request:
  assumes "\<And>d. lm_key l q = Some d \<Longrightarrow> limiter_key l d \<noteq> limiter_key L who"
    and "rateLimiter incr False l q now outcome s = (v, s')"
  shows "regular now s' (limiter_key L who) = regular now s (limiter_key L who) \<and> budget L who t now s' = budget L who t now s"
proof (cases "lm_key l q")
  case None
  with assms(2) show ?thesis by (auto simp: rateLimiter_def)
next
  case (Some d)
  let ?s1 = "snd (incr (limiter_key l d) (lm_windowMs l) now s)"
  have "s' = s \<or> s' = ?s1"
    using assms(2) by (auto simp: rateLimiter_def Let_def Some split: command_outcome.splits if_splits prod.splits)
  moreover have "limiter_key L who \<noteq> limiter_key l d" using assms(1) [OF Some] by simp
  note other [OF this]
  ultimately show ?thesis by (auto simp: budget_def)
qed

lemma run_bound:
  assumes keys: "\<And>l q d. l \<in> Ls \<Longrightarrow> limiter_key l d = limiter_key L who \<Longrightarrow> l = L \<and> d = who"
    and names: "\<And>l. l \<in> Ls \<Longrightarrow> lm_name l = lm_name L \<Longrightarrow> l = L"
    and w: "0 < lm_windowMs L" and closed: "lm_failMode L = FailClosed"
  shows "\<lbrakk>(\<lambda>(l, q, u, c). l) ` set rs \<subseteq> Ls; sorted (now # map (\<lambda>(l, q, u, c). u) rs); regular now s (limiter_key L who)\<rbrakk> \<Longrightarrow>
    passed_between L who t (t + lm_windowMs L) (run_requests incr s rs) \<le> budget L who t now s"
proof (induction rs arbitrary: now s)
  case Nil
  then show ?case by (simp add: passed_between_def)
next
  case (Cons r rs)
  obtain l q u outcome where r: "r = (l, q, u, outcome)" by (cases r)
  obtain v s' where v: "rateLimiter incr False l q u outcome s = (v, s')" by (metis prod.collapse)
  let ?K = "limiter_key L who" and ?T = "t + lm_windowMs L"
  let ?mine = "lm_name l = lm_name L \<and> lm_key l q = Some who" and ?in = "t \<le> u \<and> u < ?T \<and> passes v"
  have l: "l \<in> Ls" and u: "now \<le> u" and rest: "sorted (u # map (\<lambda>(l, q, u, c). u) rs)"
    using Cons.prems(1,2) by (auto simp: r)
  have reg: "regular u s ?K" and less: "budget L who t u s \<le> budget L who t now s"
    using wait [OF Cons.prems(3) u, of "lm_limit L" ?T] u allowance_le [of "lm_limit L" ?T u s ?K]
    by (auto simp: budget_def)
  have step: "regular u s' ?K \<and> budget L who t u s' + (if ?mine \<and> ?in then 1 else 0) \<le> budget L who t u s"
  proof (cases ?mine)
    case True
    with names [OF l] have "l = L" by blast
    with True own_request [OF reg w closed _ v [unfolded \<open>l = L\<close>], of t] show ?thesis by simp
  next
    case False
    have "limiter_key l d \<noteq> ?K" if "lm_key l q = Some d" for d
      using keys [OF l, of d] False that by auto
    with reg foreign_request [OF this v, of t] False show ?thesis by auto
  qed
  then have ih: "passed_between L who t ?T (run_requests incr s' rs) \<le> budget L who t u s'"
    using Cons.IH [of u s'] Cons.prems(1) rest by auto
  have "passed_between L who t ?T (run_requests incr s (r # rs))
      = (if ?mine \<and> ?in then 1 else 0) + passed_between L who t ?T (run_requests incr s' rs)"
    by (simp add: r v passed_between_def)
  with ih step less show ?case by linarith
qed

end

lemma limiter_key_inj:
  assumes "CHR '':'' \<notin> set (lm_name l)" "CHR '':'' \<notin> set (lm_name L)" "limiter_key l d = limiter_key L d'"
  shows "lm_name l = lm_name L \<and> d = d'"
proof -
  have split: "takeWhile (\<lambda>c. c \<noteq> CHR '':'') (a @ '':'' @ b) = a" if "CHR '':'' \<notin> set a" for a b
    using that by (induction a) auto
  have eq: "lm_name l @ '':'' @ d = lm_name L @ '':'' @ d'" using assms(3) by (simp add: limiter_key_def)
  then have "lm_name l = lm_name L" using split [OF assms(1), of d] split [OF assms(2), of d'] by metis
  with eq show ?thesis by simp
qed

lemma limiter_names:
  assumes "l \<in> set (LIMITERS hmac)"
  shows "CHR '':'' \<notin> set (lm_name l)" "0 < lm_windowMs l"
  using assms
  by (auto simp: LIMITERS_def apiLimiter_def loginIpLimiter_def loginPhoneLimiter_def registerLimiter_def
      changePasswordLimiter_def adminResetLimiter_def uploadLimiter_def minutes_def)

lemma limiter_distinct:
  assumes "l \<in> set (LIMITERS hmac)" "L \<in> set (LIMITERS hmac)" "lm_name l = lm_name L"
  shows "l = L"
proof -
  have "distinct (map lm_name (LIMITERS hmac))"
    by (simp add: LIMITERS_def apiLimiter_def loginIpLimiter_def loginPhoneLimiter_def registerLimiter_def
      changePasswordLimiter_def adminResetLimiter_def uploadLimiter_def)
  then have "inj_on lm_name (set (LIMITERS hmac))" by (simp add: distinct_map)
  with assms show ?thesis by (auto dest: inj_onD)
qed

lemma limiter_bound:
  assumes c: "window_counter incr counter free" "free 0 s (limiter_key L who)"
    and L: "L \<in> set (LIMITERS hmac)" "lm_failMode L = FailClosed"
    and rs: "(\<lambda>(l, q, u, c). l) ` set rs \<subseteq> set (LIMITERS hmac)" "sorted (map (\<lambda>(l, q, u, c). u) rs)"
  shows "passed_between L who t (t + lm_windowMs L) (run_requests incr s rs) \<le> 2 * lm_limit L"
proof -
  have keys: "l = L \<and> d = who" if "l \<in> set (LIMITERS hmac)" "limiter_key l d = limiter_key L who" for l d
    using limiter_key_inj [OF limiter_names(1) [OF that(1)] limiter_names(1) [OF L(1)] that(2)]
      limiter_distinct [OF that(1) L(1)] by blast
  have sorted: "sorted (0 # map (\<lambda>(l, q, u, c). u) rs)" using rs(2) by simp
  have reg: "window_counter.regular counter free 0 s (limiter_key L who)"
    using c(2) by (simp add: window_counter.regular_def [OF c(1)])
  have "passed_between L who t (t + lm_windowMs L) (run_requests incr s rs) \<le> window_counter.budget counter L who t 0 s"
    by (rule window_counter.run_bound [OF c(1) keys limiter_distinct [OF _ L(1)] limiter_names(2) [OF L(1)] L(2) rs(1) sorted reg])
  also have "\<dots> \<le> 2 * lm_limit L"
    using window_counter.allowance_le [OF c(1)] by (simp add: window_counter.budget_def [OF c(1)])
  finally show ?thesis .
qed

text \<open>C0: The rate limiters that fail closed hold: whatever requests arrive, for whatever limiters and identities, in
  whatever order their commands are executed, lost or left without a reply, such a limiter lets at most twice its
  limit of requests of one identity through in any span as long as its window; with the in-memory counter, and
  with the Lua script on every server that executes the Redis commands as documented.\<close>
theorem rate_limit_holds:
  assumes "L \<in> set (LIMITERS hmac)" "lm_failMode L = FailClosed"
    and "(\<lambda>(l, q, u, c). l) ` set rs \<subseteq> set (LIMITERS hmac)" "sorted (map (\<lambda>(l, q, u, c). u) rs)"
    and "redis_server srv counter free" "\<forall>k. free 0 s k"
  shows "passed_between L who t (t + lm_windowMs L) (run_requests mem_incrWindow (\<lambda>k. None) rs) \<le> 2 * lm_limit L \<and>
    passed_between L who t (t + lm_windowMs L) (run_requests (redis_incrWindow srv) s rs) \<le> 2 * lm_limit L"
proof
  have "mem_free 0 (\<lambda>k. None) (limiter_key L who)" by (simp add: mem_free_def mem_live_def)
  from limiter_bound [OF memory.window_counter_axioms, OF this assms(1-4)]
  show "passed_between L who t (t + lm_windowMs L) (run_requests mem_incrWindow (\<lambda>k. None) rs) \<le> 2 * lm_limit L" .
  have "window_counter (redis_incrWindow srv) counter free"
    using assms(5) by (rule redis_server.lua_contract)
  from limiter_bound [OF this, OF _ assms(1-4)] assms(6)
  show "passed_between L who t (t + lm_windowMs L) (run_requests (redis_incrWindow srv) s rs) \<le> 2 * lm_limit L" by blast
qed

subsection \<open>The two implementations agree\<close>

fun run_incr ::
  "(string \<Rightarrow> nat \<Rightarrow> nat \<Rightarrow> 's \<Rightarrow> (jsnum \<times> nat) \<times> 's) \<Rightarrow> 's \<Rightarrow> (string \<times> nat \<times> nat) list \<Rightarrow> (jsnum \<times> nat) list" where
  "run_incr incr s [] = []"
| "run_incr incr s ((k, w, now) # cs) = (let (r, s') = incr k w now s in r # run_incr incr s' cs)"

text \<open>Two stores that look the same at a time.\<close>

definition look_same ::
  "(nat \<Rightarrow> 's \<Rightarrow> string \<Rightarrow> (nat \<times> nat option) option) \<Rightarrow> (nat \<Rightarrow> 's \<Rightarrow> string \<Rightarrow> bool) \<Rightarrow>
   (nat \<Rightarrow> 't \<Rightarrow> string \<Rightarrow> (nat \<times> nat option) option) \<Rightarrow> (nat \<Rightarrow> 't \<Rightarrow> string \<Rightarrow> bool) \<Rightarrow> nat \<Rightarrow> 's \<Rightarrow> 't \<Rightarrow> bool" where
  "look_same c1 f1 c2 f2 now s1 s2 \<longleftrightarrow>
    (\<forall>k. (f1 now s1 k \<and> f2 now s2 k) \<or> (\<exists>n e. c1 now s1 k = Some (n, e) \<and> c2 now s2 k = Some (n, e)))"

lemma look_wait:
  assumes "window_counter i1 c1 f1" "window_counter i2 c2 f2" "look_same c1 f1 c2 f2 now s1 s2" "now \<le> now'"
  shows "look_same c1 f1 c2 f2 now' s1 s2"
  unfolding look_same_def
proof
  fix k
  from assms(3) consider (free) "f1 now s1 k" "f2 now s2 k"
    | (forever) n where "c1 now s1 k = Some (n, None)" "c2 now s2 k = Some (n, None)"
    | (until) n t where "c1 now s1 k = Some (n, Some t)" "c2 now s2 k = Some (n, Some t)"
    unfolding look_same_def by (metis option.exhaust)
  then show "(f1 now' s1 k \<and> f2 now' s2 k) \<or> (\<exists>n e. c1 now' s1 k = Some (n, e) \<and> c2 now' s2 k = Some (n, e))"
  proof cases
    case free
    then show ?thesis using window_counter.free_later [OF assms(1)] window_counter.free_later [OF assms(2)] assms(4) by blast
  next
    case forever
    then show ?thesis using window_counter.lasting [OF assms(1)] window_counter.lasting [OF assms(2)] assms(4) by blast
  next
    case until
    note l1 = window_counter.lapse [OF assms(1) until(1)] and l2 = window_counter.lapse [OF assms(2) until(2)]
    show ?thesis
    proof (cases "now' < t")
      case True
      with l1 l2 assms(4) show ?thesis by blast
    next
      case False
      then have "t \<le> now'" by simp
      with l1 l2 show ?thesis by blast
    qed
  qed
qed

lemma look_hit:
  assumes w1: "window_counter i1 c1 f1" and w2: "window_counter i2 c2 f2"
    and same: "look_same c1 f1 c2 f2 now s1 s2" and w: "0 < w"
  shows "fst (i1 k w now s1) = fst (i2 k w now s2) \<and> look_same c1 f1 c2 f2 now (snd (i1 k w now s1)) (snd (i2 k w now s2))"
proof -
  have at_k: "fst (i1 k w now s1) = fst (i2 k w now s2) \<and>
      (\<exists>n e. c1 now (snd (i1 k w now s1)) k = Some (n, e) \<and> c2 now (snd (i2 k w now s2)) k = Some (n, e))"
  proof (cases "f1 now s1 k \<and> f2 now s2 k")
    case True
    then show ?thesis
      using window_counter.incr_first [OF w1 _ w, of now s1 k] window_counter.incr_first [OF w2 _ w, of now s2 k] by auto
  next
    case False
    with same obtain n e where "c1 now s1 k = Some (n, e)" "c2 now s2 k = Some (n, e)"
      unfolding look_same_def by blast
    then show ?thesis
      using window_counter.incr_later [OF w1 _ w, of now s1 k n e] window_counter.incr_later [OF w2 _ w, of now s2 k n e] by auto
  qed
  moreover have "(f1 now (snd (i1 k w now s1)) j \<and> f2 now (snd (i2 k w now s2)) j) \<or>
      (\<exists>n e. c1 now (snd (i1 k w now s1)) j = Some (n, e) \<and> c2 now (snd (i2 k w now s2)) j = Some (n, e))" for j
  proof (cases "j = k")
    case True
    with at_k show ?thesis by blast
  next
    case False
    with same show ?thesis
      using window_counter.incr_other [OF w1 False, of now w now s1] window_counter.incr_other [OF w2 False, of now w now s2]
      unfolding look_same_def by metis
  qed
  ultimately show ?thesis unfolding look_same_def by blast
qed

lemma same_results:
  assumes w1: "window_counter i1 c1 f1" and w2: "window_counter i2 c2 f2"
    and "look_same c1 f1 c2 f2 now s1 s2" "\<forall>(k, w, u)\<in>set cs. 0 < w" "sorted (now # map (\<lambda>(k, w, u). u) cs)"
  shows "run_incr i1 s1 cs = run_incr i2 s2 cs"
  using assms(3-5)
proof (induction cs arbitrary: now s1 s2)
  case (Cons c cs)
  obtain k w u where c: "c = (k, w, u)" by (cases c)
  obtain r1 t1 where 1: "i1 k w u s1 = (r1, t1)" by (metis prod.collapse)
  obtain r2 t2 where 2: "i2 k w u s2 = (r2, t2)" by (metis prod.collapse)
  have u: "now \<le> u" and w: "0 < w" and rest: "sorted (u # map (\<lambda>(k, w, u). u) cs)" "\<forall>(k, w, u)\<in>set cs. 0 < w"
    using Cons.prems(2,3) by (auto simp: c)
  have "r1 = r2 \<and> look_same c1 f1 c2 f2 u t1 t2"
    using look_hit [OF w1 w2 look_wait [OF w1 w2 Cons.prems(1) u] w, of k] by (simp add: 1 2)
  with Cons.IH [OF _ rest(2,1)] show ?case by (simp add: c 1 2)
qed simp

text \<open>C0: The in-memory store and the Lua script have the same atomic semantics: for any sequence of calls, for any
  keys and windows, both return the same counts and remaining times, on every server that executes the Redis
  commands as documented.\<close>
theorem memory_is_redis:
  assumes "redis_server srv counter free" "\<forall>k. free 0 s k"
    and "\<forall>(k, w, u)\<in>set cs. 0 < w" "sorted (map (\<lambda>(k, w, u). u) cs)"
  shows "run_incr mem_incrWindow (\<lambda>k. None) cs = run_incr (redis_incrWindow srv) s cs"
proof -
  have lua: "window_counter (redis_incrWindow srv) counter free" using assms(1) by (rule redis_server.lua_contract)
  have "look_same mem_counter mem_free counter free 0 (\<lambda>k. None) s"
    using assms(2) by (simp add: look_same_def mem_free_def mem_live_def)
  from same_results [OF memory.window_counter_axioms lua this assms(3)] assms(4) show ?thesis by simp
qed

subsection \<open>A server\<close>

text \<open>The documented commands over a table of counts and expiry times.\<close>

type_synonym keyspace = "string \<rightharpoonup> nat \<times> nat option"

definition ks_counter :: "nat \<Rightarrow> keyspace \<Rightarrow> string \<Rightarrow> (nat \<times> nat option) option" where
  "ks_counter now s k =
    (case s k of Some (n, Some t) \<Rightarrow> if now < t then Some (n, Some t) else None | e \<Rightarrow> e)"

definition ks_free :: "nat \<Rightarrow> keyspace \<Rightarrow> string \<Rightarrow> bool" where
  "ks_free now s k = (ks_counter now s k = None)"

definition sample_server :: "keyspace redis_commands" where
  "sample_server =
    \<lparr>rd_incr = (\<lambda>k now s. case ks_counter now s k of None \<Rightarrow> (1, s(k \<mapsto> (1, None))) | Some (n, e) \<Rightarrow> (Suc n, s(k \<mapsto> (Suc n, e)))),
     rd_pttl = (\<lambda>k now s. case ks_counter now s k of None \<Rightarrow> -2 | Some (n, None) \<Rightarrow> -1 | Some (n, Some t) \<Rightarrow> int t - int now),
     rd_pexpire = (\<lambda>k w now s. case ks_counter now s k of None \<Rightarrow> s | Some (n, e) \<Rightarrow> s(k \<mapsto> (n, Some (now + w))))\<rparr>"

interpretation sample: redis_server sample_server ks_counter ks_free
  by unfold_locales (auto simp: sample_server_def ks_free_def ks_counter_def split: option.splits if_splits)

definition knock :: "nat \<Rightarrow> attempt" where
  "knock u = (registerLimiter, \<lparr>hr_ip = Some ''10.0.0.7'', hr_phone = None, hr_user = None\<rparr>, u, Done)"

theorem rate_limit_holds_witness:
  "passed_between registerLimiter ''ip:10.0.0.7'' 0 (0 + lm_windowMs registerLimiter)
     (run_requests mem_incrWindow (\<lambda>k. None) (map knock [0..<99])) \<le> 20"
proof -
  have reg: "registerLimiter \<in> set (LIMITERS id)" "lm_failMode registerLimiter = FailClosed" and ten: "lm_limit registerLimiter = 10"
    by (simp_all add: LIMITERS_def registerLimiter_def)
  have "passed_between registerLimiter ''ip:10.0.0.7'' 0 (0 + lm_windowMs registerLimiter)
      (run_requests mem_incrWindow (\<lambda>k. None) (map knock us)) \<le> 2 * lm_limit registerLimiter" if us: "sorted us" for us
  proof -
    have sub: "(\<lambda>(l, q, u, c). l) ` set (map knock us) \<subseteq> set (LIMITERS id)" using reg(1) by (auto simp: knock_def)
    have "map (\<lambda>(l, q, u, c). u) (map knock us) = us" by (induction us) (simp_all add: knock_def)
    with us have times: "sorted (map (\<lambda>(l, q, u, c). u) (map knock us))" by simp
    have "\<forall>k. ks_free 0 (\<lambda>k. None) k" by (simp add: ks_free_def ks_counter_def)
    from rate_limit_holds [OF reg sub times sample.redis_server_axioms, OF this] show ?thesis by blast
  qed
  from this [of "[0..<99]"] show ?thesis unfolding ten by (simp del: upt.simps upt_rec_numeral)
qed

theorem memory_is_redis_witness:
  "run_incr (redis_incrWindow sample_server) (\<lambda>k. None) [(''a'', 50, 10), (''a'', 50, 20), (''b'', 9, 30), (''a'', 50, 60)]
     = [(Fin 1, 50), (Fin 2, 40), (Fin 1, 9), (Fin 1, 50)]"
proof -
  have "run_incr mem_incrWindow (\<lambda>k. None) [(''a'', 50, 10), (''a'', 50, 20), (''b'', 9, 30), (''a'', 50, 60)]
     = [(Fin 1, 50), (Fin 2, 40), (Fin 1, 9), (Fin 1, 50)]" by code_simp
  then show ?thesis
    using memory_is_redis [OF sample.redis_server_axioms, of "\<lambda>k. None"
        "[(''a'', 50, 10), (''a'', 50, 20), (''b'', 9, 30), (''a'', 50, 60)]"]
    by (simp add: ks_free_def ks_counter_def)
qed

end
