(* ===== verification/Evidence.thy ===== *)
theory Evidence
  imports Completion
begin

section \<open>The evidence of a job\<close>

text \<open>
  Models src/modules/photos/job-evidence.service.ts: the listing of all photos of a job with the
  cycles they were frozen in, read back from the completion snapshots, and the role of each.
  A stored snapshot is its JSON value; a text that is not JSON is one without steps.
\<close>

subsection \<open>Reading the snapshots\<close>

text \<open>\<open>v?.k\<close> and an array, or nothing.\<close>

definition json_member :: "string \<Rightarrow> json \<Rightarrow> json option" where
  "json_member k v = (case v of JObj kvs \<Rightarrow> map_of kvs k | _ \<Rightarrow> None)"

definition json_array :: "json option \<Rightarrow> json list" where
  "json_array v = (case v of Some (JArr xs) \<Rightarrow> xs | _ \<Rightarrow> [])"

definition json_number :: "json option \<Rightarrow> rat option" where
  "json_number v = (case v of Some (JNum q) \<Rightarrow> Some q | _ \<Rightarrow> None)"

definition snapshot_photo_ids :: "json \<Rightarrow> rat list" where
  "snapshot_photo_ids content =
    concat (map (\<lambda>s. List.map_filter (\<lambda>e. json_number (json_member ''photoId'' e)) (json_array (json_member ''evidence'' s)))
      (json_array (Option.bind (json_member ''summary'' content) (json_member ''steps''))))"

type_synonym photo_cycles = "rat \<Rightarrow> nat list"

text \<open>\<open>if (!list.includes(cycle)) list.push(cycle)\<close>\<close>

definition add_cycle :: "nat \<Rightarrow> rat \<Rightarrow> photo_cycles \<Rightarrow> photo_cycles" where
  "add_cycle c i m = m(i := if c \<in> set (m i) then m i else m i @ [c])"

definition job_snapshots :: "nat \<Rightarrow> db \<Rightarrow> snapshot_row list" where
  "job_snapshots jobId d = sort_key sn_cycle (t_where (\<lambda>r. sn_job r = jobId) (snapshots d))"

definition photoCycles :: "snapshot_row list \<Rightarrow> photo_cycles" where
  "photoCycles rs = fold (\<lambda>r. fold (add_cycle (sn_cycle r)) (snapshot_photo_ids (sn_content r))) rs (\<lambda>i. [])"

definition snapshotEvidence :: "nat \<Rightarrow> db \<Rightarrow> photo_cycles \<times> (nat \<times> string \<times> nat) list" where
  "snapshotEvidence jobId d =
    (let rs = job_snapshots jobId d
     in (photoCycles rs, map (\<lambda>r. (sn_cycle r, sn_provenance r, sn_created_at r)) rs))"

subsection \<open>Roles\<close>

datatype evidence_role =
    COMPLETED_CYCLE | CURRENT | SUPERSEDED_ATTEMPT | HISTORICAL_UNCLASSIFIED
  | ROLE_PENDING | ROLE_FAILED | ROLE_UNVERIFIED

definition photo_role :: "evidence_status \<Rightarrow> nat list \<Rightarrow> nat \<Rightarrow> nat \<Rightarrow> bool \<Rightarrow> evidence_role" where
  "photo_role status cycles_for attempt current workable =
    (case status of
       E_PENDING \<Rightarrow> ROLE_PENDING
     | E_UNVERIFIED \<Rightarrow> ROLE_UNVERIFIED
     | E_FAILED \<Rightarrow> ROLE_FAILED
     | E_READY \<Rightarrow>
         if cycles_for \<noteq> [] then COMPLETED_CYCLE
         else if attempt = current \<and> workable then CURRENT
         else if attempt < current then SUPERSEDED_ATTEMPT
         else HISTORICAL_UNCLASSIFIED)"

subsection \<open>The listing\<close>

record photo_item =
  pj_photo :: photo_row
  pj_step :: jstep_row
  pj_def :: cstep_row
  pj_uploader :: string
  pj_cycle :: "nat option"
  pj_cycles :: "nat list"
  pj_snapshot :: bool
  pj_role :: evidence_role
  pj_downloadable :: bool

record job_header =
  jh_id :: nat
  jh_status :: job_status
  jh_cycle :: nat
  jh_technician :: "nat option"
  jh_assignment :: assignment_status

record photos_result =
  pr_job :: job_header
  pr_cycles :: "(nat \<times> string \<times> nat) list"
  pr_photos :: "photo_item list"
  pr_total :: nat

record photos_query =
  pq_page :: nat
  pq_limit :: nat
  pq_cycle :: "nat option"
  pq_job_step :: "nat option"

definition jobHeader :: "job_row \<Rightarrow> job_header" where
  "jobHeader job = \<lparr>jh_id = j_id job, jh_status = j_status job, jh_cycle = j_cycle job,
     jh_technician = j_assignee job, jh_assignment = j_assignment_status job\<rparr>"

text \<open>The three inner joins.\<close>

definition photo_joined :: "db \<Rightarrow> photo_row \<Rightarrow> (photo_row \<times> jstep_row \<times> cstep_row \<times> user_row) option" where
  "photo_joined d p =
    Option.bind (by_id js_id (ph_job_step p) (jsteps d)) (\<lambda>s.
    Option.bind (by_id cs_id (js_step s) (csteps d)) (\<lambda>c.
    map_option (\<lambda>u. (p, s, c, u)) (by_id u_id (ph_created_by p) (users d))))"

definition photo_item_of :: "photo_cycles \<Rightarrow> bool \<Rightarrow> photo_row \<times> jstep_row \<times> cstep_row \<times> user_row \<Rightarrow> photo_item" where
  "photo_item_of m workable r =
    (let (p, s, c, u) = r; cs = m (of_nat (ph_id p)) in
     \<lparr>pj_photo = p, pj_step = s, pj_def = c, pj_uploader = full_name u,
      pj_cycle = (if cs = [] then None else Some (last cs)), pj_cycles = cs, pj_snapshot = (cs \<noteq> []),
      pj_role = photo_role (ph_status p) cs (ph_attempt p) (js_attempt s) workable,
      pj_downloadable = (ph_status p = E_READY)\<rparr>)"

text \<open>By step order, then attempt, then id.\<close>

definition in_listing_order ::
  "(photo_row \<times> jstep_row \<times> cstep_row \<times> user_row) list \<Rightarrow> (photo_row \<times> jstep_row \<times> cstep_row \<times> user_row) list" where
  "in_listing_order xs =
    sort_key (\<lambda>(p, s, c, u). cs_order c) (sort_key (\<lambda>(p, s, c, u). ph_attempt p) (sort_key (\<lambda>(p, s, c, u). ph_id p) xs))"

text \<open>\<open>cycleFilterIds\<close>: the photos frozen in the cycle asked for.\<close>

definition cycle_photos :: "nat \<Rightarrow> snapshot_row list \<Rightarrow> rat list" where
  "cycle_photos c rs =
    filter (\<lambda>i. c \<in> set (photoCycles rs i)) (remdups (concat (map (\<lambda>r. snapshot_photo_ids (sn_content r)) rs)))"

definition listJobPhotos :: "auth_user \<Rightarrow> nat \<Rightarrow> photos_query \<Rightarrow> db \<Rightarrow> api_error + photos_result" where
  "listJobPhotos a jobId qy d =
    andThen (loadScopedJob a jobId d) (\<lambda>job.
      let (m, cycles) = snapshotEvidence jobId d;
          only = map_option (\<lambda>c. cycle_photos c (job_snapshots jobId d)) (pq_cycle qy);
          found = List.map_filter (photo_joined d) (t_where (\<lambda>p. ph_job p = jobId \<and>
            (case pq_job_step qy of None \<Rightarrow> True | Some s \<Rightarrow> ph_job_step p = s) \<and>
            (case only of None \<Rightarrow> True | Some ids \<Rightarrow> of_nat (ph_id p) \<in> set ids)) (photos d));
          page = take (pq_limit qy) (drop ((pq_page qy - 1) * pq_limit qy) (in_listing_order found))
      in if only = Some [] then Inr \<lparr>pr_job = jobHeader job, pr_cycles = cycles, pr_photos = [], pr_total = 0\<rparr>
         else Inr \<lparr>pr_job = jobHeader job, pr_cycles = cycles, pr_photos = map (photo_item_of m (isWorkable job)) page,
                pr_total = length found\<rparr>)"

subsection \<open>What the snapshots say\<close>

lemma in_add_cycles: "c' \<in> set (fold (add_cycle c) ids m i) \<longleftrightarrow> c' \<in> set (m i) \<or> (c' = c \<and> i \<in> set ids)"
proof (induction ids arbitrary: m)
  case (Cons x xs)
  show ?case unfolding fold_simps comp_def Cons.IH by (auto simp: add_cycle_def)
qed simp

lemma in_photoCycles:
  "c \<in> set (photoCycles rs i) \<longleftrightarrow> (\<exists>r\<in>set rs. sn_cycle r = c \<and> i \<in> set (snapshot_photo_ids (sn_content r)))"
proof -
  have "c \<in> set (fold (\<lambda>r. fold (add_cycle (sn_cycle r)) (snapshot_photo_ids (sn_content r))) rs m i) \<longleftrightarrow>
      c \<in> set (m i) \<or> (\<exists>r\<in>set rs. sn_cycle r = c \<and> i \<in> set (snapshot_photo_ids (sn_content r)))" for m
  proof (induction rs arbitrary: m)
    case (Cons r rs)
    show ?case unfolding fold_simps comp_def Cons.IH in_add_cycles by auto
  qed simp
  then show ?thesis by (simp add: photoCycles_def)
qed

text \<open>The photos a completion freezes: the READY ones of the relevant attempt of each step.\<close>

definition frozen_photos :: "nat \<Rightarrow> db \<Rightarrow> photo_row list" where
  "frozen_photos jobId d =
    concat (map (\<lambda>(s, c). evidence_of d (js_id s) (relevantAttempt d (js_id s))) (steps_of_job jobId d))"

lemma step_evidence_ids:
  "List.map_filter (\<lambda>e. json_number (json_member ''photoId'' e)) (json_array (json_member ''evidence'' (step_summary d sc)))
    = map (\<lambda>p. of_nat (ph_id p)) (evidence_of d (js_id (fst sc)) (relevantAttempt d (js_id (fst sc))))"
  by (simp add: step_summary_def json_member_def json_array_def json_number_def Let_def split_beta
      List.map_filter_def comp_def)

lemma snapshot_steps:
  "json_array (Option.bind (json_member ''summary'' (snapshot_content sha256 d job (summary_of_job d job) cycle by)) (json_member ''steps''))
    = map (step_summary d) (steps_of_job (j_id job) d)"
  by (simp add: snapshot_content_def summary_of_job_def json_member_def json_array_def Let_def)

lemma snapshot_reads_back:
  "snapshot_photo_ids (snapshot_content sha256 d job (summary_of_job d job) cycle by)
    = map (\<lambda>p. of_nat (ph_id p)) (frozen_photos (j_id job) d)"
  by (simp add: snapshot_photo_ids_def snapshot_steps step_evidence_ids frozen_photos_def map_concat split_beta comp_def)

text \<open>C0: Completing a cycle and listing the evidence fit together: once the snapshot of a cycle is taken, the
  listing attributes a photo to that cycle exactly when the completion froze it (READY, of the relevant attempt of
  its step), leaves every other attribution as it was, and reads nothing but the stored snapshot.\<close>
theorem frozen_evidence_is_listed:
  assumes "finalizeSnapshot sha256 q i cy u d = Inr d'" "by_id j_id i (jobs d) = Some job"
    and "t_first (\<lambda>s. sn_job s = i \<and> sn_cycle s = cy) (snapshots d) = None"
  shows "(cy \<in> set (fst (snapshotEvidence i d') (of_nat p)) \<longleftrightarrow> p \<in> ph_id ` set (frozen_photos i d)) \<and>
    (c \<noteq> cy \<longrightarrow> (c \<in> set (fst (snapshotEvidence i d') x) \<longleftrightarrow> c \<in> set (fst (snapshotEvidence i d) x))) \<and>
    (j \<noteq> i \<longrightarrow> snapshotEvidence j d' = snapshotEvidence j d)"
proof -
  have id: "j_id job = i" using by_id_Some [OF assms(2)] by simp
  let ?content = "snapshot_content sha256 d job (summary_of_job d job) cy u"
  have "\<exists>new. rows (snapshots d') = rows (snapshots d) @ [new] \<and> sn_job new = i \<and> sn_cycle new = cy \<and> sn_content new = ?content"
    using assms by (auto simp: finalizeSnapshot_def buildCompletionSnapshot_def collectMaterial_def andThen_Inr_iff
        logAudit_def t_insert_def Let_def)
  then obtain new where new: "sn_job new = i" "sn_cycle new = cy" "sn_content new = ?content"
      and rows: "rows (snapshots d') = rows (snapshots d) @ [new]" by blast
  have none: "\<forall>r\<in>set (rows (snapshots d)). \<not> (sn_job r = i \<and> sn_cycle r = cy)" using assms(3) by (simp add: t_first_None)
  have set': "set (job_snapshots i d') = insert new (set (job_snapshots i d))"
    using new(1) by (simp add: job_snapshots_def t_where_def rows)
  have old: "set (job_snapshots i d) = {r \<in> set (rows (snapshots d)). sn_job r = i}"
    by (simp add: job_snapshots_def t_where_def)
  have ids: "(of_nat p :: rat) \<in> set (snapshot_photo_ids ?content) \<longleftrightarrow> p \<in> ph_id ` set (frozen_photos i d)"
    by (auto simp: snapshot_reads_back id)
  have "cy \<in> set (fst (snapshotEvidence i d') (of_nat p)) \<longleftrightarrow> p \<in> ph_id ` set (frozen_photos i d)"
    using new(2,3) none ids unfolding snapshotEvidence_def Let_def fst_conv in_photoCycles set' old by auto
  moreover have "c \<in> set (fst (snapshotEvidence i d') x) \<longleftrightarrow> c \<in> set (fst (snapshotEvidence i d) x)" if "c \<noteq> cy"
    using new(2) that unfolding snapshotEvidence_def Let_def fst_conv in_photoCycles set' by auto
  moreover have "snapshotEvidence j d' = snapshotEvidence j d" if "j \<noteq> i"
    using new(1) that by (simp add: snapshotEvidence_def job_snapshots_def t_where_def rows)
  ultimately show ?thesis by blast
qed

subsection \<open>A completed job\<close>

definition finished_job :: job_row where
  "finished_job = \<lparr>j_id = 1, j_customer = 1, j_vehicle = 1, j_branch = 1, j_created_by = 1, j_status = J_IN_PROGRESS,
     j_started_at = Some 1, j_cancel_reason = None, j_cancelled_by = None, j_cancelled_at = None, j_closed_by = None,
     j_closed_at = None, j_reopen_reason = None, j_reopened_by = None, j_reopened_at = None, j_assignee = Some 1,
     j_assignment_status = A_ASSIGNED, j_cycle = 1, j_gas_type = None, j_kit = None, j_ecu = None, j_cylinder = None,
     j_note = None, j_created_at = 0, j_updated_at = 0\<rparr>"

definition shot :: "nat \<Rightarrow> evidence_status \<Rightarrow> photo_row" where
  "shot i st = \<lparr>ph_id = i, ph_job = 1, ph_job_step = 1, ph_attempt = 1, ph_status = st, ph_key = ''k'', ph_original_name = ''a.png'',
     ph_mime = ''image/png'', ph_size = 10, ph_hash = ''h'', ph_created_by = 1, ph_created_at = 0, ph_ready_at = None,
     ph_failed_at = None, ph_failure = None\<rparr>"

definition finished :: db where
  "finished = empty_db\<lparr>jobs := \<lparr>rows = [finished_job], next_id = 2\<rparr>,
     checklists := \<lparr>rows = [\<lparr>cl_id = 1, cl_job = 1, cl_version = 1, cl_assigned_by = 1, cl_assigned_at = 0, cl_completed_at = Some 2\<rparr>],
       next_id = 2\<rparr>,
     csteps := \<lparr>rows = [\<lparr>cs_id = 1, cs_version = 1, cs_order = 1, cs_name = ''Seal'', cs_description = None, cs_requirements = None,
       cs_is_stop = False, cs_risk_weight = 1, cs_required_photos = 1\<rparr>], next_id = 2\<rparr>,
     jsteps := \<lparr>rows = [\<lparr>js_id = 1, js_checklist = 1, js_step = 1, js_status = S_COMPLETED, js_note = None, js_completed_by = Some 1,
       js_completed_at = Some 2, js_attempt = 1\<rparr>], next_id = 2\<rparr>,
     photos := \<lparr>rows = [shot 1 E_READY, shot 2 E_FAILED], next_id = 3\<rparr>\<rparr>"

theorem frozen_evidence_witness:
  "\<exists>d'. finalizeSnapshot id \<lparr>rq_now = 5, rq_ip = None, rq_agent = None\<rparr> 1 1 1 finished = Inr d' \<and>
    1 \<in> set (fst (snapshotEvidence 1 d') 1) \<and> 1 \<notin> set (fst (snapshotEvidence 1 d') 2)"
proof -
  let ?q = "\<lparr>rq_now = 5, rq_ip = None, rq_agent = None\<rparr>"
  have job: "by_id j_id 1 (jobs finished) = Some finished_job" by code_simp
  have none: "t_first (\<lambda>s. sn_job s = 1 \<and> sn_cycle s = 1) (snapshots finished) = None" by code_simp
  have ids: "map ph_id (frozen_photos 1 finished) = [1]" by code_simp
  have "finalizeSnapshot id ?q 1 1 1 finished \<noteq> Inl e" for e
    using job none by (simp add: finalizeSnapshot_def buildCompletionSnapshot_def collectMaterial_def Let_def andThen_def)
  then obtain d' where d': "finalizeSnapshot id ?q 1 1 1 finished = Inr d'"
    by (cases "finalizeSnapshot id ?q 1 1 1 finished") auto
  have "set (map ph_id (frozen_photos 1 finished)) = {1}" unfolding ids by simp
  then have "ph_id ` set (frozen_photos 1 finished) = {1}" by simp
  with frozen_evidence_is_listed [OF d' job none, of 1] frozen_evidence_is_listed [OF d' job none, of 2] d'
  show ?thesis by simp
qed

end
