(* ===== verification/Quality.thy ===== *)
theory Quality
  imports Completion Stop
begin

section \<open>The quality view\<close>

text \<open>
  Models src/modules/quality/quality.service.ts: the read-only view of a job that puts together
  the views of the other services and the audit timeline. The audit log of the model is in the
  order of its ids; the time of an entry is not part of it.
\<close>

record timeline_entry =
  tl_action :: string
  tl_actor :: "string option"
  tl_old :: "json option"
  tl_new :: "json option"

record quality_view =
  qv_job :: job_detail
  qv_checklist :: "checklist_view option"
  qv_approvals :: "stop_record list"
  qv_signature :: "signature_row option"
  qv_readiness :: readiness
  qv_timeline :: "timeline_entry list"

text \<open>The log entries of the job, of its steps and of its STOP approvals.\<close>

definition job_step_ids :: "nat \<Rightarrow> db \<Rightarrow> nat list" where
  "job_step_ids jobId d =
    map js_id (t_where (\<lambda>s. js_checklist s \<in> cl_id ` set (t_where (\<lambda>c. cl_job c = jobId) (checklists d))) (jsteps d))"

definition approval_ids :: "nat \<Rightarrow> db \<Rightarrow> nat list" where
  "approval_ids jobId d = map sa_id (t_where (\<lambda>r. sa_job r = jobId) (approvals d))"

definition in_timeline :: "nat \<Rightarrow> db \<Rightarrow> audit_entry \<Rightarrow> bool" where
  "in_timeline jobId d e =
    ((ae_entity_type e = Some ''job'' \<and> ae_entity_id e = Some (nat_str jobId)) \<or>
     (ae_entity_type e = Some ''job_step'' \<and> ae_entity_id e \<in> Some ` nat_str ` set (job_step_ids jobId d)) \<or>
     (ae_entity_type e = Some ''stop_approval'' \<and> ae_entity_id e \<in> Some ` nat_str ` set (approval_ids jobId d)))"

text \<open>\<open>r.first_name ? ... : null\<close>\<close>

definition actor_name :: "db \<Rightarrow> audit_entry \<Rightarrow> string option" where
  "actor_name d e =
    (case Option.bind (ae_user e) (\<lambda>u. by_id u_id u (users d)) of
       None \<Rightarrow> None
     | Some u \<Rightarrow> if u_first_name u = [] then None else Some (full_name u))"

definition timeline_entry_of :: "db \<Rightarrow> audit_entry \<Rightarrow> timeline_entry" where
  "timeline_entry_of d e = \<lparr>tl_action = ae_action e, tl_actor = actor_name d e, tl_old = ae_old e, tl_new = ae_new e\<rparr>"

definition timeline :: "nat \<Rightarrow> db \<Rightarrow> timeline_entry list" where
  "timeline jobId d = map (timeline_entry_of d) (take 100 (rev (filter (in_timeline jobId d) (audits d))))"

definition getQualityView :: "auth_user \<Rightarrow> nat \<Rightarrow> db \<Rightarrow> api_error + quality_view" where
  "getQualityView a jobId d =
    andThen (loadScopedJob a jobId d) (\<lambda>_.
    andThen (getJob a jobId d) (\<lambda>job.
    andThen (getJobChecklist a jobId d) (\<lambda>checklist.
    andThen (getJobStopApprovals a jobId d) (\<lambda>stops.
    andThen (getSignature a jobId d) (\<lambda>sig.
    Inr \<lparr>qv_job = job, qv_checklist = checklist, qv_approvals = stops, qv_signature = sig,
      qv_readiness = validateJobCompletion jobId d, qv_timeline = timeline jobId d\<rparr>)))))"

text \<open>Only a job in the scope of the reader is shown.\<close>

lemma quality_view_scoped:
  "getQualityView a jobId d = Inr v \<Longrightarrow> \<exists>job. by_id j_id jobId (jobs d) = Some job \<and> in_scope a (j_branch job)"
  by (auto simp: getQualityView_def andThen_Inr_iff loadScopedJob_def split: option.splits if_splits)

text \<open>The timeline shows nothing of another job.\<close>

lemma timeline_of_job:
  assumes "t \<in> set (timeline jobId d)"
  shows "\<exists>e\<in>set (audits d). in_timeline jobId d e \<and> t = timeline_entry_of d e"
proof -
  obtain e where "e \<in> set (take 100 (rev (filter (in_timeline jobId d) (audits d))))" "t = timeline_entry_of d e"
    using assms by (auto simp: timeline_def)
  then show ?thesis by (auto dest!: in_set_takeD)
qed

lemma timeline_length: "length (timeline jobId d) \<le> 100"
  by (simp add: timeline_def)

end
