(* ===== verification/Customers.thy ===== *)
theory Customers
  imports Users
begin

section \<open>Customers and vehicles\<close>

text \<open>
  Models src/modules/customers/customers.service.ts, src/modules/vehicles/vehicles.service.ts and
  vehicles.validators.ts. The requests are those the input schemas accept: the plate and the VIN
  are normalized. The unique indexes of plate and VIN count removed vehicles too, so an insert
  that passes the checks of the service can still meet one (\<open>duplicateKey\<close>).

  Parameter: \<open>like\<close>, the LIKE of the collation. Rows created at the same time are listed newest id
  first; the code leaves their order open.
\<close>

subsection \<open>Customers\<close>

record customer_detail =
  ct_customer :: customer_row
  ct_vehicleCount :: nat

definition live_customer :: "customer_row \<Rightarrow> bool" where
  "live_customer c = (\<not> cu_deleted c)"

definition customer_detail_of :: "db \<Rightarrow> customer_row \<Rightarrow> customer_detail" where
  "customer_detail_of d c =
    \<lparr>ct_customer = c, ct_vehicleCount = t_count (\<lambda>v. ve_customer v = cu_id c \<and> \<not> ve_deleted v) (vehicles d)\<rparr>"

record list_query =
  lq_search :: "string option"
  lq_customer :: "nat option"
  lq_page :: nat
  lq_limit :: nat

definition searching :: "string option \<Rightarrow> (string \<Rightarrow> bool) \<Rightarrow> bool" where
  "searching s P = (case s of None \<Rightarrow> True | Some x \<Rightarrow> x = [] \<or> P x)"

definition customer_listed :: "(string \<Rightarrow> string \<Rightarrow> bool) \<Rightarrow> list_query \<Rightarrow> customer_row \<Rightarrow> bool" where
  "customer_listed like qy c =
    (live_customer c \<and> searching (lq_search qy) (\<lambda>s.
       let digits = filter is_digit s in
       like (cu_name c) (like_term s) \<or> (length digits \<ge> 4 \<and> like (cu_phone c) (''%'' @ digits @ ''%''))))"

definition page_slice :: "list_query \<Rightarrow> 'r list \<Rightarrow> 'r list" where
  "page_slice qy xs = take (lq_limit qy) (drop ((lq_page qy - 1) * lq_limit qy) xs)"

definition listCustomers :: "(string \<Rightarrow> string \<Rightarrow> bool) \<Rightarrow> list_query \<Rightarrow> db \<Rightarrow> customer_detail list \<times> nat" where
  "listCustomers like qy d =
    (let found = t_where (customer_listed like qy) (customers d)
     in (map (customer_detail_of d) (page_slice qy (rev (sort_key cu_created_at found))), length found))"

definition getCustomer :: "nat \<Rightarrow> db \<Rightarrow> api_error + customer_detail" where
  "getCustomer i d =
    need (t_first (\<lambda>c. cu_id c = i \<and> live_customer c) (customers d)) notFound (\<lambda>c. Inr (customer_detail_of d c))"

record customer_input =
  ci_name :: string
  ci_phone :: string

definition createCustomer :: "req \<Rightarrow> auth_user \<Rightarrow> customer_input \<Rightarrow> (db, nat) tx" where
  "createCustomer q a inp d =
    (let i = next_id (customers d) in
     Inr (i, logAudit q (au_id a) ''CUSTOMER_CREATED'' ''customer'' (nat_str i) None
       (Some (JObj [(''name'', JStr (ci_name inp)), (''phone'', JStr (ci_phone inp))]))
       (d\<lparr>customers := t_insert (\<lambda>i. \<lparr>cu_id = i, cu_name = ci_name inp, cu_phone = ci_phone inp, cu_created_by = au_id a,
          cu_created_at = rq_now q, cu_deleted = False\<rparr>) (customers d)\<rparr>)))"

record customer_update =
  cx_name :: "string option"
  cx_phone :: "string option"

definition updateCustomer :: "req \<Rightarrow> auth_user \<Rightarrow> nat \<Rightarrow> customer_update \<Rightarrow> (db, unit) tx" where
  "updateCustomer q a i inp d =
    need (t_first (\<lambda>c. cu_id c = i \<and> live_customer c) (customers d)) notFound (\<lambda>cur.
      let changes = text_change ''name'' (cx_name inp) (cu_name cur) @ text_change ''phone'' (cx_phone inp) (cu_phone cur) in
      if changes = [] then Inr ((), d)
      else Inr ((), logAudit q (au_id a) ''CUSTOMER_UPDATED'' ''customer'' (nat_str i) None (Some (JObj changes))
        (d\<lparr>customers := update_id cu_id i (\<lambda>c. c\<lparr>cu_name := given (cx_name inp) (cu_name c),
           cu_phone := given (cx_phone inp) (cu_phone c)\<rparr>) (customers d)\<rparr>)))"

subsection \<open>Vehicles\<close>

record vehicle_detail =
  vd_vehicle :: vehicle_row
  vd_customer :: string
  vd_phone :: string

text \<open>The inner join with the customer, removed or not.\<close>

definition vehicle_joined :: "db \<Rightarrow> vehicle_row \<Rightarrow> vehicle_detail option" where
  "vehicle_joined d v =
    (if ve_deleted v then None
     else map_option (\<lambda>c. \<lparr>vd_vehicle = v, vd_customer = cu_name c, vd_phone = cu_phone c\<rparr>)
       (by_id cu_id (ve_customer v) (customers d)))"

text \<open>\<open>search.toUpperCase().replace(/[\s-]/g, '')\<close> as a pattern.\<close>

definition id_term :: "string \<Rightarrow> string" where
  "id_term s = like_term (filter (\<lambda>c. \<not> js_ws c \<and> c \<noteq> CHR ''-'') (map upper_char s))"

definition like_opt :: "(string \<Rightarrow> string \<Rightarrow> bool) \<Rightarrow> string option \<Rightarrow> string \<Rightarrow> bool" where
  "like_opt like v p = (case v of None \<Rightarrow> False | Some x \<Rightarrow> like x p)"

definition vehicle_listed :: "(string \<Rightarrow> string \<Rightarrow> bool) \<Rightarrow> list_query \<Rightarrow> vehicle_row \<Rightarrow> bool" where
  "vehicle_listed like qy v =
    ((case lq_customer qy of None \<Rightarrow> True | Some c \<Rightarrow> ve_customer v = c) \<and>
     searching (lq_search qy) (\<lambda>s. like (ve_plate v) (id_term s) \<or> like_opt like (ve_vin v) (id_term s) \<or>
       like (ve_make v) (like_term s) \<or> like (ve_model v) (like_term s)))"

definition newest_vehicles :: "vehicle_detail list \<Rightarrow> vehicle_detail list" where
  "newest_vehicles xs = rev (sort_key (\<lambda>v. ve_created_at (vd_vehicle v)) xs)"

definition listVehicles :: "(string \<Rightarrow> string \<Rightarrow> bool) \<Rightarrow> list_query \<Rightarrow> db \<Rightarrow> vehicle_detail list \<times> nat" where
  "listVehicles like qy d =
    (let found = List.map_filter (vehicle_joined d) (t_where (vehicle_listed like qy) (vehicles d))
     in (page_slice qy (newest_vehicles found), length found))"

definition listVehiclesOfCustomer :: "nat \<Rightarrow> db \<Rightarrow> vehicle_detail list" where
  "listVehiclesOfCustomer c d =
    newest_vehicles (List.map_filter (vehicle_joined d) (t_where (\<lambda>v. ve_customer v = c) (vehicles d)))"

definition getVehicle :: "nat \<Rightarrow> db \<Rightarrow> api_error + vehicle_detail" where
  "getVehicle i d = need (Option.bind (by_id ve_id i (vehicles d)) (vehicle_joined d)) notFound Inr"

definition assertCustomerExists :: "nat \<Rightarrow> db \<Rightarrow> api_error + unit" where
  "assertCustomerExists c d =
    throw_if (t_first (\<lambda>r. cu_id r = c \<and> live_customer r) (customers d) = None) (badRequest ''INVALID_CUSTOMER'') (Inr ())"

text \<open>Another live vehicle with the plate, or with the VIN.\<close>

definition plate_taken :: "string \<Rightarrow> nat option \<Rightarrow> db \<Rightarrow> bool" where
  "plate_taken plate except d =
    (t_first (\<lambda>v. ve_plate v = plate \<and> \<not> ve_deleted v \<and> Some (ve_id v) \<noteq> except) (vehicles d) \<noteq> None)"

definition vin_taken :: "string \<Rightarrow> nat option \<Rightarrow> db \<Rightarrow> bool" where
  "vin_taken vin except d =
    (t_first (\<lambda>v. ve_vin v = Some vin \<and> \<not> ve_deleted v \<and> Some (ve_id v) \<noteq> except) (vehicles d) \<noteq> None)"

definition assertPlateAvailable :: "string \<Rightarrow> nat option \<Rightarrow> db \<Rightarrow> api_error + unit" where
  "assertPlateAvailable plate except d = throw_if (plate_taken plate except d) (conflict ''PLATE_TAKEN'') (Inr ())"

text \<open>\<open>if (vin != null) await assertVinAvailable(...)\<close>\<close>

definition assertVinAvailable :: "string option \<Rightarrow> nat option \<Rightarrow> db \<Rightarrow> api_error + unit" where
  "assertVinAvailable vin except d =
    (case vin of None \<Rightarrow> Inr () | Some x \<Rightarrow> throw_if (vin_taken x except d) (conflict ''VIN_TAKEN'') (Inr ()))"

text \<open>The unique indexes, over all rows.\<close>

definition index_allows :: "string \<Rightarrow> string option \<Rightarrow> nat option \<Rightarrow> db \<Rightarrow> bool" where
  "index_allows plate vin except d =
    (\<forall>v\<in>set (rows (vehicles d)). Some (ve_id v) \<noteq> except \<longrightarrow> ve_plate v \<noteq> plate \<and> (ve_vin v = None \<or> ve_vin v \<noteq> vin))"

record vehicle_input =
  vi_customer :: nat
  vi_plate :: string
  vi_vin :: "string option"
  vi_make :: string
  vi_model :: string
  vi_year :: "nat option"
  vi_engine :: "string option"
  vi_mileage :: "nat option"

definition length_in :: "nat \<Rightarrow> nat \<Rightarrow> string \<Rightarrow> bool" where
  "length_in lo hi s = (lo \<le> length s \<and> length s \<le> hi)"

text \<open>\<open>plateSchema\<close>, \<open>vinSchema\<close> and the limits of the other fields; \<open>year_now\<close> is the year the process started in.\<close>

definition createVehicleSchema :: "nat \<Rightarrow> vehicle_input \<Rightarrow> vehicle_input option" where
  "createVehicleSchema year_now inp =
    (let make = trim (vi_make inp); model = trim (vi_model inp); engine = map_option trim (vi_engine inp) in
     case (normalizePlate (vi_plate inp), vi_vin inp, Option.bind (vi_vin inp) normalizeVin) of
       (Some plate, vin, nvin) \<Rightarrow>
         if (vin = None \<or> nvin \<noteq> None) \<and> 0 < vi_customer inp \<and> length_in 2 50 make \<and> length_in 1 50 model \<and>
            (case vi_year inp of None \<Rightarrow> True | Some y \<Rightarrow> 1950 \<le> y \<and> y \<le> year_now + 1) \<and>
            (case engine of None \<Rightarrow> True | Some e \<Rightarrow> length e \<le> 100) \<and>
            (case vi_mileage inp of None \<Rightarrow> True | Some m \<Rightarrow> m \<le> 2000000)
         then Some (inp\<lparr>vi_plate := plate, vi_vin := nvin, vi_make := make, vi_model := model, vi_engine := engine\<rparr>)
         else None
     | _ \<Rightarrow> None)"

definition new_vehicle :: "req \<Rightarrow> nat \<Rightarrow> vehicle_input \<Rightarrow> nat \<Rightarrow> vehicle_row" where
  "new_vehicle q user inp i =
    \<lparr>ve_id = i, ve_customer = vi_customer inp, ve_plate = vi_plate inp, ve_vin = vi_vin inp, ve_make = vi_make inp,
     ve_model = vi_model inp, ve_year = vi_year inp, ve_engine = vi_engine inp, ve_mileage = vi_mileage inp,
     ve_created_by = user, ve_created_at = rq_now q, ve_deleted = False\<rparr>"

definition createVehicle :: "req \<Rightarrow> auth_user \<Rightarrow> vehicle_input \<Rightarrow> (db, nat) tx" where
  "createVehicle q a inp d =
    andThen (assertCustomerExists (vi_customer inp) d) (\<lambda>_.
    andThen (assertPlateAvailable (vi_plate inp) None d) (\<lambda>_.
    andThen (assertVinAvailable (vi_vin inp) None d) (\<lambda>_.
    throw_if (\<not> index_allows (vi_plate inp) (vi_vin inp) None d) duplicateKey
    (let i = next_id (vehicles d) in
     Inr (i, logAudit q (au_id a) ''VEHICLE_CREATED'' ''vehicle'' (nat_str i) None
       (Some (JObj [(''customerId'', jnat (vi_customer inp)), (''plateNumber'', JStr (vi_plate inp)),
          (''vin'', jopt JStr (vi_vin inp)), (''make'', JStr (vi_make inp)), (''model'', JStr (vi_model inp))]))
       (d\<lparr>vehicles := t_insert (new_vehicle q (au_id a) inp) (vehicles d)\<rparr>))))))"

text \<open>In an update \<open>None\<close> is a field that is not given, \<open>Some None\<close> is null.\<close>

record vehicle_update =
  vx_customer :: "nat option"
  vx_plate :: "string option"
  vx_vin :: "string option option"
  vx_make :: "string option"
  vx_model :: "string option"
  vx_year :: "nat option option"
  vx_engine :: "string option option"
  vx_mileage :: "nat option option"

definition vehicle_changes :: "vehicle_update \<Rightarrow> vehicle_row \<Rightarrow> (string \<times> json) list" where
  "vehicle_changes inp v =
     change_entry ''customerId'' jnat (map_option Some (vx_customer inp)) (Some (ve_customer v))
   @ text_change ''plateNumber'' (vx_plate inp) (ve_plate v)
   @ change_entry ''vin'' JStr (vx_vin inp) (ve_vin v)
   @ text_change ''make'' (vx_make inp) (ve_make v)
   @ text_change ''model'' (vx_model inp) (ve_model v)
   @ change_entry ''year'' jnat (vx_year inp) (ve_year v)
   @ change_entry ''engine'' JStr (vx_engine inp) (ve_engine v)
   @ change_entry ''mileage'' jnat (vx_mileage inp) (ve_mileage v)"

definition updated_vehicle :: "vehicle_update \<Rightarrow> vehicle_row \<Rightarrow> vehicle_row" where
  "updated_vehicle inp v =
    v\<lparr>ve_customer := given (vx_customer inp) (ve_customer v), ve_plate := given (vx_plate inp) (ve_plate v),
      ve_vin := given (vx_vin inp) (ve_vin v), ve_make := given (vx_make inp) (ve_make v),
      ve_model := given (vx_model inp) (ve_model v), ve_year := given (vx_year inp) (ve_year v),
      ve_engine := given (vx_engine inp) (ve_engine v), ve_mileage := given (vx_mileage inp) (ve_mileage v)\<rparr>"

definition updateVehicle :: "req \<Rightarrow> auth_user \<Rightarrow> nat \<Rightarrow> vehicle_update \<Rightarrow> (db, unit) tx" where
  "updateVehicle q a i inp d =
    need (t_first (\<lambda>v. ve_id v = i \<and> \<not> ve_deleted v) (vehicles d)) notFound (\<lambda>cur.
      let next = updated_vehicle inp cur in
      andThen (if ve_customer next \<noteq> ve_customer cur then assertCustomerExists (ve_customer next) d else Inr ()) (\<lambda>_.
      andThen (if ve_plate next \<noteq> ve_plate cur then assertPlateAvailable (ve_plate next) (Some i) d else Inr ()) (\<lambda>_.
      andThen (if ve_vin next \<noteq> ve_vin cur then assertVinAvailable (ve_vin next) (Some i) d else Inr ()) (\<lambda>_.
      if vehicle_changes inp cur = [] then Inr ((), d)
      else throw_if (\<not> index_allows (ve_plate next) (ve_vin next) (Some i) d) duplicateKey
        (Inr ((), logAudit q (au_id a) ''VEHICLE_UPDATED'' ''vehicle'' (nat_str i) None
          (Some (JObj (vehicle_changes inp cur)))
          (d\<lparr>vehicles := update_id ve_id i (updated_vehicle inp) (vehicles d)\<rparr>)))))))"

text \<open>\<open>updateVehicleSchema\<close>: the same limits for the fields that are given, of which there is one.\<close>

definition opt_field :: "('a \<Rightarrow> 'b option) \<Rightarrow> 'a option \<Rightarrow> 'b option option" where
  "opt_field f v = (case v of None \<Rightarrow> Some None | Some x \<Rightarrow> map_option Some (f x))"

definition checked :: "('a \<Rightarrow> bool) \<Rightarrow> 'a \<Rightarrow> 'a option" where
  "checked P x = (if P x then Some x else None)"

definition updateVehicleSchema :: "nat \<Rightarrow> vehicle_update \<Rightarrow> vehicle_update option" where
  "updateVehicleSchema year_now inp =
    Option.bind (opt_field (checked (\<lambda>c. 0 < c)) (vx_customer inp)) (\<lambda>c.
    Option.bind (opt_field normalizePlate (vx_plate inp)) (\<lambda>plate.
    Option.bind (opt_field (opt_field normalizeVin) (vx_vin inp)) (\<lambda>vin.
    Option.bind (opt_field (checked (length_in 2 50) \<circ> trim) (vx_make inp)) (\<lambda>make.
    Option.bind (opt_field (checked (length_in 1 50) \<circ> trim) (vx_model inp)) (\<lambda>model.
    Option.bind (opt_field (opt_field (checked (\<lambda>y. 1950 \<le> y \<and> y \<le> year_now + 1))) (vx_year inp)) (\<lambda>year.
    Option.bind (opt_field (opt_field (checked (length_in 0 100) \<circ> trim)) (vx_engine inp)) (\<lambda>engine.
    Option.bind (opt_field (opt_field (checked (\<lambda>m. m \<le> 2000000))) (vx_mileage inp)) (\<lambda>mileage.
    if c = None \<and> plate = None \<and> vin = None \<and> make = None \<and> model = None \<and> year = None \<and> engine = None \<and> mileage = None
    then None
    else Some \<lparr>vx_customer = c, vx_plate = plate, vx_vin = vin, vx_make = make, vx_model = model, vx_year = year,
           vx_engine = engine, vx_mileage = mileage\<rparr>))))))))"

subsection \<open>Runs\<close>

inductive fleet_step :: "db \<Rightarrow> db \<Rightarrow> bool" where
  fl_createCustomer: "createCustomer q a cinp d = Inr (n, d') \<Longrightarrow> fleet_step d d'"
| fl_updateCustomer: "updateCustomer q a i cupd d = Inr (u, d') \<Longrightarrow> fleet_step d d'"
| fl_createVehicle: "createVehicleSchema y raw = Some inp \<Longrightarrow> createVehicle q a inp d = Inr (n, d') \<Longrightarrow> fleet_step d d'"
| fl_updateVehicle: "updateVehicleSchema y uraw = Some upd \<Longrightarrow> updateVehicle q a i upd d = Inr (u, d') \<Longrightarrow> fleet_step d d'"

text \<open>What identifies a vehicle: its owner exists, its plate is normalized, nothing else has its plate or VIN.\<close>

definition vehicle_ok :: "db \<Rightarrow> vehicle_row \<Rightarrow> bool" where
  "vehicle_ok d v \<longleftrightarrow> (\<exists>c\<in>set (rows (customers d)). cu_id c = ve_customer v) \<and>
    normalizePlate (ve_plate v) = Some (ve_plate v) \<and>
    (\<forall>w\<in>set (rows (vehicles d)). ve_plate w = ve_plate v \<or> (ve_vin w \<noteq> None \<and> ve_vin w = ve_vin v) \<longrightarrow> w = v)"

definition fleet_ok :: "db \<Rightarrow> bool" where
  "fleet_ok d \<longleftrightarrow> keyed ve_id (vehicles d) \<and> (\<forall>v\<in>set (rows (vehicles d)). vehicle_ok d v)"

lemma plate_normal: "normalizePlate x = Some p \<Longrightarrow> normalizePlate p = Some p"
proof -
  assume "normalizePlate x = Some p"
  moreover define n where "n = filter (\<lambda>c. \<not> js_ws c \<and> c \<noteq> CHR ''-'') (map upper_char x)"
  ultimately have "list_all (\<lambda>c. is_upper c \<or> is_digit c) n \<and> 5 \<le> length n \<and> length n \<le> 12 \<and> n = p"
    unfolding normalizePlate_def Let_def n_def [symmetric] by (simp split: if_splits)
  then have all: "\<forall>c\<in>set p. is_upper c \<or> is_digit c" and len: "5 \<le> length p" "length p \<le> 12"
    by (auto simp: list_all_iff)
  have up: "upper_char c = c" "\<not> js_ws c \<and> c \<noteq> CHR ''-''" if "is_upper c \<or> is_digit c" for c
    using that by (auto simp: upper_char_def is_upper_def is_digit_def js_ws_def Let_def less_eq_char_def)
  have "map upper_char p = p" using all up(1) by (simp add: map_idI)
  moreover have "filter (\<lambda>c. \<not> js_ws c \<and> c \<noteq> CHR ''-'') p = p" using all up(2) by (simp add: filter_id_conv)
  ultimately show ?thesis using all len by (simp add: normalizePlate_def Let_def list_all_iff)
qed

lemma schema_plate: "createVehicleSchema y raw = Some inp \<Longrightarrow> normalizePlate (vi_plate inp) = Some (vi_plate inp)"
  by (auto simp: createVehicleSchema_def Let_def dest: plate_normal split: option.splits if_splits)

lemma update_schema_plate:
  assumes "updateVehicleSchema y raw = Some inp" "vx_plate inp = Some p"
  shows "normalizePlate p = Some p"
proof -
  have "opt_field normalizePlate (vx_plate raw) = Some (vx_plate inp)"
    using assms(1) by (auto simp: updateVehicleSchema_def bind_eq_Some_conv split: if_splits)
  with assms(2) show ?thesis by (auto simp: opt_field_def dest: plate_normal split: option.splits)
qed

lemma fleet_frame:
  assumes "fleet_ok d" "vehicles d' = vehicles d" "cu_id ` set (rows (customers d)) \<subseteq> cu_id ` set (rows (customers d'))"
  shows "fleet_ok d'"
  using assms by (fastforce simp: fleet_ok_def vehicle_ok_def image_iff subset_iff)

lemma fleet_insert:
  assumes ok: "fleet_ok d" and free: "index_allows (ve_plate v) (ve_vin v) None d"
    and v: "ve_id v = next_id (vehicles d)" "normalizePlate (ve_plate v) = Some (ve_plate v)"
      "\<exists>c\<in>set (rows (customers d)). cu_id c = ve_customer v"
    and d': "customers d' = customers d" "vehicles d' = t_insert (\<lambda>i. v\<lparr>ve_id := i\<rparr>) (vehicles d)"
  shows "fleet_ok d'"
proof -
  have same: "v\<lparr>ve_id := next_id (vehicles d)\<rparr> = v" using v(1) by simp
  have rows: "set (rows (vehicles d')) = insert v (set (rows (vehicles d)))"
    by (simp add: d' set_rows_insert same)
  have "keyed ve_id (vehicles d')" using ok by (auto simp: d' fleet_ok_def intro: keyed_insert)
  moreover have "vehicle_ok d' v"
    using v(2,3) free by (auto simp: vehicle_ok_def rows d'(1) index_allows_def)
  moreover have "vehicle_ok d' w" if w: "w \<in> set (rows (vehicles d))" for w
  proof -
    have "vehicle_ok d w" using ok w by (simp add: fleet_ok_def)
    moreover have "ve_plate w \<noteq> ve_plate v" "ve_vin w = None \<or> ve_vin w \<noteq> ve_vin v"
      using free w by (auto simp: index_allows_def)
    ultimately show ?thesis unfolding vehicle_ok_def rows d'(1) by (metis insert_iff)
  qed
  ultimately show ?thesis by (auto simp: fleet_ok_def rows)
qed

lemma fleet_update:
  assumes ok: "fleet_ok d" and cur: "by_id ve_id i (vehicles d) = Some cur"
    and free: "index_allows (ve_plate (f cur)) (ve_vin (f cur)) (Some i) d"
    and f: "ve_id (f cur) = i" "normalizePlate (ve_plate (f cur)) = Some (ve_plate (f cur))"
      "\<exists>c\<in>set (rows (customers d)). cu_id c = ve_customer (f cur)"
    and d': "customers d' = customers d" "vehicles d' = update_id ve_id i f (vehicles d)"
  shows "fleet_ok d'"
proof -
  have ked: "keyed ve_id (vehicles d)" using ok by (simp add: fleet_ok_def)
  have cur': "cur \<in> set (rows (vehicles d))" "ve_id cur = i" using by_id_Some [OF cur] by simp_all
  have only: "r = cur" if "r \<in> set (rows (vehicles d))" "ve_id r = i" for r
    using keyed_inj [OF ked that(1) cur'(1)] that(2) cur'(2) by simp
  have rows: "set (rows (vehicles d')) = insert (f cur) (set (rows (vehicles d)) - {cur})"
  proof -
    have "(if ve_id r = i then f r else r) = (if r = cur then f cur else r)" if "r \<in> set (rows (vehicles d))" for r
      using only [OF that] cur'(2) by (cases "ve_id r = i") auto
    then have "(\<lambda>r. if ve_id r = i then f r else r) ` set (rows (vehicles d)) = (\<lambda>r. if r = cur then f cur else r) ` set (rows (vehicles d))"
      by (rule image_cong [OF refl])
    also have "\<dots> = insert (f cur) (set (rows (vehicles d)) - {cur})" using cur'(1) by auto
    finally show ?thesis unfolding d'(2) update_id_def set_rows_update .
  qed
  have "keyed ve_id (vehicles d')"
    unfolding d'(2) update_id_def by (rule keyed_update [OF ked]) (metis only cur'(2) f(1))
  moreover have "vehicle_ok d' (f cur)"
    using f free only cur'(2) by (auto simp: vehicle_ok_def rows d'(1) index_allows_def)
  moreover have "vehicle_ok d' w" if "w \<in> set (rows (vehicles d))" "w \<noteq> cur" for w
  proof -
    have "ve_id w \<noteq> i" using only that by blast
    with free that(1) have no: "ve_plate w \<noteq> ve_plate (f cur)" "ve_vin w = None \<or> ve_vin w \<noteq> ve_vin (f cur)"
      by (auto simp: index_allows_def)
    have "vehicle_ok d w" using ok that(1) by (simp add: fleet_ok_def)
    with no show ?thesis unfolding vehicle_ok_def rows d'(1) by (metis DiffD1 insert_iff)
  qed
  ultimately show ?thesis by (auto simp: fleet_ok_def rows)
qed

lemma assertCustomer_Inr: "assertCustomerExists c d = Inr u \<Longrightarrow> \<exists>r\<in>set (rows (customers d)). cu_id r = c"
  by (auto simp: assertCustomerExists_def dest!: t_first_Some)

lemma updated_vehicle_given:
  "ve_customer (updated_vehicle inp v) = given (vx_customer inp) (ve_customer v)"
  "ve_plate (updated_vehicle inp v) = given (vx_plate inp) (ve_plate v)"
  "ve_vin (updated_vehicle inp v) = given (vx_vin inp) (ve_vin v)" "ve_id (updated_vehicle inp v) = ve_id v"
  by (simp_all add: updated_vehicle_def)

lemma createVehicle_ok:
  assumes "fleet_ok d" "createVehicleSchema y raw = Some inp" "createVehicle q a inp d = Inr (n, d')"
  shows "fleet_ok d'"
proof -
  have c: "assertCustomerExists (vi_customer inp) d = Inr ()" and free: "index_allows (vi_plate inp) (vi_vin inp) None d"
    and cust: "customers d' = customers d" and veh: "vehicles d' = t_insert (new_vehicle q (au_id a) inp) (vehicles d)"
    using assms(3) by (auto simp: createVehicle_def andThen_Inr_iff Let_def)
  let ?v = "new_vehicle q (au_id a) inp (next_id (vehicles d))"
  have mk: "(\<lambda>i. ?v\<lparr>ve_id := i\<rparr>) = new_vehicle q (au_id a) inp" by (simp add: new_vehicle_def fun_eq_iff)
  have v: "ve_plate ?v = vi_plate inp" "ve_vin ?v = vi_vin inp" "ve_customer ?v = vi_customer inp" "ve_id ?v = next_id (vehicles d)"
    by (simp_all add: new_vehicle_def)
  show ?thesis
    by (rule fleet_insert [OF assms(1), of ?v, unfolded mk v])
      (use free cust veh schema_plate [OF assms(2)] assertCustomer_Inr [OF c] in simp_all)
qed

lemma updateVehicle_ok:
  assumes ok: "fleet_ok d" and inp: "updateVehicleSchema y raw = Some inp" and run: "updateVehicle q a i inp d = Inr (u, d')"
  shows "fleet_ok d'"
proof -
  obtain cur where first: "t_first (\<lambda>v. ve_id v = i \<and> \<not> ve_deleted v) (vehicles d) = Some cur"
    using run by (auto simp: updateVehicle_def need_Inr_iff)
  then have cur: "cur \<in> set (rows (vehicles d))" "ve_id cur = i" by (auto dest: t_first_Some)
  let ?next = "updated_vehicle inp cur"
  have owner: "\<exists>c\<in>set (rows (customers d)). cu_id c = ve_customer ?next"
  proof (cases "ve_customer ?next = ve_customer cur")
    case True
    with ok cur show ?thesis by (simp add: fleet_ok_def vehicle_ok_def)
  next
    case False
    with run first have "assertCustomerExists (ve_customer ?next) d = Inr ()"
      by (auto simp: updateVehicle_def need_Inr_iff andThen_Inr_iff Let_def)
    then show ?thesis by (rule assertCustomer_Inr)
  qed
  have plate: "normalizePlate (ve_plate ?next) = Some (ve_plate ?next)"
    using update_schema_plate [OF inp] ok cur
    by (auto simp: updated_vehicle_given given_def fleet_ok_def vehicle_ok_def split: option.split)
  from run first consider "d' = d"
    | "index_allows (ve_plate ?next) (ve_vin ?next) (Some i) d" "customers d' = customers d"
      "vehicles d' = update_id ve_id i (updated_vehicle inp) (vehicles d)"
    by (auto simp: updateVehicle_def need_Inr_iff andThen_Inr_iff Let_def split: if_splits)
  then show ?thesis
  proof cases
    case 1
    with ok show ?thesis by simp
  next
    case 2
    have "keyed ve_id (vehicles d)" using ok by (simp add: fleet_ok_def)
    from by_id_member [OF this cur(1)] have "by_id ve_id i (vehicles d) = Some cur" using cur(2) by simp
    from fleet_update [OF ok this 2(1) _ plate owner 2(2,3)] cur(2) show ?thesis by (simp add: updated_vehicle_given)
  qed
qed

lemma ids_kept:
  assumes "\<And>r. key (f r) = key r"
  shows "key ` set (rows (update_id key i f t)) = key ` set (rows t)"
proof -
  have "key (if key r = i then f r else r) = key r" for r using assms by simp
  then show ?thesis unfolding update_id_def set_rows_update image_image by (simp only:)
qed

lemma fleet_step_ok: "fleet_step d d' \<Longrightarrow> fleet_ok d \<Longrightarrow> fleet_ok d'"
proof (induction rule: fleet_step.induct)
  case (fl_createCustomer q a cinp d n d')
  then show ?case
    by (intro fleet_frame [of d d']) (auto simp: createCustomer_def Let_def set_rows_insert)
next
  case (fl_updateCustomer q a i cupd d u d')
  then show ?case
    by (intro fleet_frame [of d d'])
      (auto simp: updateCustomer_def need_Inr_iff Let_def ids_kept split: if_splits)
next
  case (fl_createVehicle y raw inp q a d n d')
  then show ?case by (blast intro: createVehicle_ok)
next
  case (fl_updateVehicle y uraw upd q a i d u d')
  then show ?case by (blast intro: updateVehicle_ok)
qed

lemma empty_fleet: "fleet_ok empty_db"
  by (simp add: fleet_ok_def empty_db_def empty_tbl_def keyed_def)

interpretation fleet: inductive_invariant "\<lambda>d. d = empty_db" fleet_step fleet_ok
  by unfold_locales (use empty_fleet fleet_step_ok in blast)+

text \<open>C0: In every reachable state a vehicle has an owner, its plate is in normal form, and it is the only one with its
  plate and the only one with its VIN; so a plate, however it is spelled, names at most one vehicle.\<close>
theorem vehicle_identity:
  assumes "fleet_step\<^sup>*\<^sup>* empty_db d" "v \<in> set (rows (vehicles d))" "w \<in> set (rows (vehicles d))"
  shows "(\<exists>c\<in>set (rows (customers d)). cu_id c = ve_customer v) \<and>
    (normalizePlate s = Some (ve_plate v) \<and> normalizePlate s' = Some (ve_plate w) \<and> normalizePlate s = normalizePlate s' \<longrightarrow> v = w) \<and>
    (ve_plate v = ve_plate w \<longrightarrow> v = w) \<and> (ve_vin v \<noteq> None \<and> ve_vin v = ve_vin w \<longrightarrow> v = w) \<and>
    normalizePlate (ve_plate v) = Some (ve_plate v)"
proof -
  have ok: "vehicle_ok d v" "vehicle_ok d w" using fleet.inv_reachable [OF refl assms(1)] assms(2,3) by (simp_all add: fleet_ok_def)
  have p: "v = w" if "ve_plate v = ve_plate w" using ok(1) assms(3) that by (auto simp: vehicle_ok_def)
  have n: "v = w" if "ve_vin v \<noteq> None" "ve_vin v = ve_vin w" using ok(1) assms(3) that by (auto simp: vehicle_ok_def)
  show ?thesis
  proof (intro conjI impI)
    show "v = w" if "ve_vin v \<noteq> None \<and> ve_vin v = ve_vin w" using n that by blast
    show "\<exists>c\<in>set (rows (customers d)). cu_id c = ve_customer v" "normalizePlate (ve_plate v) = Some (ve_plate v)"
      using ok(1) by (simp_all add: vehicle_ok_def)
  qed (use p in auto)
qed

subsection \<open>A sample run\<close>

definition clerk :: auth_user where
  "clerk = \<lparr>au_id = 1, au_role = MASTER, au_branch = Some 1, au_status = U_ACTIVE, au_must_change = False\<rparr>"

definition at_noon :: req where
  "at_noon = \<lparr>rq_now = 12, rq_ip = None, rq_agent = None\<rparr>"

definition cobalt :: "string \<Rightarrow> vehicle_input" where
  "cobalt plate = \<lparr>vi_customer = 1, vi_plate = plate, vi_vin = None, vi_make = ''Chevrolet'', vi_model = ''Cobalt'',
     vi_year = None, vi_engine = None, vi_mileage = None\<rparr>"

definition one_customer :: db where
  "one_customer = committed (createCustomer at_noon clerk \<lparr>ci_name = ''Karim'', ci_phone = ''+998907654321''\<rparr>) empty_db"

definition one_vehicle :: db where
  "one_vehicle = committed (createVehicle at_noon clerk (cobalt ''01A123BC'')) one_customer"

lemma one_vehicle_run: "fleet_step\<^sup>*\<^sup>* empty_db one_vehicle"
proof -
  have "\<exists>n. createCustomer at_noon clerk \<lparr>ci_name = ''Karim'', ci_phone = ''+998907654321''\<rparr> empty_db = Inr (n, one_customer)"
    unfolding one_customer_def by (rule committed_Inr) code_simp
  then have 1: "fleet_step empty_db one_customer" by (blast intro: fl_createCustomer)
  have schema: "createVehicleSchema 2026 (cobalt ''01 a 123-bc'') = Some (cobalt ''01A123BC'')" by code_simp
  have "\<exists>n. createVehicle at_noon clerk (cobalt ''01A123BC'') one_customer = Inr (n, one_vehicle)"
    unfolding one_vehicle_def by (rule committed_Inr) code_simp
  then have "fleet_step one_customer one_vehicle" using fl_createVehicle [OF schema] by blast
  with 1 show ?thesis by (blast intro: rtranclp.intros)
qed

theorem vehicle_identity_witness:
  "\<exists>v\<in>set (rows (vehicles one_vehicle)). ve_plate v = ''01A123BC'' \<and> normalizePlate (ve_plate v) = Some (ve_plate v) \<and>
    (\<forall>w\<in>set (rows (vehicles one_vehicle)). ve_plate w = ''01A123BC'' \<longrightarrow> w = v)"
proof -
  have "map ve_plate (rows (vehicles one_vehicle)) = [''01A123BC'']" by code_simp
  then obtain v where "v \<in> set (rows (vehicles one_vehicle))" "ve_plate v = ''01A123BC''" by (auto simp: map_eq_Cons_conv)
  then show ?thesis using vehicle_identity [OF one_vehicle_run] by metis
qed

end
