(* ===== verification/S3.thy ===== *)
theory S3
  imports Storage
begin

section \<open>The S3 provider and the choice of a provider\<close>

text \<open>
  Models src/storage/s3.provider.ts and src/storage/index.ts. The client of the AWS SDK is a
  parameter, \<open>s3_client\<close>; what the provider relies on is the locale \<open>s3_service\<close>, which states
  the documented read-after-write consistency of S3. On every such service the provider keeps
  the contract of \<open>object_store\<close>, as the local provider does.
\<close>

subsection \<open>The client\<close>

text \<open>An exception of the SDK: \<open>name\<close>, \<open>$metadata.httpStatusCode\<close> and \<open>code\<close>.\<close>

record s3_error =
  er_name :: "string option"
  er_status :: "nat option"
  er_code :: "string option"

record s3_head =
  hd_length :: "nat option"
  hd_type :: "string option"
  hd_etag :: "string option"

record put_options =
  po_contentType :: "string option"
  po_sha256 :: "string option"

text \<open>\<open>send\<close> of the four commands, for a bucket and an encryption that are fixed.\<close>

record 's s3_client =
  send_put :: "string \<Rightarrow> buffer \<Rightarrow> put_options \<Rightarrow> 's \<Rightarrow> (s3_error + unit) \<times> 's"
  send_get :: "string \<Rightarrow> 's \<Rightarrow> s3_error + buffer option"
  send_head :: "string \<Rightarrow> 's \<Rightarrow> s3_error + s3_head"
  send_delete :: "string \<Rightarrow> 's \<Rightarrow> (s3_error + unit) \<times> 's"

subsection \<open>The provider\<close>

fun has_dotdot :: "string \<Rightarrow> bool" where
  "has_dotdot (a # b # cs) = ((a = CHR ''.'' \<and> b = CHR ''.'') \<or> has_dotdot (b # cs))"
| "has_dotdot _ = False"

definition assertKey :: "string \<Rightarrow> storage_error + unit" where
  "assertKey key = (if key = [] \<or> hd key = CHR ''/'' \<or> has_dotdot key then Inl SE_INVALID_KEY else Inr ())"

definition s3_normalize :: "s3_error \<Rightarrow> storage_error" where
  "s3_normalize e =
    (if er_name e = Some ''NotFound'' \<or> er_name e = Some ''NoSuchKey'' \<or> er_status e = Some 404 then SE_NOT_FOUND
     else if er_name e = Some ''TimeoutError'' \<or> er_name e = Some ''RequestTimeout'' \<or> er_code e = Some ''ETIMEDOUT'' then SE_TIMEOUT
     else if er_name e = Some ''AccessDenied'' \<or> er_status e = Some 403 then SE_ACCESS_DENIED
     else SE_IO)"

text \<open>\<open>res.ETag ? res.ETag.replaceAll(...) : null\<close>\<close>

definition etag_checksum :: "string option \<Rightarrow> string option" where
  "etag_checksum e = (case e of Some (c # cs) \<Rightarrow> Some (filter (\<lambda>c. c \<noteq> CHR 0x22) (c # cs)) | _ \<Rightarrow> None)"

definition stat_of_head :: "s3_head \<Rightarrow> object_stat" where
  "stat_of_head h = \<lparr>os_size = (case hd_length h of None \<Rightarrow> 0 | Some n \<Rightarrow> n), os_content_type = hd_type h,
     os_checksum = etag_checksum (hd_etag h)\<rparr>"

definition s3p_stat :: "'s s3_client \<Rightarrow> string \<Rightarrow> 's \<Rightarrow> storage_error + object_stat option" where
  "s3p_stat cl key s =
    (case assertKey key of
       Inl e \<Rightarrow> Inl e
     | Inr _ \<Rightarrow>
         (case send_head cl key s of
            Inr h \<Rightarrow> Inr (Some (stat_of_head h))
          | Inl e \<Rightarrow> if s3_normalize e = SE_NOT_FOUND then Inr None else Inl (s3_normalize e)))"

definition s3p_put :: "'s s3_client \<Rightarrow> put_options \<Rightarrow> string \<Rightarrow> buffer \<Rightarrow> 's \<Rightarrow> (storage_error + object_stat) \<times> 's" where
  "s3p_put cl opts key data s =
    (case assertKey key of
       Inl e \<Rightarrow> (Inl e, s)
     | Inr _ \<Rightarrow>
         (case send_put cl key data opts s of
            (Inl e, s') \<Rightarrow> (Inl (s3_normalize e), s')
          | (Inr _, s') \<Rightarrow>
              (case s3p_stat cl key s' of
                 Inl e \<Rightarrow> (Inl e, s')
               | Inr None \<Rightarrow> (Inl SE_IO, s')
               | Inr (Some st) \<Rightarrow> (Inr st, s'))))"

definition s3p_getStream :: "'s s3_client \<Rightarrow> string \<Rightarrow> 's \<Rightarrow> storage_error + buffer" where
  "s3p_getStream cl key s =
    (case assertKey key of
       Inl e \<Rightarrow> Inl e
     | Inr _ \<Rightarrow>
         (case send_get cl key s of
            Inl e \<Rightarrow> Inl (s3_normalize e)
          | Inr None \<Rightarrow> Inl SE_NOT_FOUND
          | Inr (Some body) \<Rightarrow> Inr body))"

definition s3p_delete :: "'s s3_client \<Rightarrow> string \<Rightarrow> 's \<Rightarrow> (storage_error + unit) \<times> 's" where
  "s3p_delete cl key s =
    (case assertKey key of
       Inl e \<Rightarrow> (Inl e, s)
     | Inr _ \<Rightarrow>
         (case send_delete cl key s of
            (Inr _, s') \<Rightarrow> (Inr (), s')
          | (Inl e, s') \<Rightarrow> (if s3_normalize e = SE_NOT_FOUND then Inr () else Inl (s3_normalize e), s')))"

definition s3_provider :: "'s s3_client \<Rightarrow> put_options \<Rightarrow> 's provider" where
  "s3_provider cl opts = \<lparr>sp_put = s3p_put cl opts, sp_getStream = s3p_getStream cl, sp_stat = s3p_stat cl, sp_delete = s3p_delete cl\<rparr>"

subsection \<open>The contract on a consistent service\<close>

text \<open>
  A write that succeeded is seen by the reads that follow, with its length and its bytes, a
  delete that succeeded or met nothing too, and no command touches another key.
\<close>

locale s3_service =
  fixes cl :: "'s s3_client"
  assumes put_head: "send_put cl k data opts s = (Inr (), s') \<Longrightarrow> send_head cl k s' = Inr h \<Longrightarrow> hd_length h = Some (length data)"
    and put_get: "send_put cl k data opts s = (Inr (), s') \<Longrightarrow> send_head cl k s' = Inr h \<Longrightarrow> send_get cl k s' = Inr (Some data)"
    and put_frame: "k' \<noteq> k \<Longrightarrow> send_head cl k' (snd (send_put cl k data opts s)) = send_head cl k' s"
    and delete_head: "send_delete cl k s = (r, s') \<Longrightarrow> r = Inr () \<or> (\<exists>e. r = Inl e \<and> s3_normalize e = SE_NOT_FOUND) \<Longrightarrow>
      \<exists>e. send_head cl k s' = Inl e \<and> s3_normalize e = SE_NOT_FOUND"
    and delete_frame: "k' \<noteq> k \<Longrightarrow> send_head cl k' (snd (send_delete cl k s)) = send_head cl k' s"
begin

lemma stat_cong: "send_head cl k s' = send_head cl k s \<Longrightarrow> s3p_stat cl k s' = s3p_stat cl k s"
  by (simp only: s3p_stat_def)

lemma put_Inr:
  assumes "s3p_put cl opts k data s = (Inr st, s')"
  obtains h where "assertKey k = Inr ()" "send_put cl k data opts s = (Inr (), s')" "send_head cl k s' = Inr h" "st = stat_of_head h"
    "s3p_stat cl k s' = Inr (Some st)"
  using assms
  by (auto simp: s3p_put_def s3p_stat_def split: sum.splits prod.splits if_splits option.splits)

lemma put_other_stat: "k \<noteq> k' \<Longrightarrow> s3p_stat cl k' (snd (s3p_put cl opts k data s)) = s3p_stat cl k' s"
  using put_frame [of k' k data opts s]
  by (auto simp: s3p_put_def intro!: stat_cong split: sum.splits prod.splits option.splits)

lemma delete_other_stat: "k \<noteq> k' \<Longrightarrow> s3p_stat cl k' (snd (s3p_delete cl k s)) = s3p_stat cl k' s"
  using delete_frame [of k' k s]
  by (auto simp: s3p_delete_def intro!: stat_cong split: sum.splits prod.splits)

lemma delete_gone:
  assumes "s3p_delete cl k s = (Inr (), s')"
  shows "s3p_stat cl k s' = Inr None"
proof -
  obtain r where r: "assertKey k = Inr ()" "send_delete cl k s = (r, s')" "r = Inr () \<or> (\<exists>e. r = Inl e \<and> s3_normalize e = SE_NOT_FOUND)"
    using assms by (auto simp: s3p_delete_def split: sum.splits prod.splits if_splits)
  from delete_head [OF r(2,3)] r(1) show ?thesis by (auto simp: s3p_stat_def)
qed

end

sublocale s3_service \<subseteq> store: object_store "s3_provider cl opts" "(=)" "\<lambda>_. True" for opts
proof
  fix k data s st s'
  assume "sp_put (s3_provider cl opts) k data s = (Inr st, s')"
  then obtain h where "assertKey k = Inr ()" "send_put cl k data opts s = (Inr (), s')" "send_head cl k s' = Inr h" "st = stat_of_head h"
      "s3p_stat cl k s' = Inr (Some st)"
    by (auto simp: s3_provider_def elim: put_Inr)
  with put_head put_get show "sp_stat (s3_provider cl opts) k s' = Inr (Some st)" "os_size st = length data"
      "sp_getStream (s3_provider cl opts) k s' = Inr data"
    by (auto simp: s3_provider_def stat_of_head_def s3p_getStream_def)
qed (auto simp: s3_provider_def put_other_stat delete_other_stat delete_gone)

context s3_service
begin

lemma survives:
  assumes "s3p_put cl opts k data s = (Inr st, s')" "k \<notin> fst ` set ops"
  shows "s3p_stat cl k (fold (store_op (s3_provider cl opts')) ops s') = Inr (Some st) \<and> os_size st = length data"
proof -
  have put: "sp_put (s3_provider cl opts) k data s = (Inr st, s')" by (simp add: s3_provider_def assms(1))
  have stat: "sp_stat (s3_provider cl o') k t = s3p_stat cl k t" for o' t by (simp add: s3_provider_def)
  have "\<forall>op\<in>set ops. fst op \<noteq> k" using assms(2) by auto
  then show ?thesis
    using store.object_survives [where s = s' and k = k and st = st and ops = ops] store.put_stat [OF put] store.put_size [OF put] by (simp add: stat)
qed

end

text \<open>A key is only sent to the service if it cannot leave its prefix.\<close>

lemma invalid_key_not_sent:
  assumes "has_dotdot key \<or> key = [] \<or> hd key = CHR ''/''"
  shows "s3p_put cl opts key data s = (Inl SE_INVALID_KEY, s) \<and> s3p_delete cl key s = (Inl SE_INVALID_KEY, s) \<and>
    s3p_stat cl key s = Inl SE_INVALID_KEY \<and> s3p_getStream cl key s = Inl SE_INVALID_KEY"
  using assms by (auto simp: s3p_put_def s3p_delete_def s3p_stat_def s3p_getStream_def assertKey_def)

subsection \<open>The choice of a provider\<close>

datatype storage_kind = STORAGE_LOCAL | STORAGE_S3

record storage_env =
  st_provider :: storage_kind
  st_production :: bool
  st_allowLocal :: bool
  st_localDir :: string
  st_bucket :: "string option"
  st_region :: "string option"

datatype chosen_provider = UseLocal string | UseS3 string string

definition set_text :: "string option \<Rightarrow> bool" where
  "set_text v = (v \<noteq> None \<and> v \<noteq> Some [])"

text \<open>\<open>None\<close> is the exception that stops the start of the process.\<close>

definition buildStorageProvider :: "storage_env \<Rightarrow> chosen_provider option" where
  "buildStorageProvider e =
    (case st_provider e of
       STORAGE_LOCAL \<Rightarrow> if st_production e \<and> \<not> st_allowLocal e then None else Some (UseLocal (st_localDir e))
     | STORAGE_S3 \<Rightarrow>
         if \<not> set_text (st_bucket e) \<or> \<not> set_text (st_region e) then None
         else Some (UseS3 (the (st_bucket e)) (the (st_region e))))"

text \<open>In production evidence goes to local disk only by the explicit override.\<close>

lemma local_in_production:
  "st_production e \<Longrightarrow> buildStorageProvider e = Some (UseLocal dir) \<Longrightarrow> st_allowLocal e"
  by (auto simp: buildStorageProvider_def split: storage_kind.splits if_splits)

subsection \<open>A service\<close>

text \<open>A bucket in memory that answers every command.\<close>

type_synonym bucket = "string \<rightharpoonup> buffer"

definition no_such_key :: s3_error where
  "no_such_key = \<lparr>er_name = Some ''NoSuchKey'', er_status = Some 404, er_code = None\<rparr>"

definition sample_client :: "bucket s3_client" where
  "sample_client =
    \<lparr>send_put = (\<lambda>k data opts s. (Inr (), s(k \<mapsto> data))),
     send_get = (\<lambda>k s. case s k of None \<Rightarrow> Inl no_such_key | Some d \<Rightarrow> Inr (Some d)),
     send_head = (\<lambda>k s. case s k of None \<Rightarrow> Inl no_such_key
       | Some d \<Rightarrow> Inr \<lparr>hd_length = Some (length d), hd_type = None, hd_etag = None\<rparr>),
     send_delete = (\<lambda>k s. (Inr (), s(k := None)))\<rparr>"

lemma no_such_key: "s3_normalize no_such_key = SE_NOT_FOUND"
  by (simp add: s3_normalize_def no_such_key_def)

interpretation sample: s3_service sample_client
  by unfold_locales (auto simp: sample_client_def no_such_key)

text \<open>C0: An object the S3 provider has stored stays there with its size, whatever is written or deleted afterwards
  under other keys, on every service that is consistent as S3 documents.\<close>
theorem s3_object_survives:
  assumes "s3_service cl" "s3p_put cl opts k data s = (Inr st, s')" "k \<notin> fst ` set ops"
  shows "s3p_stat cl k (fold (store_op (s3_provider cl opts')) ops s') = Inr (Some st) \<and> os_size st = length data"
  using s3_service.survives [OF assms] .

theorem s3_object_survives_witness:
  "s3p_stat sample_client ''a'' (fold (store_op (s3_provider sample_client \<lparr>po_contentType = None, po_sha256 = None\<rparr>))
     [(''b'', Some [1]), (''b'', None)] (\<lambda>k. if k = ''a'' then Some [7, 8] else None))
   = Inr (Some \<lparr>os_size = 2, os_content_type = None, os_checksum = None\<rparr>)"
proof -
  have "s3p_put sample_client \<lparr>po_contentType = None, po_sha256 = None\<rparr> ''a'' [7, 8] (\<lambda>k. None)
      = (Inr \<lparr>os_size = 2, os_content_type = None, os_checksum = None\<rparr>, (\<lambda>k. if k = ''a'' then Some [7, 8] else None))"
    by (simp add: s3p_put_def s3p_stat_def assertKey_def sample_client_def stat_of_head_def etag_checksum_def fun_eq_iff)
  from s3_object_survives [OF sample.s3_service_axioms this, of "[(''b'', Some [1]), (''b'', None)]"] show ?thesis by simp
qed

end
