(* ===== verification/Spec2Isabelle.thy ===== *)
theory Spec2Isabelle
  imports AuditPaging StopGuarantees Gps Image Canonical Storage AccountProperties SmsRuns ReconcileProperties CatalogProperties
    RateLimit Evidence Quality Customers S3
begin

text \<open>
  A verification development for the EasyGas Guide server (a Node/TypeScript service over
  MySQL that guides the installation of vehicle gas equipment: jobs, ordered checklists with
  photo evidence, STOP checkpoints, risk events, the customer's signature, completion).

  \<^bold>\<open>Parts.\<close> Every service function is translated from src/src/modules or its neighbours.

  \<^item> \<open>Prelude\<close>: JSON values, thrown errors (src/utils/errors.ts), requests, transactions,
    JavaScript numbers and strings, and the locales for invariants of runs.
  \<^item> \<open>Tables\<close>: tables and the query-builder calls; the interface \<open>row_store\<close>.
  \<^item> \<open>Rbac\<close>: src/rbac/permissions.ts and the guards of the permission and auth middleware.
  \<^item> \<open>Schema\<close>: one record per table of migrations/, the database, \<open>loadScopedJob\<close>.
  \<^item> \<open>RiskPolicy\<close>: src/modules/risk/risk-matrix.ts and risk-policy.service.ts.
  \<^item> \<open>Risk\<close>: src/modules/risk/risk.service.ts.
  \<^item> \<open>Assignment\<close>, \<open>Jobs\<close>: job-cycle.ts, assignment.service.ts, jobs.service.ts.
  \<^item> \<open>Checklist\<close>, \<open>Stop\<close>: src/modules/checklist/execution.service.ts and stop.service.ts.
  \<^item> \<open>Image\<close>, \<open>Storage\<close>, \<open>Photos\<close>: src/utils/image.ts, src/storage, photos.service.ts.
  \<^item> \<open>Canonical\<close>, \<open>Summary\<close>: src/modules/completion.
  \<^item> \<open>Completion\<close>: src/modules/jobs/completion.service.ts.
  \<^item> \<open>AuditLog\<close>: src/modules/audit.
\<close>

end
